(* ===== verification/Buzz_Prelude.thy ===== *)
theory Buzz_Prelude
  imports Main "HOL-Library.AList" "HOL-Library.Word"
begin

text \<open>
  Shared vocabulary of the development: the theorem collections, the machine and identifier types,
  the fragments of the Rust standard library the components use (string slicing and splitting,
  decimal printing, the entry API of the hash maps, first-occurrence deduplication with a
  \<open>HashSet\<close>), and the lemmas about them that the component proofs rest on.

  Conventions.  A Rust string is the list of its UTF-8 bytes, an Isabelle \<^typ>\<open>string\<close>.  A
  \<open>HashMap\<close>, \<open>DashMap\<close> or \<open>BTreeMap\<close> is an association list whose order is the iteration order;
  its keys are distinct wherever the component's invariant says so.  \<open>Result<T, E>\<close> is the sum
  \<open>'e + 'a\<close> with \<^const>\<open>Inl\<close> for \<open>Err\<close>.
\<close>

section \<open>Theorem collections\<close>

named_theorems kind_values \<open>the values of the kind constants\<close>
named_theorems index_simps \<open>lookups in the fan-out indexes after an operation\<close>
named_theorems session_simps \<open>facts about the guards and frames of the pairing session\<close>

section \<open>Types\<close>

type_synonym byte = "8 word"
type_synonym u16 = "16 word"
type_synonym uuid = "128 word"
type_synonym ('k, 'v) amap = "('k \<times> 'v) list"

section \<open>Machine integers\<close>

lemma byte_bound: "unat (b :: byte) < 256"
  using unsigned_less [of b, where ?'a = nat] by simp

lemma segment_bound: "unat (s :: u16) < 65536"
  using unsigned_less [of s, where ?'a = nat] by simp

lemma unat_eq_literal:
  "(numeral n :: nat) < 2 ^ LENGTH('a) \<Longrightarrow> unat (b :: 'a::len word) = numeral n \<longleftrightarrow> b = numeral n"
  by (auto simp: word_unat_eq_iff unat_numeral take_bit_nat_eq_self)

section \<open>Strings\<close>

definition starts_with :: "'a list \<Rightarrow> 'a list \<Rightarrow> bool" where
  "starts_with s p \<longleftrightarrow> take (length p) s = p"

definition strip_prefix :: "'a list \<Rightarrow> 'a list \<Rightarrow> 'a list option" where
  "strip_prefix p s = (if starts_with s p then Some (drop (length p) s) else None)"

definition strip_suffix :: "'a list \<Rightarrow> 'a list \<Rightarrow> 'a list option" where
  "strip_suffix p s = map_option rev (strip_prefix (rev p) (rev s))"

text \<open>\<open>str::split(char)\<close>: the empty string splits into one empty piece.\<close>

fun split_on :: "'a \<Rightarrow> 'a list \<Rightarrow> 'a list list" where
  "split_on c [] = [[]]"
| "split_on c (x # xs) =
     (if x = c then [] # split_on c xs
      else (case split_on c xs of [] \<Rightarrow> [[x]] | w # ws \<Rightarrow> (x # w) # ws))"

fun join_with :: "'a \<Rightarrow> 'a list list \<Rightarrow> 'a list" where
  "join_with c [] = []"
| "join_with c [w] = w"
| "join_with c (w # v # ws) = w @ c # join_with c (v # ws)"

text \<open>\<open>str::split_once(char)\<close>.\<close>

fun split_once :: "'a \<Rightarrow> 'a list \<Rightarrow> ('a list \<times> 'a list) option" where
  "split_once c [] = None"
| "split_once c (x # xs) =
     (if x = c then Some ([], xs)
      else map_option (\<lambda>(a, b). (x # a, b)) (split_once c xs))"

definition is_ascii_digit :: "char \<Rightarrow> bool" where
  "is_ascii_digit c \<longleftrightarrow> 48 \<le> (of_char c :: nat) \<and> (of_char c :: nat) \<le> 57"

definition is_ascii_lower :: "char \<Rightarrow> bool" where
  "is_ascii_lower c \<longleftrightarrow> 97 \<le> (of_char c :: nat) \<and> (of_char c :: nat) \<le> 122"

definition is_ascii_upper :: "char \<Rightarrow> bool" where
  "is_ascii_upper c \<longleftrightarrow> 65 \<le> (of_char c :: nat) \<and> (of_char c :: nat) \<le> 90"

definition is_ascii_alphanumeric :: "char \<Rightarrow> bool" where
  "is_ascii_alphanumeric c \<longleftrightarrow> is_ascii_digit c \<or> is_ascii_lower c \<or> is_ascii_upper c"

definition is_ascii_hexdigit :: "char \<Rightarrow> bool" where
  "is_ascii_hexdigit c \<longleftrightarrow>
     is_ascii_digit c \<or>
     (97 \<le> (of_char c :: nat) \<and> (of_char c :: nat) \<le> 102) \<or>
     (65 \<le> (of_char c :: nat) \<and> (of_char c :: nat) \<le> 70)"

definition to_ascii_lowercase_char :: "char \<Rightarrow> char" where
  "to_ascii_lowercase_char c =
     (if is_ascii_upper c then char_of ((of_char c :: nat) + 32) else c)"

definition to_ascii_lowercase :: "string \<Rightarrow> string" where
  "to_ascii_lowercase = map to_ascii_lowercase_char"

text \<open>
  Where the code trims Unicode white space, a string is the list of its Unicode scalar values.
  \<open>char::is_whitespace\<close> is the White\_Space property.
\<close>

type_synonym ustr = "nat list"

definition is_whitespace :: "nat \<Rightarrow> bool" where
  "is_whitespace c \<longleftrightarrow>
     (9 \<le> c \<and> c \<le> 13) \<or> c = 32 \<or> c = 0x85 \<or> c = 0xA0 \<or> c = 0x1680
     \<or> (0x2000 \<le> c \<and> c \<le> 0x200A) \<or> c = 0x2028 \<or> c = 0x2029 \<or> c = 0x202F
     \<or> c = 0x205F \<or> c = 0x3000"

definition trim_end :: "ustr \<Rightarrow> ustr" where
  "trim_end s = rev (dropWhile is_whitespace (rev s))"

definition trim :: "ustr \<Rightarrow> ustr" where
  "trim s = trim_end (dropWhile is_whitespace s)"

definition ascii :: "string \<Rightarrow> ustr" where
  "ascii = map of_char"

text \<open>The UTF-8 encoding of a list of scalar values.\<close>

definition utf8_char :: "nat \<Rightarrow> string" where
  "utf8_char c =
     (if c < 128 then [char_of c]
      else if c < 2048 then [char_of (192 + c div 64), char_of (128 + c mod 64)]
      else if c < 65536 then [char_of (224 + c div 4096), char_of (128 + c div 64 mod 64), char_of (128 + c mod 64)]
      else [char_of (240 + c div 262144), char_of (128 + c div 4096 mod 64), char_of (128 + c div 64 mod 64),
            char_of (128 + c mod 64)])"

definition utf8 :: "ustr \<Rightarrow> string" where
  "utf8 s = concat (map utf8_char s)"

text \<open>Decimal printing of unsigned integers, as \<open>{}\<close> and \<open>{:06}\<close> format them.\<close>

fun show_nat :: "nat \<Rightarrow> string" where
  "show_nat n =
     (if n < 10 then [char_of (48 + n)] else show_nat (n div 10) @ [char_of (48 + n mod 10)])"

declare show_nat.simps [simp del]

definition pad_zeros :: "nat \<Rightarrow> string \<Rightarrow> string" where
  "pad_zeros w s = replicate (w - length s) (CHR ''0'') @ s"

subsection \<open>Lemmas on strings\<close>

lemma starts_with_iff: "starts_with s p \<longleftrightarrow> (\<exists>t. s = p @ t)"
  by (auto simp: starts_with_def) (metis append_take_drop_id)

lemma strip_prefix_Some_iff [simp]: "strip_prefix p s = Some t \<longleftrightarrow> s = p @ t"
  by (auto simp: strip_prefix_def starts_with_def) (metis append_take_drop_id)

lemma strip_prefix_append [simp]: "strip_prefix p (p @ t) = Some t"
  by simp

lemma strip_prefix_None_iff: "strip_prefix p s = None \<longleftrightarrow> (\<forall>t. s \<noteq> p @ t)"
  by (metis not_Some_eq strip_prefix_Some_iff)

lemma strip_suffix_Some_iff [simp]: "strip_suffix p s = Some t \<longleftrightarrow> s = t @ p"
proof -
  have "strip_suffix p s = Some t \<longleftrightarrow> strip_prefix (rev p) (rev s) = Some (rev t)"
    by (auto simp: strip_suffix_def)
  also have "\<dots> \<longleftrightarrow> s = t @ p"
    by (metis rev_append rev_rev_ident strip_prefix_Some_iff)
  finally show ?thesis .
qed

lemma trim_end_snoc_cases:
  obtains "trim_end s = []" | u c where "trim_end s = u @ [c]" "\<not> is_whitespace c"
proof (cases "dropWhile is_whitespace (rev s)")
  case Nil
  then show ?thesis using that(1) by (simp add: trim_end_def)
next
  case (Cons c u)
  then have "\<not> is_whitespace c" by (metis hd_dropWhile list.distinct(1) list.sel(1))
  moreover have "trim_end s = rev u @ [c]" using Cons by (simp add: trim_end_def)
  ultimately show ?thesis using that(2) by blast
qed

lemma trim_end_last: "trim_end s \<noteq> [] \<Longrightarrow> \<not> is_whitespace (last (trim_end s))"
  by (cases rule: trim_end_snoc_cases [of s]) auto

lemma trim_end_idem [simp]: "trim_end (trim_end s) = trim_end s"
  by (cases rule: trim_end_snoc_cases [of s]) (auto simp: trim_end_def)

lemma trim_end_prefix: "\<exists>w. s = trim_end s @ w"
  unfolding trim_end_def
  by (metis rev_append rev_rev_ident takeWhile_dropWhile_id)

lemma hd_trim_end: "trim_end s \<noteq> [] \<Longrightarrow> hd (trim_end s) = hd s"
  by (metis hd_append2 trim_end_prefix)

lemma split_on_not_Nil [simp]: "split_on c s \<noteq> []"
  by (induction s) (auto split: list.splits)

lemma Nil_not_split_on [simp]: "[] \<noteq> split_on c s"
  by (metis split_on_not_Nil)

lemma join_split [simp]: "join_with c (split_on c s) = s"
proof (induction s)
  case Nil
  then show ?case by simp
next
  case (Cons x xs)
  obtain w ws where "split_on c xs = w # ws"
    by (meson neq_Nil_conv split_on_not_Nil)
  with Cons show ?case by (cases ws) auto
qed

lemma split_on_no_sep: "c \<notin> set s \<Longrightarrow> split_on c s = [s]"
  by (induction s) auto

lemma split_on_append_sep: "c \<notin> set w \<Longrightarrow> split_on c (w @ c # s) = w # split_on c s"
  by (induction w) auto

lemma split_join:
  "ws \<noteq> [] \<Longrightarrow> \<forall>w\<in>set ws. c \<notin> set w \<Longrightarrow> split_on c (join_with c ws) = ws"
  by (induction c ws rule: join_with.induct) (auto simp: split_on_no_sep split_on_append_sep)

lemma split_on_pieces: "w \<in> set (split_on c s) \<Longrightarrow> c \<notin> set w"
  by (induction s arbitrary: w) (auto split: if_splits list.splits)

lemma split_once_append: "c \<notin> set a \<Longrightarrow> split_once c (a @ c # b) = Some (a, b)"
  by (induction a) auto

lemma first_separator_unique:
  "c \<notin> set a \<Longrightarrow> c \<notin> set b \<Longrightarrow> a @ c # x = b @ c # y \<longleftrightarrow> a = b \<and> x = y"
  by (metis option.inject prod.inject split_once_append)

lemma split_once_None: "split_once c s = None \<longleftrightarrow> c \<notin> set s"
  by (induction s) auto

lemma split_once_SomeD: "split_once c s = Some (a, b) \<Longrightarrow> s = a @ c # b \<and> c \<notin> set a"
  by (induction s arbitrary: a) (auto split: if_splits)

lemma length_pad_zeros [simp]: "length (pad_zeros w s) = max w (length s)"
  by (simp add: pad_zeros_def)

lemma show_nat_digits: "\<forall>c\<in>set (show_nat n). is_ascii_digit c"
proof (induction n rule: show_nat.induct)
  case (1 n)
  then show ?case
    by (cases "n < 10") (auto simp: show_nat.simps [of n] is_ascii_digit_def)
qed

lemma length_show_nat: "n < 10 ^ k \<Longrightarrow> 0 < k \<Longrightarrow> length (show_nat n) \<le> k"
proof (induction n arbitrary: k rule: show_nat.induct)
  case (1 n)
  show ?case
  proof (cases "n < 10")
    case True
    with "1.prems" show ?thesis by (simp add: show_nat.simps [of n])
  next
    case False
    then obtain j where k: "k = Suc (Suc j)"
      using "1.prems" by (cases k; cases "k - 1") auto
    with "1.prems" have "n div 10 < 10 ^ Suc j" by auto
    with "1.IH" [of "Suc j"] False k show ?thesis
      by (simp add: show_nat.simps [of n])
  qed
qed

subsection \<open>Decoding UTF-8\<close>

text \<open>\<open>str::chars\<close>: the scalar values of a UTF-8 string.\<close>

definition cont_bits :: "char \<Rightarrow> nat" where
  "cont_bits c = of_char c mod 64"

fun chars :: "string \<Rightarrow> ustr" where
  "chars [] = []"
| "chars (c # s) =
     (let b = of_char c
      in if b < 128 then b # chars s
         else if b < 224 then (case s of c1 # t \<Rightarrow> ((b mod 32) * 64 + cont_bits c1) # chars t | _ \<Rightarrow> [])
         else if b < 240 then
           (case s of c1 # c2 # t \<Rightarrow> ((b mod 16) * 4096 + cont_bits c1 * 64 + cont_bits c2) # chars t | _ \<Rightarrow> [])
         else
           (case s of
              c1 # c2 # c3 # t \<Rightarrow> ((b mod 8) * 262144 + cont_bits c1 * 4096 + cont_bits c2 * 64 + cont_bits c3) # chars t
            | _ \<Rightarrow> []))"

lemma cont_bits_char [simp]: "cont_bits (char_of (128 + x mod 64 :: nat)) = x mod 64"
proof -
  have "x mod 64 < 64" by simp
  moreover have "(128 + x mod 64) mod 64 = x mod 64"
    using mod_mult_self2 [of "x mod 64" 64 2] by (simp add: add.commute)
  ultimately show ?thesis by (simp add: cont_bits_def)
qed

lemma base64_digit: "(n :: nat) div (m * 64) * (m * 64) + n div m mod 64 * m = n div m * m"
proof -
  have "n div m * m = (n div m div 64 * 64 + n div m mod 64) * m" by simp
  also have "\<dots> = n div (m * 64) * (m * 64) + n div m mod 64 * m"
    by (simp only: div_mult2_eq add_mult_distrib add_mult_distrib2 mult_ac)
  finally show ?thesis ..
qed

lemma chars_utf8_char: "c < 0x110000 \<Longrightarrow> chars (utf8_char c @ s) = c # chars s"
proof -
  assume c: "c < 0x110000"
  consider "c < 128" | "128 \<le> c" "c < 2048" | "2048 \<le> c" "c < 65536" | "65536 \<le> c" by linarith
  then show ?thesis
  proof cases
    case 2
    then have "c div 64 < 32" "2 \<le> c div 64" by auto
    moreover have "(192 + c div 64) mod 32 = c div 64" using \<open>c div 64 < 32\<close> by (simp add: mod_add_left_eq [symmetric])
    ultimately show ?thesis using 2 by (simp add: utf8_char_def Let_def)
  next
    case 3
    then have "c div 4096 < 16" by auto
    moreover have "(224 + c div 4096) mod 16 = c div 4096" using \<open>c div 4096 < 16\<close> by (simp add: mod_add_left_eq [symmetric])
    moreover have "c div 4096 * 4096 + c div 64 mod 64 * 64 + c mod 64 = c"
      using base64_digit [of c 64] by simp
    ultimately show ?thesis using 3 by (simp add: utf8_char_def Let_def)
  next
    case 4
    with c have "c div 262144 < 8" by auto
    moreover have "(240 + c div 262144) mod 8 = c div 262144" using \<open>c div 262144 < 8\<close> by (simp add: mod_add_left_eq [symmetric])
    moreover have "c div 262144 * 262144 + c div 4096 mod 64 * 4096 + c div 64 mod 64 * 64 + c mod 64 = c"
      using base64_digit [of c 64] base64_digit [of c 4096] by simp
    ultimately show ?thesis using 4 by (simp add: utf8_char_def Let_def)
  qed (simp add: utf8_char_def)
qed

lemma chars_utf8: "list_all (\<lambda>c. c < 0x110000) s \<Longrightarrow> chars (utf8 s) = s"
  by (induction s) (simp_all add: utf8_def chars_utf8_char)

subsection \<open>Reading decimal digits\<close>

text \<open>Reading decimal digits back: the inverse of \<^const>\<open>show_nat\<close>, used to state that printing
  loses nothing.\<close>

definition read_nat :: "string \<Rightarrow> nat" where
  "read_nat s = foldl (\<lambda>n c. 10 * n + (of_char c - 48)) 0 s"

lemma read_nat_snoc: "read_nat (s @ [c]) = 10 * read_nat s + (of_char c - 48)"
  by (simp add: read_nat_def)

lemma read_show_nat [simp]: "read_nat (show_nat n) = n"
proof (induction n rule: show_nat.induct)
  case (1 n)
  show ?case
  proof (cases "n < 10")
    case True
    then show ?thesis by (simp add: show_nat.simps [of n] read_nat_def)
  next
    case False
    with "1.IH" show ?thesis
      by (simp add: show_nat.simps [of n] read_nat_snoc)
  qed
qed

lemma read_pad_zeros [simp]: "read_nat (pad_zeros w s) = read_nat s"
proof -
  have "foldl (\<lambda>n c. 10 * n + (of_char c - 48)) 0 (replicate k (CHR ''0'')) = (0::nat)" for k
    by (induction k) auto
  then show ?thesis by (simp add: pad_zeros_def read_nat_def)
qed

section \<open>Results\<close>

definition bind_result :: "'e + 'a \<Rightarrow> ('a \<Rightarrow> 'e + 'b) \<Rightarrow> 'e + 'b" where
  "bind_result r f = (case r of Inl e \<Rightarrow> Inl e | Inr a \<Rightarrow> f a)"

definition map_err :: "('e \<Rightarrow> 'f) \<Rightarrow> 'e + 'a \<Rightarrow> 'f + 'a" where
  "map_err g r = (case r of Inl e \<Rightarrow> Inl (g e) | Inr a \<Rightarrow> Inr a)"

definition ok_or :: "'e \<Rightarrow> 'a option \<Rightarrow> 'e + 'a" where
  "ok_or e x = (case x of None \<Rightarrow> Inl e | Some a \<Rightarrow> Inr a)"

text \<open>
  The \<open>?\<close> operator in a method that updates its receiver: an error returns at once, with the receiver
  as it is at that point.
\<close>

definition try_in :: "'s \<Rightarrow> 'e + 'a \<Rightarrow> ('a \<Rightarrow> 's \<times> ('e + 'b)) \<Rightarrow> 's \<times> ('e + 'b)" where
  "try_in s r k = (case r of Inl e \<Rightarrow> (s, Inl e) | Inr a \<Rightarrow> k a)"

text \<open>The error of a result (\<open>Result::err\<close>).\<close>

definition err :: "'e + 'a \<Rightarrow> 'e option" where
  "err r = (case r of Inl e \<Rightarrow> Some e | Inr _ \<Rightarrow> None)"

text \<open>\<open>Iterator::find_map\<close> and \<open>Option::is_none_or\<close>.\<close>

fun find_map :: "('a \<Rightarrow> 'b option) \<Rightarrow> 'a list \<Rightarrow> 'b option" where
  "find_map f [] = None"
| "find_map f (x # xs) = (case f x of Some y \<Rightarrow> Some y | None \<Rightarrow> find_map f xs)"

fun opt_all :: "('a \<Rightarrow> bool) \<Rightarrow> 'a option \<Rightarrow> bool" where
  "opt_all P None = True"
| "opt_all P (Some x) = P x"

lemma bind_result_simps [simp]:
  "bind_result (Inl e) f = Inl e"
  "bind_result (Inr a) f = f a"
  by (simp_all add: bind_result_def)

lemma bind_result_Inr: "bind_result r f = Inr b \<longleftrightarrow> (\<exists>a. r = Inr a \<and> f a = Inr b)"
  by (cases r) auto

lemma bind_result_InrE:
  assumes "bind_result r f = Inr b"
  obtains a where "r = Inr a" and "f a = Inr b"
  using assms by (cases r) auto

lemma map_err_simps [simp]:
  "map_err g (Inl e) = Inl (g e)"
  "map_err g (Inr a) = Inr a"
  by (simp_all add: map_err_def)

lemma map_err_Inr [simp]: "map_err g r = Inr a \<longleftrightarrow> r = Inr a"
  by (cases r) auto

lemma try_in_simps [simp]:
  "try_in s (Inl e) k = (s, Inl e)"
  "try_in s (Inr a) k = k a"
  by (simp_all add: try_in_def)

lemma try_in_InrE:
  assumes "try_in s r k = (s', Inr b)"
  obtains a where "r = Inr a" and "k a = (s', Inr b)"
  using assms by (cases r) auto

lemma try_in_InlE:
  assumes "try_in s r k = (s', Inl e)"
  obtains (failed) "r = Inl e" "s' = s" | (passed) a where "r = Inr a" and "k a = (s', Inl e)"
  using assms by (cases r) auto

lemma ok_or_simps [simp]:
  "ok_or e None = Inl e"
  "ok_or e (Some a) = Inr a"
  by (simp_all add: ok_or_def)

lemma ok_or_Inr: "ok_or e x = Inr a \<longleftrightarrow> x = Some a"
  by (cases x) auto

lemma err_simps [simp]: "err (Inl e) = Some e" "err (Inr a) = None"
  by (simp_all add: err_def)

lemma err_None_iff: "err r = None \<longleftrightarrow> (\<exists>a. r = Inr a)"
  by (cases r) auto

section \<open>The entry API of hash maps with list values\<close>

definition get_list :: "('k, 'v list) amap \<Rightarrow> 'k \<Rightarrow> 'v list" where
  "get_list m k = (case map_of m k of None \<Rightarrow> [] | Some xs \<Rightarrow> xs)"

text \<open>\<open>m.entry(k).or_default().push(x)\<close>.\<close>

definition push_entry :: "'k \<Rightarrow> 'v \<Rightarrow> ('k, 'v list) amap \<Rightarrow> ('k, 'v list) amap" where
  "push_entry k x m = AList.update k (get_list m k @ [x]) m"

text \<open>\<open>if let Some(mut es) = m.get_mut(k) { es.retain(p); if es.is_empty() { m.remove(k) } }\<close>.\<close>

definition retain_entry :: "'k \<Rightarrow> ('v \<Rightarrow> bool) \<Rightarrow> ('k, 'v list) amap \<Rightarrow> ('k, 'v list) amap" where
  "retain_entry k p m =
     (case map_of m k of
        None \<Rightarrow> m
      | Some es \<Rightarrow>
          (let es' = filter p es
           in if es' = [] then AList.delete k m else AList.update k es' m))"

definition entries_wf :: "('k, 'v list) amap \<Rightarrow> bool" where
  "entries_wf m \<longleftrightarrow> distinct (map fst m) \<and> (\<forall>k. map_of m k \<noteq> Some [])"

lemma map_of_update [simp]: "map_of (AList.update k v m) = (map_of m)(k \<mapsto> v)"
  by (simp add: AList.update_conv')

lemma map_of_delete [simp]: "map_of (AList.delete k m) = (map_of m)(k := None)"
  by (simp add: AList.delete_conv')

lemma get_list_Nil [simp]: "get_list [] k = []"
  by (simp add: get_list_def)

lemma get_list_update [simp]:
  "get_list (AList.update k v m) k' = (if k' = k then v else get_list m k')"
  by (simp add: get_list_def)

lemma get_list_delete [simp]:
  "get_list (AList.delete k m) k' = (if k' = k then [] else get_list m k')"
  by (simp add: get_list_def)

lemma get_list_push [index_simps]:
  "get_list (push_entry k x m) k' = (if k' = k then get_list m k @ [x] else get_list m k')"
  by (simp add: get_list_def push_entry_def)

lemma get_list_retain [index_simps]:
  "get_list (retain_entry k p m) k' = (if k' = k then filter p (get_list m k) else get_list m k')"
  by (auto simp: get_list_def retain_entry_def Let_def split: option.splits)

lemma set_get_list_foldl_push [index_simps]:
  "set (get_list (foldl (\<lambda>m k. push_entry (f k) x m) m ks) k') =
     set (get_list m k') \<union> (if k' \<in> f ` set ks then {x} else {})"
  by (induction ks arbitrary: m) (auto simp: get_list_push)

lemma set_get_list_foldl_retain [index_simps]:
  "set (get_list (foldl (\<lambda>m k. retain_entry (f k) (\<lambda>y. y \<noteq> x) m) m ks) k') =
     set (get_list m k') - (if k' \<in> f ` set ks then {x} else {})"
  by (induction ks arbitrary: m) (auto simp: get_list_retain)

lemma no_empty_push: "entries_wf m \<Longrightarrow> entries_wf (push_entry k x m)"
  by (auto simp: entries_wf_def push_entry_def distinct_update
      simp del: map_of_eq_Some_iff Some_eq_map_of_iff)

lemma no_empty_retain: "entries_wf m \<Longrightarrow> entries_wf (retain_entry k p m)"
  by (auto simp: entries_wf_def retain_entry_def Let_def distinct_update distinct_delete
      simp del: map_of_eq_Some_iff Some_eq_map_of_iff split: option.splits)

lemma no_empty_foldl_push:
  "entries_wf m \<Longrightarrow> entries_wf (foldl (\<lambda>m k. push_entry (f k) x m) m ks)"
  by (induction ks arbitrary: m) (auto intro: no_empty_push)

lemma no_empty_foldl_retain:
  "entries_wf m \<Longrightarrow> entries_wf (foldl (\<lambda>m k. retain_entry (f k) p m) m ks)"
  by (induction ks arbitrary: m) (auto intro: no_empty_retain)

lemmas no_empty_intros =
  no_empty_push no_empty_retain no_empty_foldl_push no_empty_foldl_retain

text \<open>An index agrees with a table when its entry at a key lists the rows that have that key.\<close>

definition indexes :: "('k, 'x list) amap \<Rightarrow> ('e \<Rightarrow> 'k set) \<Rightarrow> ('x \<Rightarrow> 'e option) \<Rightarrow> bool" where
  "indexes m keys tbl \<longleftrightarrow>
     entries_wf m \<and> (\<forall>k. set (get_list m k) = {x. \<exists>e. tbl x = Some e \<and> k \<in> keys e})"

lemma indexes_memI:
  "indexes m keys tbl \<Longrightarrow> tbl x = Some e \<Longrightarrow> k \<in> keys e \<Longrightarrow> x \<in> set (get_list m k)"
  by (auto simp: indexes_def)

lemma indexes_memD:
  "indexes m keys tbl \<Longrightarrow> x \<in> set (get_list m k) \<Longrightarrow> \<exists>e. tbl x = Some e \<and> k \<in> keys e"
  by (auto simp: indexes_def)

lemma indexes_no_keys:
  "keys e = {} \<Longrightarrow> indexes m keys (tbl(x \<mapsto> e)) = indexes m keys (tbl(x := None))"
  by (auto simp: indexes_def)

text \<open>
  The contract of an index that is maintained incrementally: adding a row adds it at exactly its
  keys, removing a row takes it out of exactly its keys.  Agreement with the table follows for
  insertion, deletion, and replacement of a row by one with fewer keys.
\<close>

locale maintained_index =
  fixes idx :: "'r \<Rightarrow> ('k, 'x list) amap"
    and keys :: "'e \<Rightarrow> 'k set"
    and add :: "'x \<Rightarrow> 'e \<Rightarrow> 'r \<Rightarrow> 'r"
    and remove :: "'x \<Rightarrow> 'e \<Rightarrow> 'r \<Rightarrow> 'r"
  assumes set_add:
      "set (get_list (idx (add x e r)) k) = set (get_list (idx r) k) \<union> (if k \<in> keys e then {x} else {})"
    and set_remove:
      "set (get_list (idx (remove x e r)) k) = set (get_list (idx r) k) - (if k \<in> keys e then {x} else {})"
    and no_empty_add: "entries_wf (idx r) \<Longrightarrow> entries_wf (idx (add x e r))"
    and no_empty_remove: "entries_wf (idx r) \<Longrightarrow> entries_wf (idx (remove x e r))"
begin

lemma indexes_add:
  "indexes (idx r) keys tbl \<Longrightarrow> tbl x = None \<Longrightarrow> indexes (idx (add x e r)) keys (tbl(x \<mapsto> e))"
  by (auto simp: indexes_def set_add no_empty_add)

lemma indexes_remove:
  "indexes (idx r) keys tbl \<Longrightarrow> tbl x = Some e \<Longrightarrow> indexes (idx (remove x e r)) keys (tbl(x := None))"
  by (auto simp: indexes_def set_remove no_empty_remove)

lemma indexes_shrink:
  "indexes (idx r) keys tbl \<Longrightarrow> tbl x = Some e \<Longrightarrow> keys e' = keys e - keys d \<Longrightarrow>
     indexes (idx (remove x d r)) keys (tbl(x \<mapsto> e'))"
  by (auto simp: indexes_def set_remove no_empty_remove)

end

section \<open>Deduplication with a \<open>HashSet\<close>\<close>

text \<open>
  The loops \<open>if seen.insert(x.clone()) { out.push(x) }\<close> keep the first occurrence of each
  element; \<open>out\<close> always lists exactly the elements of \<open>seen\<close>, so it serves as both.
\<close>

definition insert_new :: "'a list \<Rightarrow> 'a \<Rightarrow> 'a list" where
  "insert_new out x = (if x \<in> set out then out else out @ [x])"

definition dedup :: "'a list \<Rightarrow> 'a list" where
  "dedup xs = foldl insert_new [] xs"

lemma set_insert_new [simp]: "set (insert_new out x) = insert x (set out)"
  by (auto simp: insert_new_def)

lemma distinct_insert_new [simp]: "distinct out \<Longrightarrow> distinct (insert_new out x)"
  by (auto simp: insert_new_def)

lemma set_foldl_insert_new [simp]: "set (foldl insert_new out xs) = set out \<union> set xs"
  by (induction xs arbitrary: out) auto

lemma distinct_foldl_insert_new [simp]: "distinct out \<Longrightarrow> distinct (foldl insert_new out xs)"
  by (induction xs arbitrary: out) auto

lemma set_dedup [simp]: "set (dedup xs) = set xs"
  by (simp add: dedup_def)

lemma distinct_dedup [simp]: "distinct (dedup xs)"
  by (simp add: dedup_def)

section \<open>JSON values\<close>

text \<open>A JSON value over a type of strings.  A number is the text it prints as; the members of an object
  are in the order the map iterates.\<close>

datatype 's json = JNull | JBool bool | JNumber 's | JString 's | JArray "'s json list" | JObject "('s \<times> 's json) list"

section \<open>Machines driven by operations\<close>

text \<open>
  A component driven by a sequence of operations, each of which may produce an output.  An invariant
  that every admissible operation keeps, and under which it produces only admissible outputs, holds
  along every run.
\<close>

fun run_ops :: "('op \<Rightarrow> 's \<Rightarrow> 's \<times> 'out option) \<Rightarrow> 'op list \<Rightarrow> 's \<Rightarrow> 's \<times> 'out list" where
  "run_ops exec [] s = (s, [])"
| "run_ops exec (op # ops) s =
     (case exec op s of (s1, out) \<Rightarrow>
        (case run_ops exec ops s1 of (s2, outs) \<Rightarrow>
           (s2, (case out of None \<Rightarrow> outs | Some y \<Rightarrow> y # outs))))"

locale op_machine =
  fixes exec :: "'op \<Rightarrow> 's \<Rightarrow> 's \<times> 'out option"
    and inv :: "'s \<Rightarrow> bool"
    and ok_op :: "'op \<Rightarrow> bool"
    and ok_out :: "'out \<Rightarrow> bool"
  assumes exec_inv: "inv s \<Longrightarrow> ok_op op \<Longrightarrow> inv (fst (exec op s))"
    and exec_out: "inv s \<Longrightarrow> ok_op op \<Longrightarrow> snd (exec op s) = Some y \<Longrightarrow> ok_out y"
begin

lemma run_ok:
  "inv s \<Longrightarrow> list_all ok_op ops \<Longrightarrow>
     inv (fst (run_ops exec ops s)) \<and> list_all ok_out (snd (run_ops exec ops s))"
proof (induction ops arbitrary: s)
  case (Cons op ops)
  obtain s1 out where e: "exec op s = (s1, out)" by (cases "exec op s")
  with Cons.prems have "inv s1" and "\<And>y. out = Some y \<Longrightarrow> ok_out y"
    using exec_inv [of s op] exec_out [of s op] by simp_all
  then show ?case using Cons.IH [of s1] Cons.prems e
    by (cases "run_ops exec ops s1") (auto split: option.split)
qed simp

end

lemma run_ops_append:
  "run_ops exec (xs @ ys) s =
     (case run_ops exec xs s of (s1, o1) \<Rightarrow> case run_ops exec ys s1 of (s2, o2) \<Rightarrow> (s2, o1 @ o2))"
  by (induction xs arbitrary: s) (auto split: prod.splits option.splits)

section \<open>Claims\<close>

text \<open>
  The contract of a claim: it is won only when it is not held, and afterwards exactly the claims held
  before and the one won are held.  Of any sequence of claims, each key is won at most once.
\<close>

fun run_claims :: "('k \<Rightarrow> 's \<Rightarrow> 's \<times> bool) \<Rightarrow> 'k list \<Rightarrow> 's \<Rightarrow> 's \<times> 'k list" where
  "run_claims claim [] s = (s, [])"
| "run_claims claim (k # ks) s =
     (case claim k s of (s1, won) \<Rightarrow>
        case run_claims claim ks s1 of (s2, ws) \<Rightarrow> (s2, if won then k # ws else ws))"

locale claim_table =
  fixes claim :: "'k \<Rightarrow> 's \<Rightarrow> 's \<times> bool"
    and held :: "'s \<Rightarrow> 'k \<Rightarrow> bool"
  assumes claim_won: "snd (claim k s) \<Longrightarrow> \<not> held s k"
    and claim_held: "held (fst (claim k s)) k' \<longleftrightarrow> held s k' \<or> k' = k \<and> snd (claim k s)"
begin

lemma run_claims_held:
  "(\<forall>k \<in> set (snd (run_claims claim ks s)). \<not> held s k) \<and> distinct (snd (run_claims claim ks s))"
proof (induction ks arbitrary: s)
  case (Cons k ks)
  obtain s1 won where c: "claim k s = (s1, won)" by (cases "claim k s")
  obtain s2 ws where r: "run_claims claim ks s1 = (s2, ws)" by (cases "run_claims claim ks s1")
  have "\<forall>k' \<in> set ws. \<not> held s k' \<and> \<not> (k' = k \<and> won)" "distinct ws"
    using Cons.IH [of s1] claim_held [of k s] by (auto simp: r c)
  with claim_won [of k s] show ?case by (auto simp: c r)
qed simp

lemma claims_won_once: "distinct (snd (run_claims claim ks s))"
  using run_claims_held by blast

end

section \<open>Keyset pages\<close>

text \<open>In a list sorted by an asymmetric relation, what is above an element follows it.\<close>

lemma filter_after_drop:
  assumes asym: "\<And>a b. R a b \<Longrightarrow> \<not> R b a"
  shows "sorted_wrt R xs \<Longrightarrow> i < length xs \<Longrightarrow> filter (R (xs ! i)) xs = drop (Suc i) xs"
proof (induction xs arbitrary: i)
  case (Cons x xs)
  show ?case
  proof (cases i)
    case 0
    with Cons.prems asym [of x x] show ?thesis by (auto simp: filter_id_conv)
  next
    case (Suc j)
    with Cons.prems have "R x (xs ! j)" by simp
    then have "\<not> R (xs ! j) x" by (rule asym)
    with Suc Cons show ?thesis by simp
  qed
qed simp

lemma filter_below_drop:
  "sorted_wrt (\<lambda>a b. (f b :: 'k :: linorder) < f a) xs \<Longrightarrow> i < length xs \<Longrightarrow>
     filter (\<lambda>r. f r < f (xs ! i)) xs = drop (Suc i) xs"
  by (rule filter_after_drop [where R = "\<lambda>a b. f b < f a"]) auto

lemma length_filter_remove:
  assumes "distinct xs" "x \<in> set xs"
  shows "length (filter P xs) = length (filter (\<lambda>y. P y \<and> y \<noteq> x) xs) + (if P x then 1 else 0)"
  using assms by (induction xs) (auto intro!: arg_cong [where f = length] filter_cong)

end
