(* ===== verification/Nostr_Event.thy ===== *)
theory Nostr_Event
  imports Buzz_Prelude
begin

text \<open>
  The event data of the \<open>nostr\<close> crate as the repository's code sees it.  The crate is not part of
  the repository: its events and filters are records of the fields the code reads, and the crate
  functions the code calls (\<open>Tag::kind().to_string()\<close>, \<open>Tag::content()\<close>,
  \<open>SingleLetterTag::to_string()\<close>, \<open>EventId::to_hex()\<close>, \<open>Uuid::to_string()\<close>) are the fields of the
  parameter record \<open>nostr_lib\<close>, an argument of every definition that uses one of them.  A tag is
  the string list \<open>Tag::as_slice()\<close> returns.
\<close>

type_synonym tag = "string list"
type_synonym pubkey = "byte list"

record event =
  ev_id :: "byte list"
  ev_pubkey :: pubkey
  ev_created_at :: nat
  ev_kind :: u16
  ev_tags :: "tag list"
  ev_content :: string
  ev_sig :: "byte list"

text \<open>\<open>StoredEvent\<close> of \<open>event.rs\<close>: an event with the metadata the relay assigns.\<close>

record stored_event =
  event :: event
  received_at :: nat
  channel_id :: "uuid option"
  verified :: bool

definition stored_event_new :: "event \<Rightarrow> nat \<Rightarrow> uuid option \<Rightarrow> stored_event" where
  "stored_event_new e now ch = \<lparr>event = e, received_at = now, channel_id = ch, verified = False\<rparr>"

definition is_verified :: "stored_event \<Rightarrow> bool" where
  "is_verified s = verified s"

definition with_received_at :: "event \<Rightarrow> nat \<Rightarrow> uuid option \<Rightarrow> bool \<Rightarrow> stored_event" where
  "with_received_at e t ch v = \<lparr>event = e, received_at = t, channel_id = ch, verified = v\<rparr>"

text \<open>A single-letter tag key: the letter and whether it is upper case.\<close>

datatype single_letter_tag = SingleLetterTag char bool

abbreviation p_tag :: single_letter_tag where
  "p_tag \<equiv> SingleLetterTag (CHR ''p'') False"

abbreviation h_tag :: single_letter_tag where
  "h_tag \<equiv> SingleLetterTag (CHR ''h'') False"

text \<open>NIP-01 filters; the set-valued fields are lists in iteration order.\<close>

record nfilter =
  f_ids :: "byte list list option"
  f_authors :: "pubkey list option"
  f_kinds :: "u16 list option"
  f_since :: "nat option"
  f_until :: "nat option"
  f_generic_tags :: "(single_letter_tag, string list) amap"

record nostr_lib =
  tag_kind_str :: "tag \<Rightarrow> string"
  tag_content :: "tag \<Rightarrow> string option"
  tag_has_letter :: "single_letter_tag \<Rightarrow> tag \<Rightarrow> bool"
  slt_str :: "single_letter_tag \<Rightarrow> string"
  id_to_hex :: "byte list \<Rightarrow> string"
  uuid_str :: "uuid \<Rightarrow> string"

text \<open>
  A concrete library for the witnesses: the first two elements of a tag are its kind and its
  content, a lower-case single-letter key prints as its letter.  Identifiers print in hexadecimal.
\<close>

definition hex_digit :: "nat \<Rightarrow> char" where
  "hex_digit d = (if d < 10 then char_of (48 + d) else char_of (87 + d))"

definition hex_byte :: "byte \<Rightarrow> string" where
  "hex_byte b = [hex_digit (unat b div 16), hex_digit (unat b mod 16)]"

definition hex_bytes :: "byte list \<Rightarrow> string" where
  "hex_bytes bs = concat (map hex_byte bs)"

definition demo_lib :: nostr_lib where
  "demo_lib =
     \<lparr>tag_kind_str = (\<lambda>t. case t of [] \<Rightarrow> [] | k # _ \<Rightarrow> k),
      tag_content = (\<lambda>t. case t of _ # v # _ \<Rightarrow> Some v | _ \<Rightarrow> None),
      tag_has_letter = (\<lambda>l t. case l of SingleLetterTag c up \<Rightarrow> \<not> up \<and> (case t of k # _ # _ \<Rightarrow> k = [c] | _ \<Rightarrow> False)),
      slt_str = (\<lambda>l. case l of SingleLetterTag c up \<Rightarrow> [c]),
      id_to_hex = hex_bytes,
      uuid_str = (\<lambda>u. show_nat (unat u))\<rparr>"

end
