(* ===== verification/Channel.thy ===== *)
theory Channel
  imports Buzz_Prelude
begin

text \<open>
  Channel and membership enums (\<open>crates/buzz-core/src/channel.rs\<close>), presence statuses
  (\<open>presence.rs\<close>), the contract their string forms share (locale \<open>str_enum\<close>) and the contract of a
  ranked role type (locale \<open>ranked\<close>) that the git policy relies on.
\<close>

section \<open>Interfaces\<close>

text \<open>An enum with a canonical string form: \<open>as_str\<close> and a \<open>FromStr\<close> that inverts it.\<close>

locale str_enum =
  fixes as_str :: "'a \<Rightarrow> string"
    and from_str :: "string \<Rightarrow> 'e + 'a"
  assumes from_as: "from_str (as_str x) = Inr x"
    and from_sound: "from_str s = Inr x \<Longrightarrow> s = as_str x"
begin

lemma as_str_inj: "as_str x = as_str y \<Longrightarrow> x = y"
  by (metis from_as sum.inject(2))

lemma from_str_iff: "from_str s = Inr x \<longleftrightarrow> s = as_str x"
  by (metis from_as from_sound)

lemma from_str_error: "(\<forall>x. s \<noteq> as_str x) \<longleftrightarrow> (\<exists>e. from_str s = Inl e)"
  by (metis from_str_iff old.sum.exhaust sum.distinct(1))

end

text \<open>
  Values ranked by a number: a requirement is met by every value of at least its rank, and the
  stricter of two requirements is one of them and implies both.
\<close>

locale ranked =
  fixes rank :: "'r \<Rightarrow> nat"
    and meets :: "'r \<Rightarrow> 'r \<Rightarrow> bool"
  assumes meets_rank: "meets r q \<longleftrightarrow> rank q \<le> rank r"
begin

lemma meets_refl: "meets r r"
  by (simp add: meets_rank)

lemma meets_trans: "meets r q \<Longrightarrow> meets q p \<Longrightarrow> meets r p"
  by (auto simp: meets_rank)

lemma meets_total: "meets r q \<or> meets q r"
  by (auto simp: meets_rank)

lemma meets_stricter:
  "meets r (if rank q < rank p then p else q) \<longleftrightarrow> meets r q \<and> meets r p"
  by (auto simp: meets_rank)

end

section \<open>Enums\<close>

datatype channel_visibility = Open | Private

fun channel_visibility_as_str :: "channel_visibility \<Rightarrow> string" where
  "channel_visibility_as_str Open = ''open''"
| "channel_visibility_as_str Private = ''private''"

text \<open>The \<open>FromStr\<close> implementations return an error text that carries the debug form of the input;
  the error is modelled by the offending input.\<close>

definition channel_visibility_from_str :: "string \<Rightarrow> string + channel_visibility" where
  "channel_visibility_from_str s =
     (if s = ''open'' then Inr Open
      else if s = ''private'' then Inr Private
      else Inl s)"

datatype channel_type = Stream | Forum | Dm | Workflow

fun channel_type_as_str :: "channel_type \<Rightarrow> string" where
  "channel_type_as_str Stream = ''stream''"
| "channel_type_as_str Forum = ''forum''"
| "channel_type_as_str Dm = ''dm''"
| "channel_type_as_str Workflow = ''workflow''"

definition channel_type_from_str :: "string \<Rightarrow> string + channel_type" where
  "channel_type_from_str s =
     (if s = ''stream'' then Inr Stream
      else if s = ''forum'' then Inr Forum
      else if s = ''dm'' then Inr Dm
      else if s = ''workflow'' then Inr Workflow
      else Inl s)"

datatype member_role = Owner | Admin | Member | Guest | Bot

fun member_role_as_str :: "member_role \<Rightarrow> string" where
  "member_role_as_str Owner = ''owner''"
| "member_role_as_str Admin = ''admin''"
| "member_role_as_str Member = ''member''"
| "member_role_as_str Guest = ''guest''"
| "member_role_as_str Bot = ''bot''"

definition member_role_from_str :: "string \<Rightarrow> string + member_role" where
  "member_role_from_str s =
     (if s = ''owner'' then Inr Owner
      else if s = ''admin'' then Inr Admin
      else if s = ''member'' then Inr Member
      else if s = ''guest'' then Inr Guest
      else if s = ''bot'' then Inr Bot
      else Inl s)"

definition is_elevated :: "member_role \<Rightarrow> bool" where
  "is_elevated r \<longleftrightarrow> r = Owner \<or> r = Admin"

fun permission_level :: "member_role \<Rightarrow> nat" where
  "permission_level Owner = 4"
| "permission_level Admin = 3"
| "permission_level Member = 2"
| "permission_level Guest = 1"
| "permission_level Bot = 0"

definition has_at_least :: "member_role \<Rightarrow> member_role \<Rightarrow> bool" where
  "has_at_least r required \<longleftrightarrow> permission_level r \<ge> permission_level required"

datatype presence_status = Online | Away | Offline

fun presence_status_as_str :: "presence_status \<Rightarrow> string" where
  "presence_status_as_str Online = ''online''"
| "presence_status_as_str Away = ''away''"
| "presence_status_as_str Offline = ''offline''"

text \<open>\<open>canonical_channel_name\<close>: hash marks and white space off the front, white space off the back.\<close>

definition canonical_channel_name :: "ustr \<Rightarrow> ustr" where
  "canonical_channel_name name =
     trim_end (dropWhile (\<lambda>c. c = 35 \<or> is_whitespace c) name)"

section \<open>Interpretations\<close>

interpretation visibility_enum: str_enum channel_visibility_as_str channel_visibility_from_str
proof unfold_locales
  show "channel_visibility_from_str (channel_visibility_as_str x) = Inr x" for x
    by (cases x) (simp_all add: channel_visibility_from_str_def)
  show "channel_visibility_from_str s = Inr x \<Longrightarrow> s = channel_visibility_as_str x" for s x
    by (auto simp: channel_visibility_from_str_def split: if_splits)
qed

interpretation channel_type_enum: str_enum channel_type_as_str channel_type_from_str
proof unfold_locales
  show "channel_type_from_str (channel_type_as_str x) = Inr x" for x
    by (cases x) (simp_all add: channel_type_from_str_def)
  show "channel_type_from_str s = Inr x \<Longrightarrow> s = channel_type_as_str x" for s x
    by (auto simp: channel_type_from_str_def split: if_splits)
qed

interpretation role_enum: str_enum member_role_as_str member_role_from_str
proof unfold_locales
  show "member_role_from_str (member_role_as_str x) = Inr x" for x
    by (cases x) (simp_all add: member_role_from_str_def)
  show "member_role_from_str s = Inr x \<Longrightarrow> s = member_role_as_str x" for s x
    by (auto simp: member_role_from_str_def split: if_splits)
qed

interpretation role_rank: ranked permission_level has_at_least
  by unfold_locales (simp add: has_at_least_def)

lemma permission_level_inj: "permission_level r = permission_level q \<Longrightarrow> r = q"
  by (cases r; cases q) auto

lemma canonical_channel_name_hd:
  "canonical_channel_name n \<noteq> [] \<Longrightarrow>
     hd (canonical_channel_name n) \<noteq> 35 \<and> \<not> is_whitespace (hd (canonical_channel_name n))"
proof -
  let ?d = "dropWhile (\<lambda>c. c = 35 \<or> is_whitespace c) n"
  assume "canonical_channel_name n \<noteq> []"
  then have ne: "trim_end ?d \<noteq> []" by (simp add: canonical_channel_name_def)
  then have "?d \<noteq> []" by (metis append_is_Nil_conv trim_end_prefix)
  then have "hd ?d \<noteq> 35 \<and> \<not> is_whitespace (hd ?d)"
    using hd_dropWhile [of "\<lambda>c. c = 35 \<or> is_whitespace c" n] by blast
  then show ?thesis
    by (simp add: canonical_channel_name_def hd_trim_end [OF ne])
qed

lemma canonical_channel_name_idem:
  "canonical_channel_name (canonical_channel_name n) = canonical_channel_name n"
proof (cases "canonical_channel_name n")
  case Nil
  show ?thesis unfolding Nil by (simp add: canonical_channel_name_def trim_end_def)
next
  case (Cons c cs)
  then have "c \<noteq> 35 \<and> \<not> is_whitespace c"
    using canonical_channel_name_hd [of n] by simp
  then have "dropWhile (\<lambda>c. c = 35 \<or> is_whitespace c) (canonical_channel_name n)
      = canonical_channel_name n"
    using Cons by simp
  then show ?thesis
    by (metis canonical_channel_name_def trim_end_idem)
qed

text \<open>
  Channel names are canonical after one pass: the stored name starts with neither a hash mark
  nor white space, does not end in white space, and canonicalizing it again changes nothing.
\<close>

theorem canonical_channel_name_canonical:
  "canonical_channel_name (canonical_channel_name n) = canonical_channel_name n
   \<and> (canonical_channel_name n = []
      \<or> (hd (canonical_channel_name n) \<noteq> 35 \<and> \<not> is_whitespace (hd (canonical_channel_name n))
         \<and> \<not> is_whitespace (last (canonical_channel_name n))))"
  using canonical_channel_name_idem [of n] canonical_channel_name_hd [of n]
    trim_end_last [of "dropWhile (\<lambda>c. c = 35 \<or> is_whitespace c) n"]
  by (auto simp: canonical_channel_name_def)

text \<open>
  The role names stored in the database and on tags are canonical: parsing accepts exactly the
  printed forms, and printing and parsing are inverse, for visibilities, channel types and roles.
\<close>

theorem enum_names_canonical:
  "(channel_visibility_from_str s = Inr v \<longleftrightarrow> s = channel_visibility_as_str v)
   \<and> (channel_type_from_str s = Inr t \<longleftrightarrow> s = channel_type_as_str t)
   \<and> (member_role_from_str s = Inr r \<longleftrightarrow> s = member_role_as_str r)"
  by (simp add: visibility_enum.from_str_iff channel_type_enum.from_str_iff role_enum.from_str_iff)

end
