(* ===== verification/Git_Perms.thy ===== *)
theory Git_Perms
  imports Channel "HOL-Library.Multiset"
begin

text \<open>
  The git permission engine (\<open>crates/buzz-core/src/git_perms.rs\<close>): ref patterns and their parser,
  protection rules parsed from \<open>buzz-protect\<close> tags, the union of the rules that match a ref, and the
  push decision.  The code's \<open>unreachable!()\<close> in the matcher is the value \<^const>\<open>None\<close>, threaded
  through every caller, and shown never to arise from parsed patterns.
\<close>

section \<open>Ref patterns\<close>

definition GIT_NO_CHANNEL_BINDING_TOKEN :: string where
  "GIT_NO_CHANNEL_BINDING_TOKEN = ''no_channel_binding''"

definition GIT_NO_CHANNEL_BINDING_BODY :: string where
  "GIT_NO_CHANNEL_BINDING_BODY = ''no_channel_binding: repository has no channel binding''"

definition MAX_PROTECTION_RULES :: nat where "MAX_PROTECTION_RULES = 50"
definition MAX_PATTERN_LENGTH :: nat where "MAX_PATTERN_LENGTH = 256"
definition MAX_WILDCARDS_PER_PATTERN :: nat where "MAX_WILDCARDS_PER_PATTERN = 3"

datatype pattern_segment = Literal string | Wildcard | RecursiveWildcard

record ref_pattern =
  raw :: string
  segments :: "pattern_segment list"

datatype pattern_error =
  EmptyPattern | TooLong | MissingRefsPrefix | InvalidSegment string | TooManyWildcards

definition segment_char :: "char \<Rightarrow> bool" where
  "segment_char c \<longleftrightarrow>
     is_ascii_alphanumeric c \<or> c = CHR ''.'' \<or> c = CHR ''_'' \<or> c = CHR ''-''"

definition is_partial_glob :: "string \<Rightarrow> bool" where
  "is_partial_glob part \<longleftrightarrow>
     CHR ''*'' \<in> set part \<or> CHR ''?'' \<in> set part \<or> CHR ''['' \<in> set part \<or> CHR '']'' \<in> set part"

text \<open>The loop of \<open>RefPattern::parse\<close> over the remaining parts: the segments pushed so far and the
  wildcards counted so far.  A part is the last one iff no part remains.\<close>

fun parse_parts ::
  "string list \<Rightarrow> nat \<Rightarrow> pattern_segment list \<Rightarrow> pattern_error + pattern_segment list" where
  "parse_parts [] wildcard_count segs = Inr segs"
| "parse_parts (part # rest) wildcard_count segs =
     (if part = ''**'' then
        (if rest \<noteq> [] then Inl (InvalidSegment ''** must be the last segment'')
         else if wildcard_count + 1 > MAX_WILDCARDS_PER_PATTERN then Inl TooManyWildcards
         else parse_parts rest (wildcard_count + 1) (segs @ [RecursiveWildcard]))
      else if part = ''*'' then
        (if wildcard_count + 1 > MAX_WILDCARDS_PER_PATTERN then Inl TooManyWildcards
         else parse_parts rest (wildcard_count + 1) (segs @ [Wildcard]))
      else if part = [] then Inl (InvalidSegment [])
      else if is_partial_glob part then Inl (InvalidSegment part)
      else if \<not> list_all segment_char part then Inl (InvalidSegment part)
      else parse_parts rest wildcard_count (segs @ [Literal part]))"

definition ref_pattern_parse :: "string \<Rightarrow> pattern_error + ref_pattern" where
  "ref_pattern_parse pattern =
     (if pattern = [] then Inl EmptyPattern
      else if length pattern > MAX_PATTERN_LENGTH then Inl TooLong
      else if \<not> starts_with pattern ''refs/'' then Inl MissingRefsPrefix
      else bind_result (parse_parts (split_on (CHR ''/'') pattern) 0 [])
             (\<lambda>segs. Inr \<lparr>raw = pattern, segments = segs\<rparr>))"

text \<open>The \<open>all\<close> over zipped segments stops at the first mismatch; reaching a recursive wildcard
  panics.\<close>

fun all_segments_match :: "(pattern_segment \<times> string) list \<Rightarrow> bool option" where
  "all_segments_match [] = Some True"
| "all_segments_match ((Wildcard, seg) # rest) = all_segments_match rest"
| "all_segments_match ((Literal lit, seg) # rest) =
     (if lit = seg then all_segments_match rest else Some False)"
| "all_segments_match ((RecursiveWildcard, seg) # rest) = None"

definition ref_pattern_matches :: "ref_pattern \<Rightarrow> string \<Rightarrow> bool option" where
  "ref_pattern_matches p ref_name =
     (let ref_segments = split_on (CHR ''/'') ref_name
      in if segments p \<noteq> [] \<and> last (segments p) = RecursiveWildcard then
           (let prefix_len = length (segments p) - 1
            in if length ref_segments \<le> prefix_len then Some False
               else all_segments_match
                      (zip (take prefix_len (segments p)) (take prefix_len ref_segments)))
         else if length ref_segments \<noteq> length (segments p) then Some False
         else all_segments_match (zip (segments p) ref_segments))"

definition ref_pattern_as_str :: "ref_pattern \<Rightarrow> string" where
  "ref_pattern_as_str p = raw p"

section \<open>Ref updates\<close>

datatype update_kind = Create | FastForward | NonFastForward | Delete

definition ZERO_OID :: string where
  "ZERO_OID = ''0000000000000000000000000000000000000000''"

definition classify :: "string \<Rightarrow> string \<Rightarrow> bool \<Rightarrow> update_kind" where
  "classify old_oid new_oid is_ancestor =
     (if old_oid = ZERO_OID then Create
      else if new_oid = ZERO_OID then Delete
      else if is_ancestor then FastForward
      else NonFastForward)"

record ref_update =
  ref_name :: string
  kind :: update_kind
  old_oid :: string
  new_oid :: string

section \<open>Protection rules\<close>

record protection_rule =
  pattern :: ref_pattern
  push_role :: "member_role option"
  no_force_push :: bool
  no_delete :: bool
  require_patch :: bool

datatype rule_parse_error =
  TooFewValues | TooManyRules | InvalidPattern pattern_error | UnknownRule string
| InvalidRole string

text \<open>The stricter of an optional earlier role and a new one, as both loops of the code write it.\<close>

definition stricter_role :: "member_role option \<Rightarrow> member_role \<Rightarrow> member_role" where
  "stricter_role acc role =
     (case acc of
        None \<Rightarrow> role
      | Some existing \<Rightarrow>
          if permission_level role > permission_level existing then role else existing)"

text \<open>The loop over the rule strings of a tag; the record holds the mutable locals.\<close>

fun parse_rule_strs ::
  "string list \<Rightarrow> protection_rule \<Rightarrow> string list
     \<Rightarrow> rule_parse_error + (protection_rule \<times> string list)" where
  "parse_rule_strs [] rule unknown_rules = Inr (rule, unknown_rules)"
| "parse_rule_strs (rule_str # rest) rule unknown_rules =
     (case strip_prefix ''push:'' rule_str of
        Some role_str \<Rightarrow>
          (case member_role_from_str role_str of
             Inl _ \<Rightarrow> Inl (InvalidRole role_str)
           | Inr role \<Rightarrow>
               if role = Bot \<or> role = Guest then Inl (InvalidRole role_str)
               else parse_rule_strs rest
                      (rule\<lparr>push_role := Some (stricter_role (push_role rule) role)\<rparr>)
                      unknown_rules)
      | None \<Rightarrow>
          if rule_str = ''no-force-push'' then
            parse_rule_strs rest (rule\<lparr>no_force_push := True\<rparr>) unknown_rules
          else if rule_str = ''no-delete'' then
            parse_rule_strs rest (rule\<lparr>no_delete := True\<rparr>) unknown_rules
          else if rule_str = ''require-patch'' then
            parse_rule_strs rest (rule\<lparr>require_patch := True\<rparr>) unknown_rules
          else parse_rule_strs rest rule (unknown_rules @ [rule_str]))"

definition parse_protection_tag_with_warnings ::
  "string list \<Rightarrow> rule_parse_error + (protection_rule \<times> string list)" where
  "parse_protection_tag_with_warnings values =
     (case values of
        pat # r # rs \<Rightarrow>
          (case ref_pattern_parse pat of
             Inl e \<Rightarrow> Inl (InvalidPattern e)
           | Inr p \<Rightarrow>
               parse_rule_strs (r # rs)
                 \<lparr>pattern = p, push_role = None, no_force_push = False, no_delete = False,
                  require_patch = False\<rparr> [])
      | _ \<Rightarrow> Inl TooFewValues)"

definition parse_protection_tag :: "string list \<Rightarrow> rule_parse_error + protection_rule" where
  "parse_protection_tag values =
     bind_result (parse_protection_tag_with_warnings values) (\<lambda>(rule, _). Inr rule)"

record parsed_protection =
  rules :: "protection_rule list"
  unknown_rules :: "string list"

fun parse_protection_tags_loop ::
  "string list list \<Rightarrow> protection_rule list \<Rightarrow> string list
     \<Rightarrow> rule_parse_error + parsed_protection" where
  "parse_protection_tags_loop [] rs us = Inr \<lparr>rules = rs, unknown_rules = us\<rparr>"
| "parse_protection_tags_loop (tag # rest) rs us =
     (case tag of
        [] \<Rightarrow> parse_protection_tags_loop rest rs us
      | name # values \<Rightarrow>
          if name \<noteq> ''buzz-protect'' then parse_protection_tags_loop rest rs us
          else if length rs \<ge> MAX_PROTECTION_RULES then Inl TooManyRules
          else (case parse_protection_tag_with_warnings values of
                  Inl e \<Rightarrow> Inl e
                | Inr (rule, unknowns) \<Rightarrow>
                    parse_protection_tags_loop rest (rs @ [rule]) (us @ unknowns)))"

definition parse_protection_tags ::
  "string list list \<Rightarrow> rule_parse_error + parsed_protection" where
  "parse_protection_tags tags = parse_protection_tags_loop tags [] []"

section \<open>The push decision\<close>

definition default_min_role :: "string \<Rightarrow> update_kind \<Rightarrow> member_role" where
  "default_min_role name k =
     (let is_branch = starts_with name ''refs/heads/'';
          is_tag = starts_with name ''refs/tags/''
      in case k of
           Create \<Rightarrow> if is_branch \<or> is_tag then Member else Admin
         | FastForward \<Rightarrow> if is_branch then Member else if is_tag then Admin else Admin
         | NonFastForward \<Rightarrow> Admin
         | Delete \<Rightarrow> Admin)"

record effective_rules =
  eff_push_role :: "member_role option"
  eff_no_force_push :: bool
  eff_no_delete :: bool
  eff_require_patch :: bool
  has_explicit_match :: bool

fun for_ref_loop ::
  "string \<Rightarrow> protection_rule list \<Rightarrow> effective_rules \<Rightarrow> effective_rules option" where
  "for_ref_loop name [] eff = Some eff"
| "for_ref_loop name (rule # rest) eff =
     (case ref_pattern_matches (pattern rule) name of
        None \<Rightarrow> None
      | Some m \<Rightarrow>
          if \<not> m then for_ref_loop name rest eff
          else for_ref_loop name rest
            (eff\<lparr>has_explicit_match := True,
                eff_push_role :=
                  (case push_role rule of
                     Some role \<Rightarrow> Some (stricter_role (eff_push_role eff) role)
                   | None \<Rightarrow> eff_push_role eff),
                eff_no_force_push := eff_no_force_push eff \<or> no_force_push rule,
                eff_no_delete := eff_no_delete eff \<or> no_delete rule,
                eff_require_patch := eff_require_patch eff \<or> require_patch rule\<rparr>))"

definition no_rules :: effective_rules where
  "no_rules = \<lparr>eff_push_role = None, eff_no_force_push = False, eff_no_delete = False,
     eff_require_patch = False, has_explicit_match = False\<rparr>"

definition for_ref :: "string \<Rightarrow> protection_rule list \<Rightarrow> effective_rules option" where
  "for_ref name rs = for_ref_loop name rs no_rules"

record denial =
  denied_ref :: string
  reason :: string

definition denial_fmt :: "denial \<Rightarrow> string" where
  "denial_fmt d = denied_ref d @ '': '' @ reason d"

definition evaluate_ref_update ::
  "ref_update \<Rightarrow> member_role \<Rightarrow> protection_rule list \<Rightarrow> (denial + unit) option" where
  "evaluate_ref_update update role rs =
     (case for_ref (ref_name update) rs of
        None \<Rightarrow> None
      | Some effective \<Rightarrow> Some (
          let deny = (\<lambda>why. Inl \<lparr>denied_ref = ref_name update, reason = why\<rparr>);
              default_role = default_min_role (ref_name update) (kind update)
          in if \<not> has_explicit_match effective then
               (if \<not> has_at_least role default_role then
                  deny (''requires '' @ member_role_as_str default_role @ '' role (you have ''
                        @ member_role_as_str role @ ''), using built-in defaults'')
                else Inr ())
             else if eff_require_patch effective then
               deny ''direct push denied: require-patch is set, submit a NIP-34 patch''
             else
               (let min_role =
                  (case eff_push_role effective of
                     Some explicit \<Rightarrow>
                       if permission_level explicit \<ge> permission_level default_role
                       then explicit else default_role
                   | None \<Rightarrow> default_role)
                in if \<not> has_at_least role min_role then
                     deny (''requires '' @ member_role_as_str min_role @ '' role (you have ''
                           @ member_role_as_str role @ '')'')
                   else if eff_no_force_push effective \<and> kind update = NonFastForward then
                     deny ''non-fast-forward update denied: no-force-push is set''
                   else if eff_no_delete effective \<and> kind update = Delete then
                     deny ''ref deletion denied: no-delete is set''
                   else Inr ())))"

text \<open>\<open>evaluate_push\<close>: the denials of all updates, in order.\<close>

fun collect_denials ::
  "ref_update list \<Rightarrow> member_role \<Rightarrow> protection_rule list \<Rightarrow> denial list option" where
  "collect_denials [] role rs = Some []"
| "collect_denials (u # us) role rs =
     (case evaluate_ref_update u role rs of
        None \<Rightarrow> None
      | Some r \<Rightarrow>
          (case collect_denials us role rs of
             None \<Rightarrow> None
           | Some ds \<Rightarrow> Some (case err r of None \<Rightarrow> ds | Some d \<Rightarrow> d # ds)))"

definition evaluate_push ::
  "ref_update list \<Rightarrow> member_role \<Rightarrow> protection_rule list \<Rightarrow> (denial list + unit) option" where
  "evaluate_push updates role rs =
     map_option (\<lambda>ds. if ds = [] then Inr () else Inl ds) (collect_denials updates role rs)"

section \<open>Matching against a declarative glob\<close>

fun seg_str :: "pattern_segment \<Rightarrow> string" where
  "seg_str (Literal l) = l"
| "seg_str Wildcard = ''*''"
| "seg_str RecursiveWildcard = ''**''"

text \<open>What the documentation of a pattern says it matches, segment by segment.\<close>

fun glob_match :: "pattern_segment list \<Rightarrow> string list \<Rightarrow> bool" where
  "glob_match [] [] = True"
| "glob_match [RecursiveWildcard] (s # ss) = True"
| "glob_match (Wildcard # ps) (s # ss) = glob_match ps ss"
| "glob_match (Literal l # ps) (s # ss) = (l = s \<and> glob_match ps ss)"
| "glob_match _ _ = False"

definition wf_segments :: "pattern_segment list \<Rightarrow> bool" where
  "wf_segments segs \<longleftrightarrow>
     segs \<noteq> [] \<and> RecursiveWildcard \<notin> set (butlast segs)
     \<and> (\<forall>l. Literal l \<in> set segs \<longrightarrow> l \<noteq> [] \<and> list_all segment_char l)
     \<and> length (filter (\<lambda>s. s = Wildcard \<or> s = RecursiveWildcard) segs) \<le> MAX_WILDCARDS_PER_PATTERN"

definition wf_pattern :: "ref_pattern \<Rightarrow> bool" where
  "wf_pattern p \<longleftrightarrow>
     wf_segments (segments p)
     \<and> map seg_str (segments p) = split_on (CHR ''/'') (raw p)
     \<and> length (raw p) \<le> MAX_PATTERN_LENGTH
     \<and> starts_with (raw p) ''refs/''"

definition wf_rules :: "protection_rule list \<Rightarrow> bool" where
  "wf_rules rs \<longleftrightarrow> (\<forall>r\<in>set rs. wf_pattern (pattern r))"

lemma wf_rules_simps [simp]:
  "wf_rules []"
  "wf_rules (r # rs) \<longleftrightarrow> wf_pattern (pattern r) \<and> wf_rules rs"
  by (auto simp: wf_rules_def)

text \<open>The segments the loop appends for a list of parts.\<close>

lemma parse_parts_sound:
  assumes "parse_parts parts n segs = Inr out"
  shows "\<exists>new. out = segs @ new \<and> map seg_str new = parts
           \<and> RecursiveWildcard \<notin> set (butlast new)
           \<and> (\<forall>l. Literal l \<in> set new \<longrightarrow> l \<noteq> [] \<and> list_all segment_char l)
           \<and> (n \<le> MAX_WILDCARDS_PER_PATTERN \<longrightarrow>
              n + length (filter (\<lambda>s. s = Wildcard \<or> s = RecursiveWildcard) new)
                \<le> MAX_WILDCARDS_PER_PATTERN)"
  using assms
proof (induction parts n segs arbitrary: out rule: parse_parts.induct)
  case (1 n segs)
  then show ?case by (intro exI [of _ "[]"]) auto
next
  case (2 part rest n segs)
  consider "part = ''**''" "rest = []" | "part = ''*''"
    | "part \<noteq> ''**''" "part \<noteq> ''*''" "part \<noteq> []" "\<not> is_partial_glob part"
      "list_all segment_char part"
    using "2.prems" by (fastforce split: if_splits)
  then show ?case
  proof cases
    case 1
    with "2.prems" show ?thesis
      by (intro exI [of _ "[RecursiveWildcard]"]) (auto split: if_splits)
  next
    case 2
    with "2.prems" "2.IH"(2) [of out] obtain new where
      "out = segs @ Wildcard # new" "map seg_str new = rest" "RecursiveWildcard \<notin> set (butlast new)"
      "\<forall>l. Literal l \<in> set new \<longrightarrow> l \<noteq> [] \<and> list_all segment_char l"
      "Suc n + length (filter (\<lambda>s. s = Wildcard \<or> s = RecursiveWildcard) new)
         \<le> MAX_WILDCARDS_PER_PATTERN"
      by (auto split: if_splits)
    with 2 show ?thesis by (intro exI [of _ "Wildcard # new"]) auto
  next
    case 3
    with "2.prems" "2.IH"(3) [of out] obtain new where
      "out = segs @ Literal part # new" "map seg_str new = rest"
      "RecursiveWildcard \<notin> set (butlast new)"
      "\<forall>l. Literal l \<in> set new \<longrightarrow> l \<noteq> [] \<and> list_all segment_char l"
      "n \<le> MAX_WILDCARDS_PER_PATTERN \<longrightarrow>
        n + length (filter (\<lambda>s. s = Wildcard \<or> s = RecursiveWildcard) new)
          \<le> MAX_WILDCARDS_PER_PATTERN"
      by (auto split: if_splits)
    with 3 show ?thesis by (intro exI [of _ "Literal part # new"]) auto
  qed
qed

lemma ref_pattern_parse_wf: "ref_pattern_parse s = Inr p \<Longrightarrow> wf_pattern p \<and> raw p = s"
  by (auto simp: ref_pattern_parse_def bind_result_Inr wf_pattern_def wf_segments_def
      split: if_splits dest!: parse_parts_sound)

lemma all_segments_match_glob:
  "RecursiveWildcard \<notin> set segs \<Longrightarrow> length rs = length segs \<Longrightarrow>
     all_segments_match (zip segs rs) = Some (glob_match segs rs)"
proof (induction segs rs rule: glob_match.induct)
qed auto

lemma glob_match_recursive:
  "RecursiveWildcard \<notin> set segs \<Longrightarrow>
     glob_match (segs @ [RecursiveWildcard]) rs \<longleftrightarrow>
       length segs < length rs \<and> glob_match segs (take (length segs) rs)"
proof (induction segs arbitrary: rs)
  case Nil
  then show ?case by (cases rs) auto
next
  case (Cons p ps)
  then show ?case by (cases rs; cases p; cases ps) auto
qed

lemma glob_match_length:
  "RecursiveWildcard \<notin> set segs \<Longrightarrow> glob_match segs rs \<Longrightarrow> length rs = length segs"
  by (induction segs rs rule: glob_match.induct) auto

lemma ref_pattern_matches_glob:
  assumes "wf_segments (segments p)"
  shows "ref_pattern_matches p name = Some (glob_match (segments p) (split_on (CHR ''/'') name))"
proof (cases "last (segments p) = RecursiveWildcard")
  case True
  let ?pre = "butlast (segments p)" and ?rs = "split_on (CHR ''/'') name"
  from assms True have segs: "segments p = ?pre @ [RecursiveWildcard]"
    by (metis append_butlast_last_id wf_segments_def)
  from assms have nr: "RecursiveWildcard \<notin> set ?pre" by (simp add: wf_segments_def)
  then have "glob_match (segments p) ?rs \<longleftrightarrow>
      length ?pre < length ?rs \<and> glob_match ?pre (take (length ?pre) ?rs)"
    using glob_match_recursive [of ?pre ?rs] segs by metis
  moreover have "ref_pattern_matches p name =
      (if length ?rs \<le> length ?pre then Some False
       else all_segments_match (zip ?pre (take (length ?pre) ?rs)))"
    using assms True by (simp add: ref_pattern_matches_def Let_def wf_segments_def butlast_conv_take)
  ultimately show ?thesis
    using all_segments_match_glob [OF nr, of "take (length ?pre) ?rs"] by (simp del: length_butlast)
next
  case False
  with assms have "RecursiveWildcard \<notin> set (segments p)"
    unfolding wf_segments_def
    by (metis append_butlast_last_id in_set_butlastD list.set_intros(1) rotate1.simps(2)
        set_ConsD set_rotate1)
  then show ?thesis
    using False glob_match_length [of "segments p"] all_segments_match_glob [of "segments p"]
    by (auto simp: ref_pattern_matches_def Let_def)
qed

section \<open>The policy as a declarative specification\<close>

definition rule_matches :: "string \<Rightarrow> protection_rule \<Rightarrow> bool" where
  "rule_matches name r \<longleftrightarrow> glob_match (segments (pattern r)) (split_on (CHR ''/'') name)"

definition matching :: "string \<Rightarrow> protection_rule list \<Rightarrow> protection_rule set" where
  "matching name rs = {r \<in> set rs. rule_matches name r}"

fun role_ok :: "member_role \<Rightarrow> member_role option \<Rightarrow> bool" where
  "role_ok role None = True"
| "role_ok role (Some q) = has_at_least role q"

text \<open>
  An update is allowed when the pusher has the built-in minimum role and, for every matching rule,
  meets its role and violates none of its prohibitions.
\<close>

definition push_allowed :: "ref_update \<Rightarrow> member_role \<Rightarrow> protection_rule list \<Rightarrow> bool" where
  "push_allowed u role rs \<longleftrightarrow>
     has_at_least role (default_min_role (ref_name u) (kind u))
     \<and> (\<forall>r\<in>matching (ref_name u) rs.
           \<not> require_patch r
           \<and> role_ok role (push_role r)
           \<and> (kind u = NonFastForward \<longrightarrow> \<not> no_force_push r)
           \<and> (kind u = Delete \<longrightarrow> \<not> no_delete r))"

lemma role_ok_stricter: "has_at_least role (stricter_role acc q) \<longleftrightarrow> role_ok role acc \<and> has_at_least role q"
  by (cases acc) (auto simp: stricter_role_def role_rank.meets_stricter)

text \<open>What the loop adds to the accumulated constraints, whatever the order of the rules.\<close>

definition union_of :: "string \<Rightarrow> protection_rule list \<Rightarrow> effective_rules \<Rightarrow> effective_rules \<Rightarrow> bool" where
  "union_of name rs eff eff' \<longleftrightarrow>
     (has_explicit_match eff' \<longleftrightarrow> has_explicit_match eff \<or> matching name rs \<noteq> {})
     \<and> (eff_no_force_push eff' \<longleftrightarrow> eff_no_force_push eff \<or> (\<exists>r\<in>matching name rs. no_force_push r))
     \<and> (eff_no_delete eff' \<longleftrightarrow> eff_no_delete eff \<or> (\<exists>r\<in>matching name rs. no_delete r))
     \<and> (eff_require_patch eff' \<longleftrightarrow> eff_require_patch eff \<or> (\<exists>r\<in>matching name rs. require_patch r))
     \<and> (\<forall>role. role_ok role (eff_push_role eff') \<longleftrightarrow>
          role_ok role (eff_push_role eff) \<and> (\<forall>r\<in>matching name rs. role_ok role (push_role r)))"

lemma matching_Cons:
  "matching name (r # rs) = (if rule_matches name r then insert r (matching name rs) else matching name rs)"
  by (auto simp: matching_def)

lemma for_ref_loop_union:
  "wf_rules rs \<Longrightarrow> \<exists>eff'. for_ref_loop name rs eff = Some eff' \<and> union_of name rs eff eff'"
proof (induction rs arbitrary: eff)
  case Nil
  then show ?case by (simp add: union_of_def matching_def)
next
  case (Cons r rs)
  have m: "ref_pattern_matches (pattern r) name = Some (rule_matches name r)"
    using Cons.prems by (simp add: ref_pattern_matches_glob wf_pattern_def rule_matches_def)
  show ?case
  proof (cases "rule_matches name r")
    case False
    with m Cons show ?thesis by (auto simp: union_of_def matching_Cons)
  next
    case True
    let ?eff = "eff\<lparr>has_explicit_match := True,
                eff_push_role :=
                  (case push_role r of
                     Some role \<Rightarrow> Some (stricter_role (eff_push_role eff) role)
                   | None \<Rightarrow> eff_push_role eff),
                eff_no_force_push := eff_no_force_push eff \<or> no_force_push r,
                eff_no_delete := eff_no_delete eff \<or> no_delete r,
                eff_require_patch := eff_require_patch eff \<or> require_patch r\<rparr>"
    from Cons obtain eff' where eff': "for_ref_loop name rs ?eff = Some eff'"
      "union_of name rs ?eff eff'"
      by (metis wf_rules_simps(2))
    have "union_of name (r # rs) eff eff'"
      using eff'(2) True
      by (auto simp: union_of_def matching_Cons role_ok_stricter split: option.splits)
    with eff'(1) m True show ?thesis by auto
  qed
qed

lemma for_ref_union:
  assumes "wf_rules rs"
  obtains eff where "for_ref name rs = Some eff" "union_of name rs no_rules eff"
  using for_ref_loop_union [OF assms, of name no_rules] by (auto simp: for_ref_def)

lemma role_ok_min_role:
  "has_at_least role
     (case q of Some e \<Rightarrow> if permission_level e \<ge> permission_level d then e else d | None \<Rightarrow> d)
   \<longleftrightarrow> role_ok role q \<and> has_at_least role d"
  by (cases q) (auto simp: has_at_least_def)

lemma evaluate_ref_update_spec:
  assumes "wf_rules rs"
  shows "\<exists>r. evaluate_ref_update u role rs = Some r \<and> (r = Inr () \<longleftrightarrow> push_allowed u role rs)"
proof -
  obtain eff where eff: "for_ref (ref_name u) rs = Some eff" "union_of (ref_name u) rs no_rules eff"
    using for_ref_union [OF assms] .
  let ?d = "default_min_role (ref_name u) (kind u)"
  have allowed: "push_allowed u role rs \<longleftrightarrow>
      has_at_least role ?d
      \<and> (\<not> has_explicit_match eff
         \<or> (\<not> eff_require_patch eff \<and> role_ok role (eff_push_role eff)
            \<and> (kind u = NonFastForward \<longrightarrow> \<not> eff_no_force_push eff)
            \<and> (kind u = Delete \<longrightarrow> \<not> eff_no_delete eff)))"
    using eff(2) by (auto simp: push_allowed_def union_of_def no_rules_def)
  show ?thesis
    unfolding allowed
    by (simp add: evaluate_ref_update_def eff(1) Let_def role_ok_min_role) blast
qed

lemma evaluate_ref_update_allowed:
  "wf_rules rs \<Longrightarrow> evaluate_ref_update u role rs = Some (Inr ()) \<longleftrightarrow> push_allowed u role rs"
  using evaluate_ref_update_spec [of rs u role] by auto

lemma evaluate_ref_update_denied_ref:
  "evaluate_ref_update u role rs = Some (Inl d) \<Longrightarrow> denied_ref d = ref_name u"
  by (auto simp: evaluate_ref_update_def Let_def split: option.splits if_splits)

lemma default_min_role_at_least_member: "has_at_least (default_min_role name k) Member"
  by (cases k) (auto simp: default_min_role_def has_at_least_def Let_def)

lemma collect_denials_spec:
  "wf_rules rs \<Longrightarrow>
     \<exists>ds. collect_denials us role rs = Some ds
        \<and> map denied_ref ds = map ref_name (filter (\<lambda>u. \<not> push_allowed u role rs) us)"
proof (induction us)
  case Nil
  then show ?case by simp
next
  case (Cons u us)
  then obtain ds where ds: "collect_denials us role rs = Some ds"
    "map denied_ref ds = map ref_name (filter (\<lambda>u. \<not> push_allowed u role rs) us)"
    by blast
  from evaluate_ref_update_spec [OF Cons.prems] obtain r where
    r: "evaluate_ref_update u role rs = Some r" "r = Inr () \<longleftrightarrow> push_allowed u role rs"
    by blast
  show ?case
  proof (cases r)
    case (Inl d)
    with r ds show ?thesis by (auto dest: evaluate_ref_update_denied_ref)
  next
    case (Inr x)
    with r ds show ?thesis by auto
  qed
qed

lemma parse_rule_strs_pattern:
  "parse_rule_strs strs rule us = Inr (rule', us') \<Longrightarrow> pattern rule' = pattern rule"
  by (induction strs rule us rule: parse_rule_strs.induct)
    (auto split: option.splits sum.splits if_splits)

lemma parse_protection_tag_wf:
  "parse_protection_tag_with_warnings vs = Inr (rule, us) \<Longrightarrow> wf_pattern (pattern rule)"
  by (auto simp: parse_protection_tag_with_warnings_def simp del: parse_rule_strs.simps
      dest!: parse_rule_strs_pattern ref_pattern_parse_wf split: list.splits sum.splits)

definition protect_tags :: "string list list \<Rightarrow> string list list" where
  "protect_tags tags = filter (\<lambda>t. t \<noteq> [] \<and> hd t = ''buzz-protect'') tags"

lemma parse_protection_tags_loop_sound:
  "parse_protection_tags_loop tags rs us = Inr pp \<Longrightarrow> wf_rules rs \<Longrightarrow>
   length rs \<le> MAX_PROTECTION_RULES \<Longrightarrow>
     wf_rules (rules pp) \<and> length (rules pp) \<le> MAX_PROTECTION_RULES
     \<and> length (rules pp) = length rs + length (protect_tags tags)"
proof (induction tags rs us rule: parse_protection_tags_loop.induct)
  case (1 rs us)
  then show ?case by (auto simp: protect_tags_def)
next
  case (2 tag rest rs us)
  show ?case
  proof (cases "tag \<noteq> [] \<and> hd tag = ''buzz-protect''")
    case False
    with 2 show ?thesis by (cases tag) (auto simp: protect_tags_def)
  next
    case True
    then obtain vs where tag: "tag = ''buzz-protect'' # vs" by (cases tag) auto
    with "2.prems"(1) obtain rule un where
      step: "parse_protection_tag_with_warnings vs = Inr (rule, un)" and len: "length rs < MAX_PROTECTION_RULES"
      and rec: "parse_protection_tags_loop rest (rs @ [rule]) (us @ un) = Inr pp"
      by (auto split: if_splits sum.splits prod.splits)
    have "wf_rules (rs @ [rule])"
      using "2.prems"(2) parse_protection_tag_wf [OF step] by (auto simp: wf_rules_def)
    with "2.IH"(3) [OF tag _ _ step _ rec] len tag show ?thesis
      by (auto simp: protect_tags_def)
  qed
qed

section \<open>Properties\<close>

text \<open>Data of the witnesses: one rule on the main branch.\<close>

definition demo_rule :: protection_rule where
  "demo_rule = \<lparr>pattern = \<lparr>raw = ''refs/heads/main'',
       segments = [Literal ''refs'', Literal ''heads'', Literal ''main'']\<rparr>,
     push_role = Some Admin, no_force_push = True, no_delete = True, require_patch = False\<rparr>"

definition demo_update :: ref_update where
  "demo_update = \<lparr>ref_name = ''refs/heads/main'', kind = FastForward, old_oid = ''a'', new_oid = ''b''\<rparr>"

lemma demo_rule_wf: "wf_rules [demo_rule]"
  by (simp add: demo_rule_def wf_pattern_def wf_segments_def starts_with_def MAX_PATTERN_LENGTH_def
      MAX_WILDCARDS_PER_PATTERN_def segment_char_def is_ascii_alphanumeric_def is_ascii_lower_def)

lemma demo_allowed: "evaluate_ref_update demo_update Owner [demo_rule] = Some (Inr ())"
  by code_simp

text \<open>
  C1.  The push policy implements its specification: on parsed rules the evaluation of a ref update
  never panics, and it allows the update exactly when the pusher meets the built-in minimum role and
  the constraints of every rule whose pattern matches the ref.
\<close>

theorem evaluate_ref_update_refines:
  assumes "wf_rules rs"
  shows "\<exists>r. evaluate_ref_update u role rs = Some r \<and> (r = Inr () \<longleftrightarrow> push_allowed u role rs)"
  using assms by (rule evaluate_ref_update_spec)

theorem evaluate_ref_update_refines_witness:
  "wf_rules [demo_rule]
   \<and> (\<exists>r. evaluate_ref_update demo_update Owner [demo_rule] = Some r
        \<and> (r = Inr () \<longleftrightarrow> push_allowed demo_update Owner [demo_rule]))"
  using demo_rule_wf evaluate_ref_update_refines [OF demo_rule_wf] by blast

text \<open>
  Protection rules only restrict: whatever a push may do under a larger set of rules it may also
  do under a smaller one, so adding a \<open>buzz-protect\<close> tag never grants anybody an update (not even
  by weakening the built-in defaults), and only the set of rules matters, not their order or
  multiplicity.
\<close>

theorem protection_rules_only_restrict:
  assumes "wf_rules rs'" and "set rs \<subseteq> set rs'"
    and "evaluate_ref_update u role rs' = Some (Inr ())"
  shows "evaluate_ref_update u role rs = Some (Inr ())"
proof -
  have "wf_rules rs" using assms(1,2) by (auto simp: wf_rules_def)
  moreover have "push_allowed u role rs'"
    using assms evaluate_ref_update_allowed by blast
  then have "push_allowed u role rs"
    using assms(2) by (auto simp: push_allowed_def matching_def)
  ultimately show ?thesis using evaluate_ref_update_allowed by blast
qed

theorem protection_rules_only_restrict_witness:
  "evaluate_ref_update demo_update Owner [] = Some (Inr ())"
  using protection_rules_only_restrict [OF demo_rule_wf _ demo_allowed, of "[]"] by simp

text \<open>
  Privilege is monotone and bounded below: an allowed update stays allowed for every role of at
  least the same level, and no update of any ref is ever allowed for a guest or a bot.
\<close>

theorem push_privilege_monotone:
  assumes "wf_rules rs" and "evaluate_ref_update u role rs = Some (Inr ())"
  shows "(has_at_least role' role \<longrightarrow> evaluate_ref_update u role' rs = Some (Inr ()))
         \<and> role \<noteq> Guest \<and> role \<noteq> Bot"
proof -
  have allowed: "push_allowed u role rs"
    using assms evaluate_ref_update_allowed by blast
  have ok: "has_at_least role' role \<Longrightarrow> role_ok role q \<Longrightarrow> role_ok role' q" for q
    by (cases q) (auto intro: role_rank.meets_trans)
  have "has_at_least role' role \<Longrightarrow> push_allowed u role' rs"
    using allowed ok role_rank.meets_trans by (auto simp: push_allowed_def)
  moreover have "has_at_least role Member"
    using allowed default_min_role_at_least_member role_rank.meets_trans
    by (auto simp: push_allowed_def)
  ultimately show ?thesis
    using assms(1) evaluate_ref_update_allowed by (auto simp: has_at_least_def)
qed

theorem push_privilege_monotone_witness:
  "evaluate_ref_update demo_update Admin [] = Some (Inr ())
   \<and> evaluate_ref_update demo_update Owner [] = Some (Inr ())"
proof -
  have a: "evaluate_ref_update demo_update Admin [] = Some (Inr ())" by code_simp
  have "has_at_least Owner Admin" by (simp add: has_at_least_def)
  with a push_privilege_monotone [OF wf_rules_simps(1) a, of Owner] show ?thesis by simp
qed

text \<open>
  A push is atomic: on parsed rules it is accepted exactly when every one of its ref updates is
  allowed, and otherwise it is rejected with one denial per disallowed update, in the order of the
  updates and naming their refs.
\<close>

theorem evaluate_push_atomic:
  assumes "wf_rules rs"
  shows "\<exists>ds. evaluate_push us role rs = Some (if ds = [] then Inr () else Inl ds)
            \<and> map denied_ref ds = map ref_name (filter (\<lambda>u. \<not> push_allowed u role rs) us)"
proof -
  obtain ds where "collect_denials us role rs = Some ds"
    "map denied_ref ds = map ref_name (filter (\<lambda>u. \<not> push_allowed u role rs) us)"
    using collect_denials_spec [OF assms, of us role] by blast
  then show ?thesis by (intro exI [of _ ds]) (simp add: evaluate_push_def)
qed

theorem evaluate_push_atomic_witness:
  "\<exists>ds. evaluate_push [demo_update] Member [demo_rule] = Some (if ds = [] then Inr () else Inl ds)
      \<and> map denied_ref ds
          = map ref_name (filter (\<lambda>u. \<not> push_allowed u Member [demo_rule]) [demo_update])"
  by (rule evaluate_push_atomic [OF demo_rule_wf])

text \<open>
  Pattern parsing and matching: a pattern that parses prints back to its source text, its matcher
  never reaches the unreachable branch, and it decides exactly the documented segment-wise glob
  relation.
\<close>

theorem ref_pattern_parse_matches:
  assumes "ref_pattern_parse s = Inr p"
  shows "join_with (CHR ''/'') (map seg_str (segments p)) = s
         \<and> ref_pattern_matches p name = Some (glob_match (segments p) (split_on (CHR ''/'') name))"
proof -
  have "wf_pattern p" "raw p = s" using ref_pattern_parse_wf [OF assms] by auto
  then show ?thesis by (auto simp: wf_pattern_def ref_pattern_matches_glob)
qed

theorem ref_pattern_parse_matches_witness:
  "\<exists>p. ref_pattern_parse ''refs/heads/**'' = Inr p
      \<and> ref_pattern_matches p ''refs/heads/a/b'' = Some True"
proof -
  have p: "ref_pattern_parse ''refs/heads/**'' =
      Inr \<lparr>raw = ''refs/heads/**'', segments = [Literal ''refs'', Literal ''heads'', RecursiveWildcard]\<rparr>"
    by code_simp
  then show ?thesis
    using ref_pattern_parse_matches [OF p, of "''refs/heads/a/b''"] by simp
qed

text \<open>
  Protection tags: when the tags of a repository announcement parse, there is one rule per
  \<open>buzz-protect\<close> tag, at most fifty of them, and every rule carries a well-formed pattern, so the
  policy theorems apply to what the parser returns.
\<close>

theorem parse_protection_tags_sound:
  assumes "parse_protection_tags tags = Inr pp"
  shows "wf_rules (rules pp) \<and> length (rules pp) = length (protect_tags tags)
         \<and> length (rules pp) \<le> MAX_PROTECTION_RULES"
  using parse_protection_tags_loop_sound [OF assms [unfolded parse_protection_tags_def]] by simp

theorem parse_protection_tags_sound_witness:
  "\<exists>pp. parse_protection_tags
        [[''d'', ''repo''], [''buzz-protect'', ''refs/tags/*'', ''push:admin'', ''no-delete'']] = Inr pp
      \<and> length (rules pp) = 1 \<and> wf_rules (rules pp)"
proof -
  let ?tags = "[[''d'', ''repo''], [''buzz-protect'', ''refs/tags/*'', ''push:admin'', ''no-delete'']]"
  have "parse_protection_tags ?tags = Inr (projr (parse_protection_tags ?tags))"
    by code_simp
  then obtain pp where pp: "parse_protection_tags ?tags = Inr pp" by blast
  from parse_protection_tags_sound [OF this] pp show ?thesis
    by (auto simp: protect_tags_def)
qed

end
