(* ===== verification/Event_Filter.thy ===== *)
theory Event_Filter
  imports Kinds
begin

text \<open>
  NIP-01 filter matching (\<open>crates/buzz-core/src/filter.rs\<close>) and NIP-10 thread markers
  (\<open>nip10.rs\<close>).  The filter loop keeps the code's order of checks and its \<open>#h\<close> fallback to the
  channel the relay stored the event under.
\<close>

section \<open>Filters\<close>

text \<open>Some tag of the event has this key and one of these values.\<close>

definition tag_value_match :: "nostr_lib \<Rightarrow> stored_event \<Rightarrow> string \<Rightarrow> string list \<Rightarrow> bool" where
  "tag_value_match L ev key values \<longleftrightarrow>
     list_ex (\<lambda>v. list_ex (\<lambda>t. tag_kind_str L t = key \<and> tag_content L t = Some v)
                    (ev_tags (event ev)))
       values"

fun generic_tags_match ::
  "nostr_lib \<Rightarrow> stored_event \<Rightarrow> (single_letter_tag, string list) amap \<Rightarrow> bool" where
  "generic_tags_match L ev [] = True"
| "generic_tags_match L ev ((tag_key, tag_values) # rest) =
     (let key = slt_str L tag_key;
          has_match = tag_value_match L ev key tag_values
      in if \<not> has_match \<and> key = ''h'' then
           (if \<not> list_ex (\<lambda>t. tag_kind_str L t = ''h'') (ev_tags (event ev)) then
              (case channel_id ev of
                 Some ch \<Rightarrow>
                   if \<not> list_ex (\<lambda>v. v = uuid_str L ch) tag_values then False
                   else generic_tags_match L ev rest
               | None \<Rightarrow> False)
            else False)
         else if \<not> has_match then False
         else generic_tags_match L ev rest)"

definition filter_match_one :: "nostr_lib \<Rightarrow> nfilter \<Rightarrow> stored_event \<Rightarrow> bool" where
  "filter_match_one L f ev =
     (if (case f_kinds f of Some ks \<Rightarrow> ev_kind (event ev) \<notin> set ks | None \<Rightarrow> False) then False
      else if (case f_authors f of Some as \<Rightarrow> ev_pubkey (event ev) \<notin> set as | None \<Rightarrow> False) then False
      else if (case f_since f of Some s \<Rightarrow> ev_created_at (event ev) < s | None \<Rightarrow> False) then False
      else if (case f_until f of Some u \<Rightarrow> ev_created_at (event ev) > u | None \<Rightarrow> False) then False
      else if (case f_ids f of
                 Some ids \<Rightarrow>
                   \<not> list_ex (\<lambda>i. starts_with (id_to_hex L (ev_id (event ev))) (id_to_hex L i)) ids
               | None \<Rightarrow> False) then False
      else generic_tags_match L ev (f_generic_tags f))"

definition filters_match :: "nostr_lib \<Rightarrow> nfilter list \<Rightarrow> stored_event \<Rightarrow> bool" where
  "filters_match L fs ev = list_ex (\<lambda>f. filter_match_one L f ev) fs"

text \<open>\<open>reader_authorized_for_event\<close>: the result-level gate on events private to one viewer.\<close>

definition reader_authorized_for_event :: "nostr_lib \<Rightarrow> event \<Rightarrow> string \<Rightarrow> bool" where
  "reader_authorized_for_event L e reader_hex =
     (let kind = event_kind_u32 e
      in if kind \<noteq> KIND_DM_VISIBILITY \<and> kind \<noteq> KIND_AGENT_TURN_METRIC then True
         else list_ex (\<lambda>t. tag_has_letter L p_tag t \<and> tag_content L t = Some reader_hex) (ev_tags e))"

section \<open>Thread markers\<close>

record thread_markers =
  root :: "string option"
  reply :: "string option"

definition resolve :: "thread_markers \<Rightarrow> (string \<times> string) option" where
  "resolve m =
     (case (root m, reply m) of
        (Some r, Some p) \<Rightarrow> Some (r, p)
      | (None, Some p) \<Rightarrow> Some (p, p)
      | (Some _, None) \<Rightarrow> None
      | (None, None) \<Rightarrow> None)"

definition is_event_id_hex :: "string \<Rightarrow> bool" where
  "is_event_id_hex i \<longleftrightarrow> length i = 64 \<and> list_all is_ascii_hexdigit i"

fun thread_markers_loop :: "tag list \<Rightarrow> thread_markers \<Rightarrow> thread_markers" where
  "thread_markers_loop [] m = m"
| "thread_markers_loop (parts # rest) m =
     thread_markers_loop rest
       (if length parts \<ge> 4 \<and> parts ! 0 = ''e'' \<and> is_event_id_hex (parts ! 1) then
          (if parts ! 3 = ''root'' then m\<lparr>root := Some (parts ! 1)\<rparr>
           else if parts ! 3 = ''reply'' then m\<lparr>reply := Some (parts ! 1)\<rparr>
           else m)
        else m)"

definition parse_thread_markers_from_parts :: "tag list \<Rightarrow> thread_markers" where
  "parse_thread_markers_from_parts tags = thread_markers_loop tags \<lparr>root = None, reply = None\<rparr>"

definition parse_thread_markers :: "event \<Rightarrow> thread_markers" where
  "parse_thread_markers e = parse_thread_markers_from_parts (ev_tags e)"

section \<open>Facts about filters\<close>

text \<open>The condition one entry of \<open>generic_tags\<close> imposes.\<close>

definition tag_entry_ok :: "nostr_lib \<Rightarrow> stored_event \<Rightarrow> single_letter_tag \<Rightarrow> string list \<Rightarrow> bool" where
  "tag_entry_ok L ev k vs \<longleftrightarrow>
     tag_value_match L ev (slt_str L k) vs
     \<or> (slt_str L k = ''h''
        \<and> (\<forall>t\<in>set (ev_tags (event ev)). tag_kind_str L t \<noteq> ''h'')
        \<and> (\<exists>ch. channel_id ev = Some ch \<and> uuid_str L ch \<in> set vs))"

lemma generic_tags_match_iff:
  "generic_tags_match L ev m \<longleftrightarrow> (\<forall>(k, vs)\<in>set m. tag_entry_ok L ev k vs)"
proof (induction m)
  case Nil
  then show ?case by simp
next
  case (Cons e m)
  obtain k vs where "e = (k, vs)" by (cases e)
  with Cons show ?case
    by (auto simp: tag_entry_ok_def Let_def list_ex_iff split: option.splits)
qed

lemma filter_match_one_iff:
  "filter_match_one L f ev \<longleftrightarrow>
     (\<forall>ks. f_kinds f = Some ks \<longrightarrow> ev_kind (event ev) \<in> set ks)
     \<and> (\<forall>as. f_authors f = Some as \<longrightarrow> ev_pubkey (event ev) \<in> set as)
     \<and> (\<forall>s. f_since f = Some s \<longrightarrow> s \<le> ev_created_at (event ev))
     \<and> (\<forall>u. f_until f = Some u \<longrightarrow> ev_created_at (event ev) \<le> u)
     \<and> (\<forall>ids. f_ids f = Some ids \<longrightarrow>
          (\<exists>i\<in>set ids. starts_with (id_to_hex L (ev_id (event ev))) (id_to_hex L i)))
     \<and> (\<forall>(k, vs)\<in>set (f_generic_tags f). tag_entry_ok L ev k vs)"
  by (auto simp: filter_match_one_def generic_tags_match_iff list_ex_iff not_less
      split: option.splits)

lemma filter_match_kind:
  "filter_match_one L f ev \<Longrightarrow> f_kinds f = Some ks \<Longrightarrow> ev_kind (event ev) \<in> set ks"
  by (simp add: filter_match_one_iff)

lemma filter_match_p_tag:
  assumes "filter_match_one L f ev" and "map_of (f_generic_tags f) p_tag = Some ps"
    and "slt_str L p_tag = ''p''"
  shows "\<exists>p\<in>set ps. \<exists>t\<in>set (ev_tags (event ev)). tag_kind_str L t = ''p'' \<and> tag_content L t = Some p"
proof -
  from assms(2) have "(p_tag, ps) \<in> set (f_generic_tags f)" by (rule map_of_SomeD)
  with assms(1) have "tag_entry_ok L ev p_tag ps"
    by (auto simp: filter_match_one_iff)
  with assms(3) show ?thesis
    by (auto simp: tag_entry_ok_def tag_value_match_def list_ex_iff)
qed

section \<open>Facts about thread markers\<close>

text \<open>The valid markers of one kind, in order of their occurrence.\<close>

definition marker_ids :: "string \<Rightarrow> tag list \<Rightarrow> string list" where
  "marker_ids marker tags =
     map (\<lambda>t. t ! 1)
       (filter (\<lambda>t. length t \<ge> 4 \<and> t ! 0 = ''e'' \<and> is_event_id_hex (t ! 1) \<and> t ! 3 = marker) tags)"

definition last_opt :: "'a list \<Rightarrow> 'a option" where
  "last_opt xs = (if xs = [] then None else Some (last xs))"

lemma thread_markers_loop_last:
  "root (thread_markers_loop tags m) =
     (if marker_ids ''root'' tags = [] then root m else Some (last (marker_ids ''root'' tags)))
   \<and> reply (thread_markers_loop tags m) =
     (if marker_ids ''reply'' tags = [] then reply m else Some (last (marker_ids ''reply'' tags)))"
  by (induction tags m rule: thread_markers_loop.induct) (auto simp: marker_ids_def)

text \<open>
  Thread markers: the parser keeps, for each of \<open>root\<close> and \<open>reply\<close>, the last tag of that marker
  whose id is sixty-four hexadecimal characters; an event resolves to a root and a parent exactly when
  it has a valid reply marker, the parent is that reply target, and the root is the last valid root
  marker or, without one, the reply target itself.
\<close>

theorem thread_markers_resolve:
  "resolve (parse_thread_markers e) =
     (case last_opt (marker_ids ''reply'' (ev_tags e)) of
        None \<Rightarrow> None
      | Some p \<Rightarrow>
          Some (case last_opt (marker_ids ''root'' (ev_tags e)) of None \<Rightarrow> p | Some r \<Rightarrow> r, p))"
  using thread_markers_loop_last [of "ev_tags e" "\<lparr>root = None, reply = None\<rparr>"]
  by (auto simp: resolve_def parse_thread_markers_def parse_thread_markers_from_parts_def
      last_opt_def split: option.splits)

text \<open>
  The private-event gate: a reader is refused exactly the events of the result-gated kinds that
  carry no \<open>p\<close> tag naming the reader; every kind it gates is also gated at the filter layer.
\<close>

theorem reader_gate_exact:
  "(\<not> reader_authorized_for_event L e r \<longleftrightarrow>
      event_kind_u32 e \<in> set RESULT_GATED_KINDS
      \<and> \<not> (\<exists>t\<in>set (ev_tags e). tag_has_letter L p_tag t \<and> tag_content L t = Some r))
   \<and> set RESULT_GATED_KINDS \<subseteq> set P_GATED_KINDS"
  by (auto simp: reader_authorized_for_event_def Let_def RESULT_GATED_KINDS_def P_GATED_KINDS_def
      list_ex_iff)

end
