(* ===== verification/Subscription_Registry.thy ===== *)
theory Subscription_Registry
  imports Event_Filter
begin

text \<open>
  The relay's live-subscription registry (\<open>crates/buzz-relay/src/subscription.rs\<close>): the table of
  subscriptions per connection, the five fan-out indexes kept beside it, and the fan-out that reads
  the indexes instead of scanning the table.  Each operation is a function from the registry to the
  registry and its result.  The gauge \<open>buzz_subscriptions_active\<close> is a field of the state.
\<close>

section \<open>State\<close>

type_synonym conn_id = uuid
type_synonym sub_id = string
type_synonym community_id = uuid

datatype subscription_scope = Global | Channels "uuid list"

type_synonym sub_entry = "nfilter list \<times> community_id \<times> subscription_scope"
type_synonym sub_ref = "conn_id \<times> sub_id"

datatype index_key = IndexKey uuid u16
datatype global_p_kind_index_key = GlobalPKindIndexKey community_id u16 string

record removed_subscription =
  removed_community :: community_id
  removed_scope :: subscription_scope

record channel_subscription_update =
  updated_sub :: sub_id
  update_removed :: bool

record registry =
  subs :: "(conn_id, (sub_id, sub_entry) amap) amap"
  channel_kind_index :: "(community_id \<times> index_key, sub_ref list) amap"
  channel_wildcard_index :: "(community_id \<times> uuid, sub_ref list) amap"
  global_kind_index :: "(community_id \<times> u16, sub_ref list) amap"
  global_p_kind_index :: "(global_p_kind_index_key, sub_ref list) amap"
  global_wildcard_index :: "(community_id, sub_ref list) amap"
  subscriptions_active :: int

definition registry_new :: registry where
  "registry_new = \<lparr>subs = [], channel_kind_index = [], channel_wildcard_index = [],
     global_kind_index = [], global_p_kind_index = [], global_wildcard_index = [],
     subscriptions_active = 0\<rparr>"

section \<open>Scopes and index keys\<close>

fun matches_channel :: "subscription_scope \<Rightarrow> uuid option \<Rightarrow> bool" where
  "matches_channel Global None = True"
| "matches_channel (Channels channels) (Some ch) = (ch \<in> set channels)"
| "matches_channel _ _ = False"

fun channel_ids :: "subscription_scope \<Rightarrow> uuid list" where
  "channel_ids Global = []"
| "channel_ids (Channels channels) = channels"

fun is_global :: "subscription_scope \<Rightarrow> bool" where
  "is_global Global = True"
| "is_global (Channels _) = False"

fun extract_kinds_loop :: "nfilter list \<Rightarrow> u16 list \<Rightarrow> u16 list option" where
  "extract_kinds_loop [] kinds = Some kinds"
| "extract_kinds_loop (f # fs) kinds =
     (case f_kinds f of
        Some filter_kinds \<Rightarrow> extract_kinds_loop fs (foldl insert_new kinds filter_kinds)
      | None \<Rightarrow> None)"

definition extract_kinds_from_filters :: "nfilter list \<Rightarrow> u16 list option" where
  "extract_kinds_from_filters filters = extract_kinds_loop filters []"

fun extract_global_p_loop ::
  "community_id \<Rightarrow> nfilter list \<Rightarrow> global_p_kind_index_key list
     \<Rightarrow> global_p_kind_index_key list option" where
  "extract_global_p_loop c [] keys = Some keys"
| "extract_global_p_loop c (f # fs) keys =
     (case f_kinds f of
        None \<Rightarrow> None
      | Some kinds \<Rightarrow>
          if kinds = [] then extract_global_p_loop c fs keys
          else (case map_of (f_generic_tags f) p_tag of
                  None \<Rightarrow> None
                | Some p_values \<Rightarrow>
                    if p_values = [] then None
                    else extract_global_p_loop c fs
                      (foldl insert_new keys
                         [GlobalPKindIndexKey c kind p. kind \<leftarrow> kinds, p \<leftarrow> p_values])))"

definition extract_global_p_kind_index_keys ::
  "community_id \<Rightarrow> nfilter list \<Rightarrow> global_p_kind_index_key list option" where
  "extract_global_p_kind_index_keys c filters = extract_global_p_loop c filters []"

definition event_p_tag_values :: "nostr_lib \<Rightarrow> stored_event \<Rightarrow> string list" where
  "event_p_tag_values L ev =
     foldl (\<lambda>values tag.
              if tag_kind_str L tag \<noteq> ''p'' then values
              else (case tag_content L tag of
                      Some v \<Rightarrow> insert_new values v
                    | None \<Rightarrow> values))
       [] (ev_tags (event ev))"

section \<open>Index maintenance\<close>

text \<open>The indexing half of \<open>register_with_scope\<close>.\<close>

definition index_channel ::
  "sub_ref \<Rightarrow> nfilter list \<Rightarrow> community_id \<Rightarrow> registry \<Rightarrow> uuid \<Rightarrow> registry" where
  "index_channel x filters c reg ch =
     (case extract_kinds_from_filters filters of
        None \<Rightarrow>
          reg\<lparr>channel_wildcard_index := push_entry (c, ch) x (channel_wildcard_index reg)\<rparr>
      | Some kinds \<Rightarrow>
          if kinds = [] then reg
          else reg\<lparr>channel_kind_index :=
                 foldl (\<lambda>m kind. push_entry (c, IndexKey ch kind) x m) (channel_kind_index reg) kinds\<rparr>)"

definition add_to_index :: "sub_ref \<Rightarrow> sub_entry \<Rightarrow> registry \<Rightarrow> registry" where
  "add_to_index x entry reg =
     (case entry of (filters, c, scope) \<Rightarrow>
        (case scope of
           Channels chs \<Rightarrow> foldl (index_channel x filters c) reg chs
         | Global \<Rightarrow>
             (case extract_global_p_kind_index_keys c filters of
                Some keys \<Rightarrow>
                  reg\<lparr>global_p_kind_index :=
                        foldl (\<lambda>m key. push_entry key x m) (global_p_kind_index reg) keys\<rparr>
              | None \<Rightarrow>
                  (case extract_kinds_from_filters filters of
                     None \<Rightarrow>
                       reg\<lparr>global_wildcard_index := push_entry c x (global_wildcard_index reg)\<rparr>
                   | Some kinds \<Rightarrow>
                       if kinds = [] then reg
                       else reg\<lparr>global_kind_index :=
                              foldl (\<lambda>m kind. push_entry (c, kind) x m) (global_kind_index reg) kinds\<rparr>))))"

text \<open>\<open>entries.retain(...)\<close>: everything but the subscription itself.\<close>

definition unindex_channel ::
  "sub_ref \<Rightarrow> nfilter list \<Rightarrow> community_id \<Rightarrow> registry \<Rightarrow> uuid \<Rightarrow> registry" where
  "unindex_channel x filters c reg ch =
     (case extract_kinds_from_filters filters of
        None \<Rightarrow>
          reg\<lparr>channel_wildcard_index :=
                retain_entry (c, ch) (\<lambda>y. y \<noteq> x) (channel_wildcard_index reg)\<rparr>
      | Some kinds \<Rightarrow>
          if kinds = [] then reg
          else reg\<lparr>channel_kind_index :=
                 foldl (\<lambda>m kind. retain_entry (c, IndexKey ch kind) (\<lambda>y. y \<noteq> x) m)
                   (channel_kind_index reg) kinds\<rparr>)"

definition remove_from_index :: "sub_ref \<Rightarrow> sub_entry \<Rightarrow> registry \<Rightarrow> registry" where
  "remove_from_index x entry reg =
     (case entry of (filters, c, scope) \<Rightarrow>
        (case scope of
           Channels chs \<Rightarrow> foldl (unindex_channel x filters c) reg chs
         | Global \<Rightarrow>
             (case extract_global_p_kind_index_keys c filters of
                Some keys \<Rightarrow>
                  reg\<lparr>global_p_kind_index :=
                        foldl (\<lambda>m key. retain_entry key (\<lambda>y. y \<noteq> x) m) (global_p_kind_index reg) keys\<rparr>
              | None \<Rightarrow>
                  (case extract_kinds_from_filters filters of
                     None \<Rightarrow>
                       reg\<lparr>global_wildcard_index :=
                             retain_entry c (\<lambda>y. y \<noteq> x) (global_wildcard_index reg)\<rparr>
                   | Some kinds \<Rightarrow>
                       if kinds = [] then reg
                       else reg\<lparr>global_kind_index :=
                              foldl (\<lambda>m kind. retain_entry (c, kind) (\<lambda>y. y \<noteq> x) m)
                                (global_kind_index reg) kinds\<rparr>))))"

section \<open>Operations\<close>

definition remove_subscription ::
  "conn_id \<Rightarrow> sub_id \<Rightarrow> registry \<Rightarrow> registry \<times> removed_subscription option" where
  "remove_subscription conn sub reg =
     (case map_of (subs reg) conn of
        None \<Rightarrow> (reg, None)
      | Some conn_subs \<Rightarrow>
          (case map_of conn_subs sub of
             None \<Rightarrow> (reg, None)
           | Some (filters, c, scope) \<Rightarrow>
               (let reg1 = reg\<lparr>subs := AList.update conn (AList.delete sub conn_subs) (subs reg)\<rparr>;
                    reg2 = remove_from_index (conn, sub) (filters, c, scope) reg1
                in (reg2\<lparr>subscriptions_active := subscriptions_active reg2 - 1\<rparr>,
                    Some \<lparr>removed_community = c, removed_scope = scope\<rparr>))))"

definition register_with_scope ::
  "community_id \<Rightarrow> conn_id \<Rightarrow> sub_id \<Rightarrow> nfilter list \<Rightarrow> subscription_scope \<Rightarrow> registry
     \<Rightarrow> registry \<times> removed_subscription option" where
  "register_with_scope c conn sub filters scope reg =
     (let (reg1, removed) = remove_subscription conn sub reg;
          entry = (filters, c, scope);
          reg2 = reg1\<lparr>subs := AList.update conn (AList.update sub entry (get_list (subs reg1) conn))
                                (subs reg1),
                       subscriptions_active := subscriptions_active reg1 + 1\<rparr>
      in (add_to_index (conn, sub) entry reg2, removed))"

definition register_scoped ::
  "community_id \<Rightarrow> conn_id \<Rightarrow> sub_id \<Rightarrow> nfilter list \<Rightarrow> uuid option \<Rightarrow> registry
     \<Rightarrow> registry \<times> removed_subscription option" where
  "register_scoped c conn sub filters ch reg =
     register_with_scope c conn sub filters
       (case ch of Some ch \<Rightarrow> Channels [ch] | None \<Rightarrow> Global) reg"

definition register_channels_scoped ::
  "community_id \<Rightarrow> conn_id \<Rightarrow> sub_id \<Rightarrow> nfilter list \<Rightarrow> uuid list \<Rightarrow> registry
     \<Rightarrow> registry \<times> removed_subscription option" where
  "register_channels_scoped c conn sub filters chs reg =
     register_with_scope c conn sub filters (Channels chs) reg"

definition remove_connection ::
  "conn_id \<Rightarrow> registry \<Rightarrow> registry \<times> removed_subscription list" where
  "remove_connection conn reg =
     (case map_of (subs reg) conn of
        None \<Rightarrow> (reg, [])
      | Some conn_subs \<Rightarrow>
          (let reg1 = reg\<lparr>subs := AList.delete conn (subs reg)\<rparr>;
               reg2 = foldl (\<lambda>r (sub, entry). remove_from_index (conn, sub) entry r) reg1 conn_subs
           in (reg2\<lparr>subscriptions_active := subscriptions_active reg2 - int (length conn_subs)\<rparr>,
               map (\<lambda>(_, _, c, scope). \<lparr>removed_community = c, removed_scope = scope\<rparr>) conn_subs)))"

text \<open>One round of the loop of \<open>remove_channel_subscriptions_scoped\<close>; the subscription is looked up
  again in every round.\<close>

definition revoke_channel_from_sub ::
  "community_id \<Rightarrow> conn_id \<Rightarrow> uuid \<Rightarrow> registry \<times> channel_subscription_update list \<Rightarrow> sub_id
     \<Rightarrow> registry \<times> channel_subscription_update list" where
  "revoke_channel_from_sub c conn ch acc sub =
     (case acc of (reg, updates) \<Rightarrow>
        (case map_of (subs reg) conn of
           None \<Rightarrow> (reg, updates)
         | Some conn_subs \<Rightarrow>
             (case map_of conn_subs sub of
                None \<Rightarrow> (reg, updates)
              | Some (filters, sub_community, Global) \<Rightarrow> (reg, updates)
              | Some (filters, sub_community, Channels chs) \<Rightarrow>
                  (let chs' = filter (\<lambda>candidate. candidate \<noteq> ch) chs;
                       removed = (chs' = []);
                       reg1 = reg\<lparr>subs := AList.update conn
                                 (AList.update sub (filters, sub_community, Channels chs') conn_subs)
                                 (subs reg)\<rparr>;
                       reg2 = remove_from_index (conn, sub) (filters, c, Channels [ch]) reg1;
                       reg3 = (if removed
                               then reg2\<lparr>subs := AList.update conn
                                           (AList.delete sub (get_list (subs reg2) conn)) (subs reg2),
                                         subscriptions_active := subscriptions_active reg2 - 1\<rparr>
                               else reg2)
                   in (reg3, updates @ [\<lparr>updated_sub = sub, update_removed = removed\<rparr>])))))"

definition remove_channel_subscriptions_scoped ::
  "community_id \<Rightarrow> conn_id \<Rightarrow> uuid \<Rightarrow> registry \<Rightarrow> registry \<times> channel_subscription_update list" where
  "remove_channel_subscriptions_scoped c conn ch reg =
     (let sub_ids =
        (case map_of (subs reg) conn of
           None \<Rightarrow> []
         | Some conn_subs \<Rightarrow>
             map fst (filter (\<lambda>(_, _, sub_community, scope).
                                sub_community = c \<and> ch \<in> set (channel_ids scope)) conn_subs))
      in foldl (revoke_channel_from_sub c conn ch) (reg, []) sub_ids)"

section \<open>Fan-out and queries\<close>

definition lookup_sub :: "registry \<Rightarrow> sub_ref \<Rightarrow> sub_entry option" where
  "lookup_sub reg x = map_of (get_list (subs reg) (fst x)) (snd x)"

text \<open>\<open>push_match\<close>: the result list doubles as the \<open>seen\<close> set.\<close>

definition push_match ::
  "nostr_lib \<Rightarrow> registry \<Rightarrow> community_id \<Rightarrow> stored_event \<Rightarrow> sub_ref list \<Rightarrow> sub_ref \<Rightarrow> sub_ref list" where
  "push_match L reg c ev results x =
     (case map_of (subs reg) (fst x) of
        None \<Rightarrow> results
      | Some conn_subs \<Rightarrow>
          (case map_of conn_subs (snd x) of
             None \<Rightarrow> results
           | Some (filters, sub_community, scope) \<Rightarrow>
               if sub_community = c \<and> matches_channel scope (channel_id ev) \<and> filters_match L filters ev
               then insert_new results x else results))"

definition fan_out_scoped ::
  "nostr_lib \<Rightarrow> registry \<Rightarrow> community_id \<Rightarrow> stored_event \<Rightarrow> sub_ref list" where
  "fan_out_scoped L reg c ev =
     (let push = foldl (push_match L reg c ev);
          kind = ev_kind (event ev)
      in case channel_id ev of
           Some ch \<Rightarrow>
             push (push [] (get_list (channel_kind_index reg) (c, IndexKey ch kind)))
               (get_list (channel_wildcard_index reg) (c, ch))
         | None \<Rightarrow>
             push
               (push
                 (foldl (\<lambda>results p.
                           push results (get_list (global_p_kind_index reg) (GlobalPKindIndexKey c kind p)))
                   [] (event_p_tag_values L ev))
                 (get_list (global_kind_index reg) (c, kind)))
               (get_list (global_wildcard_index reg) c))"

definition channel_subscriber_conns_scoped ::
  "community_id \<Rightarrow> uuid \<Rightarrow> registry \<Rightarrow> conn_id list" where
  "channel_subscriber_conns_scoped c ch reg =
     (let conns = foldl (\<lambda>conns (key, entries).
                    (case key of (kc, IndexKey kch _) \<Rightarrow>
                       if kc = c \<and> kch = ch then foldl insert_new conns (map fst entries) else conns))
                    [] (channel_kind_index reg)
      in foldl insert_new conns (map fst (get_list (channel_wildcard_index reg) (c, ch))))"

definition get_filters :: "conn_id \<Rightarrow> sub_id \<Rightarrow> registry \<Rightarrow> nfilter list option" where
  "get_filters conn sub reg =
     (case map_of (subs reg) conn of
        None \<Rightarrow> None
      | Some conn_subs \<Rightarrow> map_option fst (map_of conn_subs sub))"

definition total_subscriptions :: "registry \<Rightarrow> nat" where
  "total_subscriptions reg = sum_list (map (length \<circ> snd) (subs reg))"

definition total_connections :: "registry \<Rightarrow> nat" where
  "total_connections reg = length (subs reg)"

definition per_community_subscriptions :: "registry \<Rightarrow> (community_id, nat) amap" where
  "per_community_subscriptions reg =
     foldl (\<lambda>counts c. AList.update c (Suc (case map_of counts c of None \<Rightarrow> 0 | Some n \<Rightarrow> n)) counts) []
       (concat (map (\<lambda>(_, conn_subs). map (\<lambda>(_, _, c, _). c) conn_subs) (subs reg)))"

section \<open>The keys of a subscription\<close>

definition channel_kind_keys :: "sub_entry \<Rightarrow> (community_id \<times> index_key) set" where
  "channel_kind_keys e =
     (case e of (fs, c, scope) \<Rightarrow>
        {(c, IndexKey ch k) | ch k ks. ch \<in> set (channel_ids scope)
           \<and> extract_kinds_from_filters fs = Some ks \<and> k \<in> set ks})"

definition channel_wildcard_keys :: "sub_entry \<Rightarrow> (community_id \<times> uuid) set" where
  "channel_wildcard_keys e =
     (case e of (fs, c, scope) \<Rightarrow>
        {(c, ch) | ch. ch \<in> set (channel_ids scope) \<and> extract_kinds_from_filters fs = None})"

definition global_p_kind_keys :: "sub_entry \<Rightarrow> global_p_kind_index_key set" where
  "global_p_kind_keys e =
     (case e of (fs, c, scope) \<Rightarrow>
        {k. scope = Global \<and> (\<exists>ks. extract_global_p_kind_index_keys c fs = Some ks \<and> k \<in> set ks)})"

definition global_kind_keys :: "sub_entry \<Rightarrow> (community_id \<times> u16) set" where
  "global_kind_keys e =
     (case e of (fs, c, scope) \<Rightarrow>
        {(c, k) | k ks. scope = Global \<and> extract_global_p_kind_index_keys c fs = None
           \<and> extract_kinds_from_filters fs = Some ks \<and> k \<in> set ks})"

definition global_wildcard_keys :: "sub_entry \<Rightarrow> community_id set" where
  "global_wildcard_keys e =
     (case e of (fs, c, scope) \<Rightarrow>
        {k. k = c \<and> scope = Global \<and> extract_global_p_kind_index_keys c fs = None
           \<and> extract_kinds_from_filters fs = None})"

lemmas key_defs = channel_kind_keys_def channel_wildcard_keys_def global_p_kind_keys_def
  global_kind_keys_def global_wildcard_keys_def

section \<open>The maintenance code meets the index contract\<close>

text \<open>Frame: maintenance of the indexes touches neither the table nor the gauge.\<close>

lemma index_channel_frame [simp]:
  "subs (index_channel x fs c reg ch) = subs reg"
  "subscriptions_active (index_channel x fs c reg ch) = subscriptions_active reg"
  "global_kind_index (index_channel x fs c reg ch) = global_kind_index reg"
  "global_p_kind_index (index_channel x fs c reg ch) = global_p_kind_index reg"
  "global_wildcard_index (index_channel x fs c reg ch) = global_wildcard_index reg"
  by (simp_all add: index_channel_def split: option.splits)

lemma unindex_channel_frame [simp]:
  "subs (unindex_channel x fs c reg ch) = subs reg"
  "subscriptions_active (unindex_channel x fs c reg ch) = subscriptions_active reg"
  "global_kind_index (unindex_channel x fs c reg ch) = global_kind_index reg"
  "global_p_kind_index (unindex_channel x fs c reg ch) = global_p_kind_index reg"
  "global_wildcard_index (unindex_channel x fs c reg ch) = global_wildcard_index reg"
  by (simp_all add: unindex_channel_def split: option.splits)

lemma foldl_frame: "(\<And>r ch. g (f r ch) = g r) \<Longrightarrow> g (foldl f reg chs) = g reg"
  by (induction chs arbitrary: reg) auto

lemma add_to_index_frame [simp]:
  "subs (add_to_index x e reg) = subs reg"
  "subscriptions_active (add_to_index x e reg) = subscriptions_active reg"
  by (auto simp: add_to_index_def foldl_frame [where g = subs]
      foldl_frame [where g = subscriptions_active]
      split: prod.splits subscription_scope.splits option.splits)

lemma remove_from_index_frame [simp]:
  "subs (remove_from_index x e reg) = subs reg"
  "subscriptions_active (remove_from_index x e reg) = subscriptions_active reg"
  by (auto simp: remove_from_index_def foldl_frame [where g = subs]
      foldl_frame [where g = subscriptions_active]
      split: prod.splits subscription_scope.splits option.splits)

lemma channel_indexes_fold_add:
  "set (get_list (channel_kind_index (foldl (index_channel x fs c) reg chs)) k) =
     set (get_list (channel_kind_index reg) k)
       \<union> (if k \<in> channel_kind_keys (fs, c, Channels chs) then {x} else {})"
  "set (get_list (channel_wildcard_index (foldl (index_channel x fs c) reg chs)) k') =
     set (get_list (channel_wildcard_index reg) k')
       \<union> (if k' \<in> channel_wildcard_keys (fs, c, Channels chs) then {x} else {})"
  by (induction chs arbitrary: reg)
    (auto simp: index_channel_def key_defs index_simps split: option.splits)

lemma channel_indexes_fold_remove:
  "set (get_list (channel_kind_index (foldl (unindex_channel x fs c) reg chs)) k) =
     set (get_list (channel_kind_index reg) k)
       - (if k \<in> channel_kind_keys (fs, c, Channels chs) then {x} else {})"
  "set (get_list (channel_wildcard_index (foldl (unindex_channel x fs c) reg chs)) k') =
     set (get_list (channel_wildcard_index reg) k')
       - (if k' \<in> channel_wildcard_keys (fs, c, Channels chs) then {x} else {})"
  by (induction chs arbitrary: reg)
    (auto simp: unindex_channel_def key_defs index_simps split: option.splits)

lemma channel_indexes_fold_no_empty:
  "entries_wf (channel_kind_index reg) \<Longrightarrow>
     entries_wf (channel_kind_index (foldl (index_channel x fs c) reg chs))"
  "entries_wf (channel_wildcard_index reg) \<Longrightarrow>
     entries_wf (channel_wildcard_index (foldl (index_channel x fs c) reg chs))"
  "entries_wf (channel_kind_index reg) \<Longrightarrow>
     entries_wf (channel_kind_index (foldl (unindex_channel x fs c) reg chs))"
  "entries_wf (channel_wildcard_index reg) \<Longrightarrow>
     entries_wf (channel_wildcard_index (foldl (unindex_channel x fs c) reg chs))"
  by (induction chs arbitrary: reg)
    (auto simp: index_channel_def unindex_channel_def no_empty_intros split: option.splits)

lemmas maintenance_simps =
  add_to_index_def remove_from_index_def channel_indexes_fold_add channel_indexes_fold_remove
  channel_indexes_fold_no_empty
  foldl_frame [where g = global_kind_index] foldl_frame [where g = global_p_kind_index]
  foldl_frame [where g = global_wildcard_index]
  set_get_list_foldl_push [where f = "\<lambda>k. k", simplified]
  set_get_list_foldl_retain [where f = "\<lambda>k. k", simplified]
  no_empty_foldl_push [where f = "\<lambda>k. k", simplified]
  no_empty_foldl_retain [where f = "\<lambda>k. k", simplified]

interpretation ck: maintained_index channel_kind_index channel_kind_keys add_to_index remove_from_index
  by unfold_locales
    (auto simp: maintenance_simps key_defs intro: no_empty_intros
      split: prod.splits subscription_scope.splits option.splits if_splits)

interpretation cw: maintained_index channel_wildcard_index channel_wildcard_keys add_to_index remove_from_index
  by unfold_locales
    (auto simp: maintenance_simps key_defs intro: no_empty_intros
      split: prod.splits subscription_scope.splits option.splits if_splits)

interpretation gk: maintained_index global_kind_index global_kind_keys add_to_index remove_from_index
  by unfold_locales
    (auto simp: maintenance_simps key_defs index_simps intro: no_empty_intros
      split: prod.splits subscription_scope.splits option.splits if_splits)

interpretation gp: maintained_index global_p_kind_index global_p_kind_keys add_to_index remove_from_index
  by unfold_locales
    (auto simp: maintenance_simps key_defs index_simps intro: no_empty_intros
      split: prod.splits subscription_scope.splits option.splits if_splits)

interpretation gw: maintained_index global_wildcard_index global_wildcard_keys add_to_index remove_from_index
  by unfold_locales
    (auto simp: maintenance_simps key_defs index_simps intro: no_empty_intros
      split: prod.splits subscription_scope.splits option.splits if_splits)

section \<open>The registry invariant\<close>

definition subs_wf :: "registry \<Rightarrow> bool" where
  "subs_wf reg \<longleftrightarrow>
     distinct (map fst (subs reg))
     \<and> (\<forall>conn. distinct (map fst (get_list (subs reg) conn)))"

definition index_inv :: "registry \<Rightarrow> (sub_ref \<Rightarrow> sub_entry option) \<Rightarrow> bool" where
  "index_inv reg tbl \<longleftrightarrow>
     indexes (channel_kind_index reg) channel_kind_keys tbl
     \<and> indexes (channel_wildcard_index reg) channel_wildcard_keys tbl
     \<and> indexes (global_kind_index reg) global_kind_keys tbl
     \<and> indexes (global_p_kind_index reg) global_p_kind_keys tbl
     \<and> indexes (global_wildcard_index reg) global_wildcard_keys tbl"

definition registry_inv :: "registry \<Rightarrow> bool" where
  "registry_inv reg \<longleftrightarrow>
     subs_wf reg \<and> index_inv reg (lookup_sub reg)
     \<and> subscriptions_active reg = int (total_subscriptions reg)"

lemma index_inv_add:
  "index_inv reg tbl \<Longrightarrow> tbl x = None \<Longrightarrow> index_inv (add_to_index x e reg) (tbl(x \<mapsto> e))"
  by (simp add: index_inv_def ck.indexes_add cw.indexes_add gk.indexes_add gp.indexes_add
      gw.indexes_add)

lemma index_inv_remove:
  "index_inv reg tbl \<Longrightarrow> tbl x = Some e \<Longrightarrow> index_inv (remove_from_index x e reg) (tbl(x := None))"
  by (simp add: index_inv_def ck.indexes_remove cw.indexes_remove gk.indexes_remove
      gp.indexes_remove gw.indexes_remove)

lemma index_inv_shrink:
  assumes "index_inv reg tbl" and "tbl x = Some (fs, c, Channels chs)"
  shows "index_inv (remove_from_index x (fs, c, Channels [ch]) reg)
           (tbl(x \<mapsto> (fs, c, Channels (filter (\<lambda>d. d \<noteq> ch) chs))))"
proof -
  have "channel_kind_keys (fs, c, Channels (filter (\<lambda>d. d \<noteq> ch) chs))
      = channel_kind_keys (fs, c, Channels chs) - channel_kind_keys (fs, c, Channels [ch])"
    "channel_wildcard_keys (fs, c, Channels (filter (\<lambda>d. d \<noteq> ch) chs))
      = channel_wildcard_keys (fs, c, Channels chs) - channel_wildcard_keys (fs, c, Channels [ch])"
    "global_kind_keys (fs, c, Channels (filter (\<lambda>d. d \<noteq> ch) chs))
      = global_kind_keys (fs, c, Channels chs) - global_kind_keys (fs, c, Channels [ch])"
    "global_p_kind_keys (fs, c, Channels (filter (\<lambda>d. d \<noteq> ch) chs))
      = global_p_kind_keys (fs, c, Channels chs) - global_p_kind_keys (fs, c, Channels [ch])"
    "global_wildcard_keys (fs, c, Channels (filter (\<lambda>d. d \<noteq> ch) chs))
      = global_wildcard_keys (fs, c, Channels chs) - global_wildcard_keys (fs, c, Channels [ch])"
    by (auto simp: key_defs)
  with assms show ?thesis
    unfolding index_inv_def
    by (simp only: ck.indexes_shrink cw.indexes_shrink gk.indexes_shrink gp.indexes_shrink
        gw.indexes_shrink simp_thms)
qed

lemma index_inv_cong:
  "channel_kind_index r = channel_kind_index r' \<Longrightarrow>
   channel_wildcard_index r = channel_wildcard_index r' \<Longrightarrow>
   global_kind_index r = global_kind_index r' \<Longrightarrow>
   global_p_kind_index r = global_p_kind_index r' \<Longrightarrow>
   global_wildcard_index r = global_wildcard_index r' \<Longrightarrow> index_inv r tbl = index_inv r' tbl"
  by (simp add: index_inv_def)

text \<open>The table under the two ways the code updates it.\<close>

lemma get_list_Some [simp]: "map_of m k = Some v \<Longrightarrow> get_list m k = v"
  by (simp add: get_list_def)

lemma lookup_sub_update_conn:
  "lookup_sub (reg\<lparr>subs := AList.update conn m (subs reg)\<rparr>) =
     (\<lambda>x. if fst x = conn then map_of m (snd x) else lookup_sub reg x)"
  by (auto simp: lookup_sub_def)

lemma lookup_sub_cong: "subs r = subs r' \<Longrightarrow> lookup_sub r = lookup_sub r'"
  by (simp add: lookup_sub_def fun_eq_iff)

lemma subs_wf_update:
  "subs_wf reg \<Longrightarrow> distinct (map fst m) \<Longrightarrow> subs_wf (reg\<lparr>subs := AList.update conn m (subs reg)\<rparr>)"
  by (auto simp: subs_wf_def distinct_update)

lemma subs_wf_inner: "subs_wf reg \<Longrightarrow> map_of (subs reg) conn = Some m \<Longrightarrow> distinct (map fst m)"
  by (metis get_list_Some subs_wf_def)

lemma sum_list_update:
  "distinct (map fst m) \<Longrightarrow>
     sum_list (map (\<lambda>p. length (snd p)) (AList.update k v m)) + length (get_list m k)
       = sum_list (map (\<lambda>p. length (snd p)) m) + length v"
proof (induction m)
  case Nil
  then show ?case by simp
next
  case (Cons p m)
  obtain a b where p: "p = (a, b)" by (cases p)
  show ?case
  proof (cases "a = k")
    case True
    with p show ?thesis by (simp add: get_list_def)
  next
    case False
    with p Cons show ?thesis by (simp add: get_list_def)
  qed
qed

lemma total_subscriptions_update:
  "subs_wf reg \<Longrightarrow>
     total_subscriptions (reg\<lparr>subs := AList.update conn m (subs reg)\<rparr>) + length (get_list (subs reg) conn)
       = total_subscriptions reg + length m"
  using sum_list_update [of "subs reg" conn m]
  by (simp add: total_subscriptions_def subs_wf_def comp_def)

lemma sum_list_delete:
  "distinct (map fst m) \<Longrightarrow>
     sum_list (map (\<lambda>p. length (snd p)) (AList.delete k m)) + length (get_list m k)
       = sum_list (map (\<lambda>p. length (snd p)) m)"
proof (induction m)
  case Nil
  then show ?case by simp
next
  case (Cons p m)
  obtain a b where p: "p = (a, b)" by (cases p)
  show ?case
  proof (cases "a = k")
    case True
    with p Cons.prems have "AList.delete k m = m"
      by (intro delete_id) simp
    with p True show ?thesis by (simp add: get_list_def)
  next
    case False
    with p Cons show ?thesis by (simp add: get_list_def)
  qed
qed

lemma length_alist_update:
  "length (AList.update k v m) = (if map_of m k = None then Suc (length m) else length m)"
  by (induction m) auto

lemma length_alist_delete:
  "distinct (map fst m) \<Longrightarrow> map_of m k = Some v \<Longrightarrow> Suc (length (AList.delete k m)) = length m"
proof (induction m)
  case Nil
  then show ?case by simp
next
  case (Cons p m)
  show ?case
  proof (cases "fst p = k")
    case True
    with Cons.prems(1) have "k \<notin> fst ` set m" by auto
    then have "AList.delete k m = m" by (rule delete_id)
    with True show ?thesis by (cases p) simp
  next
    case False
    with Cons show ?thesis by (cases p) auto
  qed
qed

section \<open>Every operation keeps the invariant\<close>

lemma registry_inv_new: "registry_inv registry_new"
  by (simp add: registry_inv_def registry_new_def subs_wf_def index_inv_def indexes_def
      entries_wf_def lookup_sub_def total_subscriptions_def)

text \<open>What \<open>remove_subscription\<close> does to the table, and what it reports.\<close>

lemma lookup_sub_conn:
  "lookup_sub reg (conn, sub) =
     (case map_of (subs reg) conn of None \<Rightarrow> None | Some m \<Rightarrow> map_of m sub)"
  by (simp add: lookup_sub_def get_list_def split: option.splits)

lemma remove_subscription_None:
  "lookup_sub reg (conn, sub) = None \<Longrightarrow> remove_subscription conn sub reg = (reg, None)"
  by (auto simp: lookup_sub_conn remove_subscription_def split: option.splits)

lemma remove_subscription_Some:
  assumes "registry_inv reg" and "lookup_sub reg (conn, sub) = Some (fs, c, scope)"
  shows "\<exists>reg'. remove_subscription conn sub reg
              = (reg', Some \<lparr>removed_community = c, removed_scope = scope\<rparr>)
            \<and> registry_inv reg' \<and> lookup_sub reg' = (lookup_sub reg)((conn, sub) := None)"
proof -
  obtain m where m: "map_of (subs reg) conn = Some m" "map_of m sub = Some (fs, c, scope)"
    using assms(2) by (auto simp: lookup_sub_conn split: option.splits)
  let ?reg1 = "reg\<lparr>subs := AList.update conn (AList.delete sub m) (subs reg)\<rparr>"
  let ?reg2 = "remove_from_index (conn, sub) (fs, c, scope) ?reg1"
  let ?reg' = "?reg2\<lparr>subscriptions_active := subscriptions_active ?reg2 - 1\<rparr>"
  have wf: "subs_wf reg" and inner: "distinct (map fst m)"
    using assms(1) m(1) subs_wf_inner by (auto simp: registry_inv_def)
  have "lookup_sub ?reg1 = (lookup_sub reg)((conn, sub) := None)"
    using m by (auto simp: lookup_sub_update_conn lookup_sub_def fun_eq_iff)
  moreover have "lookup_sub ?reg' = lookup_sub ?reg1" by (rule lookup_sub_cong) simp
  ultimately have tbl: "lookup_sub ?reg' = (lookup_sub reg)((conn, sub) := None)"
    by (simp only:)
  have "index_inv ?reg1 (lookup_sub reg)"
    using assms(1) by (simp add: registry_inv_def index_inv_def)
  then have "index_inv ?reg2 (lookup_sub ?reg')"
    unfolding tbl using assms(2) by (rule index_inv_remove)
  then have idx: "index_inv ?reg' (lookup_sub ?reg')"
    by (simp add: index_inv_def)
  have "subs_wf ?reg1"
    using wf inner by (intro subs_wf_update distinct_delete)
  then have wf': "subs_wf ?reg'" by (simp add: subs_wf_def)
  have "total_subscriptions ?reg1 + 1 = total_subscriptions reg"
    using total_subscriptions_update [OF wf, of conn "AList.delete sub m"] m
      length_alist_delete [OF inner m(2)] by simp
  then have "total_subscriptions ?reg' + 1 = total_subscriptions reg"
    by (simp add: total_subscriptions_def)
  then have "subscriptions_active ?reg' = int (total_subscriptions ?reg')"
    using assms(1) by (simp add: registry_inv_def)
  with idx wf' have "registry_inv ?reg'" by (simp add: registry_inv_def)
  moreover have "remove_subscription conn sub reg
      = (?reg', Some \<lparr>removed_community = c, removed_scope = scope\<rparr>)"
    using m by (simp add: remove_subscription_def Let_def)
  ultimately show ?thesis using tbl by blast
qed

lemma remove_subscription_spec:
  assumes "registry_inv reg"
  shows "registry_inv (fst (remove_subscription conn sub reg))
         \<and> lookup_sub (fst (remove_subscription conn sub reg)) = (lookup_sub reg)((conn, sub) := None)
         \<and> snd (remove_subscription conn sub reg) =
             map_option (\<lambda>(fs, c, scope). \<lparr>removed_community = c, removed_scope = scope\<rparr>)
               (lookup_sub reg (conn, sub))"
proof (cases "lookup_sub reg (conn, sub)")
  case None
  with assms remove_subscription_None [OF None] show ?thesis by (auto simp: fun_eq_iff)
next
  case (Some e)
  obtain fs c scope where e: "e = (fs, c, scope)" by (cases e)
  from remove_subscription_Some [OF assms Some [unfolded e]] Some e show ?thesis by auto
qed

text \<open>Inserting a fresh subscription.\<close>

lemma insert_fresh_inv:
  assumes inv: "registry_inv reg" and fresh: "lookup_sub reg (conn, sub) = None"
  shows "let reg2 = reg\<lparr>subs := AList.update conn (AList.update sub e (get_list (subs reg) conn)) (subs reg),
                        subscriptions_active := subscriptions_active reg + 1\<rparr>
         in registry_inv (add_to_index (conn, sub) e reg2)
            \<and> lookup_sub (add_to_index (conn, sub) e reg2) = (lookup_sub reg)((conn, sub) \<mapsto> e)"
proof -
  let ?m = "AList.update sub e (get_list (subs reg) conn)"
  let ?reg1 = "reg\<lparr>subs := AList.update conn ?m (subs reg)\<rparr>"
  let ?reg2 = "?reg1\<lparr>subscriptions_active := subscriptions_active reg + 1\<rparr>"
  let ?reg3 = "add_to_index (conn, sub) e ?reg2"
  have wf: "subs_wf reg" using inv by (simp add: registry_inv_def)
  then have inner: "distinct (map fst (get_list (subs reg) conn))" by (simp add: subs_wf_def)
  have "lookup_sub ?reg1 = (lookup_sub reg)((conn, sub) \<mapsto> e)"
    by (auto simp: lookup_sub_update_conn lookup_sub_def fun_eq_iff)
  moreover have "lookup_sub ?reg3 = lookup_sub ?reg1" by (rule lookup_sub_cong) simp
  ultimately have tbl: "lookup_sub ?reg3 = (lookup_sub reg)((conn, sub) \<mapsto> e)"
    by (simp only:)
  have "index_inv ?reg2 (lookup_sub reg)"
    using inv by (simp add: registry_inv_def index_inv_def)
  then have idx: "index_inv ?reg3 (lookup_sub ?reg3)"
    unfolding tbl using fresh by (rule index_inv_add)
  have "subs_wf ?reg1"
    using wf inner by (intro subs_wf_update distinct_update)
  then have wf': "subs_wf ?reg3" by (simp add: subs_wf_def)
  have "length ?m = Suc (length (get_list (subs reg) conn))"
    using fresh by (simp add: length_alist_update lookup_sub_def)
  then have "total_subscriptions ?reg1 = total_subscriptions reg + 1"
    using total_subscriptions_update [OF wf, of conn ?m] by simp
  then have "subscriptions_active ?reg3 = int (total_subscriptions ?reg3)"
    using inv by (simp add: registry_inv_def total_subscriptions_def)
  with idx wf' have "registry_inv ?reg3" by (simp add: registry_inv_def)
  with tbl show ?thesis by (simp add: Let_def)
qed

lemma register_with_scope_spec:
  assumes "registry_inv reg"
  shows "registry_inv (fst (register_with_scope c conn sub fs scope reg))
         \<and> lookup_sub (fst (register_with_scope c conn sub fs scope reg))
             = (lookup_sub reg)((conn, sub) \<mapsto> (fs, c, scope))
         \<and> snd (register_with_scope c conn sub fs scope reg)
             = snd (remove_subscription conn sub reg)"
proof -
  obtain reg1 removed where r: "remove_subscription conn sub reg = (reg1, removed)"
    by (cases "remove_subscription conn sub reg")
  have inv1: "registry_inv reg1" and tbl1: "lookup_sub reg1 = (lookup_sub reg)((conn, sub) := None)"
    using remove_subscription_spec [OF assms, of conn sub] r by auto
  then have "lookup_sub reg1 (conn, sub) = None" by simp
  from insert_fresh_inv [OF inv1 this, of "(fs, c, scope)"] show ?thesis
    by (auto simp: register_with_scope_def r tbl1 Let_def)
qed

lemma remove_connection_index:
  assumes "distinct (map fst m)" and "\<forall>(sub, e)\<in>set m. tbl (conn, sub) = Some e"
    and "index_inv reg tbl"
  shows "index_inv (foldl (\<lambda>r (sub, e). remove_from_index (conn, sub) e r) reg m)
           (\<lambda>x. if fst x = conn \<and> snd x \<in> fst ` set m then None else tbl x)
         \<and> subs (foldl (\<lambda>r (sub, e). remove_from_index (conn, sub) e r) reg m) = subs reg
         \<and> subscriptions_active (foldl (\<lambda>r (sub, e). remove_from_index (conn, sub) e r) reg m)
             = subscriptions_active reg"
  using assms
proof (induction m arbitrary: reg tbl)
  case Nil
  then show ?case by simp
next
  case (Cons p m)
  obtain sub e where p: "p = (sub, e)" by (cases p)
  let ?tbl = "tbl((conn, sub) := None)"
  have d: "distinct (map fst m)" using Cons.prems(1) by simp
  have idx: "index_inv (remove_from_index (conn, sub) e reg) ?tbl"
    using Cons.prems p by (intro index_inv_remove) auto
  have rows: "\<forall>(s, e)\<in>set m. ?tbl (conn, s) = Some e"
    using Cons.prems(1,2) p by (force simp: rev_image_eqI)
  have IH: "index_inv (foldl (\<lambda>r (sub, e). remove_from_index (conn, sub) e r)
        (remove_from_index (conn, sub) e reg) m)
      (\<lambda>x. if fst x = conn \<and> snd x \<in> fst ` set m then None else ?tbl x)"
    and frames: "subs (foldl (\<lambda>r (sub, e). remove_from_index (conn, sub) e r)
        (remove_from_index (conn, sub) e reg) m) = subs reg"
      "subscriptions_active (foldl (\<lambda>r (sub, e). remove_from_index (conn, sub) e r)
        (remove_from_index (conn, sub) e reg) m) = subscriptions_active reg"
    using Cons.IH [OF d rows idx] by simp_all
  have "(\<lambda>x. if fst x = conn \<and> snd x \<in> fst ` set m then None else ?tbl x)
      = (\<lambda>x. if fst x = conn \<and> snd x \<in> fst ` set (p # m) then None else tbl x)"
    using p by (auto simp: fun_eq_iff)
  with IH frames p show ?case by simp
qed

lemma remove_connection_spec:
  assumes "registry_inv reg"
  shows "registry_inv (fst (remove_connection conn reg))
         \<and> lookup_sub (fst (remove_connection conn reg))
             = (\<lambda>x. if fst x = conn then None else lookup_sub reg x)"
proof (cases "map_of (subs reg) conn")
  case None
  then have "lookup_sub reg x = None" if "fst x = conn" for x
    using that by (simp add: lookup_sub_def get_list_def)
  with None assms show ?thesis by (auto simp: remove_connection_def fun_eq_iff)
next
  case (Some m)
  let ?reg1 = "reg\<lparr>subs := AList.delete conn (subs reg)\<rparr>"
  let ?reg2 = "foldl (\<lambda>r (sub, e). remove_from_index (conn, sub) e r) ?reg1 m"
  let ?reg3 = "?reg2\<lparr>subscriptions_active := subscriptions_active ?reg2 - int (length m)\<rparr>"
  have wf: "subs_wf reg" and inner: "distinct (map fst m)"
    using assms Some subs_wf_inner by (auto simp: registry_inv_def)
  have rows: "\<forall>(sub, e)\<in>set m. lookup_sub reg (conn, sub) = Some e"
    using inner Some by (auto simp: lookup_sub_def)
  have "index_inv ?reg1 (lookup_sub reg)"
    using assms by (simp add: registry_inv_def index_inv_def)
  from remove_connection_index [OF inner rows this]
  have idx: "index_inv ?reg2 (\<lambda>x. if fst x = conn \<and> snd x \<in> fst ` set m then None else lookup_sub reg x)"
    and fr: "subs ?reg2 = AList.delete conn (subs reg)"
      "subscriptions_active ?reg2 = subscriptions_active reg"
    by auto
  have tbl: "lookup_sub ?reg3 = (\<lambda>x. if fst x = conn then None else lookup_sub reg x)"
    by (auto simp: lookup_sub_def fr fun_eq_iff)
  have eq: "lookup_sub ?reg3 = (\<lambda>x. if fst x = conn \<and> snd x \<in> fst ` set m then None else lookup_sub reg x)"
  proof -
    have "map_of m s = None" if "s \<notin> fst ` set m" for s
      using that by (simp add: map_of_eq_None_iff)
    then show ?thesis unfolding tbl using Some by (auto simp: fun_eq_iff lookup_sub_def)
  qed
  have "index_inv ?reg3 (lookup_sub ?reg3)"
    unfolding eq using idx by (simp add: index_inv_def)
  moreover have "subs_wf ?reg3"
    using wf by (auto simp: subs_wf_def fr distinct_delete)
  moreover have "subscriptions_active ?reg3 = int (total_subscriptions ?reg3)"
    using assms sum_list_delete [of "subs reg" conn] wf Some
    by (simp add: registry_inv_def total_subscriptions_def fr comp_def subs_wf_def)
  ultimately show ?thesis
    using tbl Some by (simp add: registry_inv_def remove_connection_def Let_def)
qed

subsection \<open>Revoking a channel\<close>

text \<open>What revoking a channel makes of a subscription of that community.\<close>

fun revoke_entry :: "uuid \<Rightarrow> sub_entry \<Rightarrow> sub_entry option" where
  "revoke_entry ch (fs, c, Global) = Some (fs, c, Global)"
| "revoke_entry ch (fs, c, Channels chs) =
     (let chs' = filter (\<lambda>d. d \<noteq> ch) chs
      in if ch \<in> set chs \<and> chs' = [] then None else Some (fs, c, Channels chs'))"

lemma index_inv_no_channels:
  "index_inv reg (tbl(x \<mapsto> (fs, c, Channels []))) = index_inv reg (tbl(x := None))"
  by (simp add: index_inv_def key_defs indexes_no_keys)

lemma revoke_channel_from_sub_spec:
  assumes inv: "registry_inv reg" and row: "lookup_sub reg (conn, sub) = Some (fs, c, Channels chs)"
    and ch: "ch \<in> set chs"
  shows "\<exists>reg'. revoke_channel_from_sub c conn ch (reg, ups) sub
              = (reg', ups @ [\<lparr>updated_sub = sub, update_removed = (filter (\<lambda>d. d \<noteq> ch) chs = [])\<rparr>])
            \<and> registry_inv reg'
            \<and> lookup_sub reg' = (lookup_sub reg)((conn, sub) := revoke_entry ch (fs, c, Channels chs))"
proof -
  obtain m where m: "map_of (subs reg) conn = Some m" "map_of m sub = Some (fs, c, Channels chs)"
    using row by (auto simp: lookup_sub_conn split: option.splits)
  let ?chs = "filter (\<lambda>d. d \<noteq> ch) chs" and ?e = "(fs, c, Channels (filter (\<lambda>d. d \<noteq> ch) chs))"
  let ?m1 = "AList.update sub ?e m"
  let ?reg1 = "reg\<lparr>subs := AList.update conn ?m1 (subs reg)\<rparr>"
  let ?reg2 = "remove_from_index (conn, sub) (fs, c, Channels [ch]) ?reg1"
  have wf: "subs_wf reg" and inner: "distinct (map fst m)"
    using inv m(1) subs_wf_inner by (auto simp: registry_inv_def)
  have inner1: "distinct (map fst ?m1)" using inner by (rule distinct_update)
  have "lookup_sub ?reg1 = (lookup_sub reg)((conn, sub) \<mapsto> ?e)"
    using m by (auto simp: lookup_sub_update_conn lookup_sub_def fun_eq_iff)
  moreover have "lookup_sub ?reg2 = lookup_sub ?reg1" by (rule lookup_sub_cong) simp
  ultimately have tbl2: "lookup_sub ?reg2 = (lookup_sub reg)((conn, sub) \<mapsto> ?e)" by (simp only:)
  have "index_inv ?reg1 (lookup_sub reg)"
    using inv by (simp add: registry_inv_def index_inv_def)
  then have idx2: "index_inv ?reg2 (lookup_sub ?reg2)"
    unfolding tbl2 using row by (rule index_inv_shrink)
  have "subs_wf ?reg1" using wf inner1 by (rule subs_wf_update)
  then have wf2: "subs_wf ?reg2" by (simp add: subs_wf_def)
  have "total_subscriptions ?reg1 = total_subscriptions reg"
    using total_subscriptions_update [OF wf, of conn ?m1] m by (simp add: length_alist_update)
  then have tot2: "subscriptions_active ?reg2 = int (total_subscriptions ?reg2)"
    using inv by (simp add: registry_inv_def total_subscriptions_def)
  have inv2: "registry_inv ?reg2" using idx2 wf2 tot2 by (simp add: registry_inv_def)
  show ?thesis
  proof (cases "?chs = []")
    case False
    with m inv2 tbl2 show ?thesis by (simp add: revoke_channel_from_sub_def Let_def)
  next
    case True
    let ?m3 = "AList.delete sub (get_list (subs ?reg2) conn)"
    let ?reg3 = "?reg2\<lparr>subs := AList.update conn ?m3 (subs ?reg2)\<rparr>"
    let ?reg4 = "?reg3\<lparr>subscriptions_active := subscriptions_active ?reg2 - 1\<rparr>"
    have get2: "get_list (subs ?reg2) conn = ?m1" by simp
    have "lookup_sub ?reg3 = (lookup_sub reg)((conn, sub) := None)"
      using m tbl2 get2 by (auto simp: lookup_sub_update_conn lookup_sub_def fun_eq_iff)
    moreover have "lookup_sub ?reg4 = lookup_sub ?reg3" by (rule lookup_sub_cong) simp
    ultimately have tbl4: "lookup_sub ?reg4 = (lookup_sub reg)((conn, sub) := None)" by (simp only:)
    have "index_inv ?reg2 ((lookup_sub reg)((conn, sub) := None))"
      using idx2 True index_inv_no_channels [of ?reg2 "lookup_sub reg"] unfolding tbl2 by simp
    then have idx4: "index_inv ?reg4 (lookup_sub ?reg4)"
      unfolding tbl4 by (simp add: index_inv_def)
    have "subs_wf ?reg3"
      using wf2 inner1 get2 by (intro subs_wf_update) (simp_all add: distinct_delete)
    then have wf4: "subs_wf ?reg4" by (simp add: subs_wf_def)
    have "Suc (length ?m3) = length ?m1"
      using length_alist_delete [OF inner1, of sub ?e] get2 by simp
    then have "total_subscriptions ?reg3 + 1 = total_subscriptions ?reg2"
      using total_subscriptions_update [OF wf2, of conn ?m3] get2 by simp
    then have "subscriptions_active ?reg4 = int (total_subscriptions ?reg4)"
      using tot2 by (simp add: total_subscriptions_def)
    with idx4 wf4 have "registry_inv ?reg4" by (simp add: registry_inv_def)
    then show ?thesis
      using m True tbl4 ch by (simp add: revoke_channel_from_sub_def Let_def)
  qed
qed

definition revocable :: "community_id \<Rightarrow> uuid \<Rightarrow> sub_entry \<Rightarrow> bool" where
  "revocable c ch e \<longleftrightarrow> (case e of (_, c', scope) \<Rightarrow> c' = c \<and> ch \<in> set (channel_ids scope))"

lemma revoke_loop:
  assumes "registry_inv reg" and "distinct ids"
    and "\<forall>s\<in>set ids. \<exists>e. lookup_sub reg (conn, s) = Some e \<and> revocable c ch e"
  shows "registry_inv (fst (foldl (revoke_channel_from_sub c conn ch) (reg, ups) ids))
    \<and> lookup_sub (fst (foldl (revoke_channel_from_sub c conn ch) (reg, ups) ids))
      = (\<lambda>x. if fst x = conn \<and> snd x \<in> set ids
             then Option.bind (lookup_sub reg x) (revoke_entry ch) else lookup_sub reg x)"
  using assms
proof (induction ids arbitrary: reg ups)
  case Nil
  then show ?case by simp
next
  case (Cons s ids)
  from Cons.prems(3) obtain fs chs where
    row: "lookup_sub reg (conn, s) = Some (fs, c, Channels chs)" "ch \<in> set chs"
    by (auto simp: revocable_def) (metis channel_ids.elims empty_iff list.set(1))
  obtain reg' ups' where
    step: "revoke_channel_from_sub c conn ch (reg, ups) s = (reg', ups')"
    and inv': "registry_inv reg'"
    and tbl': "lookup_sub reg' = (lookup_sub reg)((conn, s) := revoke_entry ch (fs, c, Channels chs))"
    using revoke_channel_from_sub_spec [OF Cons.prems(1) row, of ups] by auto
  have "\<forall>s'\<in>set ids. \<exists>e. lookup_sub reg' (conn, s') = Some e \<and> revocable c ch e"
    using Cons.prems(2,3) by (auto simp: tbl')
  then have IH: "registry_inv (fst (foldl (revoke_channel_from_sub c conn ch) (reg', ups') ids))"
    "lookup_sub (fst (foldl (revoke_channel_from_sub c conn ch) (reg', ups') ids))
      = (\<lambda>x. if fst x = conn \<and> snd x \<in> set ids
             then Option.bind (lookup_sub reg' x) (revoke_entry ch) else lookup_sub reg' x)"
    using Cons.IH [OF inv'] Cons.prems(2) by auto
  have "(\<lambda>x. if fst x = conn \<and> snd x \<in> set ids
             then Option.bind (lookup_sub reg' x) (revoke_entry ch) else lookup_sub reg' x)
      = (\<lambda>x. if fst x = conn \<and> snd x \<in> set (s # ids)
             then Option.bind (lookup_sub reg x) (revoke_entry ch) else lookup_sub reg x)"
    using Cons.prems(2) row(1) by (auto simp: tbl' fun_eq_iff)
  with IH step show ?case by simp
qed

lemma remove_channel_subscriptions_spec:
  assumes "registry_inv reg"
  shows "registry_inv (fst (remove_channel_subscriptions_scoped c conn ch reg))
    \<and> lookup_sub (fst (remove_channel_subscriptions_scoped c conn ch reg))
      = (\<lambda>x. case lookup_sub reg x of
                None \<Rightarrow> None
              | Some e \<Rightarrow> if fst x = conn \<and> revocable c ch e then revoke_entry ch e else Some e)"
proof (cases "map_of (subs reg) conn")
  case None
  then have "lookup_sub reg x = None" if "fst x = conn" for x
    using that by (simp add: lookup_sub_def get_list_def)
  with None assms show ?thesis
    by (auto simp: remove_channel_subscriptions_scoped_def fun_eq_iff split: option.splits)
next
  case (Some m)
  let ?ids = "map fst (filter (\<lambda>(_, _, c', scope). c' = c \<and> ch \<in> set (channel_ids scope)) m)"
  have inner: "distinct (map fst m)"
    using assms Some subs_wf_inner by (auto simp: registry_inv_def)
  then have dist: "distinct ?ids" by (simp add: distinct_map_filter)
  have tbl: "lookup_sub reg x = map_of m (snd x)" if "fst x = conn" for x
    using that Some by (simp add: lookup_sub_def)
  have ids: "s \<in> set ?ids \<longleftrightarrow> (\<exists>e. map_of m s = Some e \<and> revocable c ch e)" for s
    using inner by (force simp: revocable_def map_of_eq_Some_iff)
  have "\<forall>s\<in>set ?ids. \<exists>e. lookup_sub reg (conn, s) = Some e \<and> revocable c ch e"
    using ids tbl [of "(conn, _)"] by (metis fst_conv snd_conv tbl)
  from revoke_loop [OF assms dist this, of "[]"] ids tbl Some show ?thesis
    by (auto simp: remove_channel_subscriptions_scoped_def fun_eq_iff split: option.splits)
qed

section \<open>Fan-out\<close>

text \<open>The reference: a scan of the table.\<close>

definition delivers :: "nostr_lib \<Rightarrow> community_id \<Rightarrow> stored_event \<Rightarrow> sub_entry \<Rightarrow> bool" where
  "delivers L c ev e \<longleftrightarrow>
     (case e of (fs, c', scope) \<Rightarrow>
        c' = c \<and> matches_channel scope (channel_id ev) \<and> filters_match L fs ev)"

definition subscribers :: "nostr_lib \<Rightarrow> registry \<Rightarrow> community_id \<Rightarrow> stored_event \<Rightarrow> sub_ref set" where
  "subscribers L reg c ev = {x. \<exists>e. lookup_sub reg x = Some e \<and> delivers L c ev e}"

lemma push_match_eq:
  "push_match L reg c ev results x = (if x \<in> subscribers L reg c ev then insert_new results x else results)"
  by (auto simp: push_match_def subscribers_def delivers_def lookup_sub_def get_list_def
      split: option.splits)

lemma foldl_push_match:
  "set (foldl (push_match L reg c ev) results xs) = set results \<union> (set xs \<inter> subscribers L reg c ev)"
  "distinct results \<Longrightarrow> distinct (foldl (push_match L reg c ev) results xs)"
  by (induction xs arbitrary: results) (auto simp: push_match_eq)

lemma foldl_foldl_push_match:
  "set (foldl (\<lambda>results p. foldl (push_match L reg c ev) results (g p)) results ps)
     = set results \<union> ((\<Union>p\<in>set ps. set (g p)) \<inter> subscribers L reg c ev)"
  "distinct results \<Longrightarrow>
     distinct (foldl (\<lambda>results p. foldl (push_match L reg c ev) results (g p)) results ps)"
  by (induction ps arbitrary: results) (auto simp: foldl_push_match)

text \<open>The candidates the indexes offer for an event.\<close>

definition candidates :: "nostr_lib \<Rightarrow> registry \<Rightarrow> community_id \<Rightarrow> stored_event \<Rightarrow> sub_ref set" where
  "candidates L reg c ev =
     (let kind = ev_kind (event ev)
      in case channel_id ev of
           Some ch \<Rightarrow>
             set (get_list (channel_kind_index reg) (c, IndexKey ch kind))
             \<union> set (get_list (channel_wildcard_index reg) (c, ch))
         | None \<Rightarrow>
             (\<Union>p\<in>set (event_p_tag_values L ev).
                set (get_list (global_p_kind_index reg) (GlobalPKindIndexKey c kind p)))
             \<union> set (get_list (global_kind_index reg) (c, kind))
             \<union> set (get_list (global_wildcard_index reg) c))"

lemma fan_out_candidates:
  "set (fan_out_scoped L reg c ev) = candidates L reg c ev \<inter> subscribers L reg c ev"
  by (auto simp: fan_out_scoped_def candidates_def Let_def foldl_push_match foldl_foldl_push_match
      split: option.splits)

lemma fan_out_distinct: "distinct (fan_out_scoped L reg c ev)"
  by (auto simp: fan_out_scoped_def Let_def foldl_push_match foldl_foldl_push_match
      split: option.splits)

text \<open>What the key extraction loops return.\<close>

lemma extract_kinds_loop_set:
  "extract_kinds_loop fs ks = Some out \<Longrightarrow>
     set out = set ks \<union> (\<Union>f\<in>set fs. \<Union>ks\<in>set_option (f_kinds f). set ks)
     \<and> (\<forall>f\<in>set fs. f_kinds f \<noteq> None)"
  by (induction fs ks rule: extract_kinds_loop.induct) (auto split: option.splits)

lemma extract_kinds_covers:
  assumes "extract_kinds_from_filters fs = Some out" and "filters_match L fs ev"
  shows "ev_kind (event ev) \<in> set out"
proof -
  from assms(2) obtain f where f: "f \<in> set fs" "filter_match_one L f ev"
    by (auto simp: filters_match_def list_ex_iff)
  with extract_kinds_loop_set [OF assms(1) [unfolded extract_kinds_from_filters_def]]
  obtain ks where ks: "f_kinds f = Some ks" "set ks \<subseteq> set out" by force
  with filter_match_kind [OF f(2) ks(1)] show ?thesis by blast
qed

lemma extract_global_p_loop_mono:
  "extract_global_p_loop c fs keys = Some out \<Longrightarrow> set keys \<subseteq> set out"
  by (induction c fs keys rule: extract_global_p_loop.induct) (auto split: option.splits if_splits)

lemma extract_global_p_loop_covers:
  "extract_global_p_loop c fs keys = Some out \<Longrightarrow> f \<in> set fs \<Longrightarrow>
     \<exists>ks. f_kinds f = Some ks
        \<and> (ks = [] \<or> (\<exists>ps. map_of (f_generic_tags f) p_tag = Some ps
             \<and> (\<forall>k\<in>set ks. \<forall>p\<in>set ps. GlobalPKindIndexKey c k p \<in> set out)))"
proof (induction c fs keys rule: extract_global_p_loop.induct)
  case (1 c keys)
  then show ?case by simp
next
  case (2 c g fs keys)
  show ?case
  proof (cases "f = g")
    case False
    with 2 show ?thesis by (auto split: option.splits if_splits)
  next
    case True
    with "2.prems"(1) obtain ks where ks: "f_kinds f = Some ks" by (auto split: option.splits)
    show ?thesis
    proof (cases "ks = []")
      case False
      with "2.prems"(1) ks True obtain ps where ps: "map_of (f_generic_tags f) p_tag = Some ps"
        and rec: "extract_global_p_loop c fs
            (foldl insert_new keys [GlobalPKindIndexKey c k p. k \<leftarrow> ks, p \<leftarrow> ps]) = Some out"
        by (auto split: option.splits if_splits)
      from extract_global_p_loop_mono [OF rec] ks ps show ?thesis by auto
    qed (use ks in simp)
  qed
qed

lemma set_event_p_tag_values:
  "set (event_p_tag_values L ev) =
     {v. \<exists>t\<in>set (ev_tags (event ev)). tag_kind_str L t = ''p'' \<and> tag_content L t = Some v}"
proof -
  have "set (foldl (\<lambda>values tag.
              if tag_kind_str L tag \<noteq> ''p'' then values
              else (case tag_content L tag of Some v \<Rightarrow> insert_new values v | None \<Rightarrow> values)) out ts)
      = set out \<union> {v. \<exists>t\<in>set ts. tag_kind_str L t = ''p'' \<and> tag_content L t = Some v}" for out ts
    by (induction ts arbitrary: out) (auto split: option.splits)
  then show ?thesis by (simp add: event_p_tag_values_def)
qed

lemma global_p_key_covers:
  assumes "extract_global_p_kind_index_keys c fs = Some keys" and "filters_match L fs ev"
    and "slt_str L p_tag = ''p''"
  shows "\<exists>p\<in>set (event_p_tag_values L ev). GlobalPKindIndexKey c (ev_kind (event ev)) p \<in> set keys"
proof -
  from assms(2) obtain f where f: "f \<in> set fs" "filter_match_one L f ev"
    by (auto simp: filters_match_def list_ex_iff)
  obtain ks where ks: "f_kinds f = Some ks"
    and cov: "ks = [] \<or> (\<exists>ps. map_of (f_generic_tags f) p_tag = Some ps
             \<and> (\<forall>k\<in>set ks. \<forall>p\<in>set ps. GlobalPKindIndexKey c k p \<in> set keys))"
    using extract_global_p_loop_covers [OF assms(1) [unfolded extract_global_p_kind_index_keys_def] f(1)]
    by blast
  have k: "ev_kind (event ev) \<in> set ks" using filter_match_kind [OF f(2) ks] .
  with cov obtain ps where ps: "map_of (f_generic_tags f) p_tag = Some ps"
    "\<forall>k\<in>set ks. \<forall>p\<in>set ps. GlobalPKindIndexKey c k p \<in> set keys"
    by auto
  from filter_match_p_tag [OF f(2) ps(1) assms(3)] ps(2) k show ?thesis
    by (auto simp: set_event_p_tag_values)
qed

lemma subscriber_is_candidate:
  assumes inv: "registry_inv reg" and p: "slt_str L p_tag = ''p''"
    and x: "x \<in> subscribers L reg c ev"
  shows "x \<in> candidates L reg c ev"
proof -
  obtain fs scope where row: "lookup_sub reg x = Some (fs, c, scope)"
    and ch: "matches_channel scope (channel_id ev)" and fm: "filters_match L fs ev"
    using x by (auto simp: subscribers_def delivers_def)
  have idx: "index_inv reg (lookup_sub reg)" using inv by (simp add: registry_inv_def)
  then have ix: "indexes (channel_kind_index reg) channel_kind_keys (lookup_sub reg)"
    "indexes (channel_wildcard_index reg) channel_wildcard_keys (lookup_sub reg)"
    "indexes (global_kind_index reg) global_kind_keys (lookup_sub reg)"
    "indexes (global_p_kind_index reg) global_p_kind_keys (lookup_sub reg)"
    "indexes (global_wildcard_index reg) global_wildcard_keys (lookup_sub reg)"
    by (simp_all add: index_inv_def)
  note mem = ix [THEN indexes_memI, OF row]
  show ?thesis
  proof (cases scope)
    case Global
    then have none: "channel_id ev = None" using ch by (cases "channel_id ev") auto
    consider keys where "extract_global_p_kind_index_keys c fs = Some keys"
      | "extract_global_p_kind_index_keys c fs = None" "extract_kinds_from_filters fs = None"
      | ks where "extract_global_p_kind_index_keys c fs = None" "extract_kinds_from_filters fs = Some ks"
      by (cases "extract_global_p_kind_index_keys c fs"; cases "extract_kinds_from_filters fs") auto
    then show ?thesis
    proof cases
      case 1
      from global_p_key_covers [OF this fm p] obtain q where
        "q \<in> set (event_p_tag_values L ev)" "GlobalPKindIndexKey c (ev_kind (event ev)) q \<in> set keys"
        by blast
      with mem(4) [of "GlobalPKindIndexKey c (ev_kind (event ev)) q"] 1 Global none show ?thesis
        by (auto simp: candidates_def key_defs Let_def)
    next
      case 2
      with mem(5) [of c] Global none show ?thesis by (auto simp: candidates_def key_defs Let_def)
    next
      case 3
      with mem(3) [of "(c, ev_kind (event ev))"] Global none extract_kinds_covers [OF 3(2) fm]
      show ?thesis by (auto simp: candidates_def key_defs Let_def)
    qed
  next
    case (Channels chs)
    then obtain chan where chan: "channel_id ev = Some chan" "chan \<in> set chs"
      using ch by (cases "channel_id ev") auto
    show ?thesis
    proof (cases "extract_kinds_from_filters fs")
      case None
      with mem(2) [of "(c, chan)"] Channels chan show ?thesis
        by (auto simp: candidates_def key_defs Let_def)
    next
      case (Some ks)
      with mem(1) [of "(c, IndexKey chan (ev_kind (event ev)))"] Channels chan
        extract_kinds_covers [OF Some fm] show ?thesis
        by (auto simp: candidates_def key_defs Let_def)
    qed
  qed
qed

section \<open>Reachable registries\<close>

inductive registry_step :: "registry \<Rightarrow> registry \<Rightarrow> bool" where
  step_register: "registry_step reg (fst (register_scoped c conn sub fs ch reg))"
| step_register_channels: "registry_step reg (fst (register_channels_scoped c conn sub fs chs reg))"
| step_remove: "registry_step reg (fst (remove_subscription conn sub reg))"
| step_disconnect: "registry_step reg (fst (remove_connection conn reg))"
| step_revoke: "registry_step reg (fst (remove_channel_subscriptions_scoped c conn ch reg))"

inductive registry_reachable :: "registry \<Rightarrow> bool" where
  reachable_new: "registry_reachable registry_new"
| reachable_step: "registry_reachable reg \<Longrightarrow> registry_step reg reg' \<Longrightarrow> registry_reachable reg'"

lemma registry_step_inv: "registry_step reg reg' \<Longrightarrow> registry_inv reg \<Longrightarrow> registry_inv reg'"
proof (induction rule: registry_step.induct)
  case (step_register reg c conn sub fs ch)
  then show ?case unfolding register_scoped_def using register_with_scope_spec by blast
next
  case (step_register_channels reg c conn sub fs chs)
  then show ?case unfolding register_channels_scoped_def using register_with_scope_spec by blast
next
  case (step_remove reg conn sub)
  then show ?case using remove_subscription_spec by blast
next
  case (step_disconnect reg conn)
  then show ?case using remove_connection_spec by blast
next
  case (step_revoke reg c conn ch)
  then show ?case using remove_channel_subscriptions_spec by blast
qed

lemma registry_reachable_inv: "registry_reachable reg \<Longrightarrow> registry_inv reg"
  by (induction rule: registry_reachable.induct) (auto intro: registry_inv_new registry_step_inv)

lemma channel_kind_conns:
  assumes "distinct (map fst m)"
  shows "set (foldl (\<lambda>conns (key, entries).
              (case key of (kc, IndexKey kch _) \<Rightarrow>
                 if kc = c \<and> kch = ch then foldl insert_new conns (map fst entries) else conns)) out m)
         = set out \<union> {fst x | x k. x \<in> set (get_list m (c, IndexKey ch k))}"
  using assms
proof (induction m arbitrary: out)
  case Nil
  then show ?case by simp
next
  case (Cons e m)
  obtain kc kch kk es where e: "e = ((kc, IndexKey kch kk), es)"
    by (metis index_key.exhaust prod.exhaust)
  have get: "get_list (e # m) q = (if q = (kc, IndexKey kch kk) then es else get_list m q)" for q
    by (simp add: get_list_def e)
  have "get_list m (kc, IndexKey kch kk) = []"
    using Cons.prems by (simp add: get_list_def e map_of_eq_None_iff option.case_eq_if)
  then have mem: "x \<in> set (get_list (e # m) (c, IndexKey ch k)) \<longleftrightarrow>
      (kc = c \<and> kch = ch \<and> k = kk \<and> x \<in> set es) \<or> x \<in> set (get_list m (c, IndexKey ch k))" for x k
    by (auto simp: get)
  have "{fst x | x k. x \<in> set (get_list (e # m) (c, IndexKey ch k))}
      = (if kc = c \<and> kch = ch then fst ` set es else {})
        \<union> {fst x | x k. x \<in> set (get_list m (c, IndexKey ch k))}"
    unfolding mem by force
  with Cons e show ?case by auto
qed

lemma channel_subscriber_conns_set:
  assumes "registry_inv reg"
  shows "set (channel_subscriber_conns_scoped c ch reg) =
     {conn. \<exists>sub fs scope. lookup_sub reg (conn, sub) = Some (fs, c, scope)
        \<and> ch \<in> set (channel_ids scope) \<and> extract_kinds_from_filters fs \<noteq> Some []}"
proof -
  have ix: "indexes (channel_kind_index reg) channel_kind_keys (lookup_sub reg)"
    "indexes (channel_wildcard_index reg) channel_wildcard_keys (lookup_sub reg)"
    using assms by (simp_all add: registry_inv_def index_inv_def)
  have ck: "x \<in> set (get_list (channel_kind_index reg) (c, IndexKey ch k)) \<longleftrightarrow>
      (\<exists>fs scope ks. lookup_sub reg x = Some (fs, c, scope) \<and> ch \<in> set (channel_ids scope)
        \<and> extract_kinds_from_filters fs = Some ks \<and> k \<in> set ks)" for x k
    using ix(1) by (auto simp: indexes_def channel_kind_keys_def)
  have cw: "x \<in> set (get_list (channel_wildcard_index reg) (c, ch)) \<longleftrightarrow>
      (\<exists>fs scope. lookup_sub reg x = Some (fs, c, scope) \<and> ch \<in> set (channel_ids scope)
        \<and> extract_kinds_from_filters fs = None)" for x
    using ix(2) by (auto simp: indexes_def channel_wildcard_keys_def)
  have "distinct (map fst (channel_kind_index reg))"
    using ix(1) by (simp add: indexes_def entries_wf_def)
  then have "set (channel_subscriber_conns_scoped c ch reg) =
      {fst x | x k. x \<in> set (get_list (channel_kind_index reg) (c, IndexKey ch k))}
      \<union> fst ` set (get_list (channel_wildcard_index reg) (c, ch))"
    by (simp add: channel_subscriber_conns_scoped_def Let_def channel_kind_conns)
  also have "\<dots> = {conn. \<exists>sub fs scope. lookup_sub reg (conn, sub) = Some (fs, c, scope)
        \<and> ch \<in> set (channel_ids scope) \<and> extract_kinds_from_filters fs \<noteq> Some []}"
    (is "?A \<union> ?B = ?C")
  proof (intro equalityI subsetI)
    fix conn assume "conn \<in> ?A \<union> ?B"
    then show "conn \<in> ?C" using ck cw by fastforce
  next
    fix conn assume "conn \<in> ?C"
    then obtain sub fs scope where row: "lookup_sub reg (conn, sub) = Some (fs, c, scope)"
      "ch \<in> set (channel_ids scope)" "extract_kinds_from_filters fs \<noteq> Some []"
      by blast
    show "conn \<in> ?A \<union> ?B"
    proof (cases "extract_kinds_from_filters fs")
      case None
      with row cw [of "(conn, sub)"] have "conn \<in> ?B" by force
      then show ?thesis ..
    next
      case (Some ks)
      with row(3) obtain k where "k \<in> set ks" by (cases ks) auto
      with row Some ck [of "(conn, sub)" k] have "conn \<in> ?A" by force
      then show ?thesis ..
    qed
  qed
  finally show ?thesis .
qed

section \<open>Properties\<close>

lemma map_of_all_None: "(\<forall>k. map_of m k = None) \<Longrightarrow> m = []"
  by (metis map_of_eq_empty_iff)

lemma indexes_empty_table:
  assumes "indexes m keys (\<lambda>_. None)"
  shows "m = []"
proof -
  have "get_list m k = []" for k using assms by (auto simp: indexes_def)
  then have "map_of m k = None" for k
    using assms by (auto simp: indexes_def entries_wf_def get_list_def simp del: map_of_eq_Some_iff
        split: option.splits) (metis not_None_eq option.simps(5))
  then show ?thesis by (simp add: map_of_all_None)
qed

lemma fan_out_exact_set:
  "registry_reachable reg \<Longrightarrow> slt_str L p_tag = ''p'' \<Longrightarrow>
     set (fan_out_scoped L reg c ev) = subscribers L reg c ev"
  using subscriber_is_candidate [OF registry_reachable_inv]
  by (auto simp: fan_out_candidates)

text \<open>Data of the witnesses: one global subscription on mentions of one recipient.\<close>

definition demo_filter :: nfilter where
  "demo_filter = \<lparr>f_ids = None, f_authors = None, f_kinds = Some [1], f_since = None, f_until = None,
     f_generic_tags = [(p_tag, [''bob''])]\<rparr>"

definition demo_event :: stored_event where
  "demo_event = stored_event_new
     \<lparr>ev_id = [], ev_pubkey = [], ev_created_at = 5, ev_kind = 1, ev_tags = [[''p'', ''bob'']],
      ev_content = [], ev_sig = []\<rparr> 5 None"

definition demo_registry :: registry where
  "demo_registry = fst (register_scoped 7 1 ''s'' [demo_filter] None registry_new)"

lemma demo_registry_reachable: "registry_reachable demo_registry"
  unfolding demo_registry_def by (rule reachable_step [OF reachable_new step_register])

lemma demo_p_tag: "slt_str demo_lib p_tag = ''p''"
  by (simp add: demo_lib_def)

text \<open>
  C2.  Indexed fan-out is exact: in every registry that the operations can build, the five indexes
  deliver an event to exactly the subscriptions a scan of the whole table would find - those of the
  community whose scope covers the event's channel and one of whose filters matches - and to each of
  them once.
\<close>

theorem fan_out_exact:
  assumes "registry_reachable reg" and "slt_str L p_tag = ''p''"
  shows "set (fan_out_scoped L reg c ev) = subscribers L reg c ev
         \<and> distinct (fan_out_scoped L reg c ev)"
  using fan_out_exact_set [OF assms] fan_out_distinct by blast

theorem fan_out_exact_witness:
  "set (fan_out_scoped demo_lib demo_registry 7 demo_event) = subscribers demo_lib demo_registry 7 demo_event
   \<and> fan_out_scoped demo_lib demo_registry 7 demo_event = [(1, ''s'')]"
proof -
  have "fan_out_scoped demo_lib demo_registry 7 demo_event = [(1, ''s'')]"
    by code_simp
  with fan_out_exact [OF demo_registry_reachable demo_p_tag, of 7 demo_event] show ?thesis by simp
qed

text \<open>
  Tenant and channel isolation does not depend on the indexes: whatever candidate list the
  fan-out works from - also a stale one taken before a concurrent replacement - it only adds
  subscriptions that the current table holds for the event's community with a scope and filters that
  accept the event.
\<close>

theorem fan_out_isolation:
  "set (foldl (push_match L reg c ev) out cands) \<subseteq> set out \<union> subscribers L reg c ev
   \<and> set (fan_out_scoped L reg c ev) \<subseteq> subscribers L reg c ev"
  by (auto simp: foldl_push_match fan_out_candidates)



text \<open>
  No leaks: in every reachable registry the active-subscription gauge equals the number of rows
  of the table, no index holds an empty entry, and once the table is empty all five indexes are empty
  too.
\<close>

theorem registry_no_leak:
  assumes "registry_reachable reg"
  shows "subscriptions_active reg = int (total_subscriptions reg)
         \<and> entries_wf (channel_kind_index reg) \<and> entries_wf (channel_wildcard_index reg)
         \<and> entries_wf (global_kind_index reg) \<and> entries_wf (global_p_kind_index reg)
         \<and> entries_wf (global_wildcard_index reg)
         \<and> (lookup_sub reg = (\<lambda>_. None) \<longrightarrow>
              channel_kind_index reg = [] \<and> channel_wildcard_index reg = []
              \<and> global_kind_index reg = [] \<and> global_p_kind_index reg = []
              \<and> global_wildcard_index reg = [])"
proof -
  have inv: "registry_inv reg" using assms by (rule registry_reachable_inv)
  then have idx: "index_inv reg (lookup_sub reg)" by (simp add: registry_inv_def)
  then have wf: "entries_wf (channel_kind_index reg)" "entries_wf (channel_wildcard_index reg)"
    "entries_wf (global_kind_index reg)" "entries_wf (global_p_kind_index reg)"
    "entries_wf (global_wildcard_index reg)"
    by (simp_all add: index_inv_def indexes_def)
  have "channel_kind_index reg = [] \<and> channel_wildcard_index reg = []
      \<and> global_kind_index reg = [] \<and> global_p_kind_index reg = []
      \<and> global_wildcard_index reg = []" if "lookup_sub reg = (\<lambda>_. None)"
    using idx unfolding that index_inv_def by (auto dest: indexes_empty_table)
  with wf inv show ?thesis by (simp add: registry_inv_def)
qed

theorem registry_no_leak_witness:
  "subscriptions_active demo_registry = int (total_subscriptions demo_registry)"
  using registry_no_leak [OF demo_registry_reachable] by blast

text \<open>
  C31.  Revocation takes effect: after a channel is revoked from a connection, no event of that
  channel in that community is delivered to any subscription of the connection, and the connection is
  no longer listed as a subscriber of the channel; the deliveries to all other connections are
  unchanged.
\<close>

theorem revoked_channel_not_delivered:
  assumes "registry_reachable reg" and "slt_str L p_tag = ''p''" and "channel_id ev = Some ch"
  shows "let reg' = fst (remove_channel_subscriptions_scoped c conn ch reg)
         in conn \<notin> fst ` set (fan_out_scoped L reg' c ev)
            \<and> conn \<notin> set (channel_subscriber_conns_scoped c ch reg')
            \<and> {x \<in> set (fan_out_scoped L reg' c ev). fst x \<noteq> conn}
                = {x \<in> set (fan_out_scoped L reg c ev). fst x \<noteq> conn}"
proof -
  let ?reg' = "fst (remove_channel_subscriptions_scoped c conn ch reg)"
  have reach: "registry_reachable ?reg'"
    using assms(1) by (rule reachable_step) (rule step_revoke)
  have tbl: "lookup_sub ?reg' = (\<lambda>x. case lookup_sub reg x of
                None \<Rightarrow> None
              | Some e \<Rightarrow> if fst x = conn \<and> revocable c ch e then revoke_entry ch e else Some e)"
    using remove_channel_subscriptions_spec [OF registry_reachable_inv [OF assms(1)]] by blast
  have gone: "ch \<notin> set (channel_ids scope)"
    if "lookup_sub ?reg' (conn, sub) = Some (fs, c, scope)" for sub fs scope
    using that unfolding tbl
    by (cases "lookup_sub reg (conn, sub)"; cases scope)
      (auto simp: revocable_def Let_def split: if_splits elim!: revoke_entry.elims)
  have other: "lookup_sub ?reg' x = lookup_sub reg x" if "fst x \<noteq> conn" for x
    using that unfolding tbl by (simp split: option.splits)
  have "conn \<notin> fst ` subscribers L ?reg' c ev"
  proof
    assume "conn \<in> fst ` subscribers L ?reg' c ev"
    then obtain sub fs scope where row: "lookup_sub ?reg' (conn, sub) = Some (fs, c, scope)"
      and ch: "matches_channel scope (Some ch)"
      using assms(3) by (force simp: subscribers_def delivers_def)
    show False using gone [OF row] ch by (cases scope) simp_all
  qed
  moreover have "conn \<notin> set (channel_subscriber_conns_scoped c ch ?reg')"
    using gone by (auto simp: channel_subscriber_conns_set [OF registry_reachable_inv [OF reach]])
  moreover have "{x \<in> subscribers L ?reg' c ev. fst x \<noteq> conn}
      = {x \<in> subscribers L reg c ev. fst x \<noteq> conn}"
    using other by (auto simp: subscribers_def)
  ultimately show ?thesis
    using fan_out_exact_set [OF reach assms(2), of c ev] fan_out_exact_set [OF assms(1,2), of c ev]
    by (simp add: Let_def)
qed

definition demo_channel_event :: stored_event where
  "demo_channel_event = demo_event\<lparr>channel_id := Some 3\<rparr>"

theorem revoked_channel_not_delivered_witness:
  "1 \<notin> fst ` set (fan_out_scoped demo_lib
         (fst (remove_channel_subscriptions_scoped 7 1 3
            (fst (register_channels_scoped 7 1 ''s'' [demo_filter] [3] registry_new)))) 7 demo_channel_event)"
  using revoked_channel_not_delivered [OF reachable_step [OF reachable_new step_register_channels] demo_p_tag,
      of demo_channel_event 3 7 1 7 1 "''s''" "[demo_filter]" "[3]"]
  by (simp add: Let_def demo_channel_event_def)

text \<open>
  \<open>channel_subscriber_conns_scoped\<close> lists each connection that holds a subscription scoped to the
  channel in the community, except subscriptions whose filters name no kind at all and so can never
  receive anything.
\<close>

theorem channel_subscriber_conns_exact:
  assumes "registry_reachable reg"
  shows "set (channel_subscriber_conns_scoped c ch reg) =
     {conn. \<exists>sub fs scope. lookup_sub reg (conn, sub) = Some (fs, c, scope)
        \<and> ch \<in> set (channel_ids scope) \<and> extract_kinds_from_filters fs \<noteq> Some []}"
  using registry_reachable_inv [OF assms] by (rule channel_subscriber_conns_set)

theorem channel_subscriber_conns_exact_witness:
  "set (channel_subscriber_conns_scoped 7 3 demo_registry) =
     {conn. \<exists>sub fs scope. lookup_sub demo_registry (conn, sub) = Some (fs, 7, scope)
        \<and> 3 \<in> set (channel_ids scope) \<and> extract_kinds_from_filters fs \<noteq> Some []}"
  by (rule channel_subscriber_conns_exact [OF demo_registry_reachable])

text \<open>
  A connection whose last subscription was closed is still counted by \<open>total_connections\<close>:
  closing leaves its empty row in the table, and only a disconnect removes it.
\<close>

theorem total_connections_counts_idle:
  "total_connections (fst (remove_subscription conn sub
       (fst (register_with_scope c conn sub fs scope registry_new)))) = 1
   \<and> total_subscriptions (fst (remove_subscription conn sub
       (fst (register_with_scope c conn sub fs scope registry_new)))) = 0"
  by (simp add: register_with_scope_def remove_subscription_def registry_new_def Let_def
      total_connections_def total_subscriptions_def)


section \<open>Interleaved unsubscription\<close>

text \<open>
  The map of an index is locked per entry, and \<open>remove_from_index\<close> releases the entry before it
  removes the emptied key.  For a subscription to all kinds of one channel, the two atomic parts of
  \<open>remove_subscription\<close> are the row and the entry being emptied, and the key being removed.
\<close>

definition unindex_retain ::
  "'k \<Rightarrow> 'x \<Rightarrow> ('k, 'x list) amap \<Rightarrow> ('k, 'x list) amap \<times> bool" where
  "unindex_retain k x m =
     (case map_of m k of
        None \<Rightarrow> (m, False)
      | Some entries \<Rightarrow>
          (let entries' = filter (\<lambda>y. y \<noteq> x) entries in (AList.update k entries' m, entries' = [])))"

definition unindex_remove :: "'k \<Rightarrow> bool \<Rightarrow> ('k, 'v) amap \<Rightarrow> ('k, 'v) amap" where
  "unindex_remove k is_empty m = (if is_empty then AList.delete k m else m)"

lemma retain_entry_two_steps:
  "retain_entry k (\<lambda>y. y \<noteq> x) m = (case unindex_retain k x m of (m', b) \<Rightarrow> unindex_remove k b m')"
  by (auto simp: retain_entry_def unindex_retain_def unindex_remove_def Let_def
      delete_update_same split: option.splits)

definition wildcard_unsubscribe_begin ::
  "conn_id \<Rightarrow> sub_id \<Rightarrow> community_id \<Rightarrow> uuid \<Rightarrow> registry \<Rightarrow> registry \<times> bool" where
  "wildcard_unsubscribe_begin conn sub c ch reg =
     (let (m, is_empty) = unindex_retain (c, ch) (conn, sub) (channel_wildcard_index reg)
      in (reg\<lparr>subs := AList.update conn (AList.delete sub (get_list (subs reg) conn)) (subs reg),
              channel_wildcard_index := m\<rparr>, is_empty))"

definition wildcard_unsubscribe_end :: "community_id \<Rightarrow> uuid \<Rightarrow> bool \<Rightarrow> registry \<Rightarrow> registry" where
  "wildcard_unsubscribe_end c ch is_empty reg =
     reg\<lparr>channel_wildcard_index := unindex_remove (c, ch) is_empty (channel_wildcard_index reg),
         subscriptions_active := subscriptions_active reg - 1\<rparr>"

text \<open>Uninterrupted, the two parts are \<open>remove_subscription\<close>.\<close>

lemma wildcard_unsubscribe_sequential:
  assumes "lookup_sub reg (conn, sub) = Some (fs, c, Channels [ch])"
    and "extract_kinds_from_filters fs = None"
  shows "fst (remove_subscription conn sub reg) =
     (case wildcard_unsubscribe_begin conn sub c ch reg of
        (reg', is_empty) \<Rightarrow> wildcard_unsubscribe_end c ch is_empty reg')"
  using assms
  by (auto simp: lookup_sub_def get_list_def remove_subscription_def wildcard_unsubscribe_begin_def
      wildcard_unsubscribe_end_def remove_from_index_def unindex_channel_def retain_entry_two_steps
      split: option.splits prod.splits)



end
