(* ===== verification/Tenant.thy ===== *)
theory Tenant
  imports Buzz_Prelude
begin

text \<open>
  Tenant binding (\<open>buzz-core/src/tenant.rs\<close>): the community key, the resolved tenant context, and the
  normalization of a connection's host into the lookup key of the community.  A host is the list of
  its Unicode scalar values, because the code trims Unicode white space.  The URL parser of the
  \<open>url\<close> crate is a parameter of \<open>relay_url_authority\<close>.
\<close>

section \<open>Communities and contexts\<close>

datatype community_key = CommunityId uuid

definition from_uuid :: "uuid \<Rightarrow> community_key" where
  "from_uuid i = CommunityId i"

fun as_uuid :: "community_key \<Rightarrow> uuid" where
  "as_uuid (CommunityId i) = i"

record tenant_context =
  tc_community :: community_key
  tc_host :: ustr

definition resolved :: "community_key \<Rightarrow> ustr \<Rightarrow> tenant_context" where
  "resolved c h = \<lparr>tc_community = c, tc_host = h\<rparr>"

definition community :: "tenant_context \<Rightarrow> community_key" where
  "community t = tc_community t"

definition host :: "tenant_context \<Rightarrow> ustr" where
  "host t = tc_host t"

section \<open>Host normalization\<close>

definition ascii_lower :: "nat \<Rightarrow> nat" where
  "ascii_lower c = (if 65 \<le> c \<and> c \<le> 90 then c + 32 else c)"

definition u_ascii_lowercase :: "ustr \<Rightarrow> ustr" where
  "u_ascii_lowercase = map ascii_lower"

definition normalize_host :: "ustr \<Rightarrow> ustr" where
  "normalize_host h =
     (let h1 = u_ascii_lowercase (trim h);
          h2 = (case strip_suffix (ascii '':443'') h1 of
                  Some stripped \<Rightarrow> stripped
                | None \<Rightarrow> (case strip_suffix (ascii '':80'') h1 of Some stripped \<Rightarrow> stripped | None \<Rightarrow> h1))
      in case strip_suffix (ascii ''.'') h2 of Some stripped \<Rightarrow> stripped | None \<Rightarrow> h2)"

section \<open>The authority of a relay URL\<close>

text \<open>
  \<open>url::Host\<close> and \<open>url::Url\<close>.  IP addresses are kept as their octets and segments and printed as the
  standard library prints them.
\<close>

datatype url_host = Domain ustr | Ipv4 byte byte byte byte | Ipv6 "u16 list"

record url =
  url_host :: "url_host option"
  url_port :: "u16 option"

definition hex_char :: "nat \<Rightarrow> nat" where
  "hex_char d = (if d < 10 then 48 + d else 87 + d)"

fun show_hex :: "nat \<Rightarrow> ustr" where
  "show_hex n = (if n < 16 then [hex_char n] else show_hex (n div 16) @ [hex_char (n mod 16)])"

declare show_hex.simps [simp del]

definition dec :: "nat \<Rightarrow> ustr" where
  "dec n = ascii (show_nat n)"

definition show_ipv4 :: "byte \<Rightarrow> byte \<Rightarrow> byte \<Rightarrow> byte \<Rightarrow> ustr" where
  "show_ipv4 a b c d =
     dec (unat a) @ ascii ''.'' @ dec (unat b) @ ascii ''.'' @ dec (unat c) @ ascii ''.'' @ dec (unat d)"

text \<open>The first longest run of zero segments, as \<open>Ipv6Addr\<close>'s \<open>Display\<close> looks for it: position,
  current span and longest span, a span being a start and a length.\<close>

fun longest_zeroes ::
  "u16 list \<Rightarrow> nat \<Rightarrow> nat \<times> nat \<Rightarrow> nat \<times> nat \<Rightarrow> nat \<times> nat" where
  "longest_zeroes [] i current longest = longest"
| "longest_zeroes (s # rest) i current longest =
     (if s = 0 then
        (let current' = ((if snd current = 0 then i else fst current), snd current + 1)
         in longest_zeroes rest (i + 1) current' (if snd current' > snd longest then current' else longest))
      else longest_zeroes rest (i + 1) (0, 0) longest)"

definition fmt_subslice :: "u16 list \<Rightarrow> ustr" where
  "fmt_subslice segs = join_with (hd (ascii '':'')) (map (\<lambda>s. show_hex (unat s)) segs)"

definition show_ipv6 :: "u16 list \<Rightarrow> ustr" where
  "show_ipv6 segs =
     (if length segs = 8 \<and> take 6 segs = [0, 0, 0, 0, 0, 0xffff] then
        ascii ''::ffff:''
        @ show_ipv4 (ucast (drop_bit 8 (segs ! 6))) (ucast (segs ! 6))
            (ucast (drop_bit 8 (segs ! 7))) (ucast (segs ! 7))
      else
        (let (start, len) = longest_zeroes segs 0 (0, 0) (0, 0)
         in if len > 1
            then fmt_subslice (take start segs) @ ascii ''::'' @ fmt_subslice (drop (start + len) segs)
            else fmt_subslice segs))"

definition relay_url_authority :: "(ustr \<Rightarrow> url option) \<Rightarrow> ustr \<Rightarrow> ustr" where
  "relay_url_authority parse relay_url =
     (case parse relay_url of
        None \<Rightarrow> []
      | Some u \<Rightarrow>
          (case url_host u of
             None \<Rightarrow> []
           | Some h \<Rightarrow>
               (let text = (case h of
                     Domain domain \<Rightarrow> domain
                   | Ipv4 a b c d \<Rightarrow> show_ipv4 a b c d
                   | Ipv6 addr \<Rightarrow> ascii ''['' @ show_ipv6 addr @ ascii '']'')
                in normalize_host
                     (case url_port u of
                        Some port \<Rightarrow> text @ ascii '':'' @ dec (unat port)
                      | None \<Rightarrow> text))))"

section \<open>Facts about normalization\<close>

definition host_suffixes :: "ustr list" where
  "host_suffixes = map ascii ['''', ''.'', '':443'', '':80'', ''.:443'', ''.:80'']"

text \<open>A host in the form the code stores: lower case, not empty, no white space at the ends, and none
  of the suffixes the normalization strips.\<close>

definition canonical_host :: "ustr \<Rightarrow> bool" where
  "canonical_host b \<longleftrightarrow>
     b \<noteq> [] \<and> u_ascii_lowercase b = b \<and> \<not> is_whitespace (hd b) \<and> \<not> is_whitespace (last b)
     \<and> strip_suffix (ascii ''.'') b = None
     \<and> strip_suffix (ascii '':443'') b = None \<and> strip_suffix (ascii '':80'') b = None"

lemma ascii_lower_idem [simp]: "ascii_lower (ascii_lower c) = ascii_lower c"
  by (simp add: ascii_lower_def)

lemma u_ascii_lowercase_idem [simp]: "u_ascii_lowercase (u_ascii_lowercase s) = u_ascii_lowercase s"
  by (simp add: u_ascii_lowercase_def)

lemma u_ascii_lowercase_append [simp]:
  "u_ascii_lowercase (s @ t) = u_ascii_lowercase s @ u_ascii_lowercase t"
  by (simp add: u_ascii_lowercase_def)

lemma is_whitespace_lower: "is_whitespace (ascii_lower c) = is_whitespace c"
  by (auto simp: ascii_lower_def is_whitespace_def)

lemma trim_between:
  assumes "\<forall>c\<in>set w1. is_whitespace c" and "\<forall>c\<in>set w2. is_whitespace c"
    and "v \<noteq> []" and "\<not> is_whitespace (hd v)" and "\<not> is_whitespace (last v)"
  shows "trim (w1 @ v @ w2) = v"
proof -
  have drop_ws: "dropWhile is_whitespace (w @ u) = dropWhile is_whitespace u"
    if "\<forall>c\<in>set w. is_whitespace c" for w u
    using that by (induction w) auto
  have keep: "dropWhile is_whitespace u = u" if "u \<noteq> []" "\<not> is_whitespace (hd u)" for u
    using that by (cases u) auto
  have "dropWhile is_whitespace (w1 @ v @ w2) = v @ w2"
    using assms by (simp add: drop_ws keep)
  moreover have "dropWhile is_whitespace (rev w2 @ rev v) = rev v"
    using assms by (simp add: drop_ws keep hd_rev)
  ultimately show ?thesis by (simp add: trim_def trim_end_def)
qed

lemma strip_suffix_append [simp]: "strip_suffix p (s @ p) = Some s"
  by simp

lemma strip_suffix_last_differs:
  "p \<noteq> [] \<Longrightarrow> q \<noteq> [] \<Longrightarrow> last p \<noteq> last q \<Longrightarrow> strip_suffix p (s @ q) = None"
  by (metis last_appendR not_Some_eq strip_suffix_Some_iff)

lemma strip_port_dec:
  assumes "set q \<subseteq> {48..57}"
  shows "strip_suffix (58 # q) (d @ 58 # dec p) = (if dec p = q then Some d else None)"
proof -
  have digits: "58 \<notin> set (dec p)"
    using show_nat_digits [of p] by (auto simp: dec_def ascii_def is_ascii_digit_def)
  have uniq: "d @ 58 # dec p = t @ 58 # q \<longleftrightarrow> t = d \<and> dec p = q" for t
  proof
    assume eq: "d @ 58 # dec p = t @ 58 # q"
    have "rev (dec p) @ 58 # rev d = rev q @ 58 # rev t"
      using arg_cong [where f = rev, OF eq] by simp
    moreover have "split_once 58 (rev (dec p) @ 58 # rev d) = Some (rev (dec p), rev d)"
      using digits by (intro split_once_append) simp
    moreover have "split_once 58 (rev q @ 58 # rev t) = Some (rev q, rev t)"
      using assms by (intro split_once_append) auto
    ultimately have "Some (rev (dec p), rev d) = Some (rev q, rev t)" by metis
    then show "t = d \<and> dec p = q" by simp
  qed simp
  show ?thesis
  proof (cases "dec p = q")
    case False
    then show ?thesis using uniq by (metis not_Some_eq strip_suffix_Some_iff)
  qed simp
qed

lemma ascii_char_inj: "ascii s = ascii t \<longleftrightarrow> s = t"
  by (simp add: ascii_def inj_map_eq_map inj_on_def of_char_eq_iff)

lemma dec_eq_iff: "dec m = dec n \<longleftrightarrow> m = n"
  unfolding dec_def ascii_char_inj by (metis read_show_nat)

lemma dec_port_literals: "dec 443 = ascii ''443''" "dec 80 = ascii ''80''"
  by code_simp+

lemma last_dec: "last (dec n) \<in> {48..57}"
proof -
  have "dec n \<noteq> []" by (simp add: dec_def ascii_def) (subst show_nat.simps, simp)
  then have "last (dec n) \<in> set (dec n)" by simp
  then show ?thesis
    using show_nat_digits [of n] by (auto simp: dec_def ascii_def is_ascii_digit_def)
qed

text \<open>Stripping from a host that ends in one of the suffixes.\<close>

lemma host_strips:
  "b @ ascii '''' = b"
  "strip_suffix (ascii '':443'') (b @ ascii ''.'') = None"
  "strip_suffix (ascii '':80'') (b @ ascii ''.'') = None"
  "strip_suffix (ascii '':443'') (b @ ascii '':80'') = None"
  "strip_suffix (ascii '':443'') (b @ ascii ''.:80'') = None"
  "strip_suffix (ascii '':443'') (b @ ascii ''.:443'') = Some (b @ ascii ''.'')"
  "strip_suffix (ascii '':80'') (b @ ascii ''.:80'') = Some (b @ ascii ''.'')"
proof -
  show "b @ ascii '''' = b" by (simp add: ascii_def)
  show "strip_suffix (ascii '':443'') (b @ ascii ''.:443'') = Some (b @ ascii ''.'')"
    "strip_suffix (ascii '':80'') (b @ ascii ''.:80'') = Some (b @ ascii ''.'')"
    unfolding strip_suffix_Some_iff by (simp_all add: ascii_def)
qed (rule strip_suffix_last_differs; code_simp)+

lemma host_suffixes_plain:
  assumes "suf \<in> set host_suffixes"
  shows "(suf = [] \<or> \<not> is_whitespace (last suf)) \<and> u_ascii_lowercase suf = suf"
proof -
  have "list_all (\<lambda>s. (s = [] \<or> \<not> is_whitespace (last s)) \<and> u_ascii_lowercase s = s) host_suffixes"
    by (simp add: host_suffixes_def ascii_def u_ascii_lowercase_def ascii_lower_def is_whitespace_def)
  with assms show ?thesis by (simp add: list_all_iff)
qed

lemma normalize_host_canonical:
  assumes "canonical_host d"
  shows "normalize_host d = d"
proof -
  have "trim ([] @ d @ []) = d"
    using assms by (intro trim_between) (simp_all add: canonical_host_def)
  then show ?thesis using assms by (simp add: normalize_host_def canonical_host_def)
qed

lemma normalize_host_port:
  assumes "canonical_host d"
  shows "normalize_host (d @ ascii '':'' @ dec p) =
    (if p = 443 \<or> p = 80 then d else d @ ascii '':'' @ dec p)"
proof -
  have colon: "ascii '':'' = [58]" by (simp add: ascii_def)
  have lits: "ascii '':443'' = 58 # dec 443" "ascii '':80'' = 58 # dec 80"
    by code_simp+
  have digits: "set (dec n) \<subseteq> {48..57}" for n
    using show_nat_digits [of n] by (auto simp: dec_def ascii_def is_ascii_digit_def)
  have "u_ascii_lowercase (dec p) = dec p"
    unfolding u_ascii_lowercase_def using digits [of p] by (intro map_idI) (auto simp: ascii_lower_def)
  then have low: "u_ascii_lowercase (d @ 58 # dec p) = d @ 58 # dec p"
    using assms by (simp add: canonical_host_def u_ascii_lowercase_def ascii_lower_def)
  have ne: "dec p \<noteq> []" by (simp add: dec_def ascii_def) (subst show_nat.simps, simp)
  have "\<not> is_whitespace (last (d @ 58 # dec p))"
    using last_dec [of p] ne by (auto simp: is_whitespace_def)
  then have "trim ([] @ (d @ 58 # dec p) @ []) = d @ 58 # dec p"
    using assms by (intro trim_between) (simp_all add: canonical_host_def)
  moreover have "strip_suffix [46] (d @ 58 # dec p) = None"
    using last_dec [of p] ne strip_suffix_last_differs [of "[46]" "58 # dec p" d] by auto
  moreover have "ascii ''.'' = [46]" by (simp add: ascii_def)
  ultimately show ?thesis
    using assms low
    by (simp add: normalize_host_def colon lits strip_port_dec [OF digits] dec_eq_iff canonical_host_def)
qed

section \<open>Properties\<close>

text \<open>
  All spellings of a host name the same community: in any letter case, with or without the
  trailing root dot, a default port, or surrounding white space, a host normalizes to its canonical
  form, and a canonical host is left as it is.
\<close>

theorem normalize_host_variants:
  assumes "canonical_host b" and "u_ascii_lowercase v = b" and "suf \<in> set host_suffixes"
    and "\<forall>c\<in>set w1. is_whitespace c" and "\<forall>c\<in>set w2. is_whitespace c"
  shows "normalize_host (w1 @ (v @ suf) @ w2) = b"
proof -
  have v: "v \<noteq> []" "ascii_lower (hd v) = hd b" "ascii_lower (last v) = last b"
    using assms(1,2) by (auto simp: canonical_host_def u_ascii_lowercase_def intro: hd_map [symmetric] last_map [symmetric])
  then have ws: "\<not> is_whitespace (hd v)" "\<not> is_whitespace (last v)"
    using assms(1) is_whitespace_lower [of "hd v"] is_whitespace_lower [of "last v"]
    by (auto simp: canonical_host_def)
  have "\<not> is_whitespace (last (v @ suf))"
    using host_suffixes_plain [OF assms(3)] ws(2) by (cases "suf = []") auto
  then have "trim (w1 @ (v @ suf) @ w2) = v @ suf"
    using assms(4,5) v(1) ws(1) by (intro trim_between) auto
  moreover have "u_ascii_lowercase suf = suf"
    using host_suffixes_plain [OF assms(3)] by blast
  ultimately have low: "u_ascii_lowercase (trim (w1 @ (v @ suf) @ w2)) = b @ suf"
    using assms(2) by simp
  consider "suf = ascii ''''" | "suf = ascii ''.''" | "suf = ascii '':443''" | "suf = ascii '':80''"
    | "suf = ascii ''.:443''" | "suf = ascii ''.:80''"
    using assms(3) by (auto simp: host_suffixes_def)
  then show ?thesis
    unfolding normalize_host_def low using assms(1)
    by cases (simp_all add: Let_def canonical_host_def host_strips)
qed

theorem normalize_host_variants_witness:
  "normalize_host ([32] @ (ascii ''Relay.Example'' @ ascii ''.:443'') @ [9, 32]) = ascii ''relay.example''"
proof (rule normalize_host_variants)
  show "canonical_host (ascii ''relay.example'')" by code_simp
  show "u_ascii_lowercase (ascii ''Relay.Example'') = ascii ''relay.example''" by code_simp
  show "ascii ''.:443'' \<in> set host_suffixes" by (simp add: host_suffixes_def)
  show "\<forall>c\<in>set [32]. is_whitespace c" by (simp add: is_whitespace_def)
  show "\<forall>c\<in>set [9, 32]. is_whitespace c" by (simp add: is_whitespace_def)
qed

text \<open>
  The authority of a relay URL is the key a request for that host resolves to: for a canonical
  domain it is the domain itself when the URL has no port or a default port, and the domain with the
  port otherwise, which is what normalizing the corresponding \<open>Host\<close> header gives; a URL that does not
  parse or has no host gives the empty key.
\<close>

theorem relay_url_authority_domain:
  assumes "parse u = Some \<lparr>url_host = Some (Domain d), url_port = port\<rparr>" and "canonical_host d"
  shows "relay_url_authority parse u =
      (case port of
         None \<Rightarrow> d
       | Some p \<Rightarrow> if p = 80 \<or> p = 443 then d else d @ ascii '':'' @ dec (unat p))
    \<and> (parse u' = None \<or> map_option url_host (parse u') = Some None \<longrightarrow>
         relay_url_authority parse u' = [])"
proof -
  have "relay_url_authority parse u = normalize_host (case port of Some p \<Rightarrow> d @ ascii '':'' @ dec (unat p) | None \<Rightarrow> d)"
    using assms(1) by (simp add: relay_url_authority_def)
  moreover have "unat p = 443 \<longleftrightarrow> p = 443" "unat p = 80 \<longleftrightarrow> p = 80" for p :: u16
    by (simp_all add: word_unat_eq_iff)
  ultimately show ?thesis
    using normalize_host_port [OF assms(2)] normalize_host_canonical [OF assms(2)]
    by (auto simp: relay_url_authority_def split: option.splits)
qed

definition demo_url_parse :: "ustr \<Rightarrow> url option" where
  "demo_url_parse s =
     (if s = ascii ''wss://relay:8443'' then Some \<lparr>url_host = Some (Domain (ascii ''relay'')), url_port = Some 8443\<rparr>
      else None)"

theorem relay_url_authority_domain_witness:
  "relay_url_authority demo_url_parse (ascii ''wss://relay:8443'') = ascii ''relay'' @ ascii '':'' @ dec 8443
   \<and> relay_url_authority demo_url_parse (ascii ''relay'') = []"
proof -
  have "demo_url_parse (ascii ''wss://relay:8443'')
      = Some \<lparr>url_host = Some (Domain (ascii ''relay'')), url_port = Some 8443\<rparr>"
    by (simp add: demo_url_parse_def)
  moreover have "canonical_host (ascii ''relay'')" by code_simp
  moreover have "demo_url_parse (ascii ''relay'') = None" by code_simp
  ultimately show ?thesis
    using relay_url_authority_domain [of demo_url_parse "ascii ''wss://relay:8443''" "ascii ''relay''" "Some 8443"
        "ascii ''relay''"] by simp
qed

end
