(* ===== verification/Network.thy ===== *)
theory Network
  imports Buzz_Prelude
begin

text \<open>
  The address filter against server-side request forgery (\<open>buzz-core/src/network.rs\<close>).  An IPv4 address
  is its four octets, an IPv6 address its eight 16-bit segments, as the standard library exposes them.
  The filter is shown to block exactly the documented address blocks.
\<close>

unbundle bit_operations_syntax

section \<open>Addresses\<close>

datatype ipv4_addr = Ipv4Addr byte byte byte byte

datatype ipv6_addr = Ipv6Addr u16 u16 u16 u16 u16 u16 u16 u16

datatype ip_addr = V4 ipv4_addr | V6 ipv6_addr

definition hi_byte :: "u16 \<Rightarrow> byte" where
  "hi_byte s = ucast (drop_bit 8 s)"

definition lo_byte :: "u16 \<Rightarrow> byte" where
  "lo_byte s = ucast s"

text \<open>The classification methods of the standard library.\<close>

fun is_loopback4 :: "ipv4_addr \<Rightarrow> bool" where
  "is_loopback4 (Ipv4Addr a b c d) \<longleftrightarrow> a = 127"

fun is_private4 :: "ipv4_addr \<Rightarrow> bool" where
  "is_private4 (Ipv4Addr a b c d) \<longleftrightarrow>
     a = 10 \<or> (a = 172 \<and> 16 \<le> b \<and> b \<le> 31) \<or> (a = 192 \<and> b = 168)"

fun is_link_local4 :: "ipv4_addr \<Rightarrow> bool" where
  "is_link_local4 (Ipv4Addr a b c d) \<longleftrightarrow> a = 169 \<and> b = 254"

fun is_broadcast4 :: "ipv4_addr \<Rightarrow> bool" where
  "is_broadcast4 (Ipv4Addr a b c d) \<longleftrightarrow> a = 255 \<and> b = 255 \<and> c = 255 \<and> d = 255"

fun octets6 :: "ipv6_addr \<Rightarrow> byte list" where
  "octets6 (Ipv6Addr s0 s1 s2 s3 s4 s5 s6 s7) =
     concat (map (\<lambda>s. [hi_byte s, lo_byte s]) [s0, s1, s2, s3, s4, s5, s6, s7])"

fun to_ipv4 :: "ipv6_addr \<Rightarrow> ipv4_addr option" where
  "to_ipv4 (Ipv6Addr s0 s1 s2 s3 s4 s5 s6 s7) =
     (if s0 = 0 \<and> s1 = 0 \<and> s2 = 0 \<and> s3 = 0 \<and> s4 = 0 \<and> (s5 = 0 \<or> s5 = 0xffff)
      then Some (Ipv4Addr (hi_byte s6) (lo_byte s6) (hi_byte s7) (lo_byte s7)) else None)"

section \<open>The filter\<close>

definition NAT64_WELL_KNOWN_PREFIX :: "byte list" where
  "NAT64_WELL_KNOWN_PREFIX = [0x00, 0x64, 0xff, 0x9b, 0, 0, 0, 0, 0, 0, 0, 0]"

definition IPV4_TRANSLATED_PREFIX :: "byte list" where
  "IPV4_TRANSLATED_PREFIX = [0, 0, 0, 0, 0, 0, 0, 0, 0xff, 0xff, 0, 0]"

definition embedded_ipv4 :: "ipv6_addr \<Rightarrow> byte list \<Rightarrow> ipv4_addr option" where
  "embedded_ipv4 v6 prefix =
     (let octets = octets6 v6
      in if starts_with octets prefix
         then Some (Ipv4Addr (octets ! 12) (octets ! 13) (octets ! 14) (octets ! 15)) else None)"

text \<open>\<open>is_private_ip\<close>: its arm for IPv4, which the IPv6 arm calls on embedded addresses, and the whole
  function.\<close>

fun is_private_ipv4 :: "ipv4_addr \<Rightarrow> bool" where
  "is_private_ipv4 (Ipv4Addr a b c d) \<longleftrightarrow>
     is_loopback4 (Ipv4Addr a b c d) \<or> is_private4 (Ipv4Addr a b c d) \<or> is_link_local4 (Ipv4Addr a b c d)
     \<or> a = 0 \<or> is_broadcast4 (Ipv4Addr a b c d)
     \<or> (a = 100 \<and> b AND 0xC0 = 64)
     \<or> (a = 198 \<and> b AND 0xFE = 18)"

fun is_private_ip :: "ip_addr \<Rightarrow> bool" where
  "is_private_ip (V4 v4) = is_private_ipv4 v4"
| "is_private_ip (V6 (Ipv6Addr s0 s1 s2 s3 s4 s5 s6 s7)) =
     (let v6 = Ipv6Addr s0 s1 s2 s3 s4 s5 s6 s7
      in case to_ipv4 v6 of
           Some v4 \<Rightarrow> is_private_ipv4 v4
         | None \<Rightarrow>
             (case embedded_ipv4 v6 NAT64_WELL_KNOWN_PREFIX of
                Some v4 \<Rightarrow> is_private_ipv4 v4
              | None \<Rightarrow>
                  (case embedded_ipv4 v6 IPV4_TRANSLATED_PREFIX of
                     Some v4 \<Rightarrow> is_private_ipv4 v4
                   | None \<Rightarrow>
                       v6 = Ipv6Addr 0 0 0 0 0 0 0 1
                       \<or> v6 = Ipv6Addr 0 0 0 0 0 0 0 0
                       \<or> s0 AND 0xfe00 = 0xfc00
                       \<or> s0 AND 0xffc0 = 0xfe80
                       \<or> s0 AND 0xff00 = 0xff00
                       \<or> (s0 = 0x0064 \<and> s1 = 0xff9b \<and> s2 = 1)
                       \<or> (s0 = 0x2001 \<and> s1 = 0)
                       \<or> s0 = 0x2002
                       \<or> (s0 = 0x2001 \<and> s1 = 0x0db8))))"

section \<open>Address blocks\<close>

text \<open>Addresses as numbers, and membership in the block \<open>base/len\<close> of \<open>width\<close>-bit addresses.\<close>

fun ipv4_val :: "ipv4_addr \<Rightarrow> nat" where
  "ipv4_val (Ipv4Addr a b c d) = ((unat a * 256 + unat b) * 256 + unat c) * 256 + unat d"

definition segs_val :: "u16 list \<Rightarrow> nat" where
  "segs_val = foldl (\<lambda>n s. n * 65536 + unat s) 0"

fun ipv6_val :: "ipv6_addr \<Rightarrow> nat" where
  "ipv6_val (Ipv6Addr s0 s1 s2 s3 s4 s5 s6 s7) = segs_val [s0, s1, s2, s3, s4, s5, s6, s7]"

definition in_block :: "nat \<Rightarrow> nat \<Rightarrow> nat \<times> nat \<Rightarrow> bool" where
  "in_block width val blk \<longleftrightarrow> val div 2 ^ (width - snd blk) = fst blk div 2 ^ (width - snd blk)"

text \<open>The blocks the code's documentation lists.\<close>

definition ip4 :: "nat \<Rightarrow> nat \<Rightarrow> nat \<Rightarrow> nat \<Rightarrow> nat" where
  "ip4 a b c d = ((a * 256 + b) * 256 + c) * 256 + d"

definition blocked_v4 :: "(nat \<times> nat) list" where
  "blocked_v4 =
     [(ip4 127 0 0 0, 8), (ip4 10 0 0 0, 8), (ip4 172 16 0 0, 12), (ip4 192 168 0 0, 16),
      (ip4 169 254 0 0, 16), (ip4 0 0 0 0, 8), (ip4 255 255 255 255, 32), (ip4 100 64 0 0, 10),
      (ip4 198 18 0 0, 15)]"

definition ip6 :: "u16 list \<Rightarrow> nat" where
  "ip6 prefix = segs_val (take 8 (prefix @ [0, 0, 0, 0, 0, 0, 0, 0]))"

definition blocked_v6 :: "(nat \<times> nat) list" where
  "blocked_v6 =
     [(ip6 [0, 0, 0, 0, 0, 0, 0, 1], 128), (ip6 [], 128), (ip6 [0xfc00], 7), (ip6 [0xfe80], 10),
      (ip6 [0xff00], 8), (ip6 [0x2001, 0x0db8], 32), (ip6 [0x64, 0xff9b, 1], 48), (ip6 [0x2001], 32),
      (ip6 [0x2002], 16)]"

text \<open>The blocks whose last 32 bits are an IPv4 address that is itself checked.\<close>

definition embedding_v6 :: "(nat \<times> nat) list" where
  "embedding_v6 =
     [(ip6 [], 96), (ip6 [0, 0, 0, 0, 0, 0xffff], 96), (ip6 [0x64, 0xff9b], 96),
      (ip6 [0, 0, 0, 0, 0xffff], 96)]"

definition v4_blocked :: "nat \<Rightarrow> bool" where
  "v4_blocked val \<longleftrightarrow> list_ex (in_block 32 val) blocked_v4"

definition v6_blocked :: "nat \<Rightarrow> bool" where
  "v6_blocked val \<longleftrightarrow>
     list_ex (in_block 128 val) blocked_v6
     \<or> (list_ex (in_block 128 val) embedding_v6 \<and> v4_blocked (val mod 2 ^ 32))"

section \<open>Octets and segments as digits\<close>

lemma unat_drop_bit: "unat (drop_bit n (b :: 'a::len word)) = unat b div 2 ^ n"
  by (simp only: unsigned_drop_bit_eq drop_bit_eq_div take_bit_eq_mod)
    (metis drop_bit_eq_div take_bit_word_eq_self unsigned_drop_bit_eq take_bit_nat_eq_self unsigned_less)

lemma unat_hi_byte: "unat (hi_byte s) = unat s div 256"
proof -
  have "unat s < 65536" using unsigned_less [of s, where ?'a = nat] by simp
  then show ?thesis by (simp add: hi_byte_def unsigned_ucast_eq take_bit_eq_mod unat_drop_bit)
qed

lemma unat_lo_byte: "unat (lo_byte s) = unat s mod 256"
  by (simp add: lo_byte_def unsigned_ucast_eq take_bit_eq_mod)

lemma and_not_mask: "(b :: 'a::len word) AND NOT (mask n) = push_bit n (drop_bit n b)"
  by (rule bit_word_eqI) (auto simp: bit_simps)

lemma masked_eq_iff:
  fixes b t :: "'a::len word"
  assumes "m = NOT (mask n)" and "t = push_bit n (drop_bit n t)"
  shows "b AND m = t \<longleftrightarrow> unat b div 2 ^ n = unat t div 2 ^ n"
proof -
  have "drop_bit n (b AND NOT (mask n)) = drop_bit n b"
    by (rule bit_word_eqI) (auto simp: bit_simps dest: bit_imp_le_length)
  then have "b AND m = t \<longleftrightarrow> drop_bit n b = drop_bit n t"
    using assms and_not_mask [of b n] by metis
  then show ?thesis by (simp add: word_unat_eq_iff unat_drop_bit)
qed

text \<open>The masks of the code select a leading part of the octet or segment.\<close>

lemma code_masks:
  "(b :: byte) AND 0xC0 = 64 \<longleftrightarrow> unat b div 64 = 1"
  "b AND 0xFE = 18 \<longleftrightarrow> unat b div 2 = 9"
  "(s :: u16) AND 0xfe00 = 0xfc00 \<longleftrightarrow> unat s div 512 = 126"
  "s AND 0xffc0 = 0xfe80 \<longleftrightarrow> unat s div 64 = 1018"
  "s AND 0xff00 = 0xff00 \<longleftrightarrow> unat s div 256 = 255"
proof -
  have "(0xC0 :: byte) = NOT (mask 6)" "(64 :: byte) = push_bit 6 (drop_bit 6 64)" by code_simp+
  from masked_eq_iff [OF this, of b] show "b AND 0xC0 = 64 \<longleftrightarrow> unat b div 64 = 1" by simp
  have "(0xFE :: byte) = NOT (mask 1)" "(18 :: byte) = push_bit 1 (drop_bit 1 18)" by code_simp+
  from masked_eq_iff [OF this, of b] show "b AND 0xFE = 18 \<longleftrightarrow> unat b div 2 = 9" by simp
  have "(0xfe00 :: u16) = NOT (mask 9)" "(0xfc00 :: u16) = push_bit 9 (drop_bit 9 0xfc00)" by code_simp+
  from masked_eq_iff [OF this, of s] show "s AND 0xfe00 = 0xfc00 \<longleftrightarrow> unat s div 512 = 126" by simp
  have "(0xffc0 :: u16) = NOT (mask 6)" "(0xfe80 :: u16) = push_bit 6 (drop_bit 6 0xfe80)" by code_simp+
  from masked_eq_iff [OF this, of s] show "s AND 0xffc0 = 0xfe80 \<longleftrightarrow> unat s div 64 = 1018" by simp
  have "(0xff00 :: u16) = NOT (mask 8)" "(0xff00 :: u16) = push_bit 8 (drop_bit 8 0xff00)" by code_simp+
  from masked_eq_iff [OF this, of s] show "s AND 0xff00 = 0xff00 \<longleftrightarrow> unat s div 256 = 255" by simp
qed

text \<open>Two digits in base \<open>m\<close> fall into a block of \<open>k\<close> consecutive lower digits.\<close>

lemma digits_div:
  fixes a b :: nat
  assumes "b < m" and "k dvd m" and "B < m"
  shows "(a * m + b) div k = (A * m + B) div k \<longleftrightarrow> a = A \<and> b div k = B div k"
proof -
  obtain q where m: "m = k * q" using assms(2) by (elim dvdE)
  then have k: "0 < k" using assms(1) by (cases k) auto
  have split: "(x * m + y) div k = x * q + y div k" for x y
    using k m by (simp add: mult.left_commute [of x k] add.commute)
  have "b div k < q" "B div k < q"
    using assms(1,3) m by (simp_all add: less_mult_imp_div_less mult.commute)
  then show ?thesis
    unfolding split by (metis add_right_imp_eq div_less div_mult_self3 less_nat_zero_code mod_less mod_mult_self3 add_0_right)
qed

lemma drop_digit: "(c::nat) < m \<Longrightarrow> (a * m + c) div (m * k) = a div k"
  by (simp add: div_mult2_eq)

lemma v4_block:
  assumes "A < 256" "B < 256" "j dvd 256" "32 - len = 16 + n" "j = 2 ^ n"
  shows "in_block 32 (ipv4_val (Ipv4Addr a b c d)) (ip4 A B 0 0, len)
         \<longleftrightarrow> unat a = A \<and> unat b div j = B div j"
proof -
  have shift: "(((x * 256 + y) * 256 + z) * 256 + w) div (65536 * j) = (x * 256 + y) div j"
    if "z < 256" "w < 256" for x y z w :: nat
    using drop_digit [of w 256 "(x * 256 + y) * 256 + z" "256 * j"]
      drop_digit [of z 256 "x * 256 + y" j] that by (simp add: mult.assoc)
  have "2 ^ (32 - len) = 65536 * j"
    using assms(4,5) by (simp add: power_add)
  then show ?thesis
    using shift [of "unat c" "unat d" "unat a" "unat b"] shift [of 0 0 A B] assms
      digits_div [of "unat b" 256 j B "unat a" A]
    by (simp add: in_block_def ip4_def byte_bound)
qed

lemma v4_single:
  "in_block 32 (ipv4_val (Ipv4Addr a b c d)) (ip4 255 255 255 255, 32)
   \<longleftrightarrow> unat a = 255 \<and> unat b = 255 \<and> unat c = 255 \<and> unat d = 255"
  using byte_bound [of a] byte_bound [of b] byte_bound [of c] byte_bound [of d]
  by (simp add: in_block_def ip4_def) linarith

lemma v4_blocks:
  fixes a b c d :: byte
  defines "in4 \<equiv> in_block 32 (ipv4_val (Ipv4Addr a b c d))"
  shows "in4 (ip4 127 0 0 0, 8) \<longleftrightarrow> a = 127"
    and "in4 (ip4 10 0 0 0, 8) \<longleftrightarrow> a = 10"
    and "in4 (ip4 172 16 0 0, 12) \<longleftrightarrow> a = 172 \<and> 16 \<le> b \<and> b \<le> 31"
    and "in4 (ip4 192 168 0 0, 16) \<longleftrightarrow> a = 192 \<and> b = 168"
    and "in4 (ip4 169 254 0 0, 16) \<longleftrightarrow> a = 169 \<and> b = 254"
    and "in4 (ip4 0 0 0 0, 8) \<longleftrightarrow> a = 0"
    and "in4 (ip4 100 64 0 0, 10) \<longleftrightarrow> a = 100 \<and> b AND 0xC0 = 64"
    and "in4 (ip4 198 18 0 0, 15) \<longleftrightarrow> a = 198 \<and> b AND 0xFE = 18"
proof -
  have div16: "unat b div 16 = Suc 0 \<longleftrightarrow> 16 \<le> unat b \<and> unat b \<le> 31" by linarith
  show "in4 (ip4 127 0 0 0, 8) \<longleftrightarrow> a = 127"
    unfolding in4_def by (subst v4_block [where j = 256 and n = 8])
      (use byte_bound [of b] in \<open>simp_all add: unat_eq_literal unat_0_iff code_masks\<close>)
  show "in4 (ip4 10 0 0 0, 8) \<longleftrightarrow> a = 10"
    unfolding in4_def by (subst v4_block [where j = 256 and n = 8])
      (use byte_bound [of b] in \<open>simp_all add: unat_eq_literal unat_0_iff code_masks\<close>)
  show "in4 (ip4 172 16 0 0, 12) \<longleftrightarrow> a = 172 \<and> 16 \<le> b \<and> b \<le> 31"
    unfolding in4_def by (subst v4_block [where j = 16 and n = 4])
      (use byte_bound [of b] in \<open>simp_all add: unat_eq_literal unat_0_iff code_masks div16 word_le_nat_alt\<close>)
  show "in4 (ip4 192 168 0 0, 16) \<longleftrightarrow> a = 192 \<and> b = 168"
    unfolding in4_def by (subst v4_block [where j = 1 and n = 0])
      (use byte_bound [of b] in \<open>simp_all add: unat_eq_literal unat_0_iff code_masks\<close>)
  show "in4 (ip4 169 254 0 0, 16) \<longleftrightarrow> a = 169 \<and> b = 254"
    unfolding in4_def by (subst v4_block [where j = 1 and n = 0])
      (use byte_bound [of b] in \<open>simp_all add: unat_eq_literal unat_0_iff code_masks\<close>)
  show "in4 (ip4 0 0 0 0, 8) \<longleftrightarrow> a = 0"
    unfolding in4_def by (subst v4_block [where j = 256 and n = 8])
      (use byte_bound [of b] in \<open>simp_all add: unat_eq_literal unat_0_iff code_masks\<close>)
  show "in4 (ip4 100 64 0 0, 10) \<longleftrightarrow> a = 100 \<and> b AND 0xC0 = 64"
    unfolding in4_def by (subst v4_block [where j = 64 and n = 6])
      (use byte_bound [of b] in \<open>simp_all add: unat_eq_literal unat_0_iff code_masks\<close>)
  show "in4 (ip4 198 18 0 0, 15) \<longleftrightarrow> a = 198 \<and> b AND 0xFE = 18"
    unfolding in4_def by (subst v4_block [where j = 2 and n = 1])
      (use byte_bound [of b] in \<open>simp_all add: unat_eq_literal unat_0_iff code_masks\<close>)
qed

lemma v4_filter_blocks: "is_private_ipv4 v4 \<longleftrightarrow> v4_blocked (ipv4_val v4)"
proof (cases v4)
  case (Ipv4Addr a b c d)
  have "in_block 32 (ipv4_val (Ipv4Addr a b c d)) (ip4 255 255 255 255, 32)
      \<longleftrightarrow> a = 255 \<and> b = 255 \<and> c = 255 \<and> d = 255"
    unfolding v4_single by (simp add: unat_eq_literal)
  then show ?thesis
    unfolding Ipv4Addr v4_blocked_def blocked_v4_def list_ex_iff list.set ball_simps bex_simps v4_blocks by auto
qed

text \<open>The same for sixteen-bit segments.\<close>

lemma segs_val_snoc: "segs_val (xs @ [s]) = segs_val xs * 65536 + unat s"
  by (simp add: segs_val_def)

lemma segs_val_div: "segs_val (xs @ ys) div 65536 ^ length ys = segs_val xs"
proof (induction ys rule: rev_induct)
  case (snoc y ys)
  have "segs_val (xs @ ys @ [y]) = segs_val (xs @ ys) * 65536 + unat y"
    using segs_val_snoc [of "xs @ ys" y] by simp
  then show ?case
    using snoc drop_digit [of "unat y" 65536 "segs_val (xs @ ys)" "65536 ^ length ys"]
    by (simp add: segment_bound)
qed simp

lemma segs_val_eq_iff: "length xs = length ys \<Longrightarrow> segs_val xs = segs_val ys \<longleftrightarrow> xs = ys"
proof (induction xs arbitrary: ys rule: rev_induct)
  case (snoc x xs)
  then obtain y zs where ys: "ys = zs @ [y]" by (metis length_append_singleton length_Suc_conv_rev)
  have "segs_val (xs @ [x]) = segs_val (zs @ [y]) \<longleftrightarrow> segs_val xs = segs_val zs \<and> unat x = unat y"
    unfolding segs_val_snoc
    using digits_div [of "unat x" 65536 1 "unat y" "segs_val xs" "segs_val zs"] by (simp add: segment_bound)
  then show ?case using snoc ys by (simp add: word_unat_eq_iff)
qed simp

lemma v6_block_segments:
  assumes "length S = 8" and "length P = 8" and "k \<le> 8" and "len = 16 * k"
  shows "in_block 128 (segs_val S) (segs_val P, len) \<longleftrightarrow> take k S = take k P"
proof -
  have pow: "(2 :: nat) ^ (128 - 16 * k) = 65536 ^ (8 - k)"
    using assms(3) power_mult [of "2 :: nat" 16 "8 - k"] by (simp add: diff_mult_distrib2)
  have "segs_val T div 65536 ^ (8 - k) = segs_val (take k T)" if "length T = 8" for T
    using segs_val_div [of "take k T" "drop k T"] that by simp
  then show ?thesis
    using assms segs_val_eq_iff [of "take k S" "take k P"] by (simp add: in_block_def pow assms(4))
qed

lemma v6_block_leading:
  assumes "length S = 7" and "length P = 7" and "n \<le> 16"
  shows "in_block 128 (segs_val (s # S)) (segs_val (p # P), n)
         \<longleftrightarrow> unat s div 2 ^ (16 - n) = unat p div 2 ^ (16 - n)"
proof -
  have pow: "(2 :: nat) ^ (128 - n) = 65536 ^ 7 * 2 ^ (16 - n)"
  proof -
    have "128 - n = 112 + (16 - n)" using assms(3) by simp
    then have "(2 :: nat) ^ (128 - n) = 2 ^ 112 * 2 ^ (16 - n)" by (simp only: power_add)
    then show ?thesis by simp
  qed
  have "segs_val (t # T) div (65536 ^ 7 * 2 ^ (16 - n)) = unat t div 2 ^ (16 - n)"
    if "length T = 7" for t T
    using segs_val_div [of "[t]" T] that by (simp add: div_mult2_eq segs_val_def)
  then show ?thesis using assms by (simp add: in_block_def pow)
qed

lemma v6_blocks:
  fixes s0 s1 s2 s3 s4 s5 s6 s7 :: u16
  defines "in6 \<equiv> in_block 128 (ipv6_val (Ipv6Addr s0 s1 s2 s3 s4 s5 s6 s7))"
  shows "in6 (ip6 [0, 0, 0, 0, 0, 0, 0, 1], 128)
           \<longleftrightarrow> Ipv6Addr s0 s1 s2 s3 s4 s5 s6 s7 = Ipv6Addr 0 0 0 0 0 0 0 1"
    and "in6 (ip6 [], 128) \<longleftrightarrow> Ipv6Addr s0 s1 s2 s3 s4 s5 s6 s7 = Ipv6Addr 0 0 0 0 0 0 0 0"
    and "in6 (ip6 [0xfc00], 7) \<longleftrightarrow> s0 AND 0xfe00 = 0xfc00"
    and "in6 (ip6 [0xfe80], 10) \<longleftrightarrow> s0 AND 0xffc0 = 0xfe80"
    and "in6 (ip6 [0xff00], 8) \<longleftrightarrow> s0 AND 0xff00 = 0xff00"
    and "in6 (ip6 [0x2001, 0x0db8], 32) \<longleftrightarrow> s0 = 0x2001 \<and> s1 = 0x0db8"
    and "in6 (ip6 [0x64, 0xff9b, 1], 48) \<longleftrightarrow> s0 = 0x64 \<and> s1 = 0xff9b \<and> s2 = 1"
    and "in6 (ip6 [0x2001], 32) \<longleftrightarrow> s0 = 0x2001 \<and> s1 = 0"
    and "in6 (ip6 [0x2002], 16) \<longleftrightarrow> s0 = 0x2002"
    and "in6 (ip6 [], 96) \<longleftrightarrow> s0 = 0 \<and> s1 = 0 \<and> s2 = 0 \<and> s3 = 0 \<and> s4 = 0 \<and> s5 = 0"
    and "in6 (ip6 [0, 0, 0, 0, 0, 0xffff], 96)
           \<longleftrightarrow> s0 = 0 \<and> s1 = 0 \<and> s2 = 0 \<and> s3 = 0 \<and> s4 = 0 \<and> s5 = 0xffff"
    and "in6 (ip6 [0x64, 0xff9b], 96)
           \<longleftrightarrow> s0 = 0x64 \<and> s1 = 0xff9b \<and> s2 = 0 \<and> s3 = 0 \<and> s4 = 0 \<and> s5 = 0"
    and "in6 (ip6 [0, 0, 0, 0, 0xffff], 96)
           \<longleftrightarrow> s0 = 0 \<and> s1 = 0 \<and> s2 = 0 \<and> s3 = 0 \<and> s4 = 0xffff \<and> s5 = 0"
proof -
  show "in6 (ip6 [0, 0, 0, 0, 0, 0, 0, 1], 128)
           \<longleftrightarrow> Ipv6Addr s0 s1 s2 s3 s4 s5 s6 s7 = Ipv6Addr 0 0 0 0 0 0 0 1"
    unfolding in6_def ip6_def ipv6_val.simps
    by (subst v6_block_segments [where k = 8]) simp_all
  show "in6 (ip6 [], 128) \<longleftrightarrow> Ipv6Addr s0 s1 s2 s3 s4 s5 s6 s7 = Ipv6Addr 0 0 0 0 0 0 0 0"
    unfolding in6_def ip6_def ipv6_val.simps
    by (subst v6_block_segments [where k = 8]) simp_all
  show "in6 (ip6 [0xfc00], 7) \<longleftrightarrow> s0 AND 0xfe00 = 0xfc00"
    unfolding in6_def ip6_def ipv6_val.simps
    by (simp, subst v6_block_leading) (simp_all add: code_masks)
  show "in6 (ip6 [0xfe80], 10) \<longleftrightarrow> s0 AND 0xffc0 = 0xfe80"
    unfolding in6_def ip6_def ipv6_val.simps
    by (simp, subst v6_block_leading) (simp_all add: code_masks)
  show "in6 (ip6 [0xff00], 8) \<longleftrightarrow> s0 AND 0xff00 = 0xff00"
    unfolding in6_def ip6_def ipv6_val.simps
    by (simp, subst v6_block_leading) (simp_all add: code_masks)
  show "in6 (ip6 [0x2001, 0x0db8], 32) \<longleftrightarrow> s0 = 0x2001 \<and> s1 = 0x0db8"
    unfolding in6_def ip6_def ipv6_val.simps
    by (subst v6_block_segments [where k = 2]) simp_all
  show "in6 (ip6 [0x64, 0xff9b, 1], 48) \<longleftrightarrow> s0 = 0x64 \<and> s1 = 0xff9b \<and> s2 = 1"
    unfolding in6_def ip6_def ipv6_val.simps
    by (subst v6_block_segments [where k = 3]) simp_all
  show "in6 (ip6 [0x2001], 32) \<longleftrightarrow> s0 = 0x2001 \<and> s1 = 0"
    unfolding in6_def ip6_def ipv6_val.simps
    by (subst v6_block_segments [where k = 2]) simp_all
  show "in6 (ip6 [0x2002], 16) \<longleftrightarrow> s0 = 0x2002"
    unfolding in6_def ip6_def ipv6_val.simps
    by (subst v6_block_segments [where k = 1]) simp_all
  show "in6 (ip6 [], 96) \<longleftrightarrow> s0 = 0 \<and> s1 = 0 \<and> s2 = 0 \<and> s3 = 0 \<and> s4 = 0 \<and> s5 = 0"
    unfolding in6_def ip6_def ipv6_val.simps
    by (subst v6_block_segments [where k = 6]) simp_all
  show "in6 (ip6 [0, 0, 0, 0, 0, 0xffff], 96)
           \<longleftrightarrow> s0 = 0 \<and> s1 = 0 \<and> s2 = 0 \<and> s3 = 0 \<and> s4 = 0 \<and> s5 = 0xffff"
    unfolding in6_def ip6_def ipv6_val.simps
    by (subst v6_block_segments [where k = 6]) simp_all
  show "in6 (ip6 [0x64, 0xff9b], 96)
           \<longleftrightarrow> s0 = 0x64 \<and> s1 = 0xff9b \<and> s2 = 0 \<and> s3 = 0 \<and> s4 = 0 \<and> s5 = 0"
    unfolding in6_def ip6_def ipv6_val.simps
    by (subst v6_block_segments [where k = 6]) simp_all
  show "in6 (ip6 [0, 0, 0, 0, 0xffff], 96)
           \<longleftrightarrow> s0 = 0 \<and> s1 = 0 \<and> s2 = 0 \<and> s3 = 0 \<and> s4 = 0xffff \<and> s5 = 0"
    unfolding in6_def ip6_def ipv6_val.simps
    by (subst v6_block_segments [where k = 6]) simp_all
qed

text \<open>The octet prefixes of the code as conditions on segments, and the embedded address.\<close>

lemma bytes_of_segment:
  "hi_byte s = h \<and> lo_byte s = l \<longleftrightarrow> unat s = unat h * 256 + unat l"
  unfolding word_unat_eq_iff [of "hi_byte s"] word_unat_eq_iff [of "lo_byte s"] unat_hi_byte unat_lo_byte
  using byte_bound [of l] by auto (metis div_mult_mod_eq)

definition last32 :: "ipv6_addr \<Rightarrow> ipv4_addr" where
  "last32 v6 = (let octets = octets6 v6
                in Ipv4Addr (octets ! 12) (octets ! 13) (octets ! 14) (octets ! 15))"

lemma embedded_ipv4_prefixes:
  "embedded_ipv4 (Ipv6Addr s0 s1 s2 s3 s4 s5 s6 s7) NAT64_WELL_KNOWN_PREFIX =
     (if s0 = 0x64 \<and> s1 = 0xff9b \<and> s2 = 0 \<and> s3 = 0 \<and> s4 = 0 \<and> s5 = 0
      then Some (last32 (Ipv6Addr s0 s1 s2 s3 s4 s5 s6 s7)) else None)"
  "embedded_ipv4 (Ipv6Addr s0 s1 s2 s3 s4 s5 s6 s7) IPV4_TRANSLATED_PREFIX =
     (if s0 = 0 \<and> s1 = 0 \<and> s2 = 0 \<and> s3 = 0 \<and> s4 = 0xffff \<and> s5 = 0
      then Some (last32 (Ipv6Addr s0 s1 s2 s3 s4 s5 s6 s7)) else None)"
proof -
  have seg: "hi_byte s = 0 \<and> lo_byte s = 0 \<longleftrightarrow> s = 0" "hi_byte s = 0 \<and> lo_byte s = 0x64 \<longleftrightarrow> s = 0x64"
    "hi_byte s = 0xff \<and> lo_byte s = 0x9b \<longleftrightarrow> s = 0xff9b"
    "hi_byte s = 0xff \<and> lo_byte s = 0xff \<longleftrightarrow> s = 0xffff" for s
    by (simp_all add: bytes_of_segment unat_eq_literal unat_0_iff)
  show "embedded_ipv4 (Ipv6Addr s0 s1 s2 s3 s4 s5 s6 s7) NAT64_WELL_KNOWN_PREFIX =
     (if s0 = 0x64 \<and> s1 = 0xff9b \<and> s2 = 0 \<and> s3 = 0 \<and> s4 = 0 \<and> s5 = 0
      then Some (last32 (Ipv6Addr s0 s1 s2 s3 s4 s5 s6 s7)) else None)"
    by (simp add: embedded_ipv4_def starts_with_def NAT64_WELL_KNOWN_PREFIX_def last32_def Let_def flip: seg)
  show "embedded_ipv4 (Ipv6Addr s0 s1 s2 s3 s4 s5 s6 s7) IPV4_TRANSLATED_PREFIX =
     (if s0 = 0 \<and> s1 = 0 \<and> s2 = 0 \<and> s3 = 0 \<and> s4 = 0xffff \<and> s5 = 0
      then Some (last32 (Ipv6Addr s0 s1 s2 s3 s4 s5 s6 s7)) else None)"
    by (simp add: embedded_ipv4_def starts_with_def IPV4_TRANSLATED_PREFIX_def last32_def Let_def flip: seg)
qed

lemma to_ipv4_last32:
  "to_ipv4 (Ipv6Addr s0 s1 s2 s3 s4 s5 s6 s7) =
     (if s0 = 0 \<and> s1 = 0 \<and> s2 = 0 \<and> s3 = 0 \<and> s4 = 0 \<and> (s5 = 0 \<or> s5 = 0xffff)
      then Some (last32 (Ipv6Addr s0 s1 s2 s3 s4 s5 s6 s7)) else None)"
  by (simp add: last32_def)

lemma ipv4_val_last32: "ipv4_val (last32 v6) = ipv6_val v6 mod 2 ^ 32"
proof (cases v6)
  case (Ipv6Addr s0 s1 s2 s3 s4 s5 s6 s7)
  have join: "unat (hi_byte s) * 256 + unat (lo_byte s) = unat s" for s
    by (simp add: unat_hi_byte unat_lo_byte)
  have "ipv4_val (last32 v6) = unat s6 * 65536 + unat s7"
    using join [of s6] join [of s7] by (simp add: Ipv6Addr last32_def algebra_simps)
  moreover have "unat s6 * 65536 + unat s7 < 2 ^ 32"
    using segment_bound [of s6] segment_bound [of s7] by simp
  moreover have "ipv6_val v6 = segs_val [s0, s1, s2, s3, s4, s5] * 2 ^ 32 + (unat s6 * 65536 + unat s7)"
    by (simp add: Ipv6Addr segs_val_def algebra_simps)
  ultimately show ?thesis by simp
qed

section \<open>Properties\<close>

text \<open>
  C33.  The address filter blocks exactly the documented blocks: an IPv4 address is refused iff it lies
  in one of the listed blocks, an IPv6 address iff it lies in one of the listed blocks or in a block
  that embeds an IPv4 address (compatible, mapped, translated or NAT64) whose last 32 bits are refused.
\<close>

theorem is_private_ip_blocks:
  "is_private_ip (V4 v4) = v4_blocked (ipv4_val v4)
   \<and> is_private_ip (V6 v6) = v6_blocked (ipv6_val v6)"
proof
  show "is_private_ip (V4 v4) = v4_blocked (ipv4_val v4)" by (simp add: v4_filter_blocks)
  show "is_private_ip (V6 v6) = v6_blocked (ipv6_val v6)"
  proof (cases v6)
    case (Ipv6Addr s0 s1 s2 s3 s4 s5 s6 s7)
    let ?v6 = "Ipv6Addr s0 s1 s2 s3 s4 s5 s6 s7"
    have low: "is_private_ipv4 (last32 ?v6) = v4_blocked (ipv6_val ?v6 mod 2 ^ 32)"
      by (simp only: v4_filter_blocks ipv4_val_last32)
    have low0: "is_private_ipv4 (last32 ?v6)" if "s6 = 0"
      using that by (simp add: last32_def hi_byte_def)
    have masks: "(0 :: u16) AND 0xfe00 \<noteq> 0xfc00" "(0 :: u16) AND 0xffc0 \<noteq> 0xfe80" "(0 :: u16) AND 0xff00 \<noteq> 0xff00"
      "(0x64 :: u16) AND 0xfe00 \<noteq> 0xfc00" "(0x64 :: u16) AND 0xffc0 \<noteq> 0xfe80" "(0x64 :: u16) AND 0xff00 \<noteq> 0xff00"
      by code_simp+
    show ?thesis
      unfolding Ipv6Addr v6_blocked_def blocked_v6_def embedding_v6_def list_ex_iff list.set bex_simps v6_blocks
        low [symmetric] is_private_ip.simps Let_def to_ipv4_last32 embedded_ipv4_prefixes
      using low0 masks by (simp del: is_private_ipv4.simps split: if_splits) auto
  qed
qed

end
