(* ===== verification/Pairing_Crypto.thy ===== *)
theory Pairing_Crypto
  imports Nostr_Event
begin

text \<open>
  Data and key derivation of the device-pairing protocol (\<open>buzz-core/src/pairing/types.rs\<close>,
  \<open>mod.rs\<close> and \<open>crypto.rs\<close>): the messages, the errors, the derivation of session id, short
  authentication string and transcript hash, and the six-digit display form.

  The cryptographic and serialization primitives belong to other crates (\<open>nostr\<close>, \<open>serde_json\<close>,
  \<open>hex\<close>); they are the fields of the record \<open>pairing_lib\<close>, an argument of every definition that uses
  them.  What they are documented to do is collected in \<open>lawful_lib\<close> of \<open>Pairing_Session\<close>.
\<close>

section \<open>Messages and errors\<close>

datatype payload_type = Nsec | Bunker | Connect | Custom

datatype abort_reason = AbortSasMismatch | UserDenied | AbortTimeout | ProtocolError | UnknownReason

type_synonym u32 = "32 word"

datatype pairing_message =
  Offer string u32
| SasConfirm string
| Payload payload_type string
| Complete bool
| Abort abort_reason

definition default_version :: u32 where
  "default_version = 1"

datatype pairing_error =
  InvalidQr string
| InvalidSessionId
| SasMismatch
| TranscriptMismatch
| UnexpectedMessage string string
| SessionExpired
| Nip44 string
| Json string
| InvalidPubkey string
| SigningError string

section \<open>The primitives of other crates\<close>

text \<open>\<open>Keys\<close>: a secret key and its public key.  \<open>EventBuilder\<close>: what is signed.\<close>

record keys =
  secret_key :: "byte list"
  public_key :: pubkey

record event_builder =
  b_kind :: u16
  b_content :: string
  b_tags :: "tag list"
  b_created_at :: nat

text \<open>
  \<open>nip44_encrypt\<close> takes the random nonce it draws as an argument.  Errors carry the text of the
  crate's error.
\<close>

record pairing_lib =
  hkdf_extract :: "byte list \<Rightarrow> byte list \<Rightarrow> byte list"
  hkdf_expand :: "byte list \<Rightarrow> byte list \<Rightarrow> nat \<Rightarrow> byte list"
  generate_shared_key :: "byte list \<Rightarrow> pubkey \<Rightarrow> string + byte list"
  hex_encode :: "byte list \<Rightarrow> string"
  hex_decode :: "string \<Rightarrow> string + byte list"
  pk_from_hex :: "string \<Rightarrow> string + pubkey"
  pk_to_hex :: "pubkey \<Rightarrow> string"
  tag_public_key :: "pubkey \<Rightarrow> tag"
  to_json :: "pairing_message \<Rightarrow> string + string"
  from_json :: "string \<Rightarrow> string + pairing_message"
  nip44_encrypt :: "byte list \<Rightarrow> pubkey \<Rightarrow> string \<Rightarrow> nat \<Rightarrow> string + string"
  nip44_decrypt :: "byte list \<Rightarrow> pubkey \<Rightarrow> string \<Rightarrow> string + string"
  sign_with_keys :: "keys \<Rightarrow> event_builder \<Rightarrow> string + event"
  event_verify :: "event \<Rightarrow> string + unit"

section \<open>Key derivation\<close>

definition str_bytes :: "string \<Rightarrow> byte list" where
  "str_bytes s = map of_char s"

definition INFO_SESSION_ID :: "byte list" where
  "INFO_SESSION_ID = str_bytes ''nostr-pair-session-id''"

definition INFO_SAS :: "byte list" where
  "INFO_SAS = str_bytes ''nostr-pair-sas-v1''"

definition INFO_TRANSCRIPT :: "byte list" where
  "INFO_TRANSCRIPT = str_bytes ''nostr-pair-transcript-v1''"

definition hkdf32 :: "pairing_lib \<Rightarrow> byte list \<Rightarrow> byte list \<Rightarrow> byte list \<Rightarrow> byte list" where
  "hkdf32 L salt ikm info =
     (let prk = hkdf_extract L salt ikm; okm = hkdf_expand L prk info 32 in take 32 okm)"

definition derive_session_id :: "pairing_lib \<Rightarrow> byte list \<Rightarrow> byte list" where
  "derive_session_id L session_secret = hkdf32 L [] session_secret INFO_SESSION_ID"

fun u32_from_be_bytes :: "byte list \<Rightarrow> u32" where
  "u32_from_be_bytes (a # b # c # d # _) =
     word_of_nat (((unat a * 256 + unat b) * 256 + unat c) * 256 + unat d)"
| "u32_from_be_bytes _ = 0"

definition derive_sas :: "pairing_lib \<Rightarrow> byte list \<Rightarrow> byte list \<Rightarrow> u32 \<times> byte list" where
  "derive_sas L ecdh_shared session_secret =
     (let sas_input = hkdf32 L session_secret ecdh_shared INFO_SAS;
          sas_code = u32_from_be_bytes sas_input mod 1000000
      in (sas_code, sas_input))"

definition derive_transcript_hash ::
  "pairing_lib \<Rightarrow> byte list \<Rightarrow> pubkey \<Rightarrow> pubkey \<Rightarrow> byte list \<Rightarrow> byte list \<Rightarrow> byte list" where
  "derive_transcript_hash L session_id source_pubkey target_pubkey sas_input session_secret =
     (let transcript = session_id @ source_pubkey @ target_pubkey @ sas_input
      in hkdf32 L session_secret transcript INFO_TRANSCRIPT)"

definition format_sas :: "u32 \<Rightarrow> string" where
  "format_sas code = pad_zeros 6 (show_nat (unat code))"

definition ct_eq :: "byte list \<Rightarrow> byte list \<Rightarrow> bool" where
  "ct_eq a b \<longleftrightarrow> a = b"

text \<open>\<open><[u8; 32]>::try_from\<close>.\<close>

definition bytes32 :: "byte list \<Rightarrow> byte list option" where
  "bytes32 b = (if length b = 32 then Some b else None)"

text \<open>\<open>hex::decode(s).ok().and_then(|b| <[u8; 32]>::try_from(b).ok())\<close>.\<close>

definition hex_decode32 :: "pairing_lib \<Rightarrow> string \<Rightarrow> byte list option" where
  "hex_decode32 L s = (case hex_decode L s of Inl _ \<Rightarrow> None | Inr b \<Rightarrow> bytes32 b)"

lemma derive_sas_bound: "unat (fst (derive_sas L e s)) < 1000000"
proof -
  have "unat (w mod 1000000) < 1000000" for w :: u32
    by (simp add: unat_mod)
  then show ?thesis by (simp add: derive_sas_def Let_def)
qed

lemma read_format_sas [simp]: "read_nat (format_sas code) = unat code"
  by (simp add: format_sas_def)

section \<open>A concrete library\<close>

text \<open>
  An instance of the primitives for the witnesses: public keys equal secret keys, the shared key is
  the bytewise sum, encryption is padding, events are identified by their content.  It satisfies every
  law the theorems ask of the primitives, and nothing else is claimed of it.
\<close>

definition unhex_digit :: "char \<Rightarrow> nat" where
  "unhex_digit c = (if is_ascii_digit c then of_char c - 48 else of_char c - 87)"

fun unhex :: "string \<Rightarrow> byte list" where
  "unhex (a # b # rest) = word_of_nat (unhex_digit a * 16 + unhex_digit b) # unhex rest"
| "unhex _ = []"

fun payload_char :: "payload_type \<Rightarrow> char" where
  "payload_char Nsec = CHR ''n''"
| "payload_char Bunker = CHR ''b''"
| "payload_char Connect = CHR ''c''"
| "payload_char Custom = CHR ''x''"

fun reason_char :: "abort_reason \<Rightarrow> char" where
  "reason_char AbortSasMismatch = CHR ''m''"
| "reason_char UserDenied = CHR ''d''"
| "reason_char AbortTimeout = CHR ''t''"
| "reason_char ProtocolError = CHR ''p''"
| "reason_char UnknownReason = CHR ''u''"

fun demo_to_json :: "pairing_message \<Rightarrow> string" where
  "demo_to_json (Offer i v) = CHR ''o'' # show_nat (unat v) @ CHR '','' # i"
| "demo_to_json (SasConfirm h) = CHR ''s'' # h"
| "demo_to_json (Payload t p) = CHR ''p'' # payload_char t # p"
| "demo_to_json (Complete b) = [CHR ''c'', if b then CHR ''t'' else CHR ''f'']"
| "demo_to_json (Abort r) = [CHR ''a'', reason_char r]"

definition demo_from_json :: "string \<Rightarrow> string + pairing_message" where
  "demo_from_json s =
     (case s of
        [] \<Rightarrow> Inl ''empty''
      | c # r \<Rightarrow>
          if c = CHR ''o'' then
            (case split_once (CHR '','') r of
               None \<Rightarrow> Inl ''offer''
             | Some (v, i) \<Rightarrow> Inr (Offer i (word_of_nat (read_nat v))))
          else if c = CHR ''s'' then Inr (SasConfirm r)
          else if c = CHR ''p'' then
            (case r of
               [] \<Rightarrow> Inl ''payload''
             | k # p \<Rightarrow>
                 Inr (Payload (if k = CHR ''n'' then Nsec else if k = CHR ''b'' then Bunker
                               else if k = CHR ''c'' then Connect else Custom) p))
          else if c = CHR ''c'' then Inr (Complete (r = ''t''))
          else
            Inr (Abort (if r = ''m'' then AbortSasMismatch else if r = ''d'' then UserDenied
                        else if r = ''t'' then AbortTimeout else if r = ''p'' then ProtocolError
                        else UnknownReason)))"

definition demo_pairing_lib :: pairing_lib where
  "demo_pairing_lib =
     \<lparr>hkdf_extract = (\<lambda>salt ikm. salt @ ikm),
      hkdf_expand = (\<lambda>prk info n. take n (prk @ info @ replicate n 0)),
      generate_shared_key = (\<lambda>sk pk. Inr (map2 (+) sk pk)),
      hex_encode = hex_bytes,
      hex_decode = (\<lambda>s. Inr (unhex s)),
      pk_from_hex = (\<lambda>s. Inr (unhex s)),
      pk_to_hex = hex_bytes,
      tag_public_key = (\<lambda>pk. [''p'', hex_bytes pk]),
      to_json = (\<lambda>m. Inr (demo_to_json m)),
      from_json = demo_from_json,
      nip44_encrypt = (\<lambda>sk pk m n. if m \<noteq> [] \<and> length m \<le> 65535
                                    then Inr (replicate 132 (CHR ''x'') @ m) else Inl ''length''),
      nip44_decrypt = (\<lambda>sk pk c. Inr (drop 132 c)),
      sign_with_keys = (\<lambda>k b. Inr \<lparr>ev_id = str_bytes (b_content b), ev_pubkey = public_key k,
                                   ev_created_at = b_created_at b, ev_kind = b_kind b,
                                   ev_tags = b_tags b, ev_content = b_content b, ev_sig = []\<rparr>),
      event_verify = (\<lambda>e. Inr ())\<rparr>"

lemma unat_of_char: "unat (of_char c :: byte) = of_char c"
proof -
  have "unat (word_of_nat (of_char c) :: byte) = of_char c mod 2 ^ 8"
    by (simp add: unsigned_of_nat take_bit_eq_mod)
  then show ?thesis by (simp add: of_nat_of_char)
qed

lemma str_bytes_inj: "str_bytes a = str_bytes b \<longleftrightarrow> a = b"
proof -
  have "inj (of_char :: char \<Rightarrow> byte)"
    by (rule injI) (metis unat_of_char of_char_eq_iff)
  then show ?thesis by (simp add: str_bytes_def inj_map_eq_map)
qed

lemma unhex_hex_digit: "d < 16 \<Longrightarrow> unhex_digit (hex_digit d) = d"
  by (auto simp: unhex_digit_def hex_digit_def is_ascii_digit_def)

lemma unhex_hex_bytes [simp]: "unhex (hex_bytes bs) = bs"
proof (induction bs)
  case (Cons b bs)
  have b: "unat b < 256" using unsigned_less [of b, where ?'a = nat] by simp
  have "unhex (hex_bytes (b # bs)) = word_of_nat (unat b div 16 * 16 + unat b mod 16) # unhex (hex_bytes bs)"
    using b by (simp add: hex_bytes_def hex_byte_def unhex_hex_digit)
  then show ?case using Cons by simp
qed (simp add: hex_bytes_def)

lemma length_hex_bytes [simp]: "length (hex_bytes bs) = 2 * length bs"
  by (induction bs) (auto simp: hex_bytes_def hex_byte_def)

lemma demo_json_round_trip: "demo_from_json (demo_to_json m) = Inr m"
proof (cases m)
  case (Offer i v)
  have "CHR '','' \<notin> set (show_nat (unat v))"
    using show_nat_digits [of "unat v"] by (auto simp: is_ascii_digit_def)
  then show ?thesis using Offer by (simp add: demo_from_json_def split_once_append)
next
  case (Payload t p)
  then show ?thesis by (cases t) (simp_all add: demo_from_json_def)
next
  case (Abort r)
  then show ?thesis by (cases r) (simp_all add: demo_from_json_def)
qed (simp_all add: demo_from_json_def)

section \<open>Properties\<close>

text \<open>
  The displayed authentication code is always six decimal digits, and it determines the derived
  code: two devices show the same text exactly when they derived the same code.
\<close>

theorem format_sas_six_digits:
  "length (format_sas (fst (derive_sas L e s))) = 6
   \<and> list_all is_ascii_digit (format_sas (fst (derive_sas L e s)))
   \<and> (format_sas c = format_sas c' \<longleftrightarrow> c = c')"
proof (intro conjI)
  have "length (show_nat (unat (fst (derive_sas L e s)))) \<le> 6"
    using derive_sas_bound [of L e s] by (intro length_show_nat) simp_all
  then show "length (format_sas (fst (derive_sas L e s))) = 6"
    by (simp add: format_sas_def)
  show "list_all is_ascii_digit (format_sas (fst (derive_sas L e s)))"
    using show_nat_digits by (auto simp: format_sas_def pad_zeros_def list_all_iff is_ascii_digit_def)
  show "format_sas c = format_sas c' \<longleftrightarrow> c = c'"
    by (metis read_format_sas unsigned_word_eqI)
qed

end
