(* ===== verification/Pairing_Qr.thy ===== *)
theory Pairing_Qr
  imports Pairing_Crypto
begin

text \<open>
  The QR code of a pairing session (\<open>buzz-core/src/pairing/qr.rs\<close>): encoding of a payload as a
  \<open>nostrpair://\<close> URI and decoding with every validation step of the code, in its order.  Percent
  encoding, the URL parser and the \<open>Debug\<close> form of a string in error texts are parameters.
\<close>

section \<open>Payload and library\<close>

record qr_payload =
  source_pubkey :: pubkey
  session_secret :: "byte list"
  relays :: "string list"
  version :: u32

record parsed_url =
  scheme :: string
  has_host :: bool

record qr_lib =
  percent_encode :: "string \<Rightarrow> string"
  percent_decode_lossy :: "string \<Rightarrow> string"
  url_parse :: "string \<Rightarrow> string + parsed_url"
  debug_str :: "string \<Rightarrow> string"

section \<open>Encoding\<close>

definition url_encode :: "qr_lib \<Rightarrow> string \<Rightarrow> string" where
  "url_encode Q s = percent_encode Q s"

definition url_decode :: "qr_lib \<Rightarrow> string \<Rightarrow> string" where
  "url_decode Q s = percent_decode_lossy Q s"

definition is_lowercase_hex :: "char \<Rightarrow> bool" where
  "is_lowercase_hex c \<longleftrightarrow>
     is_ascii_digit c \<or> (97 \<le> (of_char c :: nat) \<and> (of_char c :: nat) \<le> 102)"

definition encode_qr :: "pairing_lib \<Rightarrow> qr_lib \<Rightarrow> qr_payload \<Rightarrow> string" where
  "encode_qr L Q p =
     (let pubkey_hex = pk_to_hex L (source_pubkey p);
          secret_hex = hex_encode L (session_secret p);
          uri = ''nostrpair://'' @ pubkey_hex @ ''?secret='' @ secret_hex;
          uri = foldl (\<lambda>uri relay. uri @ ''&relay='' @ url_encode Q relay) uri (relays p)
      in uri @ ''&v=1'')"

section \<open>Decoding\<close>

text \<open>\<open>str::parse::<u32>\<close>: an optional plus sign and at least one digit, without overflow.\<close>

definition parse_u32 :: "string \<Rightarrow> u32 option" where
  "parse_u32 s =
     (let ds = (case s of [] \<Rightarrow> [] | c # cs \<Rightarrow> if c = CHR ''+'' then cs else s)
      in if ds = [] \<or> \<not> list_all is_ascii_digit ds then None
         else if read_nat ds < 2 ^ 32 then Some (word_of_nat (read_nat ds)) else None)"

record query_params =
  secret_hex :: "string option"
  relay_list :: "string list"
  version_opt :: "u32 option"

definition query_step :: "qr_lib \<Rightarrow> query_params \<Rightarrow> string \<Rightarrow> query_params" where
  "query_step Q q pair =
     (case split_once (CHR ''='') pair of
        None \<Rightarrow> q
      | Some (key, val) \<Rightarrow>
          if key = ''secret'' then q\<lparr>secret_hex := Some val\<rparr>
          else if key = ''relay'' then q\<lparr>relay_list := relay_list q @ [url_decode Q val]\<rparr>
          else if key = ''v'' then q\<lparr>version_opt := parse_u32 val\<rparr>
          else q)"

definition parse_query :: "qr_lib \<Rightarrow> string \<Rightarrow> query_params" where
  "parse_query Q query =
     foldl (query_step Q) \<lparr>secret_hex = None, relay_list = [], version_opt = None\<rparr>
       (split_on (CHR ''&'') query)"

fun check_relays :: "qr_lib \<Rightarrow> string list \<Rightarrow> pairing_error + unit" where
  "check_relays Q [] = Inr ()"
| "check_relays Q (relay # rest) =
     (case url_parse Q relay of
        Inl e \<Rightarrow> Inl (InvalidQr (''invalid relay URL '' @ debug_str Q relay @ '': '' @ e))
      | Inr parsed \<Rightarrow>
          if scheme parsed \<noteq> ''wss'' \<and> scheme parsed \<noteq> ''ws'' then
            Inl (InvalidQr (''relay URL must use wss:// or ws:// scheme, got ''
                  @ debug_str Q (scheme parsed)))
          else if \<not> has_host parsed then
            Inl (InvalidQr (''relay URL has no host: '' @ debug_str Q relay))
          else check_relays Q rest)"

definition ellipsis :: string where
  "ellipsis = [CHR 0xE2, CHR 0x80, CHR 0xA6]"

definition decode_qr :: "pairing_lib \<Rightarrow> qr_lib \<Rightarrow> string \<Rightarrow> pairing_error + qr_payload" where
  "decode_qr L Q uri =
     (if length uri > 2048 then
        Inl (InvalidQr (''URI exceeds 2048-character limit ('' @ show_nat (length uri) @ '' chars)''))
      else bind_result (ok_or (InvalidQr ''URI must start with nostrpair://'')
                          (strip_prefix ''nostrpair://'' uri)) (\<lambda>rest.
      bind_result (ok_or (InvalidQr (''missing query string (expected ?secret='' @ ellipsis
                                     @ ''&relay='' @ ellipsis @ '')''))
                     (split_once (CHR ''?'') rest)) (\<lambda>(pubkey_hex, query).
      if length pubkey_hex \<noteq> 64 \<or> \<not> list_all is_lowercase_hex pubkey_hex then
        Inl (InvalidQr (''pubkey must be 64 lowercase hex chars, got '' @ debug_str Q pubkey_hex))
      else bind_result (map_err (\<lambda>e. InvalidQr (''invalid pubkey: '' @ e)) (pk_from_hex L pubkey_hex))
        (\<lambda>source.
      let q = parse_query Q query;
          ver = (case version_opt q of Some v \<Rightarrow> v | None \<Rightarrow> 1)
      in if ver \<noteq> 1 then
           Inl (InvalidQr (''unsupported protocol version '' @ show_nat (unat ver) @ '', expected 1''))
         else bind_result (ok_or (InvalidQr (''missing ''@ [CHR 39] @ ''secret'' @ [CHR 39]
                                             @ '' query parameter''))
                             (secret_hex q)) (\<lambda>secret_str.
         if length secret_str \<noteq> 64 \<or> \<not> list_all is_lowercase_hex secret_str then
           Inl (InvalidQr (''secret must be 64 lowercase hex chars, got '' @ debug_str Q secret_str))
         else bind_result (map_err (\<lambda>e. InvalidQr (''invalid secret hex: '' @ e)) (hex_decode L secret_str))
           (\<lambda>secret_bytes.
         bind_result (ok_or (InvalidQr ''secret must be exactly 32 bytes'') (bytes32 secret_bytes))
           (\<lambda>secret.
         if secret = replicate 32 0 then
           Inl (InvalidQr ''session_secret must not be all zeros'')
         else if relay_list q = [] then
           Inl (InvalidQr (''at least one '' @ [CHR 39] @ ''relay'' @ [CHR 39]
                           @ '' query parameter is required''))
         else bind_result (check_relays Q (relay_list q)) (\<lambda>_.
           Inr \<lparr>source_pubkey = source, session_secret = secret, relays = relay_list q,
                version = ver\<rparr>))))))))"

section \<open>Facts about relays and queries\<close>

definition relay_ok :: "qr_lib \<Rightarrow> string \<Rightarrow> bool" where
  "relay_ok Q r \<longleftrightarrow>
     (case url_parse Q r of
        Inl _ \<Rightarrow> False
      | Inr u \<Rightarrow> (scheme u = ''wss'' \<or> scheme u = ''ws'') \<and> has_host u)"

lemma check_relays_ok: "check_relays Q rs = Inr () \<longleftrightarrow> list_all (relay_ok Q) rs"
  by (induction rs) (auto simp: relay_ok_def split: sum.splits)

text \<open>The query of an encoded payload is the list of its parameters.\<close>

definition qr_params :: "pairing_lib \<Rightarrow> qr_lib \<Rightarrow> qr_payload \<Rightarrow> string list" where
  "qr_params L Q p =
     (''secret='' @ hex_encode L (session_secret p)) # map (\<lambda>r. ''relay='' @ url_encode Q r) (relays p)
     @ [''v=1'']"

lemma join_with_Cons: "join_with c (w # ws) = w @ concat (map (\<lambda>x. c # x) ws)"
  by (induction ws arbitrary: w) auto

lemma foldl_append_concat: "foldl (\<lambda>acc x. acc @ f x) acc xs = acc @ concat (map f xs)"
  by (induction xs arbitrary: acc) auto

lemma encode_qr_params:
  "encode_qr L Q p =
     ''nostrpair://'' @ pk_to_hex L (source_pubkey p) @ CHR ''?'' # join_with (CHR ''&'') (qr_params L Q p)"
  by (simp add: encode_qr_def Let_def qr_params_def join_with_Cons foldl_append_concat comp_def)

lemma parse_query_params:
  assumes "\<forall>w\<in>set (qr_params L Q p). CHR ''&'' \<notin> set w"
    and "\<forall>r\<in>set (relays p). url_decode Q (url_encode Q r) = r"
  shows "parse_query Q (join_with (CHR ''&'') (qr_params L Q p)) =
     \<lparr>secret_hex = Some (hex_encode L (session_secret p)), relay_list = relays p,
      version_opt = parse_u32 ''1''\<rparr>"
proof -
  have relay: "query_step Q q (''relay='' @ url_encode Q r) = q\<lparr>relay_list := relay_list q @ [r]\<rparr>"
    if "r \<in> set (relays p)" for q r
    using that assms(2) by (simp add: query_step_def)
  have relays: "set rs \<subseteq> set (relays p) \<Longrightarrow>
      foldl (query_step Q) q (map (\<lambda>r. ''relay='' @ url_encode Q r) rs) = q\<lparr>relay_list := relay_list q @ rs\<rparr>"
    for q rs
    by (induction rs arbitrary: q) (simp_all add: relay [simplified])
  have "split_on (CHR ''&'') (join_with (CHR ''&'') (qr_params L Q p)) = qr_params L Q p"
    using assms(1) by (intro split_join) (simp_all add: qr_params_def)
  then show ?thesis
    using relays [of "relays p" "\<lparr>secret_hex = Some (hex_encode L (session_secret p)), relay_list = [],
      version_opt = None\<rparr>"]
    by (simp add: parse_query_def qr_params_def query_step_def)
qed

lemma split_on_append_last: "c \<notin> set b \<Longrightarrow> split_on c (a @ c # b) = split_on c a @ [b]"
  by (induction a) (auto simp: split_on_no_sep split: list.splits)

lemma parse_query_version:
  assumes "CHR ''&'' \<notin> set x"
  shows "parse_query Q (q @ ''&v='' @ x) = (parse_query Q q)\<lparr>version_opt := parse_u32 x\<rparr>"
proof -
  have "split_on (CHR ''&'') (q @ CHR ''&'' # ''v='' @ x) = split_on (CHR ''&'') q @ [''v='' @ x]"
    using assms by (intro split_on_append_last) simp
  then show ?thesis by (simp add: parse_query_def query_step_def)
qed

text \<open>Decoding depends on the query only through its parameters and the defaulted version.\<close>

lemma decode_qr_query:
  assumes "CHR ''?'' \<notin> set pk"
    and "length (''nostrpair://'' @ pk @ CHR ''?'' # s) \<le> 2048"
    and "length (''nostrpair://'' @ pk @ CHR ''?'' # s') \<le> 2048"
    and "secret_hex (parse_query Q s) = secret_hex (parse_query Q s')"
    and "relay_list (parse_query Q s) = relay_list (parse_query Q s')"
    and "(case version_opt (parse_query Q s) of Some v \<Rightarrow> v | None \<Rightarrow> 1)
       = (case version_opt (parse_query Q s') of Some v \<Rightarrow> v | None \<Rightarrow> 1)"
  shows "decode_qr L Q (''nostrpair://'' @ pk @ CHR ''?'' # s) =
    decode_qr L Q (''nostrpair://'' @ pk @ CHR ''?'' # s')"
  using assms
  by (simp add: decode_qr_def strip_prefix_def starts_with_def split_once_append Let_def cong: if_cong)

section \<open>Properties\<close>

text \<open>
  What the round trip relies on: hexadecimal printing of keys and secrets is lower case, of the
  documented length and decodes to what was printed; percent encoding keeps alphanumerics, escapes
  everything else with percent signs, and decoding inverts it.
\<close>

definition qr_lib_laws :: "pairing_lib \<Rightarrow> qr_lib \<Rightarrow> bool" where
  "qr_lib_laws L Q \<longleftrightarrow>
     (\<forall>pk. length pk = 32 \<longrightarrow> length (pk_to_hex L pk) = 64 \<and> list_all is_lowercase_hex (pk_to_hex L pk))
     \<and> (\<forall>b. length (hex_encode L b) = 2 * length b \<and> list_all is_lowercase_hex (hex_encode L b)
            \<and> hex_decode L (hex_encode L b) = Inr b)
     \<and> (\<forall>s. percent_decode_lossy Q (percent_encode Q s) = s
            \<and> (\<forall>c\<in>set (percent_encode Q s). is_ascii_alphanumeric c \<or> c = CHR ''%''))"

lemma qr_decode_encode:
  assumes "qr_lib_laws L Q"
    and "length (source_pubkey p) = 32"
    and "pk_from_hex L (pk_to_hex L (source_pubkey p)) = Inr (source_pubkey p)"
    and "length (session_secret p) = 32" and "session_secret p \<noteq> replicate 32 0"
    and "relays p \<noteq> []" and "list_all (relay_ok Q) (relays p)"
    and "version p = 1" and "length (encode_qr L Q p) \<le> 2048"
  shows "decode_qr L Q (encode_qr L Q p) = Inr p"
proof -
  let ?pk = "pk_to_hex L (source_pubkey p)" and ?sec = "hex_encode L (session_secret p)"
  have pk: "length ?pk = 64" "list_all is_lowercase_hex ?pk"
    using assms(1,2) by (auto simp: qr_lib_laws_def)
  have sec: "length ?sec = 64" "list_all is_lowercase_hex ?sec" "hex_decode L ?sec = Inr (session_secret p)"
    using assms(1,4) by (auto simp: qr_lib_laws_def)
  have pk_q: "CHR ''?'' \<notin> set ?pk" and sec_amp: "CHR ''&'' \<notin> set ?sec"
    using pk(2) sec(2) by (auto simp: list_all_iff is_lowercase_hex_def is_ascii_digit_def)
  have relay_amp: "CHR ''&'' \<notin> set (url_encode Q r)" for r
  proof -
    have "\<not> is_ascii_alphanumeric (CHR ''&'')" by code_simp
    then show ?thesis using assms(1) by (force simp: url_encode_def qr_lib_laws_def)
  qed
  have amp: "\<forall>w\<in>set (qr_params L Q p). CHR ''&'' \<notin> set w"
    using sec_amp relay_amp by (simp add: qr_params_def)
  note rest = split_once_append [OF pk_q]
  have "\<forall>r\<in>set (relays p). url_decode Q (url_encode Q r) = r"
    using assms(1) by (auto simp: qr_lib_laws_def url_encode_def url_decode_def)
  note q = parse_query_params [OF amp this]
  have payload: "\<lparr>source_pubkey = source_pubkey p, session_secret = session_secret p, relays = relays p, version = 1\<rparr> = p"
    using assms(8) by (cases p) simp
  have v: "parse_u32 ''1'' = Some 1" by (simp add: parse_u32_def read_nat_def is_ascii_digit_def)
  show ?thesis
    using assms pk sec
    unfolding decode_qr_def encode_qr_params
    by (simp add: strip_prefix_def starts_with_def rest q v bytes32_def Let_def payload
        check_relays_ok [THEN iffD2])
qed


text \<open>Data of the witness: bytewise percent encoding, relays checked by their scheme.\<close>

definition demo_percent_encode :: "string \<Rightarrow> string" where
  "demo_percent_encode s =
     concat (map (\<lambda>c. if is_ascii_alphanumeric c then [c]
                      else [CHR ''%'', hex_digit (of_char c div 16), hex_digit (of_char c mod 16)]) s)"

fun demo_percent_decode :: "string \<Rightarrow> string" where
  "demo_percent_decode [] = []"
| "demo_percent_decode (c # s) =
     (if c = CHR ''%'' then
        (case s of a # b # r \<Rightarrow> char_of (unhex_digit a * 16 + unhex_digit b) # demo_percent_decode r | _ \<Rightarrow> [])
      else c # demo_percent_decode s)"

definition demo_qr_lib :: qr_lib where
  "demo_qr_lib =
     \<lparr>percent_encode = demo_percent_encode, percent_decode_lossy = demo_percent_decode,
      url_parse = (\<lambda>s. case split_once (CHR '':'') s of
                     None \<Rightarrow> Inl ''no scheme'' | Some (sch, r) \<Rightarrow> Inr \<lparr>scheme = sch, has_host = (length r > 2)\<rparr>),
      debug_str = (\<lambda>s. s)\<rparr>"

lemma hex_digit_lower: "d < 16 \<Longrightarrow> is_lowercase_hex (hex_digit d)"
  by (auto simp: hex_digit_def is_lowercase_hex_def is_ascii_digit_def)

lemma hex_bytes_lower: "list_all is_lowercase_hex (hex_bytes bs)"
proof (induction bs)
  case (Cons b bs)
  have "unat b div 16 < 16" using unsigned_less [of b, where ?'a = nat] by simp
  then have "list_all is_lowercase_hex (hex_byte b)" by (simp add: hex_byte_def hex_digit_lower)
  with Cons show ?case by (simp add: hex_bytes_def)
qed (simp add: hex_bytes_def)

lemma of_char_div_16: "(of_char c :: nat) div 16 < 16"
  by (rule less_mult_imp_div_less) simp

lemma demo_percent_round_trip: "demo_percent_decode (demo_percent_encode s) = s"
proof (induction s)
  case (Cons c s)
  have "\<not> is_ascii_alphanumeric (CHR ''%'')" by code_simp
  then show ?case
    using Cons of_char_div_16 [of c]
    by (auto simp: demo_percent_encode_def unhex_hex_digit)
qed (simp add: demo_percent_encode_def)

lemma demo_percent_chars:
  "c \<in> set (demo_percent_encode s) \<Longrightarrow> is_ascii_alphanumeric c \<or> c = CHR ''%''"
proof -
  have "is_ascii_alphanumeric (hex_digit d)" if "d < 16" for d
    using hex_digit_lower [OF that]
    by (auto simp: is_ascii_alphanumeric_def is_lowercase_hex_def is_ascii_lower_def)
  then show "c \<in> set (demo_percent_encode s) \<Longrightarrow> is_ascii_alphanumeric c \<or> c = CHR ''%''"
    using of_char_div_16 by (auto simp: demo_percent_encode_def split: if_splits)
qed

lemma demo_qr_laws: "qr_lib_laws demo_pairing_lib demo_qr_lib"
  by (auto simp: qr_lib_laws_def demo_pairing_lib_def demo_qr_lib_def hex_bytes_lower
      demo_percent_round_trip dest: demo_percent_chars)

definition demo_qr :: qr_payload where
  "demo_qr = \<lparr>source_pubkey = replicate 32 7, session_secret = replicate 32 5,
     relays = [''wss://relay''], version = 1\<rparr>"


text \<open>
  Whatever URI is scanned, a payload that decodes is usable: protocol version 1, a 32-byte secret
  that is not all zeros, and at least one relay, each of them a parsable WebSocket URL with a host.
\<close>

theorem decode_qr_sound:
  assumes "decode_qr L Q uri = Inr p"
  shows "length uri \<le> 2048 \<and> version p = 1 \<and> length (session_secret p) = 32
    \<and> session_secret p \<noteq> replicate 32 0 \<and> relays p \<noteq> [] \<and> list_all (relay_ok Q) (relays p)"
  using assms
  by (auto simp: decode_qr_def Let_def bind_result_Inr bytes32_def ok_or_Inr check_relays_ok [symmetric]
      split: if_splits prod.splits option.splits)

theorem decode_qr_sound_witness:
  "\<exists>p. decode_qr demo_pairing_lib demo_qr_lib (encode_qr demo_pairing_lib demo_qr_lib demo_qr) = Inr p
     \<and> list_all (relay_ok demo_qr_lib) (relays p)"
proof -
  have "decode_qr demo_pairing_lib demo_qr_lib (encode_qr demo_pairing_lib demo_qr_lib demo_qr) = Inr demo_qr"
  proof (rule qr_decode_encode [OF demo_qr_laws])
    show "session_secret demo_qr \<noteq> replicate 32 0" by code_simp
    show "list_all (relay_ok demo_qr_lib) (relays demo_qr)" by code_simp
    show "length (encode_qr demo_pairing_lib demo_qr_lib demo_qr) \<le> 2048" by code_simp
  qed (simp_all add: demo_qr_def demo_pairing_lib_def)
  then show ?thesis using decode_qr_sound by blast
qed

text \<open>
  A version parameter that is not a 32-bit number is not rejected: it is decoded exactly as
  version 1, so a URI of a later protocol version beyond the 32-bit range, or with an unreadable
  version, is accepted.
\<close>

theorem unreadable_version_accepted:
  assumes "parse_u32 x = None" and "CHR ''&'' \<notin> set x" and "CHR ''?'' \<notin> set pk"
    and "length (''nostrpair://'' @ pk @ CHR ''?'' # q @ ''&v='' @ x) \<le> 2048"
    and "length (''nostrpair://'' @ pk @ CHR ''?'' # q @ ''&v='' @ ''1'') \<le> 2048"
  shows "decode_qr L Q (''nostrpair://'' @ pk @ CHR ''?'' # q @ ''&v='' @ x) =
     decode_qr L Q (''nostrpair://'' @ pk @ CHR ''?'' # q @ ''&v='' @ ''1'')"
proof -
  have v: "parse_u32 ''1'' = Some 1" by (simp add: parse_u32_def read_nat_def is_ascii_digit_def)
  show ?thesis
    using assms v parse_query_version [OF assms(2), of Q q] parse_query_version [of "''1''" Q q]
    by (intro decode_qr_query) simp_all
qed

theorem unreadable_version_accepted_witness:
  "decode_qr demo_pairing_lib demo_qr_lib (''nostrpair://'' @ ''ab'' @ CHR ''?'' # ''secret=00'' @ ''&v='' @ ''4294967298'')
   = decode_qr demo_pairing_lib demo_qr_lib (''nostrpair://'' @ ''ab'' @ CHR ''?'' # ''secret=00'' @ ''&v='' @ ''1'')"
proof (rule unreadable_version_accepted)
  show "parse_u32 ''4294967298'' = None" by (simp add: parse_u32_def read_nat_def is_ascii_digit_def)
qed simp_all

end
