(* ===== verification/Pairing_Session.thy ===== *)
theory Pairing_Session
  imports Pairing_Qr Kinds
begin

text \<open>
  The pairing session (\<open>buzz-core/src/pairing/session.rs\<close>): both sides of the protocol as one record,
  every operation with the code's guards in the code's order.  An operation returns the session after
  the call and its result.  The clock is an argument of the operations that read it, in nanoseconds;
  key generation, the session secret, the NIP-44 nonce, the wall clock and the timestamp jitter are
  arguments of the operations that draw them.  Zeroizing memory has no counterpart in the model except
  where the code reads the cleared value afterwards.
\<close>

section \<open>Sessions\<close>

definition DEFAULT_TIMEOUT :: nat where
  "DEFAULT_TIMEOUT = 120 * 1000000000"

definition PAIRING_KIND :: u16 where
  "PAIRING_KIND = word_of_nat KIND_PAIRING"

datatype role = Source | Target

datatype session_state =
  Waiting | Confirming | AwaitingConfirmation | Transferring | PayloadExchanged | Completed | Aborted

record session =
  role :: role
  state :: session_state
  skeys :: keys
  secret :: "byte list"
  relay_urls :: "string list"
  peer_pubkey :: "pubkey option"
  session_id :: "byte list"
  sas_code :: "u32 option"
  sas_input :: "byte list option"
  processed_ids :: "byte list list"
  created_at :: nat
  timeout :: nat

type_synonym 'a result = "session \<times> (pairing_error + 'a)"

text \<open>The \<open>Debug\<close> forms used in error texts.\<close>

fun debug_state :: "session_state \<Rightarrow> string" where
  "debug_state Waiting = ''Waiting''"
| "debug_state Confirming = ''Confirming''"
| "debug_state AwaitingConfirmation = ''AwaitingConfirmation''"
| "debug_state Transferring = ''Transferring''"
| "debug_state PayloadExchanged = ''PayloadExchanged''"
| "debug_state Completed = ''Completed''"
| "debug_state Aborted = ''Aborted''"

fun debug_role :: "role \<Rightarrow> string" where
  "debug_role Source = ''Source''"
| "debug_role Target = ''Target''"

section \<open>Guards\<close>

definition is_expired :: "nat \<Rightarrow> session \<Rightarrow> bool" where
  "is_expired now s \<longleftrightarrow> now - created_at s > timeout s"

definition check_expired :: "nat \<Rightarrow> session \<Rightarrow> pairing_error + unit" where
  "check_expired now s = (if is_expired now s then Inl SessionExpired else Inr ())"

definition expect_state :: "session_state \<Rightarrow> session \<Rightarrow> pairing_error + unit" where
  "expect_state expected s =
     (if state s \<noteq> expected
      then Inl (UnexpectedMessage (''state '' @ debug_state expected) (''state '' @ debug_state (state s)))
      else Inr ())"

definition expect_role :: "role \<Rightarrow> session \<Rightarrow> pairing_error + unit" where
  "expect_role expected s =
     (if role s \<noteq> expected
      then Inl (UnexpectedMessage (''role '' @ debug_role expected) (''role '' @ debug_role (role s)))
      else Inr ())"

definition validate_event_basics :: "pairing_lib \<Rightarrow> event \<Rightarrow> session \<Rightarrow> pairing_error + unit" where
  "validate_event_basics L e s =
     bind_result (map_err (\<lambda>m. InvalidPubkey (''event verification failed: '' @ m)) (event_verify L e)) (\<lambda>_.
     if ev_id e \<in> set (processed_ids s) then Inl (UnexpectedMessage ''new event'' ''duplicate event id'')
     else if ev_kind e \<noteq> PAIRING_KIND then
       Inl (UnexpectedMessage (''kind '' @ show_nat (unat PAIRING_KIND))
                              (''kind '' @ show_nat (unat (ev_kind e))))
     else if \<not> list_ex (\<lambda>t. case t of
                             k # v # _ \<Rightarrow> k = ''p'' \<and> v = pk_to_hex L (public_key (skeys s))
                           | _ \<Rightarrow> False) (ev_tags e) then
       Inl (InvalidPubkey ''event p-tag does not match our ephemeral pubkey'')
     else Inr ())"

definition validate_event_from_peer :: "pairing_lib \<Rightarrow> event \<Rightarrow> session \<Rightarrow> pairing_error + unit" where
  "validate_event_from_peer L e s =
     bind_result (validate_event_basics L e s) (\<lambda>_.
     case peer_pubkey s of
       Some expected \<Rightarrow>
         if ev_pubkey e \<noteq> expected then
           Inl (InvalidPubkey (''event from '' @ pk_to_hex L (ev_pubkey e) @ '' but expected ''
                               @ pk_to_hex L expected))
         else Inr ()
     | None \<Rightarrow> Inr ())"

text \<open>
  \<open>decrypt_message\<close>: an oversized plaintext is cleared before its length is put into the error text,
  which therefore always says 0 bytes.
\<close>

definition decrypt_message :: "pairing_lib \<Rightarrow> event \<Rightarrow> session \<Rightarrow> pairing_error + pairing_message" where
  "decrypt_message L e s =
     (let content_len = length (ev_content e)
      in if \<not> (132 \<le> content_len \<and> content_len \<le> 87472) then
           Inl (UnexpectedMessage (''NIP-44 content (132'' @ [CHR 0xE2, CHR 0x80, CHR 0x93] @ ''87472 chars)'')
                                  (show_nat content_len @ '' chars''))
         else bind_result (map_err Nip44 (nip44_decrypt L (secret_key (skeys s)) (ev_pubkey e) (ev_content e)))
           (\<lambda>decrypted.
         if length decrypted > 65535 then
           Inl (UnexpectedMessage (''plaintext '' @ [CHR 0xE2, CHR 0x89, CHR 0xA4] @ '' 65535 bytes'')
                                  (show_nat 0 @ '' bytes''))
         else map_err Json (from_json L decrypted)))"

definition record_event :: "event \<Rightarrow> session \<Rightarrow> session" where
  "record_event e s = s\<lparr>processed_ids := List.insert (ev_id e) (processed_ids s)\<rparr>"

fun message_name :: "pairing_message \<Rightarrow> string" where
  "message_name (Offer _ _) = ''offer''"
| "message_name (SasConfirm _) = ''sas-confirm''"
| "message_name (Payload _ _) = ''payload''"
| "message_name (Complete _) = ''complete''"
| "message_name (Abort _) = ''abort''"

definition unexpected :: "string \<Rightarrow> pairing_message \<Rightarrow> pairing_error" where
  "unexpected expected got = UnexpectedMessage expected (message_name got)"

section \<open>Building events\<close>

text \<open>What one call of \<open>build_event\<close> draws: the NIP-44 nonce, the wall clock and the jitter.\<close>

record draw =
  nonce :: nat
  wall_clock :: nat
  jitter :: nat

definition build_event :: "pairing_lib \<Rightarrow> draw \<Rightarrow> pairing_message \<Rightarrow> session \<Rightarrow> pairing_error + event" where
  "build_event L d message s =
     bind_result (ok_or (InvalidPubkey ''no peer pubkey set'') (peer_pubkey s)) (\<lambda>peer.
     bind_result (map_err Json (to_json L message)) (\<lambda>plaintext.
     bind_result (map_err Nip44 (nip44_encrypt L (secret_key (skeys s)) peer plaintext (nonce d))) (\<lambda>encrypted.
     map_err SigningError
       (sign_with_keys L (skeys s)
          \<lparr>b_kind = PAIRING_KIND, b_content = encrypted, b_tags = [tag_public_key L peer],
           b_created_at = wall_clock d - jitter d mod 31\<rparr>))))"

definition sign_event :: "pairing_lib \<Rightarrow> event_builder \<Rightarrow> session \<Rightarrow> pairing_error + event" where
  "sign_event L builder s = map_err SigningError (sign_with_keys L (skeys s) builder)"

section \<open>The source\<close>

definition new_source :: "pairing_lib \<Rightarrow> keys \<Rightarrow> byte list \<Rightarrow> nat \<Rightarrow> string \<Rightarrow> session \<times> qr_payload" where
  "new_source L ks sec now relay_url =
     (let sid = derive_session_id L sec;
          qr = \<lparr>source_pubkey = public_key ks, session_secret = sec, relays = [relay_url],
                version = 1\<rparr>;
          s = \<lparr>role = Source, state = Waiting, skeys = ks, secret = sec,
               relay_urls = [relay_url], peer_pubkey = None, session_id = sid, sas_code = None,
               sas_input = None, processed_ids = [], created_at = now, timeout = DEFAULT_TIMEOUT\<rparr>
      in (s, qr))"

definition handle_offer :: "pairing_lib \<Rightarrow> nat \<Rightarrow> event \<Rightarrow> session \<Rightarrow> string result" where
  "handle_offer L now e s =
     try_in s (check_expired now s) (\<lambda>_.
     try_in s (expect_state Waiting s) (\<lambda>_.
     try_in s (expect_role Source s) (\<lambda>_.
     try_in s (validate_event_basics L e s) (\<lambda>_.
     try_in s (decrypt_message L e s) (\<lambda>msg.
     case msg of
       Offer session_id_hex ver \<Rightarrow>
         if ver \<noteq> 1 then
           (s, Inl (UnexpectedMessage ''version 1'' (''version '' @ show_nat (unat ver))))
         else
           (case hex_decode32 L session_id_hex of
              None \<Rightarrow> (s, Inl InvalidSessionId)
            | Some i \<Rightarrow>
                if \<not> ct_eq i (session_id s) then (s, Inl InvalidSessionId)
                else
                  (let peer = ev_pubkey e;
                       s1 = s\<lparr>peer_pubkey := Some peer\<rparr>
                   in try_in s1 (map_err SigningError (generate_shared_key L (secret_key (skeys s1)) peer)) (\<lambda>ecdh.
                      let (code, input) = derive_sas L ecdh (secret s1)
                      in (record_event e (s1\<lparr>sas_code := Some code, sas_input := Some input,
                                            state := Confirming\<rparr>),
                          Inr (format_sas code)))))
     | other \<Rightarrow> (s, Inl (unexpected ''offer'' other)))))))"

definition confirm_sas :: "pairing_lib \<Rightarrow> nat \<Rightarrow> draw \<Rightarrow> session \<Rightarrow> event result" where
  "confirm_sas L now d s =
     try_in s (check_expired now s) (\<lambda>_.
     try_in s (expect_state Confirming s) (\<lambda>_.
     try_in s (expect_role Source s) (\<lambda>_.
     try_in s (ok_or SasMismatch (sas_input s)) (\<lambda>input.
     try_in s (ok_or (InvalidPubkey ''no peer'') (peer_pubkey s)) (\<lambda>peer.
     let transcript_hash = derive_transcript_hash L (session_id s) (public_key (skeys s)) peer input (secret s);
         msg = SasConfirm (hex_encode L transcript_hash)
     in try_in s (build_event L d msg s) (\<lambda>e. (s\<lparr>state := Transferring\<rparr>, Inr e)))))))"

definition handle_return_payload ::
  "pairing_lib \<Rightarrow> nat \<Rightarrow> event \<Rightarrow> session \<Rightarrow> (payload_type \<times> string) result" where
  "handle_return_payload L now e s =
     try_in s (check_expired now s) (\<lambda>_.
     try_in s (expect_state Transferring s) (\<lambda>_.
     try_in s (expect_role Source s) (\<lambda>_.
     try_in s (validate_event_from_peer L e s) (\<lambda>_.
     try_in s (decrypt_message L e s) (\<lambda>msg.
     case msg of
       Payload payload_type payload \<Rightarrow>
         (record_event e (s\<lparr>state := PayloadExchanged\<rparr>), Inr (payload_type, payload))
     | other \<Rightarrow> (s, Inl (unexpected ''payload'' other)))))))"

definition send_source_complete :: "pairing_lib \<Rightarrow> nat \<Rightarrow> draw \<Rightarrow> bool \<Rightarrow> session \<Rightarrow> event result" where
  "send_source_complete L now d success s =
     try_in s (check_expired now s) (\<lambda>_.
     try_in s (expect_state PayloadExchanged s) (\<lambda>_.
     try_in s (expect_role Source s) (\<lambda>_.
     try_in s (build_event L d (Complete success) s) (\<lambda>e.
     (s\<lparr>state := (if success then Completed else Aborted)\<rparr>, Inr e)))))"

definition send_payload ::
  "pairing_lib \<Rightarrow> nat \<Rightarrow> draw \<Rightarrow> payload_type \<Rightarrow> string \<Rightarrow> session \<Rightarrow> event result" where
  "send_payload L now d payload_type payload s =
     try_in s (check_expired now s) (\<lambda>_.
     try_in s (expect_state Transferring s) (\<lambda>_.
     try_in s (expect_role Source s) (\<lambda>_.
     try_in s (build_event L d (Payload payload_type payload) s) (\<lambda>e.
     (s\<lparr>state := PayloadExchanged\<rparr>, Inr e)))))"

definition handle_complete :: "pairing_lib \<Rightarrow> nat \<Rightarrow> event \<Rightarrow> session \<Rightarrow> unit result" where
  "handle_complete L now e s =
     try_in s (check_expired now s) (\<lambda>_.
     try_in s (expect_state PayloadExchanged s) (\<lambda>_.
     try_in s (expect_role Source s) (\<lambda>_.
     try_in s (validate_event_from_peer L e s) (\<lambda>_.
     try_in s (decrypt_message L e s) (\<lambda>msg.
     case msg of
       Complete success \<Rightarrow>
         if success then (record_event e (s\<lparr>state := Completed\<rparr>), Inr ())
         else (s\<lparr>state := Aborted\<rparr>,
               Inl (UnexpectedMessage ''complete(success=true)'' ''complete(success=false)''))
     | other \<Rightarrow> (s, Inl (unexpected ''complete'' other)))))))"

section \<open>The target\<close>

definition new_target ::
  "pairing_lib \<Rightarrow> keys \<Rightarrow> nat \<Rightarrow> draw \<Rightarrow> qr_payload \<Rightarrow> pairing_error + (session \<times> event)" where
  "new_target L ks now d qr =
     (let sid = derive_session_id L (session_secret qr)
      in bind_result (map_err SigningError (generate_shared_key L (secret_key ks) (source_pubkey qr))) (\<lambda>ecdh.
         let (code, input) = derive_sas L ecdh (session_secret qr);
             s = \<lparr>role = Target, state = Waiting, skeys = ks, secret = session_secret qr,
                  relay_urls = relays qr, peer_pubkey = Some (source_pubkey qr), session_id = sid,
                  sas_code = Some code, sas_input = Some input, processed_ids = [], created_at = now,
                  timeout = DEFAULT_TIMEOUT\<rparr>;
             msg = Offer (hex_encode L sid) 1
         in bind_result (build_event L d msg s) (\<lambda>e. Inr (s\<lparr>state := Confirming\<rparr>, e))))"

definition handle_sas_confirm :: "pairing_lib \<Rightarrow> nat \<Rightarrow> event \<Rightarrow> session \<Rightarrow> string result" where
  "handle_sas_confirm L now e s =
     try_in s (check_expired now s) (\<lambda>_.
     try_in s (expect_state Confirming s) (\<lambda>_.
     try_in s (expect_role Target s) (\<lambda>_.
     try_in s (validate_event_from_peer L e s) (\<lambda>_.
     try_in s (decrypt_message L e s) (\<lambda>msg.
     case msg of
       SasConfirm received_hash \<Rightarrow>
         try_in s (ok_or SasMismatch (sas_input s)) (\<lambda>input.
         try_in s (ok_or (InvalidPubkey ''no peer'') (peer_pubkey s)) (\<lambda>peer.
         let expected_hash = derive_transcript_hash L (session_id s) peer (public_key (skeys s)) input (secret s);
             matches = (case hex_decode32 L received_hash of
                          None \<Rightarrow> False | Some rb \<Rightarrow> ct_eq rb expected_hash)
         in if \<not> matches then (s\<lparr>state := Aborted\<rparr>, Inl TranscriptMismatch)
            else
              (let s1 = record_event e (s\<lparr>state := AwaitingConfirmation\<rparr>)
               in try_in s1 (ok_or SasMismatch (sas_code s1)) (\<lambda>code. (s1, Inr (format_sas code))))))
     | other \<Rightarrow> (s, Inl (unexpected ''sas-confirm'' other)))))))"

definition confirm_target_sas :: "nat \<Rightarrow> session \<Rightarrow> unit result" where
  "confirm_target_sas now s =
     try_in s (check_expired now s) (\<lambda>_.
     try_in s (expect_state AwaitingConfirmation s) (\<lambda>_.
     try_in s (expect_role Target s) (\<lambda>_.
     (s\<lparr>state := Transferring\<rparr>, Inr ()))))"

definition handle_payload ::
  "pairing_lib \<Rightarrow> nat \<Rightarrow> event \<Rightarrow> session \<Rightarrow> (payload_type \<times> string) result" where
  "handle_payload L now e s =
     try_in s (check_expired now s) (\<lambda>_.
     try_in s (expect_state Transferring s) (\<lambda>_.
     try_in s (expect_role Target s) (\<lambda>_.
     try_in s (validate_event_from_peer L e s) (\<lambda>_.
     try_in s (decrypt_message L e s) (\<lambda>msg.
     case msg of
       Payload payload_type payload \<Rightarrow>
         (record_event e (s\<lparr>state := PayloadExchanged\<rparr>), Inr (payload_type, payload))
     | other \<Rightarrow> (s, Inl (unexpected ''payload'' other)))))))"

definition send_complete :: "pairing_lib \<Rightarrow> nat \<Rightarrow> draw \<Rightarrow> session \<Rightarrow> event result" where
  "send_complete L now d s =
     try_in s (check_expired now s) (\<lambda>_.
     try_in s (expect_state PayloadExchanged s) (\<lambda>_.
     try_in s (expect_role Target s) (\<lambda>_.
     try_in s (build_event L d (Complete True) s) (\<lambda>e.
     (s\<lparr>state := Completed\<rparr>, Inr e)))))"

section \<open>Either side\<close>

definition abort :: "pairing_lib \<Rightarrow> draw \<Rightarrow> abort_reason \<Rightarrow> session \<Rightarrow> event option result" where
  "abort L d reason s =
     (if state s = Completed \<or> state s = Aborted then
        (s, Inl (UnexpectedMessage ''non-terminal state'' (''state '' @ debug_state (state s))))
      else if peer_pubkey s = None then (s\<lparr>state := Aborted\<rparr>, Inr None)
      else try_in s (build_event L d (Abort reason) s) (\<lambda>e. (s\<lparr>state := Aborted\<rparr>, Inr (Some e))))"

definition handle_abort :: "pairing_lib \<Rightarrow> event \<Rightarrow> session \<Rightarrow> abort_reason result" where
  "handle_abort L e s =
     (if state s = Completed \<or> state s = Aborted then
        (s, Inl (UnexpectedMessage ''non-terminal state'' (''state '' @ debug_state (state s))))
      else if peer_pubkey s = None then (s, Inl (InvalidPubkey ''cannot accept abort before peer is known''))
      else
        try_in s (validate_event_from_peer L e s) (\<lambda>_.
        try_in s (decrypt_message L e s) (\<lambda>msg.
        case msg of
          Abort reason \<Rightarrow> (record_event e (s\<lparr>state := Aborted\<rparr>), Inr reason)
        | other \<Rightarrow> (s, Inl (unexpected ''abort'' other)))))"

definition sas_code_text :: "session \<Rightarrow> string option" where
  "sas_code_text s = map_option format_sas (sas_code s)"

definition qr_uri :: "pairing_lib \<Rightarrow> qr_lib \<Rightarrow> session \<Rightarrow> string option" where
  "qr_uri L Q s =
     (if role s \<noteq> Source then None
      else Some (encode_qr L Q \<lparr>source_pubkey = public_key (skeys s), session_secret = secret s,
                               relays = relay_urls s, version = 1\<rparr>))"

section \<open>Calls and runs\<close>

text \<open>The calls a client can make on a session, with the events it received or the values drawn.\<close>

datatype call =
  HandleOffer event
| ConfirmSas draw
| HandleReturnPayload event
| SendSourceComplete draw bool
| SendPayload draw payload_type string
| HandleComplete event
| HandleSasConfirm event
| ConfirmTargetSas
| HandlePayload event
| SendComplete draw
| AbortCall draw abort_reason
| HandleAbort event

datatype reply =
  ReplyCode string | ReplyEvent event | ReplyPayload payload_type string | ReplyUnit
| ReplyMaybeEvent "event option" | ReplyReason abort_reason

definition answer :: "('a \<Rightarrow> reply) \<Rightarrow> 'a result \<Rightarrow> reply result" where
  "answer f r = (fst r, case snd r of Inl e \<Rightarrow> Inl e | Inr a \<Rightarrow> Inr (f a))"

fun exec :: "pairing_lib \<Rightarrow> nat \<Rightarrow> call \<Rightarrow> session \<Rightarrow> reply result" where
  "exec L now (HandleOffer e) s = answer ReplyCode (handle_offer L now e s)"
| "exec L now (ConfirmSas d) s = answer ReplyEvent (confirm_sas L now d s)"
| "exec L now (HandleReturnPayload e) s = answer (\<lambda>(t, p). ReplyPayload t p) (handle_return_payload L now e s)"
| "exec L now (SendSourceComplete d b) s = answer ReplyEvent (send_source_complete L now d b s)"
| "exec L now (SendPayload d t p) s = answer ReplyEvent (send_payload L now d t p s)"
| "exec L now (HandleComplete e) s = answer (\<lambda>_. ReplyUnit) (handle_complete L now e s)"
| "exec L now (HandleSasConfirm e) s = answer ReplyCode (handle_sas_confirm L now e s)"
| "exec L now ConfirmTargetSas s = answer (\<lambda>_. ReplyUnit) (confirm_target_sas now s)"
| "exec L now (HandlePayload e) s = answer (\<lambda>(t, p). ReplyPayload t p) (handle_payload L now e s)"
| "exec L now (SendComplete d) s = answer ReplyEvent (send_complete L now d s)"
| "exec L now (AbortCall d r) s = answer ReplyMaybeEvent (abort L d r s)"
| "exec L now (HandleAbort e) s = answer ReplyReason (handle_abort L e s)"

text \<open>A run is any sequence of calls, at any times; its trace records every call with its result.\<close>

type_synonym trace = "(nat \<times> call \<times> (pairing_error + reply)) list"

inductive session_run :: "pairing_lib \<Rightarrow> session \<Rightarrow> trace \<Rightarrow> session \<Rightarrow> bool" for L s0 where
  run_start: "session_run L s0 [] s0"
| run_call: "session_run L s0 tr s \<Longrightarrow> exec L now c s = (s', r) \<Longrightarrow> session_run L s0 (tr @ [(now, c, r)]) s'"

inductive_cases run_Nil_cases: "session_run L s0 [] s"
inductive_cases run_snoc_cases: "session_run L s0 (tr @ [x]) s"

definition accepted_calls :: "trace \<Rightarrow> call list" where
  "accepted_calls tr = map (fst \<circ> snd) (filter (\<lambda>(_, _, r). \<not> isl r) tr)"

lemma accepted_calls_Nil [simp]: "accepted_calls [] = []"
  by (simp add: accepted_calls_def)

lemma accepted_calls_snoc [simp]:
  "accepted_calls (tr @ [(now, c, r)]) = accepted_calls tr @ (if \<not> isl r then [c] else [])"
  by (simp add: accepted_calls_def)

section \<open>When a call succeeds and what it does\<close>

lemma check_expired_Inr [simp]: "check_expired now s = Inr u \<longleftrightarrow> \<not> is_expired now s"
  by (cases u) (simp add: check_expired_def)

lemma expect_state_Inr [simp]: "expect_state st s = Inr u \<longleftrightarrow> state s = st"
  by (cases u) (simp add: expect_state_def)

lemma expect_role_Inr [simp]: "expect_role r s = Inr u \<longleftrightarrow> role s = r"
  by (cases u) (simp add: expect_role_def)

lemma answer_Inr: "answer f r = (s', Inr x) \<longleftrightarrow> (\<exists>a. r = (s', Inr a) \<and> x = f a)"
  by (cases r) (auto simp: answer_def split: sum.splits)

lemma answer_Inl: "answer f r = (s', Inl e) \<longleftrightarrow> r = (s', Inl e)"
  by (cases r) (auto simp: answer_def split: sum.splits)

lemmas handler_defs =
  handle_offer_def confirm_sas_def handle_return_payload_def send_source_complete_def
  send_payload_def handle_complete_def handle_sas_confirm_def confirm_target_sas_def
  handle_payload_def send_complete_def abort_def handle_abort_def

text \<open>The role a call belongs to, the state it starts from, and the state it leads to.\<close>

fun call_event :: "call \<Rightarrow> event option" where
  "call_event (HandleOffer e) = Some e"
| "call_event (HandleReturnPayload e) = Some e"
| "call_event (HandleComplete e) = Some e"
| "call_event (HandleSasConfirm e) = Some e"
| "call_event (HandlePayload e) = Some e"
| "call_event (HandleAbort e) = Some e"
| "call_event _ = None"

fun call_step :: "call \<Rightarrow> (role \<times> session_state \<times> session_state) option" where
  "call_step (HandleOffer _) = Some (Source, Waiting, Confirming)"
| "call_step (ConfirmSas _) = Some (Source, Confirming, Transferring)"
| "call_step (HandleReturnPayload _) = Some (Source, Transferring, PayloadExchanged)"
| "call_step (SendSourceComplete _ b) = Some (Source, PayloadExchanged, if b then Completed else Aborted)"
| "call_step (SendPayload _ _ _) = Some (Source, Transferring, PayloadExchanged)"
| "call_step (HandleComplete _) = Some (Source, PayloadExchanged, Completed)"
| "call_step (HandleSasConfirm _) = Some (Target, Confirming, AwaitingConfirmation)"
| "call_step ConfirmTargetSas = Some (Target, AwaitingConfirmation, Transferring)"
| "call_step (HandlePayload _) = Some (Target, Transferring, PayloadExchanged)"
| "call_step (SendComplete _) = Some (Target, PayloadExchanged, Completed)"
| "call_step (AbortCall _ _) = None"
| "call_step (HandleAbort _) = None"

definition terminal :: "session_state \<Rightarrow> bool" where
  "terminal st \<longleftrightarrow> st = Completed \<or> st = Aborted"

lemma map_err_Inr_unit [simp]: "map_err f r = Inr () \<longleftrightarrow> r = Inr ()"
  by (rule map_err_Inr)

lemmas result_splits =
  pairing_message.split_asm option.split_asm if_split_asm prod.split_asm sum.split_asm

lemma handle_offer_InrE:
  assumes "handle_offer L now e s = (s', Inr code)"
  obtains i ecdh c inp where
    "\<not> is_expired now s" "state s = Waiting" "role s = Source" "validate_event_basics L e s = Inr ()"
    "decrypt_message L e s = Inr (Offer i 1)" "hex_decode32 L i = Some (session_id s)"
    "generate_shared_key L (secret_key (skeys s)) (ev_pubkey e) = Inr ecdh"
    "derive_sas L ecdh (secret s) = (c, inp)" "code = format_sas c"
    "s' = record_event e (s\<lparr>peer_pubkey := Some (ev_pubkey e), sas_code := Some c,
             sas_input := Some inp, state := Confirming\<rparr>)"
  using assms unfolding handle_offer_def
  by (auto simp: ct_eq_def Let_def elim!: try_in_InrE split: result_splits)

lemma confirm_sas_InrE:
  assumes "confirm_sas L now d s = (s', Inr ev)"
  obtains inp peer where
    "\<not> is_expired now s" "state s = Confirming" "role s = Source" "sas_input s = Some inp"
    "peer_pubkey s = Some peer"
    "build_event L d (SasConfirm (hex_encode L (derive_transcript_hash L (session_id s)
         (public_key (skeys s)) peer inp (secret s)))) s = Inr ev"
    "s' = s\<lparr>state := Transferring\<rparr>"
  using assms unfolding confirm_sas_def
  by (auto simp: ok_or_Inr Let_def elim!: try_in_InrE)

lemma receive_payload_InrE:
  assumes "handle_return_payload L now e s = (s', Inr (t, p)) \<and> r = Source
         \<or> handle_payload L now e s = (s', Inr (t, p)) \<and> r = Target"
  obtains "\<not> is_expired now s" "state s = Transferring" "role s = r"
    "validate_event_from_peer L e s = Inr ()" "decrypt_message L e s = Inr (Payload t p)"
    "s' = record_event e (s\<lparr>state := PayloadExchanged\<rparr>)"
  using assms unfolding handle_return_payload_def handle_payload_def
  by (auto elim!: try_in_InrE split: result_splits)

lemma send_InrE:
  assumes "send_payload L now d t p s = (s', Inr ev) \<and> st = Transferring \<and> r = Source
             \<and> m = Payload t p \<and> st' = PayloadExchanged
         \<or> send_source_complete L now d b s = (s', Inr ev) \<and> st = PayloadExchanged \<and> r = Source
             \<and> m = Complete b \<and> st' = (if b then Completed else Aborted)
         \<or> send_complete L now d s = (s', Inr ev) \<and> st = PayloadExchanged \<and> r = Target
             \<and> m = Complete True \<and> st' = Completed"
  obtains "\<not> is_expired now s" "state s = st" "role s = r" "build_event L d m s = Inr ev"
    "s' = s\<lparr>state := st'\<rparr>"
  using assms unfolding send_payload_def send_source_complete_def send_complete_def
  by (auto elim!: try_in_InrE)

lemma handle_complete_InrE:
  assumes "handle_complete L now e s = (s', Inr u)"
  obtains "\<not> is_expired now s" "state s = PayloadExchanged" "role s = Source"
    "validate_event_from_peer L e s = Inr ()" "decrypt_message L e s = Inr (Complete True)"
    "s' = record_event e (s\<lparr>state := Completed\<rparr>)"
  using assms unfolding handle_complete_def
  by (auto elim!: try_in_InrE split: result_splits)

lemma handle_sas_confirm_InrE:
  assumes "handle_sas_confirm L now e s = (s', Inr code)"
  obtains h inp peer c where
    "\<not> is_expired now s" "state s = Confirming" "role s = Target"
    "validate_event_from_peer L e s = Inr ()" "decrypt_message L e s = Inr (SasConfirm h)"
    "sas_input s = Some inp" "peer_pubkey s = Some peer"
    "hex_decode32 L h = Some (derive_transcript_hash L (session_id s) peer (public_key (skeys s)) inp (secret s))"
    "sas_code s = Some c" "code = format_sas c"
    "s' = record_event e (s\<lparr>state := AwaitingConfirmation\<rparr>)"
  using assms unfolding handle_sas_confirm_def
  by (auto simp: ct_eq_def ok_or_Inr Let_def record_event_def elim!: try_in_InrE split: result_splits)

lemma confirm_target_sas_InrE:
  assumes "confirm_target_sas now s = (s', Inr u)"
  obtains "\<not> is_expired now s" "state s = AwaitingConfirmation" "role s = Target"
    "s' = s\<lparr>state := Transferring\<rparr>"
  using assms unfolding confirm_target_sas_def by (auto elim!: try_in_InrE)

lemma abort_InrE:
  assumes "abort L d reason s = (s', Inr r)"
  obtains "\<not> terminal (state s)" "s' = s\<lparr>state := Aborted\<rparr>"
  using assms unfolding abort_def terminal_def by (auto elim!: try_in_InrE split: result_splits)

lemma handle_abort_InrE:
  assumes "handle_abort L e s = (s', Inr reason)"
  obtains "\<not> terminal (state s)" "peer_pubkey s \<noteq> None" "validate_event_from_peer L e s = Inr ()"
    "decrypt_message L e s = Inr (Abort reason)" "s' = record_event e (s\<lparr>state := Aborted\<rparr>)"
  using assms unfolding handle_abort_def terminal_def
  by (auto elim!: try_in_InrE split: result_splits)

lemmas success_elims =
  handle_offer_InrE confirm_sas_InrE receive_payload_InrE [OF disjI1, OF conjI [OF _ refl]]
  receive_payload_InrE [OF disjI2, OF conjI [OF _ refl]] handle_complete_InrE
  send_InrE [OF disjI1, OF conjI [OF _ conjI [OF refl conjI [OF refl conjI [OF refl refl]]]]]
  send_InrE [OF disjI2 [OF disjI1], OF conjI [OF _ conjI [OF refl conjI [OF refl conjI [OF refl refl]]]]]
  send_InrE [OF disjI2 [OF disjI2], OF conjI [OF _ conjI [OF refl conjI [OF refl conjI [OF refl refl]]]]]
  handle_sas_confirm_InrE confirm_target_sas_InrE abort_InrE handle_abort_InrE

text \<open>A successful call makes exactly its transition.\<close>

lemma exec_success:
  assumes "exec L now c s = (s', Inr x)"
  shows "case call_step c of
           Some (r, st, st') \<Rightarrow> role s = r \<and> state s = st \<and> state s' = st' \<and> \<not> is_expired now s
         | None \<Rightarrow> \<not> terminal (state s) \<and> state s' = Aborted"
  using assms
  by (cases c) (auto simp: answer_Inr record_event_def elim!: success_elims)

text \<open>
  A failed call leaves the session as it was, with three exceptions: a wrong transcript hash and a
  reported failure abort it, and an offer whose key agreement fails still records the peer.  (The last
  case below, a target without an authentication code, does not occur in a run.)
\<close>

definition failure_frame :: "call \<Rightarrow> session \<Rightarrow> session \<Rightarrow> pairing_error \<Rightarrow> bool" where
  "failure_frame c s s' e \<longleftrightarrow>
     s' = s
     \<or> (\<exists>ev. c = HandleSasConfirm ev \<and> e = TranscriptMismatch \<and> role s = Target
            \<and> state s = Confirming \<and> s' = s\<lparr>state := Aborted\<rparr>)
     \<or> (\<exists>ev. c = HandleComplete ev \<and> role s = Source \<and> state s = PayloadExchanged
            \<and> s' = s\<lparr>state := Aborted\<rparr>)
     \<or> (\<exists>ev. c = HandleOffer ev \<and> role s = Source \<and> state s = Waiting
            \<and> s' = s\<lparr>peer_pubkey := Some (ev_pubkey ev)\<rparr>)
     \<or> (role s = Target \<and> sas_code s = None)"

lemma plain_failures:
  "confirm_sas L now d s = (s', Inl e) \<Longrightarrow> s' = s"
  "handle_return_payload L now ev s = (s', Inl e) \<Longrightarrow> s' = s"
  "send_source_complete L now d b s = (s', Inl e) \<Longrightarrow> s' = s"
  "send_payload L now d t p s = (s', Inl e) \<Longrightarrow> s' = s"
  "confirm_target_sas now s = (s', Inl e) \<Longrightarrow> s' = s"
  "handle_payload L now ev s = (s', Inl e) \<Longrightarrow> s' = s"
  "send_complete L now d s = (s', Inl e) \<Longrightarrow> s' = s"
  "abort L d reason s = (s', Inl e) \<Longrightarrow> s' = s"
  "handle_abort L ev s = (s', Inl e) \<Longrightarrow> s' = s"
  unfolding handler_defs by (auto simp: Let_def elim!: try_in_InlE split: result_splits)

lemma handle_offer_InlD:
  "handle_offer L now ev s = (s', Inl e) \<Longrightarrow>
     s' = s \<or> role s = Source \<and> state s = Waiting \<and> s' = s\<lparr>peer_pubkey := Some (ev_pubkey ev)\<rparr>"
  unfolding handle_offer_def by (auto simp: Let_def elim!: try_in_InlE split: result_splits)

lemma handle_complete_InlD:
  "handle_complete L now ev s = (s', Inl e) \<Longrightarrow>
     s' = s \<or> role s = Source \<and> state s = PayloadExchanged \<and> s' = s\<lparr>state := Aborted\<rparr>"
  unfolding handle_complete_def by (auto elim!: try_in_InlE split: result_splits)

lemma handle_sas_confirm_InlD:
  "handle_sas_confirm L now ev s = (s', Inl e) \<Longrightarrow>
     s' = s \<or> e = TranscriptMismatch \<and> role s = Target \<and> state s = Confirming \<and> s' = s\<lparr>state := Aborted\<rparr>
     \<or> role s = Target \<and> sas_code s = None"
  unfolding handle_sas_confirm_def
  by (auto simp: Let_def record_event_def ok_or_def elim!: try_in_InlE split: result_splits)

lemma exec_failure:
  assumes "exec L now c s = (s', Inl e)"
  shows "failure_frame c s s' e"
  using assms
  by (cases c) (auto simp: answer_Inl failure_frame_def dest: plain_failures handle_offer_InlD
      handle_complete_InlD handle_sas_confirm_InlD)

section \<open>Invariants of a run\<close>

definition initial :: "pairing_lib \<Rightarrow> session \<Rightarrow> bool" where
  "initial L s0 \<longleftrightarrow>
     (\<exists>ks sec now url. s0 = fst (new_source L ks sec now url))
     \<or> (\<exists>ks now d qr ev. new_target L ks now d qr = Inr (s0, ev))"

text \<open>The code and the transcript input a session holds come from its keys, peer and secret.\<close>

definition sas_established :: "pairing_lib \<Rightarrow> session \<Rightarrow> bool" where
  "sas_established L s \<longleftrightarrow>
     (\<exists>peer ecdh c inp. peer_pubkey s = Some peer
        \<and> generate_shared_key L (secret_key (skeys s)) peer = Inr ecdh
        \<and> derive_sas L ecdh (secret s) = (c, inp) \<and> sas_code s = Some c \<and> sas_input s = Some inp)"

definition session_inv :: "pairing_lib \<Rightarrow> session \<Rightarrow> bool" where
  "session_inv L s \<longleftrightarrow>
     session_id s = derive_session_id L (secret s)
     \<and> (role s = Target \<longrightarrow> state s \<noteq> Waiting \<and> sas_established L s)
     \<and> (role s = Source \<longrightarrow> state s \<noteq> AwaitingConfirmation
          \<and> (state s \<noteq> Waiting \<and> state s \<noteq> Aborted \<longrightarrow> sas_established L s))"

text \<open>What no call changes.\<close>

definition same_identity :: "session \<Rightarrow> session \<Rightarrow> bool" where
  "same_identity s s' \<longleftrightarrow>
     role s' = role s \<and> skeys s' = skeys s \<and> secret s' = secret s \<and> session_id s' = session_id s
     \<and> relay_urls s' = relay_urls s \<and> created_at s' = created_at s \<and> timeout s' = timeout s
     \<and> (role s = Target \<longrightarrow> peer_pubkey s' = peer_pubkey s \<and> sas_input s' = sas_input s
          \<and> sas_code s' = sas_code s)"

lemma same_identity_refl [simp]: "same_identity s s"
  by (simp add: same_identity_def)

lemma same_identity_trans: "same_identity s s' \<Longrightarrow> same_identity s' s'' \<Longrightarrow> same_identity s s''"
  by (simp add: same_identity_def)

lemma exec_success_identity:
  "exec L now c s = (s', Inr x) \<Longrightarrow> same_identity s s'"
  by (cases c) (auto simp: answer_Inr record_event_def same_identity_def elim!: success_elims)

lemma exec_success_frame:
  assumes "exec L now c s = (s', Inr x)" and "call_step c \<noteq> Some (Source, Waiting, Confirming)"
  shows "peer_pubkey s' = peer_pubkey s \<and> sas_code s' = sas_code s \<and> sas_input s' = sas_input s"
  using assms by (cases c) (auto simp: answer_Inr record_event_def elim!: success_elims)

lemma offer_establishes_sas:
  "handle_offer L now e s = (s', Inr x) \<Longrightarrow> sas_established L s'"
  by (auto simp: record_event_def sas_established_def elim!: handle_offer_InrE)

lemma exec_success_inv:
  assumes "exec L now c s = (s', Inr x)" and "session_inv L s"
  shows "session_inv L s'"
proof -
  note same = exec_success_identity [OF assms(1)] and ok = exec_success [OF assms(1)]
  have sas: "sas_established L s' \<or> call_step c \<noteq> Some (Source, Waiting, Confirming)
      \<and> sas_established L s' = sas_established L s"
  proof (cases "call_step c = Some (Source, Waiting, Confirming)")
    case True
    then obtain e where "c = HandleOffer e" by (cases c) (auto split: if_splits)
    then show ?thesis using assms(1) by (auto simp: answer_Inr dest: offer_establishes_sas)
  next
    case False
    with exec_success_frame [OF assms(1)] same show ?thesis
      by (simp add: sas_established_def same_identity_def)
  qed
  show ?thesis
  proof (cases "call_step c")
    case None
    with ok have "state s' = Aborted" by simp
    with sas same assms(2) show ?thesis by (auto simp: session_inv_def same_identity_def)
  next
    case (Some a)
    with ok sas same assms(2) show ?thesis
      by (cases c) (auto simp: session_inv_def same_identity_def split: if_splits)
  qed
qed

lemma exec_failure_inv:
  assumes "exec L now c s = (s', Inl e)" and "session_inv L s"
  shows "session_inv L s' \<and> same_identity s s'"
proof -
  have "\<not> (role s = Target \<and> sas_code s = None)"
    using assms(2) by (auto simp: session_inv_def sas_established_def)
  with exec_failure [OF assms(1)] assms(2) show ?thesis
    by (auto simp: failure_frame_def session_inv_def sas_established_def same_identity_def)
qed

lemma exec_inv:
  assumes "exec L now c s = (s', r)" and "session_inv L s"
  shows "session_inv L s' \<and> same_identity s s'"
  using assms exec_failure_inv exec_success_inv exec_success_identity by (cases r) blast+

lemma new_target_InrE:
  assumes "new_target L ks now d qr = Inr (s, ev)"
  obtains ecdh c inp where
    "generate_shared_key L (secret_key ks) (source_pubkey qr) = Inr ecdh"
    "derive_sas L ecdh (session_secret qr) = (c, inp)"
    "s = \<lparr>role = Target, state = Confirming, skeys = ks, secret = session_secret qr,
          relay_urls = relays qr, peer_pubkey = Some (source_pubkey qr),
          session_id = derive_session_id L (session_secret qr), sas_code = Some c,
          sas_input = Some inp, processed_ids = [], created_at = now, timeout = DEFAULT_TIMEOUT\<rparr>"
    "build_event L d (Offer (hex_encode L (session_id s)) 1) (s\<lparr>state := Waiting\<rparr>) = Inr ev"
  using assms unfolding new_target_def
  by (auto simp: Let_def elim!: bind_result_InrE split: prod.split_asm)

lemma initial_inv: "initial L s0 \<Longrightarrow> session_inv L s0"
  unfolding initial_def
  by (auto simp: new_source_def session_inv_def sas_established_def Let_def elim!: new_target_InrE)

lemma run_inv:
  assumes "session_run L s0 tr s" and "session_inv L s0"
  shows "session_inv L s \<and> same_identity s0 s"
  using assms
proof (induction rule: session_run.induct)
  case (run_call tr s now c s' r)
  then show ?case using exec_inv same_identity_trans by metis
qed simp

text \<open>Every accepted call was made in some state of the run.\<close>

lemma run_accepted:
  assumes "session_run L s0 tr s" and "(n, c, Inr x) \<in> set tr"
  obtains tr1 si si' where "session_run L s0 tr1 si" "exec L n c si = (si', Inr x)"
  using assms
proof (induction arbitrary: thesis rule: session_run.induct)
  case (run_call tr s now c' s' r)
  then show ?case by auto
qed simp

section \<open>The order of accepted calls\<close>

datatype call_kind =
  KOffer | KConfirmSas | KReturnPayload | KSourceComplete | KSendPayload | KHandleComplete
| KSasConfirm | KConfirmTarget | KPayload | KSendComplete | KAbort

fun kind_of :: "call \<Rightarrow> call_kind" where
  "kind_of (HandleOffer _) = KOffer"
| "kind_of (ConfirmSas _) = KConfirmSas"
| "kind_of (HandleReturnPayload _) = KReturnPayload"
| "kind_of (SendSourceComplete _ _) = KSourceComplete"
| "kind_of (SendPayload _ _ _) = KSendPayload"
| "kind_of (HandleComplete _) = KHandleComplete"
| "kind_of (HandleSasConfirm _) = KSasConfirm"
| "kind_of ConfirmTargetSas = KConfirmTarget"
| "kind_of (HandlePayload _) = KPayload"
| "kind_of (SendComplete _) = KSendComplete"
| "kind_of (AbortCall _ _) = KAbort"
| "kind_of (HandleAbort _) = KAbort"

text \<open>The protocol of each side: which calls may be the next to succeed.\<close>

fun protocol :: "role \<Rightarrow> call_kind list list" where
  "protocol Source = [[KOffer], [KConfirmSas], [KSendPayload, KReturnPayload], [KHandleComplete, KSourceComplete]]"
| "protocol Target = [[KSasConfirm], [KConfirmTarget], [KPayload], [KSendComplete]]"

definition in_order :: "role \<Rightarrow> call list \<Rightarrow> bool" where
  "in_order r cs \<longleftrightarrow> (\<exists>n. list_all2 (\<lambda>c ks. kind_of c \<in> set ks) cs (take n (protocol r)))"

text \<open>How far along the protocol a state is.\<close>

fun stage :: "role \<Rightarrow> session_state \<Rightarrow> nat" where
  "stage Source Waiting = 0"
| "stage Source Confirming = 1"
| "stage Target Confirming = 0"
| "stage Target AwaitingConfirmation = 1"
| "stage _ Transferring = 2"
| "stage _ PayloadExchanged = 3"
| "stage _ _ = 4"

definition at_stage :: "role \<Rightarrow> nat \<Rightarrow> call list \<Rightarrow> bool" where
  "at_stage r n cs \<longleftrightarrow> list_all2 (\<lambda>c ks. kind_of c \<in> set ks) cs (take n (protocol r))"

lemma length_protocol [simp]: "length (protocol r) = 4"
  by (cases r) simp_all

lemma at_stage_0 [simp]: "at_stage r 0 []"
  by (simp add: at_stage_def)

lemma at_stage_Suc:
  "at_stage r n cs \<Longrightarrow> n < 4 \<Longrightarrow> kind_of c \<in> set (protocol r ! n) \<Longrightarrow> at_stage r (Suc n) (cs @ [c])"
  by (simp add: at_stage_def take_Suc_conv_app_nth list_all2_appendI)

lemma at_stage_in_order: "at_stage r n cs \<Longrightarrow> in_order r cs"
  by (auto simp: at_stage_def in_order_def)

text \<open>A successful call other than an abort is the next one of the protocol.\<close>

lemma call_step_protocol:
  assumes "call_step c = Some (r, st, st')"
  shows "stage r st < 4 \<and> kind_of c \<in> set (protocol r ! stage r st)
     \<and> (st' \<noteq> Aborted \<longrightarrow> stage r st' = Suc (stage r st))
     \<and> (st' = Aborted \<longrightarrow> stage r st = 3)"
  using assms by (cases c) (auto split: if_splits)

lemma call_step_None: "call_step c = None \<longleftrightarrow> kind_of c = KAbort"
  by (cases c) auto

lemma run_order:
  assumes "session_run L s0 tr s" and "initial L s0"
  shows "if state s = Aborted
         then (\<exists>n. at_stage (role s0) n (accepted_calls tr))
              \<or> (\<exists>n cs a. accepted_calls tr = cs @ [a] \<and> kind_of a = KAbort \<and> at_stage (role s0) n cs)
         else at_stage (role s0) (stage (role s0) (state s)) (accepted_calls tr)"
  using assms(1)
proof (induction rule: session_run.induct)
  case run_start
  have "state s0 \<noteq> Aborted \<and> stage (role s0) (state s0) = 0"
    using assms(2) by (auto simp: initial_def new_source_def Let_def elim!: new_target_InrE)
  then show ?case by simp
next
  case (run_call tr s now c s' r)
  have inv: "session_inv L s" "role s = role s0"
    using run_inv [OF run_call.hyps(1) initial_inv [OF assms(2)]] by (auto simp: same_identity_def)
  show ?case
  proof (cases r)
    case (Inl e)
    have "state s' = state s \<or> state s' = Aborted \<and> state s \<noteq> Aborted"
      using exec_failure [of L now c s s' e] run_call.hyps(2) Inl inv
      by (auto simp: failure_frame_def session_inv_def sas_established_def)
    then show ?thesis using run_call.IH Inl by auto
  next
    case (Inr x)
    note ok = exec_success [OF run_call.hyps(2) [unfolded Inr]]
    show ?thesis
    proof (cases "call_step c")
      case None
      then have "state s \<noteq> Aborted" "state s' = Aborted" "kind_of c = KAbort"
        using ok by (auto simp: terminal_def call_step_None [symmetric])
      then show ?thesis using run_call.IH Inr by auto
    next
      case (Some a)
      obtain r' st st' where a: "a = (r', st, st')" by (cases a)
      note nxt = call_step_protocol [OF Some [unfolded a]]
      have st: "role s0 = r'" "state s = st" "state s' = st'"
        using ok Some a inv(2) by auto
      have "st \<noteq> Aborted" using nxt by (cases r'; cases st) auto
      then have "at_stage r' (Suc (stage r' st)) (accepted_calls tr @ [c])"
        using run_call.IH st nxt by (intro at_stage_Suc) auto
      then show ?thesis using st nxt Inr by (cases "st' = Aborted") auto
    qed
  qed
qed

lemma protocol_order_calls:
  assumes "initial L s0" and "session_run L s0 tr s"
  obtains cs where "in_order (role s0) cs" and "set cs \<subseteq> set (accepted_calls tr)"
    and "\<forall>c\<in>set (accepted_calls tr). c \<in> set cs \<or> kind_of c = KAbort"
  using run_order [OF assms(2,1)] at_stage_in_order
  by (fastforce split: if_split_asm)

lemma in_order_target_payload:
  assumes "in_order Target cs" and "HandlePayload e \<in> set cs"
  obtains e1 where "HandleSasConfirm e1 \<in> set cs" and "ConfirmTargetSas \<in> set cs"
proof -
  obtain n where n: "list_all2 (\<lambda>c ks. kind_of c \<in> set ks) cs (take n (protocol Target))"
    using assms(1) by (auto simp: in_order_def)
  obtain i where i: "i < length cs" "cs ! i = HandlePayload e"
    using assms(2) by (auto simp: in_set_conv_nth)
  have kinds: "j < length cs \<Longrightarrow> kind_of (cs ! j) \<in> set (protocol Target ! j)" for j
    using list_all2_nthD [OF n] list_all2_lengthD [OF n] by simp
  have "length cs \<le> 4" using list_all2_lengthD [OF n] by simp
  with i(1) have "i = 0 \<or> i = 1 \<or> i = 2 \<or> i = 3" by linarith
  with i kinds [of i] have "i = 2" by auto
  then have lens: "0 < length cs" "1 < length cs" using i(1) by linarith+
  then have "kind_of (cs ! 0) = KSasConfirm" "kind_of (cs ! 1) = KConfirmTarget"
    using kinds [of 0] kinds [of 1] by simp_all
  moreover note nth_mem [OF lens(1)] nth_mem [OF lens(2)]
  ultimately show ?thesis
    using that by (cases "cs ! 0"; cases "cs ! 1") auto
qed

section \<open>Accepted events\<close>

lemma validate_basics_fresh:
  "validate_event_basics L e s = Inr () \<Longrightarrow>
     event_verify L e = Inr () \<and> ev_id e \<notin> set (processed_ids s) \<and> ev_kind e = PAIRING_KIND"
  by (auto simp: validate_event_basics_def elim!: bind_result_InrE split: if_split_asm)

lemma validate_from_peer:
  "validate_event_from_peer L e s = Inr () \<Longrightarrow>
     validate_event_basics L e s = Inr () \<and> (\<forall>peer. peer_pubkey s = Some peer \<longrightarrow> ev_pubkey e = peer)"
  by (auto simp: validate_event_from_peer_def elim!: bind_result_InrE split: option.splits if_splits)

lemma accepted_payload:
  "exec L n (HandlePayload e) s = (s', Inr x) \<Longrightarrow> peer_pubkey s = Some pk \<Longrightarrow>
     event_verify L e = Inr () \<and> ev_pubkey e = pk"
  by (auto simp: answer_Inr elim!: success_elims dest!: validate_from_peer dest: validate_basics_fresh)

lemma accepted_sas_confirm:
  "exec L n (HandleSasConfirm e) s = (s', Inr x) \<Longrightarrow> peer_pubkey s = Some pk \<Longrightarrow>
     event_verify L e = Inr () \<and> ev_pubkey e = pk
     \<and> (\<exists>h. decrypt_message L e s = Inr (SasConfirm h)
          \<and> hex_decode32 L h = Some (derive_transcript_hash L (session_id s) pk
               (public_key (skeys s)) (the (sas_input s)) (secret s)))"
  by (auto simp: answer_Inr elim!: success_elims dest!: validate_from_peer dest: validate_basics_fresh)

definition call_ids :: "call list \<Rightarrow> byte list list" where
  "call_ids cs = concat (map (\<lambda>c. case call_event c of None \<Rightarrow> [] | Some e \<Rightarrow> [ev_id e]) cs)"

lemma exec_success_records:
  assumes "exec L now c s = (s', Inr x)"
  shows "case call_event c of
           None \<Rightarrow> processed_ids s' = processed_ids s
         | Some e \<Rightarrow> ev_id e \<notin> set (processed_ids s)
             \<and> set (processed_ids s') = insert (ev_id e) (set (processed_ids s))"
  using assms
  by (cases c) (auto simp: answer_Inr record_event_def elim!: success_elims
      dest!: validate_from_peer dest: validate_basics_fresh)

lemma exec_failure_records:
  "exec L now c s = (s', Inl e) \<Longrightarrow> session_inv L s \<Longrightarrow> processed_ids s' = processed_ids s"
  using exec_failure [of L now c s s' e]
  by (auto simp: failure_frame_def session_inv_def sas_established_def)

lemma run_ids:
  assumes "session_run L s0 tr s" and "session_inv L s0" and "processed_ids s0 = []"
  shows "set (processed_ids s) = set (call_ids (accepted_calls tr)) \<and> distinct (call_ids (accepted_calls tr))"
  using assms(1)
proof (induction rule: session_run.induct)
  case run_start
  then show ?case using assms(3) by (simp add: call_ids_def)
next
  case (run_call tr s now c s' r)
  have inv: "session_inv L s" using run_inv [OF run_call.hyps(1) assms(2)] by blast
  show ?case
  proof (cases r)
    case (Inl e)
    then show ?thesis using run_call exec_failure_records [of L now c s s' e] inv by simp
  next
    case (Inr x)
    then show ?thesis
      using run_call exec_success_records [of L now c s s' x]
      by (cases "call_event c") (auto simp: call_ids_def)
  qed
qed

lemma initial_ids: "initial L s0 \<Longrightarrow> processed_ids s0 = []"
  by (auto simp: initial_def new_source_def Let_def elim!: new_target_InrE)

section \<open>Runs from a terminal or expired session\<close>

lemma terminal_rejects:
  assumes "terminal (state s)" and "\<not> (role s = Target \<and> sas_code s = None)"
  shows "\<exists>e. exec L now c s = (s, Inl e)"
proof -
  obtain s' r where ex: "exec L now c s = (s', r)" by fastforce
  show ?thesis
  proof (cases r)
    case (Inl e)
    then show ?thesis
      using exec_failure [of L now c s s' e] ex assms by (auto simp: failure_frame_def terminal_def)
  next
    case (Inr x)
    have "case call_step c of Some (r, st, st') \<Rightarrow> \<not> terminal st | None \<Rightarrow> True"
      by (cases c) (auto simp: terminal_def)
    then show ?thesis
      using exec_success [OF ex [unfolded Inr]] assms(1) by (auto split: option.splits prod.splits)
  qed
qed

lemma expired_exec:
  "is_expired now s \<Longrightarrow> call_step c \<noteq> None \<Longrightarrow> exec L now c s = (s, Inl SessionExpired)"
  by (cases c) (simp_all add: handler_defs check_expired_def answer_def)

section \<open>An honest exchange\<close>

text \<open>
  What the primitives are documented to do.  \<open>fits\<close>: a message serializes to JSON that parses back
  and is within the NIP-44 plaintext limit.  \<open>channel\<close>: what one device encrypts and signs, the other
  decrypts and verifies.  \<open>lib_laws\<close>: hexadecimal decoding inverts encoding, HKDF gives the number of
  bytes asked for, a public-key tag is \<open>["p", hex]\<close>, and equal event ids mean equal contents.
\<close>

definition fits :: "pairing_lib \<Rightarrow> pairing_message \<Rightarrow> bool" where
  "fits L m \<longleftrightarrow>
     (\<exists>j. to_json L m = Inr j \<and> j \<noteq> [] \<and> length j \<le> 65535 \<and> from_json L j = Inr m)"

definition channel :: "pairing_lib \<Rightarrow> keys \<Rightarrow> keys \<Rightarrow> bool" where
  "channel L k k' \<longleftrightarrow>
     (\<forall>m n. m \<noteq> [] \<and> length m \<le> 65535 \<longrightarrow>
        (\<exists>c. nip44_encrypt L (secret_key k) (public_key k') m n = Inr c
           \<and> 132 \<le> length c \<and> length c \<le> 87472
           \<and> nip44_decrypt L (secret_key k') (public_key k) c = Inr m))
     \<and> (\<forall>b. \<exists>e. sign_with_keys L k b = Inr e \<and> event_verify L e = Inr ()
           \<and> ev_pubkey e = public_key k \<and> ev_kind e = b_kind b \<and> ev_tags e = b_tags b
           \<and> ev_content e = b_content b)"

definition key_agreement :: "pairing_lib \<Rightarrow> keys \<Rightarrow> keys \<Rightarrow> bool" where
  "key_agreement L k k' \<longleftrightarrow>
     (\<exists>x. generate_shared_key L (secret_key k) (public_key k') = Inr x
        \<and> generate_shared_key L (secret_key k') (public_key k) = Inr x)"

definition lib_laws :: "pairing_lib \<Rightarrow> bool" where
  "lib_laws L \<longleftrightarrow>
     (\<forall>b. hex_decode L (hex_encode L b) = Inr b \<and> length (hex_encode L b) = 2 * length b)
     \<and> (\<forall>prk info n. length (hkdf_expand L prk info n) = n)
     \<and> (\<forall>pk. tag_public_key L pk = [''p'', pk_to_hex L pk])
     \<and> (\<forall>k k' b b' e e'. sign_with_keys L k b = Inr e \<and> sign_with_keys L k' b' = Inr e' \<and> ev_id e = ev_id e'
          \<longrightarrow> ev_content e = ev_content e')
     \<and> (\<forall>i. length i = 64 \<longrightarrow> fits L (Offer i 1) \<and> fits L (SasConfirm i))
     \<and> fits L (Complete True)"

text \<open>An event that carries a message from one device to the other.\<close>

definition carries :: "pairing_lib \<Rightarrow> keys \<Rightarrow> keys \<Rightarrow> pairing_message \<Rightarrow> event \<Rightarrow> bool" where
  "carries L k k' m e \<longleftrightarrow>
     (\<exists>b j. sign_with_keys L k b = Inr e \<and> event_verify L e = Inr () \<and> ev_pubkey e = public_key k
        \<and> ev_kind e = PAIRING_KIND \<and> ev_tags e = [tag_public_key L (public_key k')]
        \<and> 132 \<le> length (ev_content e) \<and> length (ev_content e) \<le> 87472
        \<and> nip44_decrypt L (secret_key k') (public_key k) (ev_content e) = Inr j
        \<and> length j \<le> 65535 \<and> from_json L j = Inr m)"

lemma build_event_carries:
  assumes "channel L k k'" and "fits L m" and "skeys s = k" and "peer_pubkey s = Some (public_key k')"
  shows "\<exists>e. build_event L d m s = Inr e \<and> carries L k k' m e"
proof -
  obtain j where j: "to_json L m = Inr j" "j \<noteq> []" "length j \<le> 65535" "from_json L j = Inr m"
    using assms(2) by (auto simp: fits_def)
  obtain c where c: "nip44_encrypt L (secret_key k) (public_key k') j (nonce d) = Inr c"
    "132 \<le> length c" "length c \<le> 87472" "nip44_decrypt L (secret_key k') (public_key k) c = Inr j"
    using assms(1) j(2,3) unfolding channel_def by blast
  define b where "b = \<lparr>b_kind = PAIRING_KIND, b_content = c, b_tags = [tag_public_key L (public_key k')],
      b_created_at = wall_clock d - jitter d mod 31\<rparr>"
  obtain e where e: "sign_with_keys L k b = Inr e" "event_verify L e = Inr ()"
    "ev_pubkey e = public_key k" "ev_kind e = b_kind b" "ev_tags e = b_tags b" "ev_content e = b_content b"
    using assms(1) unfolding channel_def by metis
  have "build_event L d m s = Inr e"
    using assms(3,4) j(1) c(1) e(1) by (simp add: build_event_def b_def)
  moreover have "carries L k k' m e"
    unfolding carries_def using e c j by (intro exI [of _ b] exI [of _ j]) (simp add: b_def)
  ultimately show ?thesis by blast
qed

lemma carries_accepted:
  assumes "carries L k k' m e" and "lib_laws L" and "skeys s = k'" and "ev_id e \<notin> set (processed_ids s)"
  shows "validate_event_basics L e s = Inr ()" and "decrypt_message L e s = Inr m"
    and "peer_pubkey s = Some (public_key k) \<Longrightarrow> validate_event_from_peer L e s = Inr ()"
    and "ev_pubkey e = public_key k"
proof -
  show basics: "validate_event_basics L e s = Inr ()"
    using assms by (auto simp: carries_def lib_laws_def validate_event_basics_def)
  show "decrypt_message L e s = Inr m"
    using assms by (auto simp: carries_def decrypt_message_def Let_def)
  show "ev_pubkey e = public_key k" using assms(1) by (auto simp: carries_def)
  then show "peer_pubkey s = Some (public_key k) \<Longrightarrow> validate_event_from_peer L e s = Inr ()"
    using basics by (simp add: validate_event_from_peer_def)
qed

lemma carries_ids_differ:
  assumes "carries L k k' m e" and "carries L k k' m' e'" and "lib_laws L" and "m \<noteq> m'"
  shows "ev_id e \<noteq> ev_id e'"
proof
  assume eq: "ev_id e = ev_id e'"
  obtain b where b: "sign_with_keys L k b = Inr e" using assms(1) by (auto simp: carries_def)
  obtain b' where b': "sign_with_keys L k b' = Inr e'" using assms(2) by (auto simp: carries_def)
  have "ev_content e = ev_content e'"
    using assms(3) b b' eq unfolding lib_laws_def by metis
  then show False using assms(1,2,4) by (auto simp: carries_def)
qed

lemma hkdf32_length: "lib_laws L \<Longrightarrow> length (hkdf32 L a b c) = 32"
  by (simp add: lib_laws_def hkdf32_def Let_def)

lemma hex_decode32_encode: "lib_laws L \<Longrightarrow> length b = 32 \<Longrightarrow> hex_decode32 L (hex_encode L b) = Some b"
  by (simp add: lib_laws_def hex_decode32_def bytes32_def)

text \<open>Each handler on the inputs of an honest exchange.\<close>

lemma handle_offer_ok:
  assumes "\<not> is_expired now s" "state s = Waiting" "role s = Source" "validate_event_basics L e s = Inr ()"
    "decrypt_message L e s = Inr (Offer i 1)" "hex_decode32 L i = Some (session_id s)"
    "generate_shared_key L (secret_key (skeys s)) (ev_pubkey e) = Inr ecdh"
    "derive_sas L ecdh (secret s) = (c, inp)"
  shows "handle_offer L now e s =
    (record_event e (s\<lparr>peer_pubkey := Some (ev_pubkey e), sas_code := Some c,
       sas_input := Some inp, state := Confirming\<rparr>), Inr (format_sas c))"
  using assms
  by (simp add: handle_offer_def check_expired_def expect_state_def expect_role_def ct_eq_def)

lemma confirm_sas_ok:
  assumes "\<not> is_expired now s" "state s = Confirming" "role s = Source" "sas_input s = Some inp"
    "peer_pubkey s = Some peer"
    "build_event L d (SasConfirm (hex_encode L (derive_transcript_hash L (session_id s)
       (public_key (skeys s)) peer inp (secret s)))) s = Inr ev"
  shows "confirm_sas L now d s = (s\<lparr>state := Transferring\<rparr>, Inr ev)"
  using assms by (simp add: confirm_sas_def check_expired_def expect_state_def expect_role_def)

lemma handle_sas_confirm_ok:
  assumes "\<not> is_expired now s" "state s = Confirming" "role s = Target"
    "validate_event_from_peer L e s = Inr ()" "decrypt_message L e s = Inr (SasConfirm h)"
    "sas_input s = Some inp" "peer_pubkey s = Some peer"
    "hex_decode32 L h = Some (derive_transcript_hash L (session_id s) peer (public_key (skeys s)) inp (secret s))"
    "sas_code s = Some c"
  shows "handle_sas_confirm L now e s =
    (record_event e (s\<lparr>state := AwaitingConfirmation\<rparr>), Inr (format_sas c))"
  using assms
  by (simp add: handle_sas_confirm_def check_expired_def expect_state_def expect_role_def ct_eq_def
      record_event_def Let_def)

lemma payload_exchange_ok:
  assumes "\<not> is_expired now s" "state s = Transferring"
  shows "role s = Source \<Longrightarrow> build_event L d (Payload ty p) s = Inr ev \<Longrightarrow>
      send_payload L now d ty p s = (s\<lparr>state := PayloadExchanged\<rparr>, Inr ev)"
    and "role s = Target \<Longrightarrow> validate_event_from_peer L e s = Inr () \<Longrightarrow>
      decrypt_message L e s = Inr (Payload ty p) \<Longrightarrow>
      handle_payload L now e s = (record_event e (s\<lparr>state := PayloadExchanged\<rparr>), Inr (ty, p))"
  using assms
  by (simp_all add: send_payload_def handle_payload_def check_expired_def expect_state_def expect_role_def)

lemma completion_ok:
  assumes "\<not> is_expired now s" "state s = PayloadExchanged"
  shows "role s = Target \<Longrightarrow> build_event L d (Complete True) s = Inr ev \<Longrightarrow>
      send_complete L now d s = (s\<lparr>state := Completed\<rparr>, Inr ev)"
    and "role s = Source \<Longrightarrow> validate_event_from_peer L e s = Inr () \<Longrightarrow>
      decrypt_message L e s = Inr (Complete True) \<Longrightarrow>
      handle_complete L now e s = (record_event e (s\<lparr>state := Completed\<rparr>), Inr ())"
  using assms
  by (simp_all add: send_complete_def handle_complete_def check_expired_def expect_state_def expect_role_def)

text \<open>The two sessions after the codes were shown: same code, same transcript input.\<close>

lemma honest_setup:
  fixes L :: pairing_lib and ka kb :: keys and sec :: "byte list" and url :: string
    and t :: "nat \<Rightarrow> nat" and d :: "nat \<Rightarrow> draw"
  assumes "lib_laws L" "key_agreement L ka kb" "channel L kb ka"
    and "t 2 - t 0 \<le> DEFAULT_TIMEOUT"
  defines "src0 \<equiv> fst (new_source L ka sec (t 0) url)" and "qr \<equiv> snd (new_source L ka sec (t 0) url)"
  shows "\<exists>tgt0 offer src1 c inp.
      new_target L kb (t 1) (d 1) qr = Inr (tgt0, offer)
      \<and> handle_offer L (t 2) offer src0 = (src1, Inr (format_sas c))
      \<and> carries L kb ka (Offer (hex_encode L (session_id src0)) 1) offer
      \<and> tgt0 = \<lparr>role = Target, state = Confirming, skeys = kb, secret = sec, relay_urls = [url],
           peer_pubkey = Some (public_key ka), session_id = derive_session_id L sec, sas_code = Some c,
           sas_input = Some inp, processed_ids = [], created_at = t 1, timeout = DEFAULT_TIMEOUT\<rparr>
      \<and> src1 = src0\<lparr>peer_pubkey := Some (public_key kb), sas_code := Some c, sas_input := Some inp,
           state := Confirming, processed_ids := [ev_id offer]\<rparr>"
proof -
  obtain x where x: "generate_shared_key L (secret_key ka) (public_key kb) = Inr x"
    "generate_shared_key L (secret_key kb) (public_key ka) = Inr x"
    using assms(2) by (auto simp: key_agreement_def)
  obtain c inp where sas: "derive_sas L x sec = (c, inp)" by fastforce
  let ?sid = "derive_session_id L sec"
  let ?tgt = "\<lparr>role = Target, state = Waiting, skeys = kb, secret = sec, relay_urls = [url],
      peer_pubkey = Some (public_key ka), session_id = ?sid, sas_code = Some c,
      sas_input = Some inp, processed_ids = [], created_at = t 1, timeout = DEFAULT_TIMEOUT\<rparr>"
  have sid: "length ?sid = 32" using assms(1) by (simp add: derive_session_id_def hkdf32_length)
  then have "fits L (Offer (hex_encode L ?sid) 1)" using assms(1) by (simp add: lib_laws_def)
  then obtain offer where offer: "build_event L (d 1) (Offer (hex_encode L ?sid) 1) ?tgt = Inr offer"
    "carries L kb ka (Offer (hex_encode L ?sid) 1) offer"
    using build_event_carries [OF assms(3), of _ ?tgt "d 1"] by auto
  have tgt: "new_target L kb (t 1) (d 1) qr = Inr (?tgt\<lparr>state := Confirming\<rparr>, offer)"
    using x(2) sas offer(1) by (simp add: new_target_def qr_def new_source_def Let_def)
  have src: "handle_offer L (t 2) offer src0 =
      (record_event offer (src0\<lparr>peer_pubkey := Some (ev_pubkey offer), sas_code := Some c,
         sas_input := Some inp, state := Confirming\<rparr>), Inr (format_sas c))"
    using assms(1,4) x(1) sas carries_accepted [OF offer(2) assms(1), of src0] hex_decode32_encode [OF assms(1) sid]
    by (intro handle_offer_ok [where i = "hex_encode L ?sid" and ecdh = x])
      (simp_all add: src0_def new_source_def is_expired_def Let_def)
  have "ev_pubkey offer = public_key kb" using offer(2) by (auto simp: carries_def)
  then show ?thesis
    using tgt src offer(2)
    by (intro exI [of _ "?tgt\<lparr>state := Confirming\<rparr>"] exI [of _ offer] exI [of _ c] exI [of _ inp] exI)
      (auto simp: record_event_def src0_def new_source_def Let_def)
qed

lemma honest_confirmation:
  fixes s t :: session
  assumes "lib_laws L" "channel L ka kb"
    and "state s = Confirming" "role s = Source" "skeys s = ka" "peer_pubkey s = Some (public_key kb)"
    and "state t = Confirming" "role t = Target" "skeys t = kb" "peer_pubkey t = Some (public_key ka)"
    and "sas_input s = Some inp" "sas_input t = Some inp" "sas_code t = Some c"
    and "secret t = secret s" "session_id t = session_id s" "processed_ids t = []"
    and "\<not> is_expired n1 s" "\<not> is_expired n2 t"
  shows "\<exists>conf h. carries L ka kb (SasConfirm h) conf
      \<and> confirm_sas L n1 d s = (s\<lparr>state := Transferring\<rparr>, Inr conf)
      \<and> handle_sas_confirm L n2 conf t =
          (t\<lparr>state := AwaitingConfirmation, processed_ids := [ev_id conf]\<rparr>, Inr (format_sas c))"
proof -
  let ?th = "derive_transcript_hash L (session_id s) (public_key ka) (public_key kb) inp (secret s)"
  have len: "length ?th = 32" using assms(1) by (simp add: derive_transcript_hash_def Let_def hkdf32_length)
  then have "fits L (SasConfirm (hex_encode L ?th))" using assms(1) by (simp add: lib_laws_def)
  then obtain conf where conf: "build_event L d (SasConfirm (hex_encode L ?th)) s = Inr conf"
    "carries L ka kb (SasConfirm (hex_encode L ?th)) conf"
    using build_event_carries [OF assms(2) _ assms(5,6)] by blast
  have "confirm_sas L n1 d s = (s\<lparr>state := Transferring\<rparr>, Inr conf)"
    using assms conf(1) by (intro confirm_sas_ok) simp_all
  moreover have "handle_sas_confirm L n2 conf t =
      (record_event conf (t\<lparr>state := AwaitingConfirmation\<rparr>), Inr (format_sas c))"
    using assms carries_accepted [OF conf(2) assms(1,9)] hex_decode32_encode [OF assms(1) len]
    by (intro handle_sas_confirm_ok [where h = "hex_encode L ?th"]) simp_all
  ultimately show ?thesis
    using conf(2) assms(16) by (auto simp: record_event_def)
qed

lemma honest_transfer:
  fixes s t :: session
  assumes "lib_laws L" "channel L ka kb" "channel L kb ka" "fits L (Payload ty p)"
    and "state s = Transferring" "role s = Source" "skeys s = ka" "peer_pubkey s = Some (public_key kb)"
    and "state t = Transferring" "role t = Target" "skeys t = kb" "peer_pubkey t = Some (public_key ka)"
    and "processed_ids s = [ev_id offer]" "carries L kb ka (Offer i 1) offer"
    and "processed_ids t = [ev_id conf]" "carries L ka kb (SasConfirm h) conf"
    and "\<not> is_expired n1 s" "\<not> is_expired n2 t" "\<not> is_expired n3 t" "\<not> is_expired n4 s"
  shows "\<exists>pay comp s1 s2 t1 t2.
      send_payload L n1 d1 ty p s = (s1, Inr pay) \<and> handle_payload L n2 pay t = (t1, Inr (ty, p))
      \<and> send_complete L n3 d2 t1 = (t2, Inr comp) \<and> handle_complete L n4 comp s1 = (s2, Inr ())
      \<and> state s2 = Completed \<and> state t2 = Completed"
proof -
  obtain pay where pay: "build_event L d1 (Payload ty p) s = Inr pay" "carries L ka kb (Payload ty p) pay"
    using build_event_carries [OF assms(2,4,7,8)] by blast
  have new_pay: "ev_id pay \<notin> set (processed_ids t)"
    using carries_ids_differ [OF pay(2) assms(16,1)] assms(15) by simp
  let ?s1 = "s\<lparr>state := PayloadExchanged\<rparr>" and ?t1 = "record_event pay (t\<lparr>state := PayloadExchanged\<rparr>)"
  have sent: "send_payload L n1 d1 ty p s = (?s1, Inr pay)"
    using payload_exchange_ok(1) [OF assms(17,5,6) pay(1)] .
  have received: "handle_payload L n2 pay t = (?t1, Inr (ty, p))"
    using payload_exchange_ok(2) [OF assms(18,9,10)] carries_accepted [OF pay(2) assms(1,11) new_pay] assms(12)
    by blast
  have t1: "skeys ?t1 = kb" "peer_pubkey ?t1 = Some (public_key ka)" "state ?t1 = PayloadExchanged"
    "role ?t1 = Target" "\<not> is_expired n3 ?t1"
    using assms by (simp_all add: record_event_def is_expired_def)
  have "fits L (Complete True)" using assms(1) by (simp add: lib_laws_def)
  then obtain comp where comp: "build_event L d2 (Complete True) ?t1 = Inr comp"
    "carries L kb ka (Complete True) comp"
    using build_event_carries [OF assms(3) _ t1(1,2)] by blast
  have s1: "skeys ?s1 = ka" "peer_pubkey ?s1 = Some (public_key kb)" "state ?s1 = PayloadExchanged"
    "role ?s1 = Source" "\<not> is_expired n4 ?s1"
    using assms by (simp_all add: is_expired_def)
  have new_comp: "ev_id comp \<notin> set (processed_ids ?s1)"
    using carries_ids_differ [OF comp(2) assms(14,1)] assms(13) by simp
  have "send_complete L n3 d2 ?t1 = (?t1\<lparr>state := Completed\<rparr>, Inr comp)"
    using completion_ok(1) [OF t1(5,3,4) comp(1)] .
  moreover have "handle_complete L n4 comp ?s1 = (record_event comp (?s1\<lparr>state := Completed\<rparr>), Inr ())"
    using completion_ok(2) [OF s1(5,3,4)] carries_accepted [OF comp(2) assms(1) s1(1) new_comp] s1(2) by blast
  ultimately show ?thesis using sent received by (auto simp: record_event_def)
qed

section \<open>A concrete exchange\<close>

text \<open>The library of \<open>Pairing_Crypto\<close> satisfies the laws, for any two keys whose halves agree.\<close>

lemma demo_fits: "length (demo_to_json m) \<le> 65535 \<Longrightarrow> fits demo_pairing_lib m"
  by (cases m) (simp_all add: fits_def demo_pairing_lib_def demo_json_round_trip del: demo_to_json.simps,
      simp_all add: demo_pairing_lib_def)

lemma demo_lib_laws: "lib_laws demo_pairing_lib"
proof -
  have "length (show_nat 1) \<le> 1" by (rule length_show_nat) simp_all
  then have "fits demo_pairing_lib (Offer i 1)" "fits demo_pairing_lib (SasConfirm i)"
    if "length i = 64" for i
    using that by (auto intro!: demo_fits)
  moreover have "fits demo_pairing_lib (Complete True)" by (rule demo_fits) simp
  moreover have "str_bytes a = str_bytes b \<longleftrightarrow> a = b" for a b
    by (rule str_bytes_inj)
  ultimately show ?thesis
    unfolding lib_laws_def by (auto simp: demo_pairing_lib_def)
qed

definition demo_keys :: "byte \<Rightarrow> keys" where
  "demo_keys b = \<lparr>secret_key = replicate 32 b, public_key = replicate 32 b\<rparr>"

lemma demo_channel: "channel demo_pairing_lib k k'"
  by (auto simp: channel_def demo_pairing_lib_def)

lemma demo_agreement: "key_agreement demo_pairing_lib (demo_keys a) (demo_keys b)"
  by (simp add: key_agreement_def demo_pairing_lib_def demo_keys_def zip_replicate add.commute)

lemma honest_exchange:
  fixes L :: pairing_lib and ka kb :: keys and sec :: "byte list" and url :: string
    and t :: "nat \<Rightarrow> nat" and d :: "nat \<Rightarrow> draw"
  assumes "lib_laws L" and "key_agreement L ka kb" and "channel L ka kb" and "channel L kb ka"
    and "fits L (Payload ty p)"
    and "\<forall>i. t i - t 0 \<le> DEFAULT_TIMEOUT \<and> t i - t 1 \<le> DEFAULT_TIMEOUT"
  shows "\<exists>offer conf pay comp code src1 src2 src3 src4 tgt0 tgt1 tgt2 tgt3 tgt4.
      new_target L kb (t 1) (d 1) (snd (new_source L ka sec (t 0) url)) = Inr (tgt0, offer)
      \<and> handle_offer L (t 2) offer (fst (new_source L ka sec (t 0) url)) = (src1, Inr code)
      \<and> confirm_sas L (t 3) (d 2) src1 = (src2, Inr conf)
      \<and> handle_sas_confirm L (t 4) conf tgt0 = (tgt1, Inr code)
      \<and> confirm_target_sas (t 5) tgt1 = (tgt2, Inr ())
      \<and> send_payload L (t 6) (d 3) ty p src2 = (src3, Inr pay)
      \<and> handle_payload L (t 7) pay tgt2 = (tgt3, Inr (ty, p))
      \<and> send_complete L (t 8) (d 4) tgt3 = (tgt4, Inr comp)
      \<and> handle_complete L (t 9) comp src3 = (src4, Inr ())
      \<and> state src4 = Completed \<and> state tgt4 = Completed"
proof -
  define src0 where "src0 = fst (new_source L ka sec (t 0) url)"
  have time: "t i - t 0 \<le> DEFAULT_TIMEOUT" "t i - t 1 \<le> DEFAULT_TIMEOUT" for i
    using assms(6) by blast+
  obtain tgt0 offer src1 c inp where start:
    "new_target L kb (t 1) (d 1) (snd (new_source L ka sec (t 0) url)) = Inr (tgt0, offer)"
    "handle_offer L (t 2) offer src0 = (src1, Inr (format_sas c))"
    "carries L kb ka (Offer (hex_encode L (session_id src0)) 1) offer"
    "tgt0 = \<lparr>role = Target, state = Confirming, skeys = kb, secret = sec, relay_urls = [url],
       peer_pubkey = Some (public_key ka), session_id = derive_session_id L sec, sas_code = Some c,
       sas_input = Some inp, processed_ids = [], created_at = t 1, timeout = DEFAULT_TIMEOUT\<rparr>"
    "src1 = src0\<lparr>peer_pubkey := Some (public_key kb), sas_code := Some c, sas_input := Some inp,
       state := Confirming, processed_ids := [ev_id offer]\<rparr>"
    using honest_setup [where t = t and d = d and sec = sec and url = url, OF assms(1,2,4) time(1)]
    unfolding src0_def by blast
  have src1: "state src1 = Confirming" "role src1 = Source" "skeys src1 = ka" "secret src1 = sec"
    "peer_pubkey src1 = Some (public_key kb)" "sas_input src1 = Some inp"
    "session_id src1 = derive_session_id L sec" "processed_ids src1 = [ev_id offer]"
    "created_at src1 = t 0" "timeout src1 = DEFAULT_TIMEOUT"
    unfolding start(5) by (simp_all add: src0_def new_source_def Let_def)
  have fresh: "\<not> is_expired (t i) src1" "\<not> is_expired (t i) tgt0" for i
    using time [of i] src1 start(4) by (simp_all add: is_expired_def)
  obtain conf h where conf: "carries L ka kb (SasConfirm h) conf"
    "confirm_sas L (t 3) (d 2) src1 = (src1\<lparr>state := Transferring\<rparr>, Inr conf)"
    "handle_sas_confirm L (t 4) conf tgt0 =
       (tgt0\<lparr>state := AwaitingConfirmation, processed_ids := [ev_id conf]\<rparr>, Inr (format_sas c))"
    using honest_confirmation [OF assms(1,3) src1(1,2,3,5), of tgt0 inp c "t 3" "t 4" "d 2"] src1 start(4) fresh
    by auto
  let ?src2 = "src1\<lparr>state := Transferring\<rparr>"
    and ?tgt2 = "tgt0\<lparr>state := Transferring, processed_ids := [ev_id conf]\<rparr>"
  have "confirm_target_sas (t 5) (tgt0\<lparr>state := AwaitingConfirmation, processed_ids := [ev_id conf]\<rparr>)
      = (?tgt2, Inr ())"
    using fresh(2) [of 5] start(4)
    by (simp add: confirm_target_sas_def check_expired_def expect_state_def expect_role_def is_expired_def)
  moreover have late: "\<not> is_expired (t i) ?src2" "\<not> is_expired (t i) ?tgt2" for i
    using fresh [of i] by (simp_all add: is_expired_def)
  moreover have "\<exists>pay comp s1 s2 t1 t2.
      send_payload L (t 6) (d 3) ty p ?src2 = (s1, Inr pay) \<and> handle_payload L (t 7) pay ?tgt2 = (t1, Inr (ty, p))
      \<and> send_complete L (t 8) (d 4) t1 = (t2, Inr comp) \<and> handle_complete L (t 9) comp s1 = (s2, Inr ())
      \<and> state s2 = Completed \<and> state t2 = Completed"
    by (rule honest_transfer [OF assms(1,3,4,5) _ _ _ _ _ _ _ _ _ start(3) _ conf(1) late(1) late(2) late(2) late(1)])
      (use src1 start(4) in simp_all)
  ultimately show ?thesis using start(1,2) conf(2,3) unfolding src0_def by blast
qed

section \<open>Properties\<close>

text \<open>
  C15.  Two honest devices complete: whenever the primitives behave as documented and no call is more than
  120 seconds after either session was created, the exchange runs through on both sides, both devices
  show the same authentication code, the target receives exactly the payload the source sent, and both
  sessions end in the completed state.
\<close>

theorem honest_exchange_completes:
  fixes L :: pairing_lib and ka kb :: keys and sec :: "byte list" and url :: string
    and t :: "nat \<Rightarrow> nat" and d :: "nat \<Rightarrow> draw"
  assumes "lib_laws L" and "key_agreement L ka kb" and "channel L ka kb" and "channel L kb ka"
    and "fits L (Payload ty p)"
    and "\<forall>i. t i - t 0 \<le> DEFAULT_TIMEOUT \<and> t i - t 1 \<le> DEFAULT_TIMEOUT"
  shows "\<exists>offer conf pay comp code src1 src2 src3 src4 tgt0 tgt1 tgt2 tgt3 tgt4.
      new_target L kb (t 1) (d 1) (snd (new_source L ka sec (t 0) url)) = Inr (tgt0, offer)
      \<and> handle_offer L (t 2) offer (fst (new_source L ka sec (t 0) url)) = (src1, Inr code)
      \<and> confirm_sas L (t 3) (d 2) src1 = (src2, Inr conf)
      \<and> handle_sas_confirm L (t 4) conf tgt0 = (tgt1, Inr code)
      \<and> confirm_target_sas (t 5) tgt1 = (tgt2, Inr ())
      \<and> send_payload L (t 6) (d 3) ty p src2 = (src3, Inr pay)
      \<and> handle_payload L (t 7) pay tgt2 = (tgt3, Inr (ty, p))
      \<and> send_complete L (t 8) (d 4) tgt3 = (tgt4, Inr comp)
      \<and> handle_complete L (t 9) comp src3 = (src4, Inr ())
      \<and> state src4 = Completed \<and> state tgt4 = Completed"
  using assms by (rule honest_exchange)

theorem honest_exchange_completes_witness:
  "\<exists>tgt0 tgt3 offer pay. new_target demo_pairing_lib (demo_keys 2) 0 \<lparr>nonce = 0, wall_clock = 40, jitter = 0\<rparr>
        (snd (new_source demo_pairing_lib (demo_keys 1) (replicate 32 9) 0 ''wss://r'')) = Inr (tgt0, offer)
      \<and> (\<exists>tgt2. handle_payload demo_pairing_lib 0 pay tgt2 = (tgt3, Inr (Nsec, ''key'')))"
proof -
  have "fits demo_pairing_lib (Payload Nsec ''key'')" by (rule demo_fits) simp
  from honest_exchange_completes [OF demo_lib_laws demo_agreement [of 1 2] demo_channel demo_channel this,
      of "\<lambda>_. 0" "\<lambda>_. \<lparr>nonce = 0, wall_clock = 40, jitter = 0\<rparr>" "replicate 32 9" "''wss://r''"]
  show ?thesis by (fastforce simp: DEFAULT_TIMEOUT_def)
qed

text \<open>
  C16.  The order of the protocol: whatever calls are made, with whatever events, the calls that succeed
  on a session are a prefix of the prescribed sequence of its side, possibly followed by one abort.  In
  particular a payload is sent or accepted at most once, and only after both confirmations.
\<close>

theorem protocol_order:
  assumes "initial L s0" and "session_run L s0 tr s"
  shows "in_order (role s0) (accepted_calls tr)
    \<or> (\<exists>cs a. accepted_calls tr = cs @ [a] \<and> kind_of a = KAbort \<and> in_order (role s0) cs)"
  using run_order [OF assms(2,1)] at_stage_in_order by (meson at_stage_in_order)

definition demo_source :: session where
  "demo_source = fst (new_source demo_pairing_lib (demo_keys 1) (replicate 32 9) 0 ''wss://r'')"

lemma demo_source_initial: "initial demo_pairing_lib demo_source"
  unfolding initial_def demo_source_def by blast

lemma demo_source_abort:
  "session_run demo_pairing_lib demo_source
     [(5, AbortCall \<lparr>nonce = 0, wall_clock = 40, jitter = 0\<rparr> UserDenied, Inr (ReplyMaybeEvent None))]
     (demo_source\<lparr>state := Aborted\<rparr>)"
proof -
  have "exec demo_pairing_lib 5 (AbortCall \<lparr>nonce = 0, wall_clock = 40, jitter = 0\<rparr> UserDenied) demo_source
      = (demo_source\<lparr>state := Aborted\<rparr>, Inr (ReplyMaybeEvent None))"
    by (simp add: abort_def answer_def demo_source_def new_source_def Let_def)
  from run_call [OF run_start this] show ?thesis by simp
qed

theorem protocol_order_witness:
  "in_order Source (accepted_calls [(5, AbortCall \<lparr>nonce = 0, wall_clock = 40, jitter = 0\<rparr> UserDenied,
       Inr (ReplyMaybeEvent None))])
   \<or> (\<exists>cs a. [AbortCall \<lparr>nonce = 0, wall_clock = 40, jitter = 0\<rparr> UserDenied] = cs @ [a]
        \<and> kind_of a = KAbort \<and> in_order Source cs)"
proof -
  have "role demo_source = Source" by (simp add: demo_source_def new_source_def Let_def)
  with protocol_order [OF demo_source_initial demo_source_abort] show ?thesis
    by (simp add: accepted_calls_def)
qed

text \<open>
  C14.  A payload is only accepted from the authenticated source: if the target of a scanned QR code
  accepts a payload in some run, the payload event is verified and signed by the QR code's key, the user
  has confirmed the code on the target, and before that the same key sent a verified confirmation carrying the hash
  of exactly this session - its id, both public keys and the shared authentication input.
\<close>

theorem payload_authenticated:
  assumes "new_target L ks n0 d qr = Inr (s0, offer)" and "session_run L s0 tr s"
    and "(n, HandlePayload e, Inr x) \<in> set tr"
  shows "event_verify L e = Inr () \<and> ev_pubkey e = source_pubkey qr
    \<and> (\<exists>n2. (n2, ConfirmTargetSas, Inr ReplyUnit) \<in> set tr)
    \<and> (\<exists>n1 e1 code h si.
         (n1, HandleSasConfirm e1, Inr code) \<in> set tr
         \<and> event_verify L e1 = Inr () \<and> ev_pubkey e1 = source_pubkey qr
         \<and> decrypt_message L e1 si = Inr (SasConfirm h) \<and> skeys si = ks
         \<and> hex_decode32 L h = Some (derive_transcript_hash L (derive_session_id L (session_secret qr))
              (source_pubkey qr) (public_key ks) (the (sas_input s0)) (session_secret qr)))"
proof -
  have init: "initial L s0" using assms(1) by (auto simp: initial_def)
  have s0: "role s0 = Target" "peer_pubkey s0 = Some (source_pubkey qr)" "skeys s0 = ks"
    "session_id s0 = derive_session_id L (session_secret qr)" "secret s0 = session_secret qr"
    using assms(1) by (auto elim!: new_target_InrE)
  have calls: "(n', c, Inr x') \<in> set tr \<Longrightarrow> \<exists>si si'. same_identity s0 si \<and> exec L n' c si = (si', Inr x')"
    for n' c x'
    using run_accepted [OF assms(2)] run_inv [OF _ initial_inv [OF init]] by metis
  have in_tr: "c \<in> set (accepted_calls tr) \<Longrightarrow> \<exists>n' x'. (n', c, Inr x') \<in> set tr" for c
    by (auto simp: accepted_calls_def) (metis sum.collapse(2))
  have acc: "HandlePayload e \<in> set (accepted_calls tr)" using assms(3) by (force simp: accepted_calls_def)
  obtain cs where cs: "in_order (role s0) cs" "set cs \<subseteq> set (accepted_calls tr)"
    "\<forall>c\<in>set (accepted_calls tr). c \<in> set cs \<or> kind_of c = KAbort"
    by (rule protocol_order_calls [OF init assms(2)])
  have order: "in_order Target cs" "HandlePayload e \<in> set cs" "set cs \<subseteq> set (accepted_calls tr)"
    using cs acc s0(1) by auto
  obtain e1 where confirmed: "HandleSasConfirm e1 \<in> set cs" "ConfirmTargetSas \<in> set cs"
    using in_order_target_payload [OF order(1,2)] by blast
  obtain n1 code where c1: "(n1, HandleSasConfirm e1, Inr code) \<in> set tr" using in_tr confirmed(1) order(3) by blast
  obtain n2 y where "(n2, ConfirmTargetSas, Inr y) \<in> set tr" using in_tr confirmed(2) order(3) by blast
  then have c2: "(n2, ConfirmTargetSas, Inr ReplyUnit) \<in> set tr"
    using calls [of n2 ConfirmTargetSas y] by (auto simp: answer_Inr)
  have peer: "peer_pubkey si = Some (source_pubkey qr)" if "same_identity s0 si" for si
    using that s0(1,2) by (simp add: same_identity_def)
  obtain sp sp' where sp: "same_identity s0 sp" "exec L n (HandlePayload e) sp = (sp', Inr x)"
    using calls [OF assms(3)] by blast
  have "event_verify L e = Inr () \<and> ev_pubkey e = source_pubkey qr"
    by (rule accepted_payload [OF sp(2) peer [OF sp(1)]])
  moreover obtain si si' where si: "same_identity s0 si" "exec L n1 (HandleSasConfirm e1) si = (si', Inr code)"
    using calls [OF c1] by blast
  have "event_verify L e1 = Inr () \<and> ev_pubkey e1 = source_pubkey qr
      \<and> (\<exists>h. decrypt_message L e1 si = Inr (SasConfirm h)
           \<and> hex_decode32 L h = Some (derive_transcript_hash L (session_id si) (source_pubkey qr)
                (public_key (skeys si)) (the (sas_input si)) (secret si)))"
    by (rule accepted_sas_confirm [OF si(2) peer [OF si(1)]])
  moreover have "skeys si = ks" "session_id si = derive_session_id L (session_secret qr)"
    "sas_input si = sas_input s0" "secret si = session_secret qr"
    using si(1) s0 by (simp_all add: same_identity_def)
  ultimately show ?thesis using c1 c2 by metis
qed

theorem payload_authenticated_witness:
  "\<exists>s0 tr s n e x offer.
     new_target demo_pairing_lib (demo_keys 2) 0 \<lparr>nonce = 0, wall_clock = 40, jitter = 0\<rparr>
       (snd (new_source demo_pairing_lib (demo_keys 1) (replicate 32 9) 0 ''wss://r'')) = Inr (s0, offer)
     \<and> session_run demo_pairing_lib s0 tr s \<and> (n, HandlePayload e, Inr x) \<in> set tr
     \<and> ev_pubkey e = replicate 32 1"
proof -
  let ?L = demo_pairing_lib and ?d = "\<lparr>nonce = 0, wall_clock = 40, jitter = 0\<rparr>"
  let ?qr = "snd (new_source ?L (demo_keys 1) (replicate 32 9) 0 ''wss://r'')"
  have "fits ?L (Payload Nsec ''key'')" by (rule demo_fits) simp
  then obtain offer conf pay code tgt0 tgt1 tgt2 tgt3 where run:
    "new_target ?L (demo_keys 2) 0 ?d ?qr = Inr (tgt0, offer)"
    "handle_sas_confirm ?L 0 conf tgt0 = (tgt1, Inr code)"
    "confirm_target_sas 0 tgt1 = (tgt2, Inr ())"
    "handle_payload ?L 0 pay tgt2 = (tgt3, Inr (Nsec, ''key''))"
    using honest_exchange [OF demo_lib_laws demo_agreement [of 1 2] demo_channel demo_channel,
        of Nsec "''key''" "\<lambda>_. 0" "\<lambda>_. ?d" "replicate 32 9" "''wss://r''"] by auto
  have "exec ?L 0 (HandleSasConfirm conf) tgt0 = (tgt1, Inr (ReplyCode code))"
    "exec ?L 0 ConfirmTargetSas tgt1 = (tgt2, Inr ReplyUnit)"
    "exec ?L 0 (HandlePayload pay) tgt2 = (tgt3, Inr (ReplyPayload Nsec ''key''))"
    using run(2,3,4) by (simp_all add: answer_def)
  note steps = run_call [OF run_call [OF run_call [OF run_start this(1)] this(2)] this(3)]
  have mem: "(0, HandlePayload pay, Inr (ReplyPayload Nsec ''key'')) \<in> set (((([] :: trace)
      @ [(0, HandleSasConfirm conf, Inr (ReplyCode code))]) @ [(0, ConfirmTargetSas, Inr ReplyUnit)])
      @ [(0, HandlePayload pay, Inr (ReplyPayload Nsec ''key''))])"
    by simp
  have "source_pubkey ?qr = replicate 32 1" by (simp add: new_source_def demo_keys_def Let_def)
  with payload_authenticated [OF run(1) steps mem] run(1) steps mem show ?thesis by metis
qed

text \<open>
  Relay re-delivery is harmless: in every run no event is accepted twice, by whatever handler.
\<close>

theorem accepted_events_once:
  assumes "initial L s0" and "session_run L s0 tr s"
  shows "distinct (call_ids (accepted_calls tr)) \<and> set (processed_ids s) = set (call_ids (accepted_calls tr))"
  using run_ids [OF assms(2) initial_inv [OF assms(1)] initial_ids [OF assms(1)]] by blast

theorem accepted_events_once_witness:
  "processed_ids (demo_source\<lparr>state := Aborted\<rparr>) = []"
  using accepted_events_once [OF demo_source_initial demo_source_abort]
  by (simp add: accepted_calls_def call_ids_def)

text \<open>
  Finished and expired sessions are inert: after completion or abort every call fails and changes
  nothing, for the rest of the run; and after the time limit every protocol call fails with the expiry
  error and changes nothing (an abort is still possible).
\<close>

theorem finished_sessions_inert:
  assumes "initial L s0" and "session_run L s0 tr s"
  shows "(terminal (state s) \<longrightarrow> (\<exists>e. exec L now c s = (s, Inl e)))
    \<and> (is_expired now s \<and> kind_of c \<noteq> KAbort \<longrightarrow> exec L now c s = (s, Inl SessionExpired))"
proof -
  have "session_inv L s" using run_inv [OF assms(2) initial_inv [OF assms(1)]] by blast
  then have "\<not> (role s = Target \<and> sas_code s = None)" by (auto simp: session_inv_def sas_established_def)
  then show ?thesis using terminal_rejects expired_exec call_step_None by metis
qed

theorem finished_sessions_inert_witness:
  "exec demo_pairing_lib (200 * 1000000000) ConfirmTargetSas demo_source = (demo_source, Inl SessionExpired)
   \<and> (\<exists>e. exec demo_pairing_lib 6 ConfirmTargetSas (demo_source\<lparr>state := Aborted\<rparr>)
        = (demo_source\<lparr>state := Aborted\<rparr>, Inl e))"
proof -
  have "is_expired (200 * 1000000000) demo_source"
    by (simp add: is_expired_def demo_source_def new_source_def DEFAULT_TIMEOUT_def Let_def)
  moreover have "terminal (state (demo_source\<lparr>state := Aborted\<rparr>))" by (simp add: terminal_def)
  ultimately show ?thesis
    using finished_sessions_inert [OF demo_source_initial run_start, of "200 * 1000000000" ConfirmTargetSas]
      finished_sessions_inert [OF demo_source_initial demo_source_abort, of 6 ConfirmTargetSas]
    by (simp del: exec.simps)
qed

text \<open>
  Failed calls: in every run a call that returns an error leaves the session untouched, except that
  a wrong transcript hash aborts the target, a reported failure aborts the source, and an offer that
  fails in the key agreement has already recorded its sender as the peer of the waiting source.
\<close>

theorem failed_calls_frame:
  assumes "initial L s0" and "session_run L s0 tr s" and "exec L now c s = (s', Inl e)"
  shows "s' = s
     \<or> (kind_of c = KSasConfirm \<and> e = TranscriptMismatch \<and> state s = Confirming \<and> s' = s\<lparr>state := Aborted\<rparr>)
     \<or> (kind_of c = KHandleComplete \<and> state s = PayloadExchanged \<and> s' = s\<lparr>state := Aborted\<rparr>)
     \<or> (\<exists>ev. c = HandleOffer ev \<and> state s = Waiting \<and> s' = s\<lparr>peer_pubkey := Some (ev_pubkey ev)\<rparr>)"
proof -
  have "session_inv L s" using run_inv [OF assms(2) initial_inv [OF assms(1)]] by blast
  then have "\<not> (role s = Target \<and> sas_code s = None)" by (auto simp: session_inv_def sas_established_def)
  then show ?thesis using exec_failure [OF assms(3)] by (auto simp: failure_frame_def)
qed

theorem failed_calls_frame_witness:
  "\<exists>e. exec demo_pairing_lib 5 ConfirmTargetSas demo_source = (demo_source, Inl e)"
proof -
  have "\<exists>s' e. exec demo_pairing_lib 5 ConfirmTargetSas demo_source = (s', Inl e)"
    by (simp add: confirm_target_sas_def demo_source_def new_source_def Let_def check_expired_def
        is_expired_def DEFAULT_TIMEOUT_def expect_state_def answer_def)
  then show ?thesis
    using failed_calls_frame [OF demo_source_initial run_start, of 5 ConfirmTargetSas] by fastforce
qed

end
