(* ===== verification/Agent_Queue.thy ===== *)
theory Agent_Queue
  imports Event_Filter "HOL-Library.Multiset"
begin

text \<open>
  The event queue of the agent harness (\<open>buzz-acp/src/queue.rs\<close>): per-channel queues with in-flight
  tracking, retry back-off, cancelled batches and events withheld while a steer is under way.  Every
  operation of \<open>EventQueue\<close> that changes its state is a definition here.  Instants are nanoseconds on
  the monotonic clock and an argument of the operations that read it; the jittered retry delay, computed
  in floating point from the wall clock, is an argument of \<open>requeue\<close>.  Hash maps are association lists
  in iteration order.  The prompt formatting half of the file is not modelled.
\<close>

section \<open>State\<close>

definition MAX_PENDING_PER_CHANNEL :: nat where "MAX_PENDING_PER_CHANNEL = 500"
definition MAX_BATCH_EVENTS :: nat where "MAX_BATCH_EVENTS = 50"
definition MAX_RETRIES :: nat where "MAX_RETRIES = 10"
definition BASE_RETRY_DELAY_SECS :: nat where "BASE_RETRY_DELAY_SECS = 5"
definition MAX_RETRY_DELAY_SECS :: nat where "MAX_RETRY_DELAY_SECS = 300"
definition IN_FLIGHT_DEADLINE_BUFFER_SECS :: nat where "IN_FLIGHT_DEADLINE_BUFFER_SECS = 100"
definition DEFAULT_IN_FLIGHT_DEADLINE_SECS :: nat where "DEFAULT_IN_FLIGHT_DEADLINE_SECS = 7300"

definition from_secs :: "nat \<Rightarrow> nat" where
  "from_secs s = s * 1000000000"

record queued_event =
  qe_channel :: uuid
  qe_event :: event
  qe_received_at :: nat
  qe_prompt_tag :: string
  qe_is_issue :: bool

record batch_event =
  be_event :: event
  be_prompt_tag :: string
  be_received_at :: nat
  be_is_issue :: bool

datatype cancel_reason = Interrupt | Steer

datatype dedup_mode = Drop | Queue

record flush_batch =
  fb_channel :: uuid
  fb_events :: "batch_event list"
  fb_cancelled_events :: "batch_event list"
  fb_cancel_reason :: "cancel_reason option"

record event_queue =
  queues :: "(uuid, queued_event list) amap"
  in_flight_channels :: "uuid list"
  in_flight_deadlines :: "(uuid, nat) amap"
  in_flight_batch_sizes :: "(uuid, nat) amap"
  retry_after :: "(uuid, nat) amap"
  retry_counts :: "(uuid, nat) amap"
  dedup_mode :: dedup_mode
  cancelled_batches :: "(uuid, batch_event list) amap"
  cancel_reasons :: "(uuid, cancel_reason) amap"
  withheld_native_steer :: "(uuid, queued_event list) amap"
  in_flight_deadline :: nat

definition to_batch_event :: "queued_event \<Rightarrow> batch_event" where
  "to_batch_event qe = \<lparr>be_event = qe_event qe, be_prompt_tag = qe_prompt_tag qe,
     be_received_at = qe_received_at qe, be_is_issue = qe_is_issue qe\<rparr>"

definition to_queued_event :: "uuid \<Rightarrow> batch_event \<Rightarrow> queued_event" where
  "to_queued_event ch be = \<lparr>qe_channel = ch, qe_event = be_event be, qe_received_at = be_received_at be,
     qe_prompt_tag = be_prompt_tag be, qe_is_issue = be_is_issue be\<rparr>"

definition queue_new :: "dedup_mode \<Rightarrow> event_queue" where
  "queue_new mode = \<lparr>queues = [], in_flight_channels = [], in_flight_deadlines = [],
     in_flight_batch_sizes = [], retry_after = [], retry_counts = [], dedup_mode = mode,
     cancelled_batches = [], cancel_reasons = [], withheld_native_steer = [],
     in_flight_deadline = from_secs DEFAULT_IN_FLIGHT_DEADLINE_SECS\<rparr>"

definition queue_default :: event_queue where
  "queue_default = queue_new Drop"

definition with_in_flight_deadline :: "nat \<Rightarrow> event_queue \<Rightarrow> event_queue" where
  "with_in_flight_deadline max_turn_secs q =
     q\<lparr>in_flight_deadline := from_secs (max_turn_secs + IN_FLIGHT_DEADLINE_BUFFER_SECS)\<rparr>"

definition extend_in_flight_deadline :: "nat \<Rightarrow> uuid \<Rightarrow> nat \<Rightarrow> event_queue \<Rightarrow> event_queue" where
  "extend_in_flight_deadline now ch max_turn_secs q =
     (case map_of (in_flight_deadlines q) ch of
        None \<Rightarrow> q
      | Some current \<Rightarrow>
          (let extended = now + from_secs (max_turn_secs + IN_FLIGHT_DEADLINE_BUFFER_SECS)
           in if extended > current
              then q\<lparr>in_flight_deadlines := AList.update ch extended (in_flight_deadlines q)\<rparr> else q))"

section \<open>Pushing\<close>

definition push :: "queued_event \<Rightarrow> event_queue \<Rightarrow> event_queue \<times> bool" where
  "push e q =
     (if dedup_mode q = Drop \<and> qe_channel e \<in> set (in_flight_channels q) then (q, False)
      else
        (let queue = get_list (queues q) (qe_channel e);
             queue = (if length queue \<ge> MAX_PENDING_PER_CHANNEL then tl queue else queue)
         in (q\<lparr>queues := AList.update (qe_channel e) (queue @ [e]) (queues q)\<rparr>, True)))"

text \<open>\<open>for e in es.rev() { queue.push_front(e) }; while queue.len() > MAX { queue.pop_back() }\<close>.\<close>

definition push_front_capped :: "uuid \<Rightarrow> queued_event list \<Rightarrow> event_queue \<Rightarrow> event_queue" where
  "push_front_capped ch es q =
     q\<lparr>queues := AList.update ch (take MAX_PENDING_PER_CHANNEL (es @ get_list (queues q) ch)) (queues q)\<rparr>"

section \<open>Expiry and flushing\<close>

definition recover_withheld_for_expired_channel :: "uuid \<Rightarrow> event_queue \<Rightarrow> event_queue" where
  "recover_withheld_for_expired_channel ch q =
     (case map_of (withheld_native_steer q) ch of
        None \<Rightarrow> q
      | Some entries \<Rightarrow>
          push_front_capped ch entries
            (q\<lparr>withheld_native_steer := AList.delete ch (withheld_native_steer q)\<rparr>))"

definition expire_channel :: "event_queue \<Rightarrow> uuid \<Rightarrow> event_queue" where
  "expire_channel q ch =
     recover_withheld_for_expired_channel ch
       (q\<lparr>in_flight_batch_sizes := AList.delete ch (in_flight_batch_sizes q),
          in_flight_channels := removeAll ch (in_flight_channels q),
          in_flight_deadlines := AList.delete ch (in_flight_deadlines q)\<rparr>)"

definition expire_in_flight :: "nat \<Rightarrow> event_queue \<Rightarrow> event_queue" where
  "expire_in_flight now q =
     (let expired = map fst (filter (\<lambda>(_, deadline). now \<ge> deadline) (in_flight_deadlines q))
      in foldl expire_channel q expired)"

definition flushable :: "nat \<Rightarrow> event_queue \<Rightarrow> uuid \<times> queued_event list \<Rightarrow> bool" where
  "flushable now q entry \<longleftrightarrow>
     (case entry of (ch, events) \<Rightarrow>
        events \<noteq> [] \<and> ch \<notin> set (in_flight_channels q)
        \<and> (case map_of (retry_after q) ch of None \<Rightarrow> True | Some t \<Rightarrow> t \<le> now))"

text \<open>\<open>Iterator::min_by_key\<close>: the first of the minimal elements.\<close>

fun min_by_key :: "('a \<Rightarrow> nat) \<Rightarrow> 'a list \<Rightarrow> 'a option" where
  "min_by_key f [] = None"
| "min_by_key f (x # xs) =
     (case min_by_key f xs of None \<Rightarrow> Some x | Some y \<Rightarrow> if f y < f x then Some y else Some x)"

definition mark_in_flight :: "nat \<Rightarrow> uuid \<Rightarrow> nat \<Rightarrow> event_queue \<Rightarrow> event_queue" where
  "mark_in_flight now ch n q =
     q\<lparr>in_flight_channels := List.insert ch (in_flight_channels q),
       in_flight_deadlines := AList.update ch (now + in_flight_deadline q) (in_flight_deadlines q),
       in_flight_batch_sizes := AList.update ch n (in_flight_batch_sizes q)\<rparr>"

definition flush_cancelled :: "nat \<Rightarrow> event_queue \<Rightarrow> event_queue \<times> flush_batch option" where
  "flush_cancelled now q =
     (case find (\<lambda>ch. ch \<notin> set (in_flight_channels q)) (map fst (cancelled_batches q)) of
        None \<Rightarrow> (q, None)
      | Some ch \<Rightarrow>
          (let cancelled = get_list (cancelled_batches q) ch;
               reason = map_of (cancel_reasons q) ch;
               q1 = q\<lparr>cancelled_batches := AList.delete ch (cancelled_batches q),
                      cancel_reasons := AList.delete ch (cancel_reasons q)\<rparr>
           in (mark_in_flight now ch (length cancelled) q1,
               Some \<lparr>fb_channel = ch, fb_events = cancelled, fb_cancelled_events = [],
                     fb_cancel_reason = reason\<rparr>)))"

definition flush_channel :: "nat \<Rightarrow> uuid \<Rightarrow> event_queue \<Rightarrow> event_queue \<times> flush_batch option" where
  "flush_channel now ch q =
     (let queue = get_list (queues q) ch;
          drain_count = min MAX_BATCH_EVENTS (length queue);
          events = sort_key (ev_created_at \<circ> be_event) (map to_batch_event (take drain_count queue));
          rest = drop drain_count queue;
          q1 = q\<lparr>queues := (if rest = [] then AList.delete ch (queues q)
                            else AList.update ch rest (queues q))\<rparr>;
          q2 = mark_in_flight now ch (length events) q1;
          cancelled = get_list (cancelled_batches q2) ch;
          reason = (if cancelled = [] then None else map_of (cancel_reasons q2) ch);
          q3 = q2\<lparr>cancelled_batches := AList.delete ch (cancelled_batches q2),
                  cancel_reasons := AList.delete ch (cancel_reasons q2)\<rparr>
      in (q3, Some \<lparr>fb_channel = ch, fb_events = events, fb_cancelled_events = cancelled,
                    fb_cancel_reason = reason\<rparr>))"

definition flush_next :: "nat \<Rightarrow> event_queue \<Rightarrow> event_queue \<times> flush_batch option" where
  "flush_next now q0 =
     (let q = expire_in_flight now q0
      in case min_by_key (\<lambda>(_, events). qe_received_at (hd events)) (filter (flushable now q) (queues q)) of
           Some (ch, _) \<Rightarrow> flush_channel now ch q
         | None \<Rightarrow> flush_cancelled now q)"

section \<open>Completion and retries\<close>

definition mark_complete :: "nat \<Rightarrow> uuid \<Rightarrow> event_queue \<Rightarrow> event_queue" where
  "mark_complete now ch q =
     (let q1 = q\<lparr>in_flight_channels := removeAll ch (in_flight_channels q),
                 in_flight_deadlines := AList.delete ch (in_flight_deadlines q),
                 in_flight_batch_sizes := AList.delete ch (in_flight_batch_sizes q)\<rparr>
      in case map_of (retry_after q1) ch of
           Some deadline \<Rightarrow>
             if deadline > now then q1
             else q1\<lparr>retry_after := AList.delete ch (retry_after q1),
                     retry_counts := AList.delete ch (retry_counts q1)\<rparr>
         | None \<Rightarrow> q1\<lparr>retry_counts := AList.delete ch (retry_counts q1)\<rparr>)"

definition capped_delay_secs :: "nat \<Rightarrow> nat" where
  "capped_delay_secs attempt =
     min (BASE_RETRY_DELAY_SECS * 2 ^ min (attempt - 1) 6) MAX_RETRY_DELAY_SECS"

definition requeue ::
  "nat \<Rightarrow> (nat \<Rightarrow> nat) \<Rightarrow> flush_batch \<Rightarrow> event_queue \<Rightarrow> event_queue \<times> flush_batch option" where
  "requeue now jitter batch q =
     (let ch = fb_channel batch;
          attempt = (case map_of (retry_counts q) ch of None \<Rightarrow> 0 | Some n \<Rightarrow> n) + 1;
          q1 = q\<lparr>retry_counts := AList.update ch attempt (retry_counts q)\<rparr>
      in if attempt > MAX_RETRIES then
           (q1\<lparr>retry_counts := AList.delete ch (retry_counts q1),
               retry_after := AList.delete ch (retry_after q1)\<rparr>, Some batch)
         else
           (let delay = jitter (capped_delay_secs attempt);
                q2 = push_front_capped ch (map (to_queued_event ch) (fb_events batch)) q1
            in (q2\<lparr>retry_after := AList.update ch (now + delay) (retry_after q2)\<rparr>, None)))"

definition requeue_preserve_timestamps :: "flush_batch \<Rightarrow> event_queue \<Rightarrow> event_queue" where
  "requeue_preserve_timestamps batch q =
     push_front_capped (fb_channel batch) (map (to_queued_event (fb_channel batch)) (fb_events batch)) q"

definition requeue_as_cancelled :: "flush_batch \<Rightarrow> cancel_reason \<Rightarrow> event_queue \<Rightarrow> event_queue" where
  "requeue_as_cancelled batch reason q =
     (let ch = fb_channel batch
      in q\<lparr>cancelled_batches := AList.update ch
              (get_list (cancelled_batches q) ch @ fb_cancelled_events batch @ fb_events batch)
              (cancelled_batches q),
           cancel_reasons := AList.update ch reason (cancel_reasons q)\<rparr>)"

section \<open>Queries\<close>

definition has_flushable_work :: "nat \<Rightarrow> event_queue \<Rightarrow> event_queue \<times> bool" where
  "has_flushable_work now q0 =
     (let q = expire_in_flight now q0
      in (q, list_ex (flushable now q) (queues q)
             \<or> list_ex (\<lambda>(ch, _). ch \<notin> set (in_flight_channels q)) (cancelled_batches q)))"

definition has_undispatched_work :: "event_queue \<Rightarrow> bool" where
  "has_undispatched_work q \<longleftrightarrow>
     list_ex (\<lambda>(ch, es). es \<noteq> [] \<and> ch \<notin> set (in_flight_channels q)) (queues q)
     \<or> list_ex (\<lambda>(ch, _). ch \<notin> set (in_flight_channels q)) (cancelled_batches q)
     \<or> list_ex (\<lambda>(ch, es). es \<noteq> [] \<and> ch \<notin> set (in_flight_channels q)) (withheld_native_steer q)"

definition pending_channels :: "event_queue \<Rightarrow> nat" where
  "pending_channels q = length (queues q)"

definition is_channel_in_flight :: "uuid \<Rightarrow> event_queue \<Rightarrow> bool" where
  "is_channel_in_flight ch q \<longleftrightarrow> ch \<in> set (in_flight_channels q)"

definition has_in_flight :: "event_queue \<Rightarrow> bool" where
  "has_in_flight q \<longleftrightarrow> in_flight_channels q \<noteq> []"

section \<open>Dropping and withholding events\<close>

definition drain_channel :: "nostr_lib \<Rightarrow> uuid \<Rightarrow> event_queue \<Rightarrow> event_queue \<times> string list" where
  "drain_channel L ch q =
     (q\<lparr>queues := AList.delete ch (queues q), retry_after := AList.delete ch (retry_after q),
        retry_counts := AList.delete ch (retry_counts q),
        cancelled_batches := AList.delete ch (cancelled_batches q),
        cancel_reasons := AList.delete ch (cancel_reasons q),
        withheld_native_steer := AList.delete ch (withheld_native_steer q)\<rparr>,
      map (\<lambda>e. id_to_hex L (ev_id (qe_event e))) (get_list (queues q) ch))"

definition has_id :: "nostr_lib \<Rightarrow> string \<Rightarrow> queued_event \<Rightarrow> bool" where
  "has_id L event_id qe \<longleftrightarrow> id_to_hex L (ev_id (qe_event qe)) = event_id"

text \<open>\<open>position\<close> followed by \<open>remove\<close>: the first match and the list without it.\<close>

fun take_first :: "('a \<Rightarrow> bool) \<Rightarrow> 'a list \<Rightarrow> ('a \<times> 'a list) option" where
  "take_first p [] = None"
| "take_first p (x # xs) = (if p x then Some (x, xs) else map_option (\<lambda>(y, ys). (y, x # ys)) (take_first p xs))"

definition put_or_remove :: "'k \<Rightarrow> 'v list \<Rightarrow> ('k, 'v list) amap \<Rightarrow> ('k, 'v list) amap" where
  "put_or_remove k xs m = (if xs = [] then AList.delete k m else AList.update k xs m)"

definition mark_native_steer_pending ::
  "nostr_lib \<Rightarrow> uuid \<Rightarrow> string \<Rightarrow> event_queue \<Rightarrow> event_queue \<times> bool" where
  "mark_native_steer_pending L ch event_id q =
     (case map_of (queues q) ch of
        None \<Rightarrow> (q, False)
      | Some es \<Rightarrow>
          (case take_first (has_id L event_id) es of
             None \<Rightarrow> (q, False)
           | Some (qe, rest) \<Rightarrow>
               (q\<lparr>queues := put_or_remove ch rest (queues q),
                  withheld_native_steer := push_entry ch qe (withheld_native_steer q)\<rparr>, True)))"

definition release_native_steer :: "nostr_lib \<Rightarrow> uuid \<Rightarrow> string \<Rightarrow> event_queue \<Rightarrow> event_queue" where
  "release_native_steer L ch event_id q =
     (case map_of (withheld_native_steer q) ch of
        None \<Rightarrow> q
      | Some entries \<Rightarrow>
          (case take_first (has_id L event_id) entries of
             None \<Rightarrow> q
           | Some (qe, rest) \<Rightarrow>
               push_front_capped ch [qe]
                 (q\<lparr>withheld_native_steer := put_or_remove ch rest (withheld_native_steer q)\<rparr>)))"

definition remove_event :: "nostr_lib \<Rightarrow> uuid \<Rightarrow> string \<Rightarrow> event_queue \<Rightarrow> event_queue" where
  "remove_event L ch event_id q =
     q\<lparr>withheld_native_steer := retain_entry ch (\<lambda>qe. \<not> has_id L event_id qe) (withheld_native_steer q),
       queues := retain_entry ch (\<lambda>qe. \<not> has_id L event_id qe) (queues q)\<rparr>"

definition compact_expired_state :: "nat \<Rightarrow> event_queue \<Rightarrow> event_queue" where
  "compact_expired_state now q =
     (let q1 = q\<lparr>retry_after := filter (\<lambda>(_, deadline). deadline > now) (retry_after q)\<rparr>
      in q1\<lparr>retry_counts := filter (\<lambda>(ch, _).
               map_of (retry_after q1) ch \<noteq> None
               \<or> (case map_of (queues q1) ch of None \<Rightarrow> False | Some es \<Rightarrow> es \<noteq> [])
               \<or> ch \<in> set (in_flight_channels q1)) (retry_counts q1)\<rparr>)"

section \<open>Thread tags\<close>

record thread_tags =
  root_event_id :: "string option"
  parent_event_id :: "string option"
  mentioned_pubkeys :: "string list"

definition parse_thread_tags :: "event \<Rightarrow> thread_tags" where
  "parse_thread_tags e =
     (let (r, p) = (case resolve (parse_thread_markers e) of
                      Some (rt, parent) \<Rightarrow> (Some rt, Some parent)
                    | None \<Rightarrow> (None, None))
      in \<lparr>root_event_id = r, parent_event_id = p,
          mentioned_pubkeys = map (\<lambda>t. t ! 1) (filter (\<lambda>t. length t \<ge> 2 \<and> t ! 0 = ''p'') (ev_tags e))\<rparr>)"

section \<open>Invariant\<close>

definition deadline_of :: "event_queue \<Rightarrow> uuid \<Rightarrow> nat option" where
  "deadline_of q ch = map_of (in_flight_deadlines q) ch"

definition queue_of :: "event_queue \<Rightarrow> uuid \<Rightarrow> queued_event list" where
  "queue_of q ch = get_list (queues q) ch"

definition withheld_of :: "event_queue \<Rightarrow> uuid \<Rightarrow> queued_event list" where
  "withheld_of q ch = get_list (withheld_native_steer q) ch"

definition filed :: "uuid \<Rightarrow> queued_event list \<Rightarrow> bool" where
  "filed ch es \<longleftrightarrow> (\<forall>e\<in>set es. qe_channel e = ch)"

definition keys_distinct :: "event_queue \<Rightarrow> bool" where
  "keys_distinct q \<longleftrightarrow>
     distinct (map fst (queues q)) \<and> distinct (map fst (in_flight_deadlines q))
     \<and> distinct (map fst (cancelled_batches q)) \<and> distinct (map fst (withheld_native_steer q))
     \<and> distinct (map fst (retry_counts q))"

definition files_ok :: "event_queue \<Rightarrow> bool" where
  "files_ok q \<longleftrightarrow>
     (\<forall>ch. length (queue_of q ch) \<le> MAX_PENDING_PER_CHANNEL \<and> filed ch (queue_of q ch) \<and> filed ch (withheld_of q ch))"

definition flight_ok :: "event_queue \<Rightarrow> bool" where
  "flight_ok q \<longleftrightarrow>
     dom (map_of (in_flight_deadlines q)) = set (in_flight_channels q)
     \<and> dom (map_of (in_flight_batch_sizes q)) = set (in_flight_channels q)"

definition counts_ok :: "event_queue \<Rightarrow> bool" where
  "counts_ok q \<longleftrightarrow> ran (map_of (retry_counts q)) \<subseteq> {.. MAX_RETRIES}"

definition reasons_ok :: "event_queue \<Rightarrow> bool" where
  "reasons_ok q \<longleftrightarrow> dom (map_of (cancel_reasons q)) = dom (map_of (cancelled_batches q))"

definition queue_inv :: "event_queue \<Rightarrow> bool" where
  "queue_inv q \<longleftrightarrow> keys_distinct q \<and> files_ok q \<and> flight_ok q \<and> counts_ok q \<and> reasons_ok q"

lemmas inv_defs = queue_inv_def keys_distinct_def files_ok_def flight_ok_def counts_ok_def reasons_ok_def
  queue_of_def withheld_of_def

lemma get_list_put_or_remove [simp]:
  "get_list (put_or_remove k v m) k' = (if k' = k then v else get_list m k')"
  by (simp add: put_or_remove_def)

lemma distinct_put_or_remove: "distinct (map fst m) \<Longrightarrow> distinct (map fst (put_or_remove k v m))"
  by (simp add: put_or_remove_def distinct_update distinct_delete)

lemma distinct_retain_entry: "distinct (map fst m) \<Longrightarrow> distinct (map fst (retain_entry k p m))"
  by (auto simp: retain_entry_def Let_def distinct_update distinct_delete split: option.splits)

lemma distinct_push_entry: "distinct (map fst m) \<Longrightarrow> distinct (map fst (push_entry k x m))"
  by (simp add: push_entry_def distinct_update)

lemmas key_intros = distinct_update distinct_delete distinct_put_or_remove distinct_retain_entry distinct_push_entry

lemma filed_simps [simp]:
  "filed ch []" "filed ch (x # xs) \<longleftrightarrow> qe_channel x = ch \<and> filed ch xs"
  "filed ch (xs @ ys) \<longleftrightarrow> filed ch xs \<and> filed ch ys"
  by (auto simp: filed_def)

lemma filed_sub: "filed ch es \<Longrightarrow> set es' \<subseteq> set es \<Longrightarrow> filed ch es'"
  by (auto simp: filed_def)

lemma filed_take_drop:
  assumes "filed ch es"
  shows "filed ch (take n es)" "filed ch (drop n es)" "filed ch (filter p es)" "filed ch (tl es)"
proof -
  have "set (tl es) \<subseteq> set es" by (cases es) auto
  then show "filed ch (take n es)" "filed ch (drop n es)" "filed ch (filter p es)" "filed ch (tl es)"
    using assms filed_sub [OF assms] set_take_subset [of n es] set_drop_subset [of n es] by auto
qed

lemma take_first_SomeD:
  "take_first p xs = Some (y, ys) \<Longrightarrow> \<exists>a b. xs = a @ y # b \<and> ys = a @ b \<and> p y"
  by (induction xs arbitrary: ys) (auto split: if_splits, metis append_Cons)

lemma push_front_capped_simps [simp]:
  "queue_of (push_front_capped ch es q) ch' =
     (if ch' = ch then take MAX_PENDING_PER_CHANNEL (es @ queue_of q ch) else queue_of q ch')"
  "withheld_of (push_front_capped ch es q) = withheld_of q"
  "in_flight_channels (push_front_capped ch es q) = in_flight_channels q"
  "deadline_of (push_front_capped ch es q) = deadline_of q"
  "in_flight_deadlines (push_front_capped ch es q) = in_flight_deadlines q"
  "in_flight_batch_sizes (push_front_capped ch es q) = in_flight_batch_sizes q"
  "retry_counts (push_front_capped ch es q) = retry_counts q"
  "retry_after (push_front_capped ch es q) = retry_after q"
  "cancelled_batches (push_front_capped ch es q) = cancelled_batches q"
  "cancel_reasons (push_front_capped ch es q) = cancel_reasons q"
  "in_flight_deadline (push_front_capped ch es q) = in_flight_deadline q"
  "keys_distinct q \<Longrightarrow> keys_distinct (push_front_capped ch es q)"
  by (auto simp: push_front_capped_def queue_of_def withheld_of_def deadline_of_def keys_distinct_def
      distinct_update fun_eq_iff)

lemma push_front_capped_inv:
  "queue_inv q \<Longrightarrow> filed ch es \<Longrightarrow> queue_inv (push_front_capped ch es q)"
  unfolding queue_inv_def
  by (auto simp: files_ok_def flight_ok_def counts_ok_def reasons_ok_def filed_take_drop)

lemma queue_inv_new: "queue_inv (queue_new mode)"
  by (simp add: queue_new_def inv_defs)

lemma set_queue_inv:
  "queue_inv q \<Longrightarrow> length es \<le> MAX_PENDING_PER_CHANNEL \<Longrightarrow> filed ch es \<Longrightarrow>
     queue_inv (q\<lparr>queues := AList.update ch es (queues q)\<rparr>)"
  by (simp add: inv_defs distinct_update)

lemma push_inv:
  assumes "queue_inv q"
  shows "queue_inv (fst (push e q))"
proof -
  let ?old = "get_list (queues q) (qe_channel e)"
  let ?room = "if length ?old \<ge> MAX_PENDING_PER_CHANNEL then tl ?old else ?old"
  have old: "length ?old \<le> 500" "filed (qe_channel e) ?old"
    using assms by (simp_all add: inv_defs MAX_PENDING_PER_CHANNEL_def)
  then have "length (?room @ [e]) \<le> MAX_PENDING_PER_CHANNEL" "filed (qe_channel e) (?room @ [e])"
    by (auto simp: filed_take_drop MAX_PENDING_PER_CHANNEL_def)
  then have "queue_inv (q\<lparr>queues := AList.update (qe_channel e) (?room @ [e]) (queues q)\<rparr>)"
    using set_queue_inv [OF assms] by blast
  then show ?thesis using assms by (simp add: push_def Let_def)
qed

lemma recover_withheld_inv:
  assumes "queue_inv q"
  shows "queue_inv (recover_withheld_for_expired_channel ch q)"
proof (cases "map_of (withheld_native_steer q) ch")
  case (Some es)
  then have "filed ch es" using assms by (auto simp: inv_defs get_list_def split: option.splits)
  moreover have "queue_inv (q\<lparr>withheld_native_steer := AList.delete ch (withheld_native_steer q)\<rparr>)"
    using assms by (simp add: inv_defs distinct_delete)
  ultimately show ?thesis
    using Some push_front_capped_inv by (simp add: recover_withheld_for_expired_channel_def)
qed (use assms in \<open>simp add: recover_withheld_for_expired_channel_def\<close>)

lemma unflight_inv:
  "queue_inv q \<Longrightarrow>
   queue_inv (q\<lparr>in_flight_batch_sizes := AList.delete ch (in_flight_batch_sizes q),
     in_flight_channels := removeAll ch (in_flight_channels q),
     in_flight_deadlines := AList.delete ch (in_flight_deadlines q)\<rparr>)"
  by (simp add: inv_defs distinct_delete)

lemma expire_in_flight_inv: "queue_inv q \<Longrightarrow> queue_inv (expire_in_flight now q)"
proof -
  have "queue_inv q \<Longrightarrow> queue_inv (foldl expire_channel q chs)" for chs
    by (induction chs arbitrary: q) (simp_all add: expire_channel_def recover_withheld_inv unflight_inv)
  then show "queue_inv q \<Longrightarrow> queue_inv (expire_in_flight now q)"
    by (simp add: expire_in_flight_def Let_def)
qed

lemma mark_in_flight_inv: "queue_inv q \<Longrightarrow> queue_inv (mark_in_flight now ch n q)"
  by (auto simp: mark_in_flight_def inv_defs distinct_update)

lemma drop_cancelled_inv:
  "queue_inv q \<Longrightarrow>
     queue_inv (q\<lparr>cancelled_batches := AList.delete ch (cancelled_batches q),
                 cancel_reasons := AList.delete ch (cancel_reasons q)\<rparr>)"
  by (simp add: inv_defs distinct_delete)

lemma flush_cancelled_inv: "queue_inv q \<Longrightarrow> queue_inv (fst (flush_cancelled now q))"
  by (simp add: flush_cancelled_def Let_def mark_in_flight_inv drop_cancelled_inv split: option.split)

lemma flush_channel_inv:
  assumes "queue_inv q"
  shows "queue_inv (fst (flush_channel now ch q))"
proof -
  let ?rest = "drop (min MAX_BATCH_EVENTS (length (get_list (queues q) ch))) (get_list (queues q) ch)"
  let ?q1 = "q\<lparr>queues := (if ?rest = [] then AList.delete ch (queues q) else AList.update ch ?rest (queues q))\<rparr>"
  have "length ?rest \<le> MAX_PENDING_PER_CHANNEL" "filed ch ?rest"
    using assms by (auto simp: inv_defs filed_take_drop intro: le_trans [OF diff_le_self])
  then have "queue_inv ?q1"
    using set_queue_inv [OF assms] assms by (cases "?rest = []") (simp_all add: inv_defs distinct_delete)
  then show ?thesis
    by (simp add: flush_channel_def Let_def drop_cancelled_inv mark_in_flight_inv)
qed

lemma flush_next_inv: "queue_inv q \<Longrightarrow> queue_inv (fst (flush_next now q))"
  by (auto simp: flush_next_def Let_def expire_in_flight_inv flush_channel_inv flush_cancelled_inv
      split: option.splits)

lemma ran_upd_le: "ran m \<subseteq> S \<Longrightarrow> n \<in> S \<Longrightarrow> ran (m(k \<mapsto> n)) \<subseteq> S"
  by (auto simp: ran_def)

lemma ran_del_le: "ran m \<subseteq> S \<Longrightarrow> ran (m(k := None)) \<subseteq> S"
  by (auto simp: ran_def)

lemma counts_update_inv:
  "queue_inv q \<Longrightarrow> n \<le> MAX_RETRIES \<Longrightarrow> queue_inv (q\<lparr>retry_counts := AList.update ch n (retry_counts q)\<rparr>)"
  by (simp add: inv_defs distinct_update ran_upd_le update_conv')

lemma counts_delete_inv: "queue_inv q \<Longrightarrow> queue_inv (q\<lparr>retry_counts := AList.delete ch (retry_counts q)\<rparr>)"
  by (simp add: inv_defs distinct_delete ran_del_le delete_conv')

lemma retry_after_inv: "queue_inv q \<Longrightarrow> queue_inv (q\<lparr>retry_after := m\<rparr>)"
  by (simp add: inv_defs)

lemma mark_complete_inv:
  assumes "queue_inv q"
  shows "queue_inv (mark_complete now ch q)"
proof -
  let ?q1 = "q\<lparr>in_flight_channels := removeAll ch (in_flight_channels q),
    in_flight_deadlines := AList.delete ch (in_flight_deadlines q),
    in_flight_batch_sizes := AList.delete ch (in_flight_batch_sizes q)\<rparr>"
  have q1: "queue_inv ?q1" using assms by (simp add: inv_defs distinct_delete)
  have "queue_inv (?q1\<lparr>retry_counts := AList.delete ch (retry_counts ?q1)\<rparr>)"
    by (rule counts_delete_inv [OF q1])
  moreover have "queue_inv (?q1\<lparr>retry_after := m, retry_counts := AList.delete ch (retry_counts ?q1)\<rparr>)" for m
    using counts_delete_inv [OF retry_after_inv [OF q1, of m], of ch] by simp
  ultimately show ?thesis using q1 by (simp add: mark_complete_def Let_def split: option.split)
qed

lemma filed_to_queued: "filed ch (map (to_queued_event ch) bes)"
  by (simp add: filed_def to_queued_event_def)

lemma requeue_inv:
  assumes "queue_inv q"
  shows "queue_inv (fst (requeue now jitter batch q))"
proof -
  let ?ch = "fb_channel batch"
  let ?n = "(case map_of (retry_counts q) ?ch of None \<Rightarrow> 0 | Some n \<Rightarrow> n) + 1"
  show ?thesis
  proof (cases "?n > MAX_RETRIES")
    case True
    have "queue_inv (q\<lparr>retry_counts := AList.delete ?ch (AList.update ?ch ?n (retry_counts q)),
        retry_after := AList.delete ?ch (retry_after q)\<rparr>)"
      using retry_after_inv [OF counts_delete_inv [OF assms, of ?ch]] by (simp add: delete_update_same)
    with True show ?thesis by (simp add: requeue_def Let_def)
  next
    case False
    then have "queue_inv (q\<lparr>retry_counts := AList.update ?ch ?n (retry_counts q)\<rparr>)"
      using counts_update_inv [OF assms] by simp
    from retry_after_inv [OF push_front_capped_inv [OF this filed_to_queued]] False
    show ?thesis by (simp add: requeue_def Let_def)
  qed
qed

lemma requeue_preserve_inv: "queue_inv q \<Longrightarrow> queue_inv (requeue_preserve_timestamps batch q)"
  by (simp add: requeue_preserve_timestamps_def push_front_capped_inv filed_to_queued)

lemma requeue_as_cancelled_inv: "queue_inv q \<Longrightarrow> queue_inv (requeue_as_cancelled batch reason q)"
  by (simp add: requeue_as_cancelled_def Let_def inv_defs distinct_update)

lemma with_in_flight_deadline_inv: "queue_inv q \<Longrightarrow> queue_inv (with_in_flight_deadline secs q)"
  by (simp add: with_in_flight_deadline_def inv_defs)

lemma extend_in_flight_deadline_inv:
  assumes "queue_inv q"
  shows "queue_inv (extend_in_flight_deadline now ch secs q)"
proof (cases "map_of (in_flight_deadlines q) ch")
  case (Some current)
  have "dom (map_of (in_flight_deadlines q)) = set (in_flight_channels q)"
    using assms by (simp add: queue_inv_def flight_ok_def)
  with Some have "ch \<in> set (in_flight_channels q)" by blast
  then have "queue_inv (q\<lparr>in_flight_deadlines := AList.update ch d (in_flight_deadlines q)\<rparr>)" for d
    using assms by (simp add: inv_defs distinct_update update_conv' insert_absorb)
  then show ?thesis using assms Some by (simp add: extend_in_flight_deadline_def Let_def)
qed (use assms in \<open>simp add: extend_in_flight_deadline_def\<close>)

lemma drain_channel_inv: "queue_inv q \<Longrightarrow> queue_inv (fst (drain_channel L ch q))"
  using counts_delete_inv [of q ch] by (simp add: drain_channel_def inv_defs distinct_delete)

lemma take_first_facts:
  assumes "take_first p xs = Some (y, ys)"
  shows "length ys < length xs" "set xs = insert y (set ys)" "mset xs = add_mset y (mset ys)"
  using take_first_SomeD [OF assms] by auto

lemma steer_pending_inv:
  assumes "queue_inv q"
  shows "queue_inv (fst (mark_native_steer_pending L ch i q))"
proof (cases "map_of (queues q) ch")
  case (Some es)
  show ?thesis
  proof (cases "take_first (has_id L i) es")
    case (Some r)
    obtain qe rest where r: "r = (qe, rest)" by (cases r)
    note tf = take_first_facts [OF Some [unfolded r]]
    have es: "get_list (queues q) ch = es" using \<open>map_of (queues q) ch = Some es\<close> by (simp add: get_list_def)
    then have "length es \<le> MAX_PENDING_PER_CHANNEL" "filed ch es"
      using assms by (auto simp: inv_defs)
    then have "length rest \<le> MAX_PENDING_PER_CHANNEL" "filed ch rest" "qe_channel qe = ch"
      using tf by (auto simp: filed_def)
    then have "queue_inv (q\<lparr>queues := put_or_remove ch rest (queues q),
        withheld_native_steer := push_entry ch qe (withheld_native_steer q)\<rparr>)"
      using assms by (simp add: inv_defs key_intros get_list_push)
    then show ?thesis using \<open>map_of (queues q) ch = Some es\<close> Some r
      by (simp add: mark_native_steer_pending_def)
  qed (use assms Some in \<open>simp add: mark_native_steer_pending_def\<close>)
qed (use assms in \<open>simp add: mark_native_steer_pending_def\<close>)

lemma release_steer_inv:
  assumes "queue_inv q"
  shows "queue_inv (release_native_steer L ch i q)"
proof (cases "map_of (withheld_native_steer q) ch")
  case (Some es)
  show ?thesis
  proof (cases "take_first (has_id L i) es")
    case (Some r)
    obtain qe rest where r: "r = (qe, rest)" by (cases r)
    note tf = take_first_facts [OF Some [unfolded r]]
    have "get_list (withheld_native_steer q) ch = es"
      using \<open>map_of (withheld_native_steer q) ch = Some es\<close> by (simp add: get_list_def)
    then have "filed ch rest" "filed ch [qe]" using assms tf(2) by (auto simp: inv_defs filed_def)
    moreover from this have "queue_inv (q\<lparr>withheld_native_steer := put_or_remove ch rest (withheld_native_steer q)\<rparr>)"
      using assms by (simp add: inv_defs key_intros)
    ultimately show ?thesis using push_front_capped_inv \<open>map_of (withheld_native_steer q) ch = Some es\<close> Some r
      by (simp add: release_native_steer_def)
  qed (use assms Some in \<open>simp add: release_native_steer_def\<close>)
qed (use assms in \<open>simp add: release_native_steer_def\<close>)

lemma remove_event_inv: "queue_inv q \<Longrightarrow> queue_inv (remove_event L ch i q)"
  by (auto simp: remove_event_def inv_defs key_intros get_list_retain filed_take_drop
      intro: le_trans [OF length_filter_le])

lemma map_of_filter_distinct:
  assumes "distinct (map fst m)" "map_of (filter P m) k = Some v"
  shows "map_of m k = Some v"
  using assms(1) map_of_SomeD [OF assms(2)] by (simp add: map_of_is_SomeI)

lemma compact_expired_state_inv:
  assumes "queue_inv q"
  shows "queue_inv (compact_expired_state now q)"
proof -
  have d: "distinct (map fst (retry_counts q))" using assms by (simp add: queue_inv_def keys_distinct_def)
  have "ran (map_of (filter P (retry_counts q))) \<subseteq> {.. MAX_RETRIES}" for P
    using assms map_of_filter_distinct [OF d, of P] unfolding queue_inv_def counts_ok_def ran_def by blast
  then show ?thesis
    using assms by (simp add: compact_expired_state_def Let_def inv_defs distinct_map_filter)
qed

section \<open>Runs\<close>

text \<open>One constructor per method that changes the queue; \<open>OpFlush\<close> outputs the dispatched batch.\<close>

datatype queue_op =
    OpPush queued_event
  | OpFlush nat
  | OpComplete nat uuid
  | OpRequeue nat "nat \<Rightarrow> nat" flush_batch
  | OpRequeuePreserve flush_batch
  | OpRequeueCancelled flush_batch cancel_reason
  | OpHasFlushableWork nat
  | OpDrain uuid
  | OpSteerPending uuid string
  | OpSteerRelease uuid string
  | OpRemoveEvent uuid string
  | OpCompact nat
  | OpExtendDeadline nat uuid nat
  | OpWithDeadline nat

fun queue_exec :: "nostr_lib \<Rightarrow> queue_op \<Rightarrow> event_queue \<Rightarrow> event_queue \<times> flush_batch option" where
  "queue_exec L (OpPush e) q = (fst (push e q), None)"
| "queue_exec L (OpFlush now) q = flush_next now q"
| "queue_exec L (OpComplete now ch) q = (mark_complete now ch q, None)"
| "queue_exec L (OpRequeue now jitter b) q = (fst (requeue now jitter b q), None)"
| "queue_exec L (OpRequeuePreserve b) q = (requeue_preserve_timestamps b q, None)"
| "queue_exec L (OpRequeueCancelled b r) q = (requeue_as_cancelled b r q, None)"
| "queue_exec L (OpHasFlushableWork now) q = (fst (has_flushable_work now q), None)"
| "queue_exec L (OpDrain ch) q = (fst (drain_channel L ch q), None)"
| "queue_exec L (OpSteerPending ch i) q = (fst (mark_native_steer_pending L ch i q), None)"
| "queue_exec L (OpSteerRelease ch i) q = (release_native_steer L ch i q, None)"
| "queue_exec L (OpRemoveEvent ch i) q = (remove_event L ch i q, None)"
| "queue_exec L (OpCompact now) q = (compact_expired_state now q, None)"
| "queue_exec L (OpExtendDeadline now ch secs) q = (extend_in_flight_deadline now ch secs q, None)"
| "queue_exec L (OpWithDeadline secs) q = (with_in_flight_deadline secs q, None)"

definition queue_after :: "nostr_lib \<Rightarrow> dedup_mode \<Rightarrow> queue_op list \<Rightarrow> event_queue" where
  "queue_after L mode ops = fst (run_ops (queue_exec L) ops (queue_new mode))"

lemmas queue_op_inv =
  push_inv flush_next_inv mark_complete_inv requeue_inv requeue_preserve_inv requeue_as_cancelled_inv
  expire_in_flight_inv drain_channel_inv steer_pending_inv release_steer_inv remove_event_inv
  compact_expired_state_inv extend_in_flight_deadline_inv with_in_flight_deadline_inv

lemma queue_exec_inv: "queue_inv q \<Longrightarrow> queue_inv (fst (queue_exec L op q))"
  by (cases op) (simp_all add: queue_op_inv has_flushable_work_def Let_def)

interpretation queue_machine: op_machine "queue_exec L" queue_inv "\<lambda>_. True" "\<lambda>_. True" for L
  by unfold_locales (simp_all add: queue_exec_inv)

lemma queue_after_inv: "queue_inv (queue_after L mode ops)"
  unfolding queue_after_def by (rule conjunct1 [OF queue_machine.run_ok]) (simp_all add: queue_inv_new list_all_iff)

section \<open>Expiry\<close>

lemma expire_channel_simps [simp]:
  "in_flight_channels (expire_channel q c) = removeAll c (in_flight_channels q)"
  "deadline_of (expire_channel q c) = (deadline_of q)(c := None)"
  "in_flight_deadlines (expire_channel q c) = AList.delete c (in_flight_deadlines q)"
  "retry_after (expire_channel q c) = retry_after q"
  "retry_counts (expire_channel q c) = retry_counts q"
  "cancelled_batches (expire_channel q c) = cancelled_batches q"
  "cancel_reasons (expire_channel q c) = cancel_reasons q"
  "in_flight_deadline (expire_channel q c) = in_flight_deadline q"
  by (auto simp: expire_channel_def recover_withheld_for_expired_channel_def deadline_of_def fun_eq_iff
      delete_conv' split: option.split)

lemma foldl_expire_simps [simp]:
  "set (in_flight_channels (foldl expire_channel q cs)) = set (in_flight_channels q) - set cs"
  "deadline_of (foldl expire_channel q cs) c = (if c \<in> set cs then None else deadline_of q c)"
  "retry_after (foldl expire_channel q cs) = retry_after q"
  "retry_counts (foldl expire_channel q cs) = retry_counts q"
  "cancelled_batches (foldl expire_channel q cs) = cancelled_batches q"
  "cancel_reasons (foldl expire_channel q cs) = cancel_reasons q"
  "in_flight_deadline (foldl expire_channel q cs) = in_flight_deadline q"
  by (induction cs arbitrary: q) auto

lemma expired_set:
  "distinct (map fst m) \<Longrightarrow>
     set (map fst (filter (\<lambda>(_, d). now \<ge> d) m)) = {c. \<exists>d. map_of m c = Some d \<and> d \<le> (now :: nat)}"
  by (force simp: image_iff)

lemma expire_in_flight_simps:
  assumes "queue_inv q"
  shows "set (in_flight_channels (expire_in_flight now q)) =
           {c. \<exists>d. deadline_of q c = Some d \<and> now < d}"
    and "deadline_of (expire_in_flight now q) c =
           (case deadline_of q c of None \<Rightarrow> None | Some d \<Rightarrow> if d \<le> now then None else Some d)"
    and "retry_after (expire_in_flight now q) = retry_after q"
    and "retry_counts (expire_in_flight now q) = retry_counts q"
    and "cancelled_batches (expire_in_flight now q) = cancelled_batches q"
    and "cancel_reasons (expire_in_flight now q) = cancel_reasons q"
    and "in_flight_deadline (expire_in_flight now q) = in_flight_deadline q"
proof -
  have d: "distinct (map fst (in_flight_deadlines q))"
    and f: "set (in_flight_channels q) = dom (deadline_of q)"
    using assms by (simp_all add: queue_inv_def keys_distinct_def flight_ok_def deadline_of_def [abs_def])
  note e = expired_set [OF d, of now, folded deadline_of_def]
  show "set (in_flight_channels (expire_in_flight now q)) = {c. \<exists>d. deadline_of q c = Some d \<and> now < d}"
    unfolding expire_in_flight_def Let_def foldl_expire_simps e f by (auto simp: dom_def)
  show "deadline_of (expire_in_flight now q) c =
      (case deadline_of q c of None \<Rightarrow> None | Some d \<Rightarrow> if d \<le> now then None else Some d)"
    unfolding expire_in_flight_def Let_def foldl_expire_simps e by (auto split: option.split)
qed (simp_all add: expire_in_flight_def Let_def)

section \<open>Flushing\<close>

text \<open>A channel whose queue may be flushed, independently of how the hash map is iterated.\<close>

definition eligible :: "nat \<Rightarrow> event_queue \<Rightarrow> uuid \<Rightarrow> bool" where
  "eligible now q ch \<longleftrightarrow>
     queue_of q ch \<noteq> [] \<and> ch \<notin> set (in_flight_channels q)
     \<and> (case map_of (retry_after q) ch of None \<Rightarrow> True | Some t \<Rightarrow> t \<le> now)"

lemma min_by_key_None [simp]: "min_by_key f xs = None \<longleftrightarrow> xs = []"
  by (cases xs) (auto split: option.splits)

lemma min_by_key_Some: "min_by_key f xs = Some y \<Longrightarrow> y \<in> set xs \<and> (\<forall>x\<in>set xs. f y \<le> f x)"
proof (induction xs arbitrary: y)
  case (Cons x xs)
  show ?case
  proof (cases "min_by_key f xs")
    case None
    with Cons.prems show ?thesis by simp
  next
    case (Some z)
    with Cons.IH [OF Some] Cons.prems show ?thesis by (auto split: if_splits)
  qed
qed simp

lemma eligible_entry:
  assumes "distinct (map fst (queues q))"
  shows "(ch, es) \<in> set (filter (flushable now q) (queues q)) \<longleftrightarrow> eligible now q ch \<and> es = queue_of q ch"
proof -
  have "(ch, es) \<in> set (queues q) \<longleftrightarrow> map_of (queues q) ch = Some es"
    using assms by simp
  then show ?thesis
    by (auto simp: flushable_def eligible_def queue_of_def get_list_def split: option.splits)
qed

lemma flush_next_cases:
  assumes inv: "queue_inv q" and flush: "flush_next now q = (q', r)"
  obtains (queued) ch where "eligible now (expire_in_flight now q) ch"
      "\<And>c. eligible now (expire_in_flight now q) c \<Longrightarrow>
         qe_received_at (hd (queue_of (expire_in_flight now q) ch))
         \<le> qe_received_at (hd (queue_of (expire_in_flight now q) c))"
      "(q', r) = flush_channel now ch (expire_in_flight now q)"
  | (fallback) "\<And>c. \<not> eligible now (expire_in_flight now q) c"
      "(q', r) = flush_cancelled now (expire_in_flight now q)"
proof -
  let ?q = "expire_in_flight now q"
  have d: "distinct (map fst (queues ?q))"
    using expire_in_flight_inv [OF inv] by (simp add: queue_inv_def keys_distinct_def)
  note el = eligible_entry [OF d, of _ _ now]
  show ?thesis
  proof (cases "min_by_key (\<lambda>(_, events). qe_received_at (hd events)) (filter (flushable now ?q) (queues ?q))")
    case None
    then have "\<not> eligible now ?q c" for c using el [of c "queue_of ?q c"] by simp
    moreover have "(q', r) = flush_cancelled now ?q" using flush None by (simp add: flush_next_def Let_def)
    ultimately show ?thesis by (rule fallback)
  next
    case (Some y)
    obtain ch es where y: "y = (ch, es)" by (cases y)
    note m = min_by_key_Some [OF Some [unfolded y]]
    then have ch: "eligible now ?q ch" "es = queue_of ?q ch" using el by blast+
    show ?thesis
    proof (rule queued)
      show "qe_received_at (hd (queue_of ?q ch)) \<le> qe_received_at (hd (queue_of ?q c))"
        if "eligible now ?q c" for c
        using conjunct2 [OF m, rule_format, of "(c, queue_of ?q c)"] el [of c "queue_of ?q c"] that ch by simp
    qed (use flush Some y ch in \<open>simp_all add: flush_next_def Let_def\<close>)
  qed
qed

lemma mark_in_flight_simps [simp]:
  "set (in_flight_channels (mark_in_flight now ch n q)) = insert ch (set (in_flight_channels q))"
  "deadline_of (mark_in_flight now ch n q) = (deadline_of q)(ch \<mapsto> now + in_flight_deadline q)"
  "queue_of (mark_in_flight now ch n q) = queue_of q"
  "withheld_of (mark_in_flight now ch n q) = withheld_of q"
  "retry_after (mark_in_flight now ch n q) = retry_after q"
  "retry_counts (mark_in_flight now ch n q) = retry_counts q"
  "cancelled_batches (mark_in_flight now ch n q) = cancelled_batches q"
  "cancel_reasons (mark_in_flight now ch n q) = cancel_reasons q"
  by (auto simp: mark_in_flight_def deadline_of_def queue_of_def withheld_of_def update_conv' fun_eq_iff)

definition cancelled_of :: "event_queue \<Rightarrow> uuid \<Rightarrow> batch_event list" where
  "cancelled_of q ch = get_list (cancelled_batches q) ch"

lemma view_updates [simp]:
  "queue_of (q\<lparr>cancelled_batches := cb, cancel_reasons := cr\<rparr>) = queue_of q"
  "withheld_of (q\<lparr>cancelled_batches := cb, cancel_reasons := cr\<rparr>) = withheld_of q"
  "deadline_of (q\<lparr>cancelled_batches := cb, cancel_reasons := cr\<rparr>) = deadline_of q"
  "withheld_of (q\<lparr>queues := qs\<rparr>) = withheld_of q"
  "deadline_of (q\<lparr>queues := qs\<rparr>) = deadline_of q"
  by (simp_all add: queue_of_def withheld_of_def deadline_of_def fun_eq_iff)

lemma flush_channel_simps:
  assumes "flush_channel now ch q = (q', r)"
  shows "queue_of q' c = (if c = ch then drop MAX_BATCH_EVENTS (queue_of q ch) else queue_of q c)"
    and "withheld_of q' = withheld_of q"
    and "cancelled_of q' c = (if c = ch then [] else cancelled_of q c)"
    and "set (in_flight_channels q') = insert ch (set (in_flight_channels q))"
    and "deadline_of q' = (deadline_of q)(ch \<mapsto> now + in_flight_deadline q)"
    and "retry_after q' = retry_after q" "retry_counts q' = retry_counts q"
    and "\<exists>reason. r = Some \<lparr>fb_channel = ch, fb_events =
           sort_key (ev_created_at \<circ> be_event) (map to_batch_event (take MAX_BATCH_EVENTS (queue_of q ch))),
           fb_cancelled_events = cancelled_of q ch, fb_cancel_reason = reason\<rparr>"
proof -
  have dm: "drop (min MAX_BATCH_EVENTS (length xs)) xs = drop MAX_BATCH_EVENTS xs"
    "take (min MAX_BATCH_EVENTS (length xs)) xs = take MAX_BATCH_EVENTS xs" for xs :: "queued_event list"
    by (auto simp: min_def)
  note defs = flush_channel_def Let_def dm
  show "queue_of q' c = (if c = ch then drop MAX_BATCH_EVENTS (queue_of q ch) else queue_of q c)"
    using assms by (auto simp: defs) (auto simp: queue_of_def)
  show "withheld_of q' = withheld_of q" using assms by (auto simp: defs)
  show "cancelled_of q' c = (if c = ch then [] else cancelled_of q c)"
    using assms by (auto simp: defs cancelled_of_def)
  show "set (in_flight_channels q') = insert ch (set (in_flight_channels q))"
    using assms by (auto simp: defs)
  show "deadline_of q' = (deadline_of q)(ch \<mapsto> now + in_flight_deadline q)" using assms by (auto simp: defs)
  show "retry_after q' = retry_after q" "retry_counts q' = retry_counts q" using assms by (auto simp: defs)
  show "\<exists>reason. r = Some \<lparr>fb_channel = ch, fb_events =
      sort_key (ev_created_at \<circ> be_event) (map to_batch_event (take MAX_BATCH_EVENTS (queue_of q ch))),
      fb_cancelled_events = cancelled_of q ch, fb_cancel_reason = reason\<rparr>"
    using assms by (auto simp: defs queue_of_def cancelled_of_def)
qed

lemma flush_cancelled_simps:
  assumes "flush_cancelled now q = (q', r)"
  shows "r = None \<Longrightarrow> q' = q \<and> (\<forall>c. c \<in> dom (map_of (cancelled_batches q)) \<longrightarrow> c \<in> set (in_flight_channels q))"
    and "r = Some b \<Longrightarrow>
      fb_channel b \<in> dom (map_of (cancelled_batches q)) \<and> fb_channel b \<notin> set (in_flight_channels q)
      \<and> b = \<lparr>fb_channel = fb_channel b, fb_events = cancelled_of q (fb_channel b), fb_cancelled_events = [],
             fb_cancel_reason = map_of (cancel_reasons q) (fb_channel b)\<rparr>
      \<and> queue_of q' = queue_of q \<and> withheld_of q' = withheld_of q
      \<and> (\<forall>c. cancelled_of q' c = (if c = fb_channel b then [] else cancelled_of q c))
      \<and> set (in_flight_channels q') = insert (fb_channel b) (set (in_flight_channels q))
      \<and> deadline_of q' = (deadline_of q)(fb_channel b \<mapsto> now + in_flight_deadline q)
      \<and> retry_after q' = retry_after q \<and> retry_counts q' = retry_counts q"
  using assms
  by (auto simp: flush_cancelled_def Let_def cancelled_of_def find_None_iff find_Some_iff dom_map_of_conv_image_fst
      split: option.splits dest: nth_mem)

section \<open>One batch per channel\<close>

text \<open>Operations that leave the turn of a channel alone before an instant: no completion, no expiry.\<close>

fun undisturbing :: "uuid \<Rightarrow> nat \<Rightarrow> queue_op \<Rightarrow> bool" where
  "undisturbing ch d (OpFlush now) \<longleftrightarrow> now < d"
| "undisturbing ch d (OpHasFlushableWork now) \<longleftrightarrow> now < d"
| "undisturbing ch d (OpComplete now c) \<longleftrightarrow> c \<noteq> ch"
| "undisturbing ch d op \<longleftrightarrow> True"

definition guarded :: "uuid \<Rightarrow> nat \<Rightarrow> event_queue \<Rightarrow> bool" where
  "guarded ch d q \<longleftrightarrow> queue_inv q \<and> (\<exists>t. deadline_of q ch = Some t \<and> d \<le> t)"

lemma guarded_in_flight: "guarded ch d q \<Longrightarrow> ch \<in> set (in_flight_channels q)"
  unfolding guarded_def queue_inv_def flight_ok_def deadline_of_def by blast

lemma guarded_expire: "guarded ch d q \<Longrightarrow> now < d \<Longrightarrow> guarded ch d (expire_in_flight now q)"
  by (auto simp: guarded_def expire_in_flight_simps expire_in_flight_inv)

lemma guarded_flush:
  assumes "guarded ch d q" "now < d"
  shows "guarded ch d (fst (flush_next now q)) \<and> (snd (flush_next now q) = Some b \<longrightarrow> fb_channel b \<noteq> ch)"
proof -
  obtain q' r where f: "flush_next now q = (q', r)" by (cases "flush_next now q")
  have inv: "queue_inv q" using assms by (simp add: guarded_def)
  note g = guarded_expire [OF assms] guarded_in_flight [OF guarded_expire [OF assms]]
  have inv': "queue_inv q'" using flush_next_inv [OF inv, of now] f by simp
  show ?thesis using inv f
  proof (cases rule: flush_next_cases)
    case (queued c)
    note s = flush_channel_simps [OF queued(3) [symmetric]]
    have "c \<noteq> ch" using queued(1) g(2) by (auto simp: eligible_def)
    then show ?thesis using s(5,8) g(1) inv' f by (auto simp: guarded_def)
  next
    case fallback
    note s = flush_cancelled_simps [OF fallback(2) [symmetric]]
    show ?thesis
    proof (cases r)
      case None
      then show ?thesis using s(1) g(1) f by simp
    next
      case (Some b')
      have "fb_channel b' \<notin> set (in_flight_channels (expire_in_flight now q))"
        and "deadline_of q' ch = (if fb_channel b' = ch then Some (now + in_flight_deadline (expire_in_flight now q))
               else deadline_of (expire_in_flight now q) ch)"
        using s(2) [OF Some] by auto
      then show ?thesis using g inv' f Some by (auto simp: guarded_def)
    qed
  qed
qed

lemma deadline_frame:
  "deadline_of (fst (push e q)) = deadline_of q"
  "deadline_of (mark_complete now c q) = (deadline_of q)(c := None)"
  "deadline_of (fst (requeue now jitter b q)) = deadline_of q"
  "deadline_of (requeue_preserve_timestamps b q) = deadline_of q"
  "deadline_of (requeue_as_cancelled b reason q) = deadline_of q"
  "deadline_of (fst (drain_channel L c q)) = deadline_of q"
  "deadline_of (fst (mark_native_steer_pending L c i q)) = deadline_of q"
  "deadline_of (release_native_steer L c i q) = deadline_of q"
  "deadline_of (remove_event L c i q) = deadline_of q"
  "deadline_of (compact_expired_state now q) = deadline_of q"
  "deadline_of (with_in_flight_deadline secs q) = deadline_of q"
  "deadline_of (extend_in_flight_deadline now c secs q) c' =
     (case deadline_of q c' of
        None \<Rightarrow> None
      | Some t \<Rightarrow> Some (if c' = c then max t (now + from_secs (secs + IN_FLIGHT_DEADLINE_BUFFER_SECS)) else t))"
  by (auto simp: push_def mark_complete_def requeue_def requeue_preserve_timestamps_def requeue_as_cancelled_def
      drain_channel_def mark_native_steer_pending_def release_native_steer_def remove_event_def
      compact_expired_state_def with_in_flight_deadline_def extend_in_flight_deadline_def push_front_capped_def
      Let_def deadline_of_def fun_eq_iff delete_conv' update_conv' max_def split: option.splits)

lemma guarded_step:
  assumes "guarded ch d q" "undisturbing ch d op"
  shows "guarded ch d (fst (queue_exec L op q))"
    and "snd (queue_exec L op q) = Some b \<Longrightarrow> fb_channel b \<noteq> ch"
proof -
  have inv: "queue_inv (fst (queue_exec L op q))"
    using assms(1) queue_exec_inv by (simp add: guarded_def)
  show "guarded ch d (fst (queue_exec L op q))"
  proof (cases op)
    case (OpFlush now)
    then show ?thesis using guarded_flush [OF assms(1), of now] assms(2) by simp
  next
    case (OpHasFlushableWork now)
    then show ?thesis using guarded_expire [OF assms(1), of now] assms(2)
      by (simp add: has_flushable_work_def Let_def)
  qed (use assms inv in \<open>auto simp: guarded_def deadline_frame\<close>)
  show "snd (queue_exec L op q) = Some b \<Longrightarrow> fb_channel b \<noteq> ch"
    using guarded_flush [OF assms(1)] assms(2) by (cases op) auto
qed

interpretation turn: op_machine "queue_exec L" "guarded ch d" "undisturbing ch d" "\<lambda>b. fb_channel b \<noteq> ch" for L ch d
  by unfold_locales (simp_all add: guarded_step)

section \<open>Conservation of events\<close>

text \<open>The events of a channel the queue still owes to the agent, and those a flush hands over.\<close>

definition pending :: "event_queue \<Rightarrow> uuid \<Rightarrow> batch_event multiset" where
  "pending q ch = image_mset to_batch_event (mset (queue_of q ch) + mset (withheld_of q ch)) + mset (cancelled_of q ch)"

definition dispatched :: "flush_batch option \<Rightarrow> uuid \<Rightarrow> batch_event multiset" where
  "dispatched r ch =
     (case r of None \<Rightarrow> {#}
      | Some b \<Rightarrow> if fb_channel b = ch then mset (fb_events b) + mset (fb_cancelled_events b) else {#})"

definition has_room :: "event_queue \<Rightarrow> bool" where
  "has_room q \<longleftrightarrow> (\<forall>ch. length (queue_of q ch) + length (withheld_of q ch) \<le> MAX_PENDING_PER_CHANNEL)"

lemma recover_views:
  assumes "has_room q"
  shows "queue_of (recover_withheld_for_expired_channel c q) ch =
           (if ch = c then withheld_of q c @ queue_of q c else queue_of q ch)"
    and "withheld_of (recover_withheld_for_expired_channel c q) ch = (if ch = c then [] else withheld_of q ch)"
    and "cancelled_of (recover_withheld_for_expired_channel c q) ch = cancelled_of q ch"
proof -
  have "length (withheld_of q c @ queue_of q c) \<le> MAX_PENDING_PER_CHANNEL"
    using assms by (simp add: has_room_def add.commute)
  then have "take MAX_PENDING_PER_CHANNEL (withheld_of q c @ queue_of q c) = withheld_of q c @ queue_of q c"
    by (rule take_all)
  then show "queue_of (recover_withheld_for_expired_channel c q) ch =
      (if ch = c then withheld_of q c @ queue_of q c else queue_of q ch)"
    by (auto simp: recover_withheld_for_expired_channel_def push_front_capped_def queue_of_def withheld_of_def
        get_list_def split: option.split)
qed (auto simp: recover_withheld_for_expired_channel_def push_front_capped_def withheld_of_def cancelled_of_def
    get_list_def delete_conv' split: option.split)

lemma expire_channel_pending:
  assumes "has_room q"
  shows "pending (expire_channel q c) ch = pending q ch" "has_room (expire_channel q c)"
proof -
  let ?q = "q\<lparr>in_flight_batch_sizes := AList.delete c (in_flight_batch_sizes q),
    in_flight_channels := removeAll c (in_flight_channels q),
    in_flight_deadlines := AList.delete c (in_flight_deadlines q)\<rparr>"
  have v: "queue_of ?q = queue_of q" "withheld_of ?q = withheld_of q" "cancelled_of ?q = cancelled_of q"
    by (simp_all add: queue_of_def withheld_of_def cancelled_of_def fun_eq_iff)
  then have r: "has_room ?q" using assms by (simp add: has_room_def)
  show "pending (expire_channel q c) ch = pending q ch"
    by (simp add: pending_def expire_channel_def recover_views [OF r] v)
  show "has_room (expire_channel q c)"
    using assms by (auto simp: has_room_def expire_channel_def recover_views [OF r] v add.commute)
qed

lemma expire_pending:
  assumes "has_room q"
  shows "pending (expire_in_flight now q) ch = pending q ch" "has_room (expire_in_flight now q)"
proof -
  have "has_room q \<Longrightarrow> pending (foldl expire_channel q cs) ch = pending q ch \<and> has_room (foldl expire_channel q cs)" for cs
    by (induction cs arbitrary: q) (simp_all add: expire_channel_pending)
  then show "pending (expire_in_flight now q) ch = pending q ch" "has_room (expire_in_flight now q)"
    using assms by (simp_all add: expire_in_flight_def Let_def)
qed

lemma flush_channel_pending:
  assumes "flush_channel now c q = (q', r)"
  shows "pending q ch = pending q' ch + dispatched r ch"
proof -
  obtain reason where r: "r = Some \<lparr>fb_channel = c, fb_events =
      sort_key (ev_created_at \<circ> be_event) (map to_batch_event (take MAX_BATCH_EVENTS (queue_of q c))),
      fb_cancelled_events = cancelled_of q c, fb_cancel_reason = reason\<rparr>"
    using flush_channel_simps(8) [OF assms] by blast
  have "mset (queue_of q c) = mset (take MAX_BATCH_EVENTS (queue_of q c)) + mset (drop MAX_BATCH_EVENTS (queue_of q c))"
    by (metis append_take_drop_id mset_append)
  then show ?thesis
    unfolding pending_def flush_channel_simps(1,2,3) [OF assms] r dispatched_def
    by (cases "ch = c") simp_all
qed

lemma flush_cancelled_pending:
  assumes "flush_cancelled now q = (q', r)"
  shows "pending q ch = pending q' ch + dispatched r ch"
proof (cases r)
  case None
  then show ?thesis using flush_cancelled_simps(1) [OF assms] by (simp add: dispatched_def)
next
  case (Some b)
  note s = flush_cancelled_simps(2) [OF assms Some]
  then have "mset (fb_events b) + mset (fb_cancelled_events b) = mset (cancelled_of q (fb_channel b))"
    by (metis flush_batch.select_convs(2,3) mset.simps(1) add_0_right)
  then show ?thesis using s by (cases "ch = fb_channel b") (simp_all add: pending_def dispatched_def Some)
qed

lemma flush_next_pending:
  assumes "queue_inv q" "has_room q" "flush_next now q = (q', r)"
  shows "pending q ch = pending q' ch + dispatched r ch"
  using assms(1,3)
proof (cases rule: flush_next_cases)
  case (queued c)
  then show ?thesis using flush_channel_pending [OF queued(3) [symmetric]] expire_pending [OF assms(2)] by simp
next
  case fallback
  then show ?thesis using flush_cancelled_pending [OF fallback(2) [symmetric]] expire_pending [OF assms(2)] by simp
qed

section \<open>Retries\<close>

definition retry_count :: "event_queue \<Rightarrow> uuid \<Rightarrow> nat" where
  "retry_count q ch = (case map_of (retry_counts q) ch of None \<Rightarrow> 0 | Some n \<Rightarrow> n)"

text \<open>
  Failing turns of a channel as the harness drives them: flush at one instant, requeue the failed batch
  and complete the turn at a later one.
\<close>

fun fail_cycles ::
  "(nat \<Rightarrow> nat) \<Rightarrow> uuid \<Rightarrow> (nat \<times> nat \<times> flush_batch) list \<Rightarrow> event_queue \<Rightarrow> event_queue \<times> flush_batch option list" where
  "fail_cycles jitter ch [] q = (q, [])"
| "fail_cycles jitter ch ((f, t, b) # cs) q =
     (case requeue t jitter b (fst (flush_next f q)) of (q1, r) \<Rightarrow>
        (case fail_cycles jitter ch cs (mark_complete t ch q1) of (q2, rs) \<Rightarrow> (q2, r # rs)))"

lemma capped_delay_bounds: "5 \<le> capped_delay_secs n \<and> capped_delay_secs n \<le> 300"
proof -
  have "(1::nat) \<le> 2 ^ min (n - 1) 6" by simp
  then show ?thesis
    by (simp add: capped_delay_secs_def BASE_RETRY_DELAY_SECS_def MAX_RETRY_DELAY_SECS_def)
qed

lemma retry_counts_flush_cancelled: "retry_counts (fst (flush_cancelled now q)) = retry_counts q"
  by (simp add: flush_cancelled_def Let_def split: option.split)

lemma retry_counts_flush: "retry_counts (fst (flush_next now q)) = retry_counts q"
proof -
  have c: "retry_counts (fst (flush_channel now ch q1)) = retry_counts q1" for ch q1
    using flush_channel_simps(7) [OF surjective_pairing] .
  show ?thesis
    by (simp add: flush_next_def Let_def c retry_counts_flush_cancelled split: option.split prod.split)
      (simp add: expire_in_flight_def Let_def)
qed

lemma fail_cycle:
  assumes "retry_count q ch \<le> MAX_RETRIES" "fb_channel b = ch" "\<And>d. 5 \<le> d \<Longrightarrow> 0 < jitter d"
  shows "snd (requeue t jitter b q) = (if retry_count q ch = MAX_RETRIES then Some b else None)"
    and "retry_count (mark_complete t ch (fst (requeue t jitter b q))) ch = (retry_count q ch + 1) mod (MAX_RETRIES + 1)"
proof -
  let ?n = "retry_count q ch"
  have n: "(case map_of (retry_counts q) ch of None \<Rightarrow> 0 | Some k \<Rightarrow> k) = ?n" by (simp add: retry_count_def)
  have late: "t < t + jitter (capped_delay_secs k)" for k
    using assms(3) capped_delay_bounds by simp
  show "snd (requeue t jitter b q) = (if ?n = MAX_RETRIES then Some b else None)"
    using assms(1,2) by (auto simp: requeue_def Let_def n)
  show "retry_count (mark_complete t ch (fst (requeue t jitter b q))) ch = (?n + 1) mod (MAX_RETRIES + 1)"
  proof (cases "?n = MAX_RETRIES")
    case True
    then show ?thesis using assms(2)
      by (simp add: requeue_def mark_complete_def Let_def n) (simp add: retry_count_def)
  next
    case False
    then have "?n + 1 \<le> MAX_RETRIES" using assms(1) by simp
    then show ?thesis using assms(2) late
      by (simp add: requeue_def mark_complete_def Let_def n) (simp add: retry_count_def)
  qed
qed

lemma fail_cycles_results:
  assumes "\<And>d. 5 \<le> d \<Longrightarrow> 0 < jitter d"
  shows "retry_count q ch \<le> MAX_RETRIES \<Longrightarrow> (\<And>f t b. (f, t, b) \<in> set cs \<Longrightarrow> fb_channel b = ch) \<Longrightarrow>
    snd (fail_cycles jitter ch cs q) =
      map (\<lambda>(i, _, _, b). if (retry_count q ch + i) mod (MAX_RETRIES + 1) = MAX_RETRIES then Some b else None)
        (enumerate 0 cs)"
proof (induction cs arbitrary: q)
  case (Cons c cs)
  obtain f t b where c: "c = (f, t, b)" by (cases c)
  let ?q = "fst (flush_next f q)"
  let ?q1 = "mark_complete t ch (fst (requeue t jitter b ?q))"
  have b: "fb_channel b = ch" by (rule Cons.prems(2) [of f t b]) (simp add: c)
  have n: "retry_count ?q ch = retry_count q ch" by (simp add: retry_count_def retry_counts_flush)
  have le: "retry_count ?q ch \<le> MAX_RETRIES" using n Cons.prems(1) by simp
  note cycle = fail_cycle [where t = t, OF le b assms, unfolded n]
  have shift: "map g (enumerate (Suc 0) cs) = map (\<lambda>(i, x). g (Suc i, x)) (enumerate 0 cs)" for g :: "_ \<Rightarrow> flush_batch option"
    by (simp add: enumerate_eq_zip zip_map1 [symmetric] map_Suc_upt [symmetric] del: map_Suc_upt upt_Suc)
      (simp add: zip_map1 comp_def case_prod_unfold)
  have "snd (fail_cycles jitter ch cs ?q1) =
      map (\<lambda>(i, _, _, b). if (retry_count ?q1 ch + i) mod (MAX_RETRIES + 1) = MAX_RETRIES then Some b else None)
        (enumerate 0 cs)"
    by (rule Cons.IH) (use Cons.prems(2) in \<open>auto simp: cycle(2) MAX_RETRIES_def\<close>)
  moreover have "(retry_count ?q1 ch + i) mod (MAX_RETRIES + 1) = (retry_count q ch + Suc i) mod (MAX_RETRIES + 1)" for i
    by (simp add: cycle(2) mod_Suc_eq mod_add_left_eq)
  moreover have "retry_count q ch mod (MAX_RETRIES + 1) = retry_count q ch" using Cons.prems(1) by simp
  ultimately show ?case
    using cycle(1) by (simp add: c shift case_prod_unfold)
qed simp

section \<open>Properties\<close>

definition demo_queued :: "uuid \<Rightarrow> nat \<Rightarrow> nat \<Rightarrow> queued_event" where
  "demo_queued ch created received =
     \<lparr>qe_channel = ch,
      qe_event = \<lparr>ev_id = [of_nat received], ev_pubkey = [1], ev_created_at = created, ev_kind = 9,
        ev_tags = [], ev_content = ''hi'', ev_sig = []\<rparr>,
      qe_received_at = received, qe_prompt_tag = ''mention'', qe_is_issue = False\<rparr>"

text \<open>
  C20.  After any sequence of operations on a new queue: no channel holds more than 500 waiting events,
  every waiting or withheld event is filed under its own channel, exactly the channels in flight have a
  deadline and a batch size (so every one of them can expire), no retry counter exceeds ten, and
  exactly the channels with a cancelled batch have a cancellation reason.
\<close>

theorem queue_invariant:
  "length (queue_of (queue_after L mode ops) ch) \<le> 500
   \<and> qe_channel ` set (queue_of (queue_after L mode ops) ch @ withheld_of (queue_after L mode ops) ch) \<subseteq> {ch}
   \<and> dom (deadline_of (queue_after L mode ops)) = set (in_flight_channels (queue_after L mode ops))
   \<and> dom (map_of (in_flight_batch_sizes (queue_after L mode ops))) = set (in_flight_channels (queue_after L mode ops))
   \<and> ran (map_of (retry_counts (queue_after L mode ops))) \<subseteq> {.. 10}
   \<and> dom (map_of (cancel_reasons (queue_after L mode ops))) = dom (map_of (cancelled_batches (queue_after L mode ops)))"
proof -
  let ?q = "queue_after L mode ops"
  have "files_ok ?q" "flight_ok ?q" "counts_ok ?q" "reasons_ok ?q"
    using queue_after_inv [of L mode ops] by (simp_all add: queue_inv_def)
  then show ?thesis
    by (simp add: files_ok_def flight_ok_def counts_ok_def reasons_ok_def filed_def image_subset_iff ball_Un
        deadline_of_def [abs_def] MAX_PENDING_PER_CHANNEL_def MAX_RETRIES_def)
qed


text \<open>
  C17.  No double dispatch: once a flush of a reachable queue has dispatched a batch, no sequence of
  operations that neither completes the channel's turn nor runs its clock to the deadline dispatches
  another batch for that channel, and the turn stays in flight.
\<close>

theorem no_double_dispatch:
  assumes "flush_next now (queue_after L mode ops) = (q', Some b)"
    and "list_all (undisturbing (fb_channel b) (now + in_flight_deadline (queue_after L mode ops))) ops'"
  shows "fb_channel b \<notin> fb_channel ` set (snd (run_ops (queue_exec L) ops' q'))
    \<and> fb_channel b \<in> set (in_flight_channels (fst (run_ops (queue_exec L) ops' q')))"
proof -
  let ?d = "now + in_flight_deadline (queue_after L mode ops)"
  have inv: "queue_inv (queue_after L mode ops)" by (rule queue_after_inv)
  have "queue_inv q'" using flush_next_inv [OF inv, of now] assms(1) by simp
  moreover have "deadline_of q' (fb_channel b) = Some ?d"
    using inv assms(1)
  proof (cases rule: flush_next_cases)
    case (queued ch)
    note s = flush_channel_simps(5,8) [OF queued(3) [symmetric]]
    then show ?thesis by (auto simp: expire_in_flight_simps [OF inv])
  next
    case fallback
    then show ?thesis using flush_cancelled_simps(2) [OF fallback(2) [symmetric] refl]
      by (auto simp: expire_in_flight_simps [OF inv])
  qed
  ultimately have "guarded (fb_channel b) ?d q'" by (simp add: guarded_def)
  from turn.run_ok [OF this assms(2), of L] show ?thesis
    by (auto simp: guarded_in_flight list_all_iff)
qed

text \<open>
  C18.  A flush of a reachable queue loses and invents no event: for every channel, the events owed to the
  agent before (queued, withheld or cancelled) are those owed after together with the dispatched ones,
  provided no channel's queued and withheld events exceed the cap of 500 together.
\<close>

theorem flush_conserves_events:
  assumes "has_room (queue_after L mode ops)" and "flush_next now (queue_after L mode ops) = (q', r)"
  shows "pending (queue_after L mode ops) ch = pending q' ch + dispatched r ch"
  by (rule flush_next_pending [OF queue_after_inv assms])

text \<open>
  Failing turns of a channel of a reachable queue, whatever else the flushes between them dispatch:
  each failed batch is requeued until the channel has failed ten times in a row, the next one is handed
  back as a dead letter and the count starts again.  The back-off delay is only assumed to be positive
  for the capped base delay, which is always at least five seconds.
\<close>

theorem requeue_dead_letters:
  assumes "\<And>d. 5 \<le> d \<Longrightarrow> 0 < jitter d"
    and "\<And>f t b. (f, t, b) \<in> set cycles \<Longrightarrow> fb_channel b = ch"
  shows "snd (fail_cycles jitter ch cycles (queue_after L mode ops)) =
    map (\<lambda>(i, _, _, b). if (retry_count (queue_after L mode ops) ch + i) mod 11 = 10 then Some b else None)
      (enumerate 0 cycles)"
proof -
  let ?q = "queue_after L mode ops"
  have "ran (map_of (retry_counts ?q)) \<subseteq> {.. MAX_RETRIES}"
    using queue_after_inv [of L mode ops] by (simp add: queue_inv_def counts_ok_def)
  then have "retry_count ?q ch \<le> MAX_RETRIES"
    by (auto simp: retry_count_def ran_def split: option.split)
  from fail_cycles_results [OF assms(1) this assms(2)] show ?thesis
    by (simp add: MAX_RETRIES_def)
qed

text \<open>
  In every state the query for flushable work answers yes exactly when a flush at the same instant
  returns a batch, and then the broader query that keeps the pool awake answers yes as well.
\<close>

theorem flushable_work_exact:
  "(snd (has_flushable_work now q) \<longleftrightarrow> snd (flush_next now q) \<noteq> None)
   \<and> (snd (has_flushable_work now q) \<longrightarrow> has_undispatched_work (fst (has_flushable_work now q)))"
proof -
  let ?q = "expire_in_flight now q"
  have ex: "list_ex (flushable now ?q) (queues ?q) \<longleftrightarrow> filter (flushable now ?q) (queues ?q) \<noteq> []"
    by (simp add: filter_empty_conv list_ex_iff)
  have "snd (flush_cancelled now ?q) = None
      \<longleftrightarrow> find (\<lambda>ch. ch \<notin> set (in_flight_channels ?q)) (map fst (cancelled_batches ?q)) = None"
    by (simp add: flush_cancelled_def Let_def split: option.split)
  then have cancelled: "snd (flush_cancelled now ?q) \<noteq> None
      \<longleftrightarrow> list_ex (\<lambda>(ch, _). ch \<notin> set (in_flight_channels ?q)) (cancelled_batches ?q)"
    by (auto simp: find_None_iff list_ex_iff)
  have queued: "snd (flush_channel now ch ?q) \<noteq> None" for ch
    by (simp add: flush_channel_def Let_def)
  have "snd (has_flushable_work now q) \<longleftrightarrow> snd (flush_next now q) \<noteq> None"
  proof (cases "filter (flushable now ?q) (queues ?q) = []")
    case True
    then show ?thesis using ex cancelled by (simp add: has_flushable_work_def flush_next_def Let_def)
  next
    case False
    then obtain y where "min_by_key (\<lambda>(_, events). qe_received_at (hd events))
        (filter (flushable now ?q) (queues ?q)) = Some y"
      using min_by_key_None by (metis not_None_eq)
    then show ?thesis using False ex queued
      by (cases y) (simp add: has_flushable_work_def flush_next_def Let_def)
  qed
  moreover have "snd (has_flushable_work now q) \<longrightarrow> has_undispatched_work (fst (has_flushable_work now q))"
    by (fastforce simp: has_flushable_work_def has_undispatched_work_def Let_def list_ex_iff flushable_def)
  ultimately show ?thesis by blast
qed

text \<open>
  When a dispatched batch finds no agent and is put back with its time stamps, only its new events
  return to the queue: the events merged into it from a cancelled turn are neither queued, withheld nor
  kept as cancelled any more, although they were owed to the agent before the flush.
\<close>

theorem requeue_loses_cancelled_events:
  assumes "has_room (queue_after L mode ops)" and "flush_next now (queue_after L mode ops) = (q', Some b)"
    and "length (fb_events b) + length (queue_of q' (fb_channel b)) \<le> 500"
  shows "pending (queue_after L mode ops) (fb_channel b) =
    pending (requeue_preserve_timestamps b q') (fb_channel b) + mset (fb_cancelled_events b)"
proof -
  have "pending (queue_after L mode ops) (fb_channel b) =
      pending q' (fb_channel b) + (mset (fb_events b) + mset (fb_cancelled_events b))"
    using flush_next_pending [OF queue_after_inv assms(1,2), of "fb_channel b"] by (simp add: dispatched_def)
  moreover have "image_mset (to_batch_event \<circ> to_queued_event c) M = M" for c and M :: "batch_event multiset"
  proof -
    have "to_batch_event \<circ> to_queued_event c = id"
      by (simp add: fun_eq_iff to_batch_event_def to_queued_event_def)
    then show ?thesis by simp
  qed
  ultimately show ?thesis using assms(3)
    by (simp add: pending_def requeue_preserve_timestamps_def cancelled_of_def MAX_PENDING_PER_CHANNEL_def
        image_mset.compositionality ac_simps)
qed

subsection \<open>Witnesses\<close>

definition demo_ops :: "queue_op list" where
  "demo_ops = [OpPush (demo_queued 2 7 20), OpPush (demo_queued 1 9 10), OpPush (demo_queued 1 8 30)]"

definition demo_first :: flush_batch where
  "demo_first = \<lparr>fb_channel = 1,
     fb_events = [to_batch_event (demo_queued 1 8 30), to_batch_event (demo_queued 1 9 10)],
     fb_cancelled_events = [], fb_cancel_reason = None\<rparr>"

text \<open>The first batch interrupted, and a new event for the same channel.\<close>

definition demo_merge_ops :: "queue_op list" where
  "demo_merge_ops = demo_ops @ [OpFlush 40, OpRequeueCancelled demo_first Steer, OpComplete 41 1, OpPush (demo_queued 1 12 5)]"

lemma demo_queued_simps [simp]:
  "qe_channel (demo_queued ch c r) = ch" "qe_received_at (demo_queued ch c r) = r"
  "ev_created_at (be_event (to_batch_event (demo_queued ch c r))) = c"
  by (simp_all add: demo_queued_def to_batch_event_def)

definition demo_state :: "dedup_mode \<Rightarrow> event_queue" where
  "demo_state mode =
     (queue_new mode)\<lparr>queues := [(2, [demo_queued 2 7 20]), (1, [demo_queued 1 9 10, demo_queued 1 8 30])]\<rparr>"

definition demo_flushed :: event_queue where
  "demo_flushed =
     (queue_new Drop)\<lparr>queues := [(2, [demo_queued 2 7 20])], in_flight_channels := [1],
       in_flight_deadlines := [(1, 7300000000040)], in_flight_batch_sizes := [(1, 2)]\<rparr>"

definition demo_merged :: event_queue where
  "demo_merged =
     (queue_new Drop)\<lparr>queues := [(2, [demo_queued 2 7 20]), (1, [demo_queued 1 12 5])],
       cancelled_batches := [(1, fb_events demo_first)], cancel_reasons := [(1, Steer)]\<rparr>"

lemmas demo_simps =
  queue_new_def push_def get_list_def MAX_PENDING_PER_CHANNEL_def MAX_BATCH_EVENTS_def from_secs_def
  DEFAULT_IN_FLIGHT_DEADLINE_SECS_def flush_next_def expire_in_flight_def flushable_def flush_channel_def
  mark_in_flight_def requeue_as_cancelled_def mark_complete_def Let_def

lemma demo_after: "queue_after demo_lib mode demo_ops = demo_state mode"
  by (simp add: queue_after_def demo_ops_def demo_state_def demo_simps)

lemma demo_flush: "snd (flush_next 40 (demo_state mode)) = Some demo_first"
  by (simp add: demo_state_def demo_first_def demo_simps)

lemma demo_flush_state: "fst (flush_next 40 (demo_state Drop)) = demo_flushed"
  by (simp add: demo_state_def demo_flushed_def demo_simps)

lemma demo_merge_after: "queue_after demo_lib Drop demo_merge_ops = demo_merged"
proof -
  have "fst (run_ops (queue_exec demo_lib) [OpRequeueCancelled demo_first Steer, OpComplete 41 1, OpPush (demo_queued 1 12 5)]
      demo_flushed) = demo_merged"
    by (simp add: demo_flushed_def demo_merged_def demo_first_def demo_simps)
  moreover have "fst (run_ops (queue_exec demo_lib) demo_ops (queue_new Drop)) = demo_state Drop"
    using demo_after [of Drop] by (simp add: queue_after_def)
  ultimately show ?thesis
    using demo_flush_state
    by (auto simp: queue_after_def demo_merge_ops_def run_ops_append split: prod.split)
qed

lemma demo_merge_flush:
  "snd (flush_next 50 demo_merged) =
     Some \<lparr>fb_channel = 1, fb_events = [to_batch_event (demo_queued 1 12 5)],
           fb_cancelled_events = fb_events demo_first, fb_cancel_reason = Some Steer\<rparr>"
  "queue_of (fst (flush_next 50 demo_merged)) 1 = []"
  by (simp_all add: demo_merged_def demo_first_def demo_simps queue_of_def)


theorem no_double_dispatch_witness:
  "1 \<notin> fb_channel ` set (snd (run_ops (queue_exec demo_lib) [OpPush (demo_queued 1 50 50), OpFlush 60, OpFlush 61]
     (fst (flush_next 40 (demo_state Queue)))))"
proof -
  obtain q' where f: "flush_next 40 (demo_state Queue) = (q', Some demo_first)"
    using demo_flush by (metis prod.collapse)
  have "in_flight_deadline (demo_state Queue) = 7300000000000"
    by (simp add: demo_state_def demo_simps)
  then have "list_all (undisturbing (fb_channel demo_first) (40 + in_flight_deadline (demo_state Queue)))
      [OpPush (demo_queued 1 50 50), OpFlush 60, OpFlush 61]" by simp
  from no_double_dispatch [where L = demo_lib and ops = demo_ops, unfolded demo_after, OF f this]
  show ?thesis unfolding f fst_conv demo_first_def flush_batch.select_convs by (rule conjunct1)
qed

theorem flush_conserves_events_witness:
  "pending (demo_state Drop) 1 = pending demo_flushed 1 + mset (fb_events demo_first)"
proof -
  have f: "flush_next 40 (queue_after demo_lib Drop demo_ops) = (demo_flushed, Some demo_first)"
    unfolding demo_after using demo_flush demo_flush_state by (metis prod.collapse)
  have "has_room (queue_after demo_lib Drop demo_ops)"
    unfolding demo_after by (simp add: has_room_def queue_of_def withheld_of_def demo_state_def demo_simps)
  from flush_conserves_events [OF this f, of 1] show ?thesis
    unfolding demo_after by (simp add: dispatched_def demo_first_def)
qed

theorem requeue_dead_letters_witness:
  "snd (fail_cycles (\<lambda>d. d * 800000000) 1 (replicate 11 (60, 61, demo_first)) (demo_state Drop)) =
     replicate 10 None @ [Some demo_first]"
proof -
  define cs where "cs = replicate 11 (60::nat, 61::nat, demo_first)"
  have n: "retry_count (demo_state Drop) 1 = 0"
    by (simp add: demo_state_def queue_new_def retry_count_def)
  have "snd (fail_cycles (\<lambda>d. d * 800000000) 1 cs (queue_after demo_lib Drop demo_ops)) =
      map (\<lambda>(i, _, _, b). if (retry_count (queue_after demo_lib Drop demo_ops) 1 + i) mod 11 = 10 then Some b else None)
        (enumerate 0 cs)"
    by (rule requeue_dead_letters) (auto simp: cs_def demo_first_def)
  moreover have "map (\<lambda>(i, _, _, b). if (0 + i) mod 11 = 10 then Some b else None) (enumerate 0 cs) =
      replicate 10 None @ [Some demo_first]"
  proof -
    have "[0..<11] = [0, 1, 2, 3, 4, 5, 6, 7, 8, 9, 10::nat]" by (simp add: upt_rec)
    moreover have "replicate 10 (None :: flush_batch option) = [None, None, None, None, None, None, None, None, None, None]"
      by (simp add: numeral_eq_Suc)
    ultimately show ?thesis by (simp add: cs_def enumerate_replicate_eq)
  qed
  ultimately show ?thesis unfolding demo_after n cs_def by (rule trans)
qed

theorem flushable_work_exact_witness:
  "snd (has_flushable_work 40 (demo_state Drop)) \<and> has_undispatched_work (fst (has_flushable_work 40 (demo_state Drop)))"
  using flushable_work_exact [of 40 "demo_state Drop"] demo_flush [of Drop] by (simp only: simp_thms option.simps not_None_eq)

theorem requeue_loses_cancelled_events_witness:
  "pending demo_merged 1 =
     pending (requeue_preserve_timestamps
       \<lparr>fb_channel = 1, fb_events = [to_batch_event (demo_queued 1 12 5)],
        fb_cancelled_events = fb_events demo_first, fb_cancel_reason = Some Steer\<rparr> (fst (flush_next 50 demo_merged))) 1
     + mset (fb_events demo_first) \<and> fb_events demo_first \<noteq> []"
proof -
  let ?b = "\<lparr>fb_channel = 1, fb_events = [to_batch_event (demo_queued 1 12 5)],
      fb_cancelled_events = fb_events demo_first, fb_cancel_reason = Some Steer\<rparr>"
  have f: "flush_next 50 demo_merged = (fst (flush_next 50 demo_merged), Some ?b)"
    using demo_merge_flush(1) by (metis prod.collapse)
  have "has_room demo_merged"
    by (simp add: has_room_def queue_of_def withheld_of_def demo_merged_def demo_simps)
  from requeue_loses_cancelled_events [where L = demo_lib and mode = Drop and ops = demo_merge_ops, unfolded demo_merge_after, OF this f]
  have "pending demo_merged 1 = pending (requeue_preserve_timestamps ?b (fst (flush_next 50 demo_merged))) 1
      + mset (fb_events demo_first)"
    using demo_merge_flush(2) by simp
  then show ?thesis by (simp add: demo_first_def)
qed

end
