(* ===== verification/Audio_Room.thy ===== *)
theory Audio_Room
  imports Buzz_Prelude
begin

text \<open>
  Audio rooms of the relay (\<open>buzz-relay/src/audio/room.rs\<close>), the per-frame header
  (\<open>audio/wire.rs\<close>) and the generation fence of the cross-pod media path (\<open>audio/mesh.rs\<close>).

  Every method of \<open>Room\<close> that changes it takes the admission lock, so it is one step here; lock
  poisoning cannot occur, since no critical section panics.  The channels of a peer are bounded queues
  whose receiving end belongs to the connection; the roster broadcast is the list of the deltas sent.
  The peer identifier drawn by \<open>Uuid::new_v4\<close> is an argument, and a run only draws fresh ones.
\<close>

section \<open>Channels\<close>

record 'a chan =
  ch_cap :: nat
  ch_items :: "'a list"
  ch_open :: bool

definition channel :: "nat \<Rightarrow> 'a chan" where
  "channel n = \<lparr>ch_cap = n, ch_items = [], ch_open = True\<rparr>"

definition try_send :: "'a \<Rightarrow> 'a chan \<Rightarrow> 'a chan \<times> bool" where
  "try_send x c =
     (if ch_open c \<and> length (ch_items c) < ch_cap c then (c\<lparr>ch_items := ch_items c @ [x]\<rparr>, True) else (c, False))"

section \<open>State\<close>

datatype peer_ctrl = CtrlJson string | CtrlClose

record audio_peer =
  ap_pubkey :: string
  audio_tx :: "byte list chan"
  ctrl_tx :: "peer_ctrl chan"
  peer_index :: byte
  epoch :: byte
  protocol_version :: byte

definition AUDIO_CHANNEL_CAPACITY :: nat where "AUDIO_CHANNEL_CAPACITY = 8"
definition CTRL_CHANNEL_CAPACITY :: nat where "CTRL_CHANNEL_CAPACITY = 32"
definition MAX_PEERS_PER_ROOM :: nat where "MAX_PEERS_PER_ROOM = 25"

record roster_peer =
  rp_pubkey :: string
  rp_index :: byte
  rp_epoch :: byte

record roster_snap =
  rs_revision :: "64 word"
  rs_peers :: "roster_peer list"

record roster_delta =
  rd_revision :: "64 word"
  rd_joined :: "roster_peer option"
  rd_left :: "roster_peer option"

datatype admission_error = Ended | Full | VersionMismatch (pinned: byte) (requested: byte)

record admission_guard =
  next_candidate :: byte
  active_indices :: "byte list"
  index_epochs :: "(byte, byte) amap"
  ended :: bool
  pinned_version :: "byte option"
  roster_revision :: "64 word"

record room =
  room_community :: uuid
  room_channel :: uuid
  peers :: "(uuid, audio_peer) amap"
  guard :: admission_guard
  roster_tx :: "roster_delta list"

definition guard_new :: admission_guard where
  "guard_new = \<lparr>next_candidate = 0, active_indices = [], index_epochs = [], ended = False,
     pinned_version = None, roster_revision = 0\<rparr>"

definition room_new :: "uuid \<Rightarrow> uuid \<Rightarrow> room" where
  "room_new community channel_id =
     \<lparr>room_community = community, room_channel = channel_id, peers = [], guard = guard_new, roster_tx = []\<rparr>"

section \<open>Admission\<close>

definition next_epoch_for :: "byte \<Rightarrow> admission_guard \<Rightarrow> admission_guard \<times> byte" where
  "next_epoch_for idx g =
     (let slot = (case map_of (index_epochs g) idx of None \<Rightarrow> 0 | Some e \<Rightarrow> e)
      in (g\<lparr>index_epochs := AList.update idx (slot + 1) (index_epochs g)\<rparr>, slot))"

definition next_index :: "byte \<Rightarrow> byte" where
  "next_index idx = (if idx = 254 then 0 else idx + 1)"

fun alloc_loop :: "nat \<Rightarrow> admission_guard \<Rightarrow> admission_guard \<times> (byte \<times> byte) option" where
  "alloc_loop 0 g = (g, None)"
| "alloc_loop (Suc n) g =
     (let idx = next_candidate g;
          g1 = g\<lparr>next_candidate := next_index idx\<rparr>
      in if idx \<in> set (active_indices g1) then alloc_loop n g1
         else (case next_epoch_for idx (g1\<lparr>active_indices := idx # active_indices g1\<rparr>) of
                 (g2, e) \<Rightarrow> (g2, Some (idx, e))))"

definition alloc :: "admission_guard \<Rightarrow> admission_guard \<times> (byte \<times> byte) option" where
  "alloc g = alloc_loop 255 g"

definition get_or_insert :: "'a \<Rightarrow> 'a option \<Rightarrow> 'a option" where
  "get_or_insert x v = (case v of None \<Rightarrow> Some x | Some y \<Rightarrow> Some y)"

definition roster_entry :: "audio_peer \<Rightarrow> roster_peer" where
  "roster_entry p = \<lparr>rp_pubkey = ap_pubkey p, rp_index = peer_index p, rp_epoch = epoch p\<rparr>"

text \<open>The insertion both admission paths end with: the peer, the revision, the published delta.\<close>

definition insert_peer ::
  "uuid \<Rightarrow> string \<Rightarrow> byte \<Rightarrow> byte \<Rightarrow> byte \<Rightarrow> admission_guard \<Rightarrow> room \<Rightarrow> room \<times> 64 word" where
  "insert_peer pid pk version idx e g r =
     (let p = \<lparr>ap_pubkey = pk, audio_tx = channel AUDIO_CHANNEL_CAPACITY,
               ctrl_tx = channel CTRL_CHANNEL_CAPACITY, peer_index = idx, epoch = e,
               protocol_version = version\<rparr>;
          revision = roster_revision g + 1;
          delta = \<lparr>rd_revision = revision,
                   rd_joined = Some \<lparr>rp_pubkey = pk, rp_index = idx, rp_epoch = e\<rparr>, rd_left = None\<rparr>
      in (r\<lparr>peers := AList.update pid p (peers r), guard := g\<lparr>roster_revision := revision\<rparr>,
            roster_tx := roster_tx r @ [delta]\<rparr>, revision))"

definition version_mismatch :: "byte option \<Rightarrow> byte \<Rightarrow> admission_error option" where
  "version_mismatch pin version =
     (case pin of None \<Rightarrow> None | Some v \<Rightarrow> if v \<noteq> version then Some (VersionMismatch v version) else None)"

definition add_peer ::
  "uuid \<Rightarrow> string \<Rightarrow> byte \<Rightarrow> room \<Rightarrow> room \<times> (admission_error + uuid \<times> byte \<times> byte \<times> 64 word)" where
  "add_peer pid pk version r =
     (let g = guard r
      in if ended g then (r, Inl Ended)
         else if length (peers r) \<ge> MAX_PEERS_PER_ROOM then (r, Inl Full)
         else case version_mismatch (pinned_version g) version of
                Some e \<Rightarrow> (r, Inl e)
              | None \<Rightarrow>
                  (case alloc g of
                     (g1, None) \<Rightarrow> (r\<lparr>guard := g1\<rparr>, Inl Full)
                   | (g1, Some (idx, e)) \<Rightarrow>
                       (let g2 = g1\<lparr>pinned_version := get_or_insert version (pinned_version g1)\<rparr>;
                            (r', revision) = insert_peer pid pk version idx e g2 r
                        in (r', Inr (pid, idx, e, revision)))))"

definition add_peer_at_index ::
  "uuid \<Rightarrow> string \<Rightarrow> byte \<Rightarrow> byte \<Rightarrow> room \<Rightarrow> room \<times> (admission_error + uuid \<times> byte \<times> 64 word)" where
  "add_peer_at_index pid pk version idx r =
     (let g = guard r
      in if ended g then (r, Inl Ended)
         else if length (peers r) \<ge> MAX_PEERS_PER_ROOM \<or> idx \<in> set (active_indices g) then (r, Inl Full)
         else case version_mismatch (pinned_version g) version of
                Some e \<Rightarrow> (r, Inl e)
              | None \<Rightarrow>
                  (let g1 = g\<lparr>pinned_version := get_or_insert version (pinned_version g),
                              active_indices := idx # active_indices g\<rparr>;
                       (g2, e) = next_epoch_for idx g1;
                       g3 = g2\<lparr>next_candidate := next_index idx\<rparr>;
                       (r', revision) = insert_peer pid pk version idx e g3 r
                   in (r', Inr (pid, e, revision))))"

section \<open>Leaving and ending\<close>

definition leave_delta :: "64 word \<Rightarrow> audio_peer \<Rightarrow> roster_delta" where
  "leave_delta revision p = \<lparr>rd_revision = revision, rd_joined = None, rd_left = Some (roster_entry p)\<rparr>"

definition remove_peer :: "uuid \<Rightarrow> room \<Rightarrow> room \<times> roster_delta option" where
  "remove_peer pid r =
     (case map_of (peers r) pid of
        None \<Rightarrow> (r, None)
      | Some p \<Rightarrow>
          (let g = (guard r)\<lparr>active_indices := removeAll (peer_index p) (active_indices (guard r)),
                             roster_revision := roster_revision (guard r) + 1\<rparr>;
               delta = leave_delta (roster_revision g) p
           in (r\<lparr>peers := AList.delete pid (peers r), guard := g, roster_tx := roster_tx r @ [delta]\<rparr>, Some delta)))"

definition remove_peer_and_check_ended :: "uuid \<Rightarrow> room \<Rightarrow> room \<times> (roster_delta \<times> bool) option" where
  "remove_peer_and_check_ended pid r =
     (case map_of (peers r) pid of
        None \<Rightarrow> (r, None)
      | Some p \<Rightarrow>
          (let g = (guard r)\<lparr>active_indices := removeAll (peer_index p) (active_indices (guard r)),
                             roster_revision := roster_revision (guard r) + 1\<rparr>;
               delta = leave_delta (roster_revision g) p;
               rest = AList.delete pid (peers r);
               should_end = (\<not> ended g \<and> rest = []);
               g' = (if should_end then g\<lparr>ended := True\<rparr> else g)
           in (r\<lparr>peers := rest, guard := g', roster_tx := roster_tx r @ [delta]\<rparr>, Some (delta, should_end))))"

definition mark_ended :: "room \<Rightarrow> room \<times> bool" where
  "mark_ended r = (r\<lparr>guard := (guard r)\<lparr>ended := True\<rparr>\<rparr>, peers r = [])"

definition clear_ended :: "room \<Rightarrow> room" where
  "clear_ended r = r\<lparr>guard := (guard r)\<lparr>ended := False\<rparr>\<rparr>"

section \<open>Fan-out\<close>

definition map_peers :: "(uuid \<Rightarrow> audio_peer \<Rightarrow> audio_peer) \<Rightarrow> room \<Rightarrow> room" where
  "map_peers f r = r\<lparr>peers := map (\<lambda>(pid, p). (pid, f pid p)) (peers r)\<rparr>"

definition send_audio :: "byte list \<Rightarrow> audio_peer \<Rightarrow> audio_peer" where
  "send_audio frame p = p\<lparr>audio_tx := fst (try_send frame (audio_tx p))\<rparr>"

definition prefixed_frame :: "audio_peer \<Rightarrow> byte list \<Rightarrow> byte list" where
  "prefixed_frame s frame = [peer_index s] @ (if protocol_version s \<ge> 3 then [epoch s] else []) @ frame"

definition broadcast_frame :: "uuid \<Rightarrow> byte list \<Rightarrow> room \<Rightarrow> room" where
  "broadcast_frame sender frame r =
     (case map_of (peers r) sender of
        None \<Rightarrow> r
      | Some s \<Rightarrow>
          map_peers (\<lambda>pid p. if pid = sender then p else send_audio (prefixed_frame s frame) p) r)"

definition deliver_prefixed :: "byte \<Rightarrow> byte list \<Rightarrow> room \<Rightarrow> room" where
  "deliver_prefixed author frame r =
     map_peers (\<lambda>_ p. if peer_index p = author then p else send_audio frame p) r"

text \<open>A control queue that cannot take a message is replaced by one whose receiver is gone.\<close>

definition send_ctrl :: "peer_ctrl \<Rightarrow> audio_peer \<Rightarrow> audio_peer" where
  "send_ctrl msg p =
     (case try_send msg (ctrl_tx p) of
        (c, True) \<Rightarrow> p\<lparr>ctrl_tx := c\<rparr>
      | (_, False) \<Rightarrow> p\<lparr>ctrl_tx := (channel 1)\<lparr>ch_open := False\<rparr>\<rparr>)"

definition broadcast_control :: "string \<Rightarrow> room \<Rightarrow> room" where
  "broadcast_control json r = map_peers (\<lambda>_ p. send_ctrl (CtrlJson json) p) r"

section \<open>Snapshots\<close>

definition roster_snapshot :: "room \<Rightarrow> roster_snap" where
  "roster_snapshot r =
     \<lparr>rs_revision = roster_revision (guard r),
      rs_peers = sort_key rp_index (map (\<lambda>(_, p). roster_entry p) (peers r))\<rparr>"

definition peer_pubkeys :: "room \<Rightarrow> (string \<times> byte) list" where
  "peer_pubkeys r = map (\<lambda>(_, p). (ap_pubkey p, peer_index p)) (peers r)"

definition room_is_empty :: "room \<Rightarrow> bool" where
  "room_is_empty r \<longleftrightarrow> peers r = []"

section \<open>The manager\<close>

type_synonym audio_rooms = "(uuid \<times> uuid, room) amap"

definition get_or_create :: "uuid \<Rightarrow> uuid \<Rightarrow> audio_rooms \<Rightarrow> audio_rooms \<times> room" where
  "get_or_create community ch rooms =
     (case map_of rooms (community, ch) of
        Some r \<Rightarrow> (rooms, r)
      | None \<Rightarrow> (let r = room_new community ch in (AList.update (community, ch) r rooms, r)))"

definition get_room :: "uuid \<Rightarrow> uuid \<Rightarrow> audio_rooms \<Rightarrow> room option" where
  "get_room community ch rooms = map_of rooms (community, ch)"

text \<open>\<open>matches.next()\<close> twice: the only room of the channel, with its key.\<close>

definition unambiguous_entry :: "uuid \<Rightarrow> audio_rooms \<Rightarrow> ((uuid \<times> uuid) \<times> room) option" where
  "unambiguous_entry ch rooms =
     (case filter (\<lambda>((_, c), _). c = ch) rooms of
        [] \<Rightarrow> None
      | [entry] \<Rightarrow> Some entry
      | _ \<Rightarrow> None)"

definition get_unambiguous_by_channel :: "uuid \<Rightarrow> audio_rooms \<Rightarrow> room option" where
  "get_unambiguous_by_channel ch rooms = map_option snd (unambiguous_entry ch rooms)"

definition cleanup_if_empty :: "uuid \<Rightarrow> uuid \<Rightarrow> audio_rooms \<Rightarrow> audio_rooms \<times> bool" where
  "cleanup_if_empty community ch rooms =
     (case map_of rooms (community, ch) of
        Some r \<Rightarrow> if room_is_empty r then (AList.delete (community, ch) rooms, True) else (rooms, False)
      | None \<Rightarrow> (rooms, False))"

section \<open>The frame header\<close>

definition V2_HEADER_LEN :: nat where "V2_HEADER_LEN = 8"
definition FLAG_DTX :: byte where "FLAG_DTX = 1"

record frame_header =
  fh_seq :: u16
  ts_48k :: "32 word"
  level_dbov :: "8 word"
  fh_flags :: byte

definition is_dtx :: "frame_header \<Rightarrow> bool" where
  "is_dtx h \<longleftrightarrow> and (fh_flags h) FLAG_DTX \<noteq> 0"

definition be_word :: "byte list \<Rightarrow> 'a::len word" where
  "be_word bs = foldl (\<lambda>acc b. acc * 256 + ucast b) 0 bs"

text \<open>The level is an \<open>i8\<close>: the byte read as a signed number, \<open>129\<close> is \<open>-127\<close>.\<close>

definition parse_frame_header :: "byte list \<Rightarrow> (frame_header \<times> byte list) option" where
  "parse_frame_header bytes =
     (if length bytes < V2_HEADER_LEN then None
      else
        (let raw_level = bytes ! 6
         in Some (\<lparr>fh_seq = be_word [bytes ! 0, bytes ! 1],
                   ts_48k = be_word [bytes ! 2, bytes ! 3, bytes ! 4, bytes ! 5],
                   level_dbov = (if -127 \<le> sint raw_level \<and> sint raw_level \<le> 0 then raw_level else 129),
                   fh_flags = bytes ! 7\<rparr>,
                  drop V2_HEADER_LEN bytes)))"

section \<open>The generation fence\<close>

type_synonym generation_floor = "(uuid, 64 word) amap"

datatype fence_verdict = Accept (advanced: bool) | RejectStale (known: "64 word")

definition fence_check :: "uuid \<Rightarrow> 64 word \<Rightarrow> generation_floor \<Rightarrow> generation_floor \<times> fence_verdict" where
  "fence_check session generation seen =
     (case map_of seen session of
        Some k \<Rightarrow>
          if generation < k then (seen, RejectStale k)
          else (if generation > k then AList.update session generation seen else seen, Accept (generation > k))
      | None \<Rightarrow> (AList.update session generation seen, Accept False))"

definition fence_forget :: "uuid \<Rightarrow> generation_floor \<Rightarrow> generation_floor" where
  "fence_forget session seen = AList.delete session seen"

record mesh_datagram =
  md_session :: uuid
  md_generation :: "64 word"
  md_owner :: "byte list"
  md_seq :: "64 word"
  md_payload :: "byte list"

record mesh_router =
  mr_rooms :: audio_rooms
  mr_fence :: generation_floor

definition on_media_datagram :: "mesh_datagram \<Rightarrow> mesh_router \<Rightarrow> mesh_router \<times> fence_verdict" where
  "on_media_datagram d m =
     (case fence_check (md_session d) (md_generation d) (mr_fence m) of
        (f, verdict) \<Rightarrow>
          (let m1 = m\<lparr>mr_fence := f\<rparr>
           in case verdict of
                RejectStale _ \<Rightarrow> (m1, verdict)
              | Accept _ \<Rightarrow>
                  (case unambiguous_entry (md_session d) (mr_rooms m) of
                     None \<Rightarrow> (m1, verdict)
                   | Some (key, r) \<Rightarrow>
                       (case md_payload d of
                          [] \<Rightarrow> (m1, verdict)
                        | author # rest \<Rightarrow>
                            (m1\<lparr>mr_rooms := AList.update key (deliver_prefixed author (author # rest) r) (mr_rooms m)\<rparr>,
                             verdict)))))"

section \<open>Runs\<close>

datatype room_label = Join | Leave | AutoEnd | MarkEnd | ClearEnd | Traffic

text \<open>Anything the receiving ends of the channels may do: take messages or go away.\<close>

definition channels_only :: "(uuid \<Rightarrow> audio_peer \<Rightarrow> audio_peer) \<Rightarrow> bool" where
  "channels_only f \<longleftrightarrow>
     (\<forall>pid p. roster_entry (f pid p) = roster_entry p \<and> protocol_version (f pid p) = protocol_version p)"

inductive room_step :: "room_label \<Rightarrow> room \<Rightarrow> room \<Rightarrow> bool" where
  step_add: "pid \<notin> fst ` set (peers r) \<Longrightarrow> room_step Join r (fst (add_peer pid pk v r))"
| step_add_at: "pid \<notin> fst ` set (peers r) \<Longrightarrow> room_step Join r (fst (add_peer_at_index pid pk v idx r))"
| step_remove: "room_step Leave r (fst (remove_peer pid r))"
| step_check: "remove_peer_and_check_ended pid r = (r', res) \<Longrightarrow>
     room_step (if \<exists>d. res = Some (d, True) then AutoEnd else Leave) r r'"
| step_mark: "room_step MarkEnd r (fst (mark_ended r))"
| step_clear: "room_step ClearEnd r (clear_ended r)"
| step_frame: "room_step Traffic r (broadcast_frame sender frame r)"
| step_deliver: "room_step Traffic r (deliver_prefixed author frame r)"
| step_control: "room_step Traffic r (broadcast_control json r)"
| step_channels: "channels_only f \<Longrightarrow> room_step Traffic r (map_peers f r)"

inductive room_run :: "room \<Rightarrow> room_label list \<Rightarrow> room \<Rightarrow> bool" where
  run_nil: "room_run r [] r"
| run_snoc: "room_run r ls r1 \<Longrightarrow> room_step l r1 r2 \<Longrightarrow> room_run r (ls @ [l]) r2"

section \<open>Invariant\<close>

definition joined_peers :: "roster_delta list \<Rightarrow> roster_peer list" where
  "joined_peers log = concat (map (\<lambda>d. case rd_joined d of None \<Rightarrow> [] | Some p \<Rightarrow> [p]) log)"

text \<open>The epochs handed out for an index, in order.\<close>

definition epochs_of :: "roster_delta list \<Rightarrow> byte \<Rightarrow> byte list" where
  "epochs_of log i = map rp_epoch (filter (\<lambda>p. rp_index p = i) (joined_peers log))"

definition epoch_slot :: "admission_guard \<Rightarrow> byte \<Rightarrow> byte" where
  "epoch_slot g i = (case map_of (index_epochs g) i of None \<Rightarrow> 0 | Some e \<Rightarrow> e)"

text \<open>What a receiver of the deltas makes of them.\<close>

definition apply_delta :: "roster_peer set \<Rightarrow> roster_delta \<Rightarrow> roster_peer set" where
  "apply_delta S d =
     (case rd_left d of None \<Rightarrow> S | Some p \<Rightarrow> S - {p}) \<union> (case rd_joined d of None \<Rightarrow> {} | Some p \<Rightarrow> {p})"

definition roster :: "room \<Rightarrow> roster_peer set" where
  "roster r = (\<lambda>(_, p). roster_entry p) ` set (peers r)"

definition seats_ok :: "room \<Rightarrow> bool" where
  "seats_ok r \<longleftrightarrow>
     distinct (map fst (peers r)) \<and> distinct (map (\<lambda>(_, p). peer_index p) (peers r))
     \<and> set (active_indices (guard r)) = (\<lambda>(_, p). peer_index p) ` set (peers r)
     \<and> length (peers r) \<le> MAX_PEERS_PER_ROOM
     \<and> (\<forall>(_, p)\<in>set (peers r). pinned_version (guard r) = Some (protocol_version p))
     \<and> next_candidate (guard r) \<noteq> 255"

definition epochs_ok :: "room \<Rightarrow> bool" where
  "epochs_ok r \<longleftrightarrow>
     (\<forall>i. epochs_of (roster_tx r) i = map of_nat [0..<length (epochs_of (roster_tx r) i)]
        \<and> epoch_slot (guard r) i = of_nat (length (epochs_of (roster_tx r) i)))
     \<and> (\<forall>(_, p)\<in>set (peers r). epoch p + 1 = epoch_slot (guard r) (peer_index p))"

definition log_ok :: "room \<Rightarrow> bool" where
  "log_ok r \<longleftrightarrow>
     roster r = foldl apply_delta {} (roster_tx r)
     \<and> map rd_revision (roster_tx r) = map of_nat [1..<Suc (length (roster_tx r))]
     \<and> roster_revision (guard r) = of_nat (length (roster_tx r))"

definition room_inv :: "room \<Rightarrow> bool" where
  "room_inv r \<longleftrightarrow> seats_ok r \<and> epochs_ok r \<and> log_ok r"

lemma room_inv_new: "room_inv (room_new c ch)"
  by (simp add: room_inv_def seats_ok_def epochs_ok_def log_ok_def room_new_def guard_new_def epochs_of_def
      joined_peers_def epoch_slot_def roster_def MAX_PEERS_PER_ROOM_def)

lemma update_fresh: "k \<notin> fst ` set m \<Longrightarrow> AList.update k v m = m @ [(k, v)]"
  by (induction m) auto

lemma next_index_neq_255: "next_index i \<noteq> 255"
proof (cases "i = 254")
  case False
  have "i + 1 \<noteq> 255"
  proof
    assume "i + 1 = 255"
    then have "i + 1 - 1 = 254" by simp
    then show False using False by simp
  qed
  then show ?thesis using False by (simp add: next_index_def)
qed (simp add: next_index_def)

lemma joined_peers_snoc [simp]:
  "joined_peers (log @ [d]) = joined_peers log @ (case rd_joined d of None \<Rightarrow> [] | Some p \<Rightarrow> [p])"
  by (simp add: joined_peers_def)

lemma epochs_of_snoc [simp]:
  "epochs_of (log @ [d]) i =
     epochs_of log i @ (case rd_joined d of None \<Rightarrow> [] | Some p \<Rightarrow> if rp_index p = i then [rp_epoch p] else [])"
  by (auto simp: epochs_of_def split: option.split)

lemma insert_peer_views:
  assumes "insert_peer pid pk v idx e g r = (r', revision)" "pid \<notin> fst ` set (peers r)"
  shows "peers r' = peers r @ [(pid, \<lparr>ap_pubkey = pk, audio_tx = channel AUDIO_CHANNEL_CAPACITY,
           ctrl_tx = channel CTRL_CHANNEL_CAPACITY, peer_index = idx, epoch = e, protocol_version = v\<rparr>)]"
    and "guard r' = g\<lparr>roster_revision := roster_revision g + 1\<rparr>"
    and "roster_tx r' = roster_tx r @ [\<lparr>rd_revision = roster_revision g + 1,
           rd_joined = Some \<lparr>rp_pubkey = pk, rp_index = idx, rp_epoch = e\<rparr>, rd_left = None\<rparr>]"
    and "revision = roster_revision g + 1"
  using assms by (auto simp: insert_peer_def Let_def update_fresh)

lemma join_inv:
  assumes inv: "room_inv r" and ins: "insert_peer pid pk v idx e g r = (r', revision)"
    and fresh: "pid \<notin> fst ` set (peers r)" "idx \<notin> set (active_indices (guard r))"
    and room: "length (peers r) < MAX_PEERS_PER_ROOM"
    and pin: "version_mismatch (pinned_version (guard r)) v = None" "pinned_version g = get_or_insert v (pinned_version (guard r))"
    and g: "set (active_indices g) = insert idx (set (active_indices (guard r)))" "next_candidate g \<noteq> 255"
      "roster_revision g = roster_revision (guard r)"
      "index_epochs g = AList.update idx (e + 1) (index_epochs (guard r))" "e = epoch_slot (guard r) idx"
  shows "room_inv r'"
proof -
  note views = insert_peer_views [OF ins fresh(1)]
  have "pinned_version g = Some v"
    using pin by (auto simp: version_mismatch_def get_or_insert_def split: option.splits if_splits)
  moreover have "pinned_version (guard r) = Some w \<Longrightarrow> w = v" for w
    using pin(1) by (auto simp: version_mismatch_def split: if_splits)
  ultimately have "seats_ok r'"
    using inv fresh room g(1,2) unfolding room_inv_def seats_ok_def views
    by (auto simp: MAX_PEERS_PER_ROOM_def)
  moreover have "epochs_ok r'"
  proof -
    have "epoch_slot (guard r') i = (if i = idx then e + 1 else epoch_slot (guard r) i)" for i
      using g(4) by (simp add: views epoch_slot_def)
    moreover have "peer_index p \<noteq> idx" if "(k, p) \<in> set (peers r)" for k p
      using fresh(2) that inv by (force simp: room_inv_def seats_ok_def)
    ultimately show ?thesis
      using inv g(5) unfolding room_inv_def epochs_ok_def views(1,3) by (auto simp: add.commute)
  qed
  moreover have "roster r' = insert \<lparr>rp_pubkey = pk, rp_index = idx, rp_epoch = e\<rparr> (roster r)"
    by (simp add: roster_def views roster_entry_def)
  then have "log_ok r'"
    using inv g(3) unfolding room_inv_def log_ok_def views
    by (simp add: apply_delta_def add.commute)
  ultimately show ?thesis by (simp add: room_inv_def)
qed

lemma alloc_loop_Some:
  "alloc_loop n g = (g', Some (idx, e)) \<Longrightarrow>
     idx \<notin> set (active_indices g) \<and> active_indices g' = idx # active_indices g
     \<and> index_epochs g' = AList.update idx (e + 1) (index_epochs g) \<and> e = epoch_slot g idx
     \<and> next_candidate g' = next_index idx \<and> roster_revision g' = roster_revision g
     \<and> pinned_version g' = pinned_version g \<and> ended g' = ended g"
proof (induction n arbitrary: g)
  case (Suc n)
  show ?case
  proof (cases "next_candidate g \<in> set (active_indices g)")
    case True
    with Suc.IH [of "g\<lparr>next_candidate := next_index (next_candidate g)\<rparr>"] Suc.prems show ?thesis
      by (simp add: Let_def epoch_slot_def)
  next
    case False
    with Suc.prems show ?thesis by (auto simp: Let_def next_epoch_for_def epoch_slot_def)
  qed
qed simp

lemma unat_below_255:
  assumes "i \<noteq> (255 :: byte)"
  shows "unat i < 255"
proof -
  have "unat i \<noteq> 255" using assms by (simp add: unat_eq_literal)
  then show ?thesis using byte_bound [of i] by simp
qed

lemma unat_next_index:
  assumes "i \<noteq> 255"
  shows "unat (next_index i) = Suc (unat i) mod 255"
proof (cases "i = 254")
  case False
  then have "unat i \<noteq> 254" by (simp add: unat_eq_literal)
  then have "unat i < 254" using unat_below_255 [OF assms] by simp
  then show ?thesis using False by (simp add: next_index_def unat_word_ariths)
qed (simp add: next_index_def)

lemma alloc_loop_None:
  "alloc_loop n g = (g', None) \<Longrightarrow> next_candidate g \<noteq> 255 \<Longrightarrow> k < n \<Longrightarrow>
     of_nat ((unat (next_candidate g) + k) mod 255) \<in> set (active_indices g)"
proof (induction n arbitrary: g k)
  case (Suc n)
  let ?g = "g\<lparr>next_candidate := next_index (next_candidate g)\<rparr>"
  have lt: "unat (next_candidate g) < 255" by (rule unat_below_255 [OF Suc.prems(2)])
  have taken: "next_candidate g \<in> set (active_indices g)" and rec: "alloc_loop n ?g = (g', None)"
    using Suc.prems(1) by (auto simp: Let_def split: if_splits prod.splits)
  show ?case
  proof (cases k)
    case 0
    with taken lt show ?thesis by simp
  next
    case (Suc j)
    have "of_nat ((unat (next_candidate ?g) + j) mod 255) \<in> set (active_indices ?g)"
      using Suc Suc.prems rec next_index_neq_255 by (intro Suc.IH) auto
    moreover have "(unat (next_candidate ?g) + j) mod 255 = (unat (next_candidate g) + k) mod 255"
      using unat_next_index [OF Suc.prems(2)] Suc by (simp add: mod_add_left_eq)
    ultimately show ?thesis by simp
  qed
qed simp

lemma alloc_succeeds:
  assumes "next_candidate g \<noteq> 255" "card (set (active_indices g)) < 255"
  shows "\<exists>g' idx e. alloc g = (g', Some (idx, e))"
proof (cases "alloc g")
  case (Pair g' r)
  show ?thesis
  proof (cases r)
    case None
    let ?c = "unat (next_candidate g)"
    let ?f = "\<lambda>k. of_nat ((?c + k) mod 255) :: byte"
    have "inj_on ?f {..<255}"
    proof (rule inj_onI)
      fix j k assume "j \<in> {..<255}" "k \<in> {..<255}" "?f j = ?f k"
      then have "unat (?f j) = unat (?f k)" by simp
      then have "(?c + j) mod 255 = (?c + k) mod 255"
        by (simp add: unat_of_nat less_trans [OF mod_less_divisor])
      moreover have "(?c + i) mod 255 = (if ?c + i < 255 then ?c + i else ?c + i - 255)" if "i < 255" for i
        using unat_below_255 [OF assms(1)] that by (simp add: le_mod_geq)
      ultimately show "j = k" using \<open>j \<in> _\<close> \<open>k \<in> _\<close> unat_below_255 [OF assms(1)]
        by (auto split: if_splits)
    qed
    then have "card (?f ` {..<255}) = 255" by (simp add: card_image)
    moreover have "?f ` {..<255} \<subseteq> set (active_indices g)"
      using alloc_loop_None [of 255 g g'] Pair None assms(1) by (auto simp: alloc_def)
    then have "card (?f ` {..<255}) \<le> card (set (active_indices g))" by (simp add: card_mono)
    ultimately show ?thesis using assms(2) by simp
  qed (use Pair in auto)
qed

lemma alloc_loop_index:
  "alloc_loop n g = (g', Some (idx, e)) \<Longrightarrow> next_candidate g \<noteq> 255 \<Longrightarrow> idx \<noteq> 255"
proof (induction n arbitrary: g)
  case (Suc n)
  with Suc.IH [of "g\<lparr>next_candidate := next_index (next_candidate g)\<rparr>"] show ?case
    by (auto simp: Let_def next_index_neq_255 split: if_splits prod.splits)
qed simp

lemma active_card: "seats_ok r \<Longrightarrow> card (set (active_indices (guard r))) \<le> length (peers r)"
  by (simp add: seats_ok_def) (metis List.card_set length_map length_remdups_leq set_map)

lemma add_peer_cases:
  assumes inv: "room_inv r" and add: "add_peer pid pk v r = (r', res)"
  obtains (refused) e where "res = Inl e" "r' = r"
      "e = Ended \<and> ended (guard r) \<or> e = Full \<and> \<not> ended (guard r) \<and> length (peers r) = 25
       \<or> (\<exists>w. e = VersionMismatch w v \<and> \<not> ended (guard r) \<and> length (peers r) < 25
              \<and> pinned_version (guard r) = Some w \<and> w \<noteq> v)"
  | (admitted) g idx e revision where
      "res = Inr (pid, idx, e, revision)" "insert_peer pid pk v idx e g r = (r', revision)"
      "idx \<notin> set (active_indices (guard r))" "idx \<noteq> 255" "e = epoch_slot (guard r) idx"
      "length (peers r) < MAX_PEERS_PER_ROOM" "\<not> ended (guard r)"
      "version_mismatch (pinned_version (guard r)) v = None"
      "pinned_version g = get_or_insert v (pinned_version (guard r))"
      "set (active_indices g) = insert idx (set (active_indices (guard r)))" "next_candidate g \<noteq> 255"
      "roster_revision g = roster_revision (guard r)"
      "index_epochs g = AList.update idx (e + 1) (index_epochs (guard r))"
proof (cases "ended (guard r) \<or> length (peers r) \<ge> MAX_PEERS_PER_ROOM
    \<or> version_mismatch (pinned_version (guard r)) v \<noteq> None")
  case True
  have cap: "length (peers r) \<le> 25" using inv by (simp add: room_inv_def seats_ok_def MAX_PEERS_PER_ROOM_def)
  from True consider "ended (guard r)" | "\<not> ended (guard r)" "length (peers r) = 25"
    | w where "\<not> ended (guard r)" "length (peers r) < 25" "pinned_version (guard r) = Some w" "w \<noteq> v"
    using cap by (fastforce simp: version_mismatch_def MAX_PEERS_PER_ROOM_def split: option.splits if_splits)
  then show thesis
  proof cases
    case 1
    with add show thesis by (intro refused [of Ended]) (auto simp: add_peer_def)
  next
    case 2
    with add show thesis by (intro refused [of Full]) (auto simp: add_peer_def MAX_PEERS_PER_ROOM_def)
  next
    case 3
    with add show thesis
      by (intro refused [of "VersionMismatch w v"]) (auto simp: add_peer_def MAX_PEERS_PER_ROOM_def version_mismatch_def)
  qed
next
  case False
  have s: "seats_ok r" using inv by (simp add: room_inv_def)
  have "card (set (active_indices (guard r))) < 255"
    using active_card [OF s] False by (simp add: MAX_PEERS_PER_ROOM_def)
  moreover have "next_candidate (guard r) \<noteq> 255" using s by (simp add: seats_ok_def)
  ultimately obtain g1 idx e where a: "alloc (guard r) = (g1, Some (idx, e))"
    using alloc_succeeds by blast
  note f = alloc_loop_Some [OF a [unfolded alloc_def]]
  let ?g = "g1\<lparr>pinned_version := get_or_insert v (pinned_version g1)\<rparr>"
  obtain r1 revision where ins: "insert_peer pid pk v idx e ?g r = (r1, revision)"
    by (cases "insert_peer pid pk v idx e ?g r")
  have "idx \<noteq> 255" using a \<open>next_candidate (guard r) \<noteq> 255\<close>
    by (auto simp: alloc_def dest: alloc_loop_index)
  with f ins a False add show thesis
    by (intro admitted [of idx e revision ?g]) (auto simp: add_peer_def next_index_neq_255)
qed

lemma add_peer_inv:
  assumes "room_inv r" "pid \<notin> fst ` set (peers r)"
  shows "room_inv (fst (add_peer pid pk v r))"
proof -
  obtain r' res where add: "add_peer pid pk v r = (r', res)" by (cases "add_peer pid pk v r")
  show ?thesis using assms(1) add
  proof (cases rule: add_peer_cases)
    case refused
    then show ?thesis using assms add by simp
  next
    case (admitted g idx e revision)
    from join_inv [OF assms(1) admitted(2) assms(2) admitted(3,6,8,9,10,11,12,13,5)] show ?thesis
      using add by simp
  qed
qed

lemma add_peer_at_index_inv:
  assumes "room_inv r" "pid \<notin> fst ` set (peers r)"
  shows "room_inv (fst (add_peer_at_index pid pk v idx r))"
proof (cases "ended (guard r) \<or> length (peers r) \<ge> MAX_PEERS_PER_ROOM \<or> idx \<in> set (active_indices (guard r))
    \<or> version_mismatch (pinned_version (guard r)) v \<noteq> None")
  case True
  then show ?thesis using assms(1) by (auto simp: add_peer_at_index_def Let_def split: option.splits)
next
  case False
  let ?e = "epoch_slot (guard r) idx"
  let ?g = "(guard r)\<lparr>pinned_version := get_or_insert v (pinned_version (guard r)),
      active_indices := idx # active_indices (guard r),
      index_epochs := AList.update idx (?e + 1) (index_epochs (guard r)), next_candidate := next_index idx\<rparr>"
  obtain r' revision where ins: "insert_peer pid pk v idx ?e ?g r = (r', revision)"
    by (cases "insert_peer pid pk v idx ?e ?g r")
  have "room_inv r'"
    by (rule join_inv [OF assms(1) ins assms(2)]) (use False in \<open>simp_all add: next_index_neq_255\<close>)
  moreover have "fst (add_peer_at_index pid pk v idx r) = r'"
    using False ins by (simp add: add_peer_at_index_def next_epoch_for_def epoch_slot_def Let_def)
  ultimately show ?thesis by simp
qed

lemma leave_inv:
  assumes inv: "room_inv r" and p: "map_of (peers r) pid = Some p"
    and r': "peers r' = AList.delete pid (peers r)"
      "set (active_indices (guard r')) = set (active_indices (guard r)) - {peer_index p}"
      "roster_tx r' = roster_tx r @ [leave_delta (roster_revision (guard r) + 1) p]"
      "roster_revision (guard r') = roster_revision (guard r) + 1"
      "index_epochs (guard r') = index_epochs (guard r)" "pinned_version (guard r') = pinned_version (guard r)"
      "next_candidate (guard r') = next_candidate (guard r)"
  shows "room_inv r'"
proof -
  have d: "distinct (map fst (peers r))" "distinct (map (\<lambda>(_, p). peer_index p) (peers r))"
    using inv by (simp_all add: room_inv_def seats_ok_def)
  have mem: "(pid, p) \<in> set (peers r)" using p by (rule map_of_SomeD)
  have inj: "q = p \<and> k = pid" if "(k, q) \<in> set (peers r)" "peer_index q = peer_index p" for k q
    using d(2) mem that by (auto simp: distinct_map inj_on_def)
  have sub: "set (peers r') = set (peers r) - {(pid, p)}"
    using d(1) mem unfolding r'(1) by (auto simp: AList.delete_eq dest: eq_key_imp_eq_value)
  have "seats_ok r'"
  proof -
    have "length (peers r') \<le> length (peers r)" by (simp add: r'(1) AList.delete_eq)
    moreover have "(\<lambda>(_, p). peer_index p) ` set (peers r') =
        (\<lambda>(_, p). peer_index p) ` set (peers r) - {peer_index p}"
      using inj unfolding sub by fastforce
    moreover have "distinct (map (\<lambda>(_, p). peer_index p) (peers r'))"
      unfolding r'(1) AList.delete_eq by (rule distinct_map_filter [OF d(2)])
    moreover have "distinct (map fst (peers r'))" using d(1) by (simp add: r'(1) distinct_delete)
    ultimately show ?thesis using inv sub r' by (auto simp: room_inv_def seats_ok_def)
  qed
  moreover have "epochs_ok r'"
    using inv sub by (auto simp: room_inv_def epochs_ok_def r' epoch_slot_def leave_delta_def)
  moreover have "roster r' = roster r - {roster_entry p}"
  proof -
    have "inj_on (\<lambda>(_, q). roster_entry q) (set (peers r))"
      using d(2) by (auto simp: distinct_map inj_on_def roster_entry_def)
    from inj_on_image_set_diff [OF this, of "set (peers r)" "{(pid, p)}"] mem show ?thesis
      unfolding roster_def sub by simp
  qed
  then have "log_ok r'"
    using inv by (simp add: room_inv_def log_ok_def r' apply_delta_def leave_delta_def add.commute)
  ultimately show ?thesis by (simp add: room_inv_def)
qed

lemma remove_peer_inv:
  assumes "room_inv r"
  shows "room_inv (fst (remove_peer pid r))"
proof (cases "map_of (peers r) pid")
  case (Some p)
  show ?thesis by (rule leave_inv [OF assms Some]) (simp_all add: remove_peer_def Let_def Some)
qed (use assms in \<open>simp add: remove_peer_def\<close>)

lemma remove_check_inv:
  assumes "room_inv r"
  shows "room_inv (fst (remove_peer_and_check_ended pid r))"
proof (cases "map_of (peers r) pid")
  case (Some p)
  show ?thesis by (rule leave_inv [OF assms Some]) (simp_all add: remove_peer_and_check_ended_def Let_def Some)
qed (use assms in \<open>simp add: remove_peer_and_check_ended_def\<close>)

lemma set_ended_inv: "room_inv r \<Longrightarrow> room_inv (r\<lparr>guard := (guard r)\<lparr>ended := b\<rparr>\<rparr>)"
  by (auto simp: room_inv_def seats_ok_def epochs_ok_def log_ok_def epoch_slot_def roster_def)

lemma channels_only_facts:
  assumes "channels_only f"
  shows "peer_index (f pid p) = peer_index p" "protocol_version (f pid p) = protocol_version p"
    "roster_entry (f pid p) = roster_entry p" "epoch (f pid p) = epoch p"
  using assms by (auto simp: channels_only_def roster_entry_def)

lemma map_peers_inv:
  assumes "channels_only f" "room_inv r"
  shows "room_inv (map_peers f r)"
proof -
  note c = channels_only_facts [OF assms(1)]
  have "map fst (peers (map_peers f r)) = map fst (peers r)"
    "map (\<lambda>(_, p). peer_index p) (peers (map_peers f r)) = map (\<lambda>(_, p). peer_index p) (peers r)"
    by (auto simp: map_peers_def c)
  moreover have "(\<lambda>(_, p). peer_index p) ` set (peers (map_peers f r)) = (\<lambda>(_, p). peer_index p) ` set (peers r)"
    and "roster (map_peers f r) = roster r"
    by (force simp: map_peers_def roster_def c image_image)+
  ultimately show ?thesis using assms(2)
    by (auto simp: room_inv_def seats_ok_def epochs_ok_def log_ok_def c) (auto simp: map_peers_def c)
qed

lemma fan_out_channels_only:
  "channels_only (\<lambda>pid p. if pid = sender then p else send_audio frame p)"
  "channels_only (\<lambda>_ p. if peer_index p = author then p else send_audio frame p)"
  "channels_only (\<lambda>_ p. send_ctrl msg p)"
  by (auto simp: channels_only_def send_audio_def send_ctrl_def roster_entry_def split: prod.split bool.split)

text \<open>Every step of traffic is a change of channels.\<close>

lemma traffic_step:
  assumes "room_step Traffic r r'"
  obtains f where "channels_only f" "r' = map_peers f r"
  using assms
proof cases
  case (step_frame sender frame)
  then show thesis
  proof (cases "map_of (peers r) sender")
    case None
    have "map_peers (\<lambda>_ p. p) r = r" by (simp add: map_peers_def)
    with None step_frame show thesis by (intro that [of "\<lambda>_ p. p"]) (auto simp: broadcast_frame_def channels_only_def)
  next
    case (Some s)
    with step_frame show thesis by (intro that [OF fan_out_channels_only(1)]) (simp add: broadcast_frame_def)
  qed
next
  case (step_deliver author frame)
  then show thesis by (intro that [OF fan_out_channels_only(2)]) (simp add: deliver_prefixed_def)
next
  case (step_control json)
  then show thesis by (intro that [OF fan_out_channels_only(3)]) (simp add: broadcast_control_def)
qed (use that in \<open>auto split: if_splits\<close>)

lemma room_step_inv:
  assumes "room_step l r r'" "room_inv r"
  shows "room_inv r'"
proof (cases "l = Traffic")
  case True
  with assms obtain f where "channels_only f" "r' = map_peers f r" using traffic_step by blast
  then show ?thesis using map_peers_inv assms(2) by simp
next
  case False
  with assms show ?thesis
  proof cases
    case (step_check pid res)
    then show ?thesis using remove_check_inv [OF assms(2), of pid] by simp
  qed (auto simp: add_peer_inv add_peer_at_index_inv remove_peer_inv mark_ended_def clear_ended_def set_ended_inv)
qed

lemma room_run_inv: "room_run r ls r' \<Longrightarrow> room_inv r \<Longrightarrow> room_inv r'"
  by (induction rule: room_run.induct) (auto intro: room_step_inv)

lemma room_run_new_inv: "room_run (room_new c ch) ls r \<Longrightarrow> room_inv r"
  by (rule room_run_inv [OF _ room_inv_new])

section \<open>Properties\<close>

lemma room_step_log:
  assumes "room_step l r r'"
  shows "\<exists>ds. roster_tx r' = roster_tx r @ ds"
proof (cases "l = Traffic")
  case True
  with assms obtain f where "r' = map_peers f r" using traffic_step by blast
  then show ?thesis by (simp add: map_peers_def)
next
  case False
  with assms show ?thesis
  proof cases
    case (step_check pid res)
    then show ?thesis by (auto simp: remove_peer_and_check_ended_def Let_def split: option.splits)
  qed (auto simp: add_peer_def add_peer_at_index_def insert_peer_def remove_peer_def mark_ended_def clear_ended_def
      Let_def split: option.splits prod.splits)
qed

lemma room_run_log: "room_run r ls r' \<Longrightarrow> \<exists>ds. roster_tx r' = roster_tx r @ ds"
  by (induction rule: room_run.induct) (simp, metis append.assoc room_step_log)

lemma snapshot_peers: "set (rs_peers (roster_snapshot r)) = roster r"
  by (simp add: roster_snapshot_def roster_def)

lemma room_run_append: "room_run r2 ls' r3 \<Longrightarrow> room_run r1 ls r2 \<Longrightarrow> room_run r1 (ls @ ls') r3"
  by (induction rule: room_run.induct) (simp, metis append.assoc run_snoc)

text \<open>
  C21.  Roster replication.  Between any two states of a room's life, the deltas published in between,
  applied in order to the earlier snapshot, give the participants of the later one; they carry the
  consecutive revisions from the one snapshot to the other, and a snapshot lists its participants in
  strictly increasing index order.
\<close>

theorem roster_replay:
  assumes "room_run (room_new c ch) ls r" and "room_run r ls' r'"
  shows "\<exists>ds. roster_tx r' = roster_tx r @ ds
    \<and> set (rs_peers (roster_snapshot r')) = foldl apply_delta (set (rs_peers (roster_snapshot r))) ds
    \<and> rs_revision (roster_snapshot r') = rs_revision (roster_snapshot r) + of_nat (length ds)
    \<and> map rd_revision ds = map (\<lambda>k. rs_revision (roster_snapshot r) + of_nat (Suc k)) [0..<length ds]
    \<and> sorted_wrt (<) (map rp_index (rs_peers (roster_snapshot r')))"
proof -
  obtain ds where ds: "roster_tx r' = roster_tx r @ ds" using room_run_log [OF assms(2)] by blast
  have r: "log_ok r" using room_run_new_inv [OF assms(1)] by (simp add: room_inv_def)
  have r': "log_ok r'" "seats_ok r'"
    using room_run_new_inv [OF room_run_append [OF assms(2,1)]] by (simp_all add: room_inv_def)
  have "map rd_revision ds = drop (length (roster_tx r)) (map rd_revision (roster_tx r'))" by (simp add: ds)
  also have "\<dots> = map of_nat [1 + length (roster_tx r)..<Suc (length (roster_tx r'))]"
    using r'(1) by (simp add: log_ok_def drop_map del: upt_Suc)
  also have "\<dots> = map (\<lambda>k. of_nat (length (roster_tx r)) + of_nat (Suc k)) [0..<length ds]"
    by (rule nth_equalityI) (simp_all add: ds nth_append del: upt_Suc)
  finally have revisions: "map rd_revision ds =
      map (\<lambda>k. rs_revision (roster_snapshot r) + of_nat (Suc k)) [0..<length ds]"
    using r by (simp add: log_ok_def roster_snapshot_def)
  have "distinct (map rp_index (rs_peers (roster_snapshot r')))"
  proof -
    have eq: "map rp_index (map (\<lambda>(_, p). roster_entry p) (peers r')) = map (\<lambda>(_, p). peer_index p) (peers r')"
      by (auto simp: roster_entry_def)
    have "distinct (map rp_index (map (\<lambda>(_, p). roster_entry p) (peers r')))"
      unfolding eq using r'(2) by (simp add: seats_ok_def)
    then show ?thesis by (simp add: roster_snapshot_def distinct_map del: map_map)
  qed
  moreover have "sorted (map rp_index (rs_peers (roster_snapshot r')))" by (simp add: roster_snapshot_def)
  ultimately have "sorted_wrt (<) (map rp_index (rs_peers (roster_snapshot r')))"
    by (simp add: strict_sorted_iff)
  moreover have "roster r' = foldl apply_delta (roster r) ds" using r r'(1) by (simp add: log_ok_def ds)
  moreover have "rs_revision (roster_snapshot r') = rs_revision (roster_snapshot r) + of_nat (length ds)"
    using r r'(1) by (simp add: log_ok_def ds roster_snapshot_def)
  ultimately show ?thesis using ds revisions by (auto simp: snapshot_peers)
qed

text \<open>
  C22.  Admission to a room in any state of its life is decided by the three documented refusals, in their
  order: an ended room, a room with twenty-five peers, another protocol version.  In every other case
  the peer is admitted: the search for a routing index always finds one in 0 to 254 that no peer of
  the room holds.
\<close>

theorem admission_exact:
  assumes "room_run (room_new c ch) ls r"
  shows "case snd (add_peer pid pk v r) of
      Inl Ended \<Rightarrow> ended (guard r)
    | Inl Full \<Rightarrow> \<not> ended (guard r) \<and> length (peers r) = 25
    | Inl (VersionMismatch w v') \<Rightarrow>
        \<not> ended (guard r) \<and> length (peers r) < 25 \<and> v' = v \<and> pinned_version (guard r) = Some w \<and> w \<noteq> v
    | Inr (pid', idx, e, revision) \<Rightarrow>
        \<not> ended (guard r) \<and> length (peers r) < 25 \<and> pinned_version (guard r) \<in> {None, Some v}
        \<and> pid' = pid \<and> idx \<le> 254 \<and> idx \<notin> (\<lambda>(_, p). peer_index p) ` set (peers r)"
proof -
  obtain r' res where add: "add_peer pid pk v r = (r', res)" by (cases "add_peer pid pk v r")
  note inv = room_run_new_inv [OF assms]
  have cap: "length (peers r) \<le> 25" and act: "set (active_indices (guard r)) = (\<lambda>(_, p). peer_index p) ` set (peers r)"
    using inv by (simp_all add: room_inv_def seats_ok_def MAX_PEERS_PER_ROOM_def)
  show ?thesis using inv add
  proof (cases rule: add_peer_cases)
    case (refused e)
    then show ?thesis using add by auto
  next
    case (admitted g idx e revision)
    have "pinned_version (guard r) \<in> {None, Some v}"
      using admitted(8) by (auto simp: version_mismatch_def split: option.splits if_splits)
    moreover have "idx \<le> 254"
      using unat_below_255 [OF admitted(4)] by (simp add: word_le_nat_alt)
    ultimately show ?thesis using admitted act add by (simp add: MAX_PEERS_PER_ROOM_def)
  qed
qed

lemma map_of_peers: "map_of (map (\<lambda>(k, p). (k, f k p)) m) k = map_option (f k) (map_of m k)"
  by (induction m) auto

lemma replay_joined: "p \<in> foldl apply_delta {} log \<Longrightarrow> p \<in> set (joined_peers log)"
  by (induction log rule: rev_induct) (auto simp: apply_delta_def split: option.splits)

lemma occupant_joined: "log_ok r \<Longrightarrow> p \<in> roster r \<Longrightarrow> epochs_of (roster_tx r) (rp_index p) \<noteq> []"
  using replay_joined [of p "roster_tx r"] by (auto simp: log_ok_def epochs_of_def filter_empty_conv)

text \<open>
  Occupancy epochs.  The successive occupants of a routing index get the epochs 0, 1, 2 and so on
  modulo 256, so the first 256 of them are pairwise different and a frame of a departed occupant is
  told apart from those of its successors; the present occupant holds the most recent one.
\<close>

theorem epochs_distinguish_occupants:
  assumes "room_run (room_new c ch) ls r"
  shows "epochs_of (roster_tx r) i = map of_nat [0..<length (epochs_of (roster_tx r) i)]
    \<and> distinct (take 256 (epochs_of (roster_tx r) i))
    \<and> ((pid, p) \<in> set (peers r) \<longrightarrow> epochs_of (roster_tx r) (peer_index p) \<noteq> []
         \<and> epoch p = last (epochs_of (roster_tx r) (peer_index p)))"
proof -
  have ok: "epochs_ok r" "log_ok r" using room_run_new_inv [OF assms] by (simp_all add: room_inv_def)
  then have e: "epochs_of (roster_tx r) i = map of_nat [0..<length (epochs_of (roster_tx r) i)]" for i
    by (simp add: epochs_ok_def)
  have "take 256 [0..<n] = [0..<min 256 n]" for n by (cases "256 \<le> n") simp_all
  then have "distinct (map (of_nat :: nat \<Rightarrow> byte) (take 256 [0..<n]))" for n
    by (auto simp: distinct_map inj_on_def word_of_nat_eq_iff take_bit_nat_eq_self)
  then have d: "distinct (take 256 (epochs_of (roster_tx r) i))"
    by (subst e) (simp add: take_map)
  have "epochs_of (roster_tx r) (peer_index p) \<noteq> [] \<and> epoch p = last (epochs_of (roster_tx r) (peer_index p))"
    if "(pid, p) \<in> set (peers r)"
  proof -
    let ?es = "epochs_of (roster_tx r) (peer_index p)"
    have mem: "roster_entry p \<in> roster r" using that by (force simp: roster_def)
    have ne: "?es \<noteq> []" using occupant_joined [OF ok(2) mem] by (simp add: roster_entry_def)
    have "epoch p + 1 = of_nat (length ?es)" using ok(1) that by (auto simp: epochs_ok_def)
    also have "\<dots> = of_nat (length ?es - 1) + 1" using ne by (cases ?es) simp_all
    finally have "epoch p = of_nat (length ?es - 1)" by simp
    also have "\<dots> = last ?es" using ne by (subst (2) e) (simp add: last_map)
    finally show ?thesis using ne by simp
  qed
  then show ?thesis using e d by blast
qed

text \<open>
  Frames.  A broadcast in a room in any state of its life reaches every other peer whose queue has a
  free slot, and nobody else: the sender and full or closed queues are unchanged.  The routing prefix
  has the shape of the receiver's own protocol version, because all peers of a room share one.
\<close>

theorem frame_delivery:
  assumes "room_run (room_new c ch) ls r" and "map_of (peers r) sender = Some s"
    and "map_of (peers r) pid = Some p"
  shows "\<exists>p'. map_of (peers (broadcast_frame sender frame r)) pid = Some p'
    \<and> p' = p\<lparr>audio_tx := audio_tx p'\<rparr>
    \<and> audio_tx p' =
        (if pid \<noteq> sender \<and> ch_open (audio_tx p) \<and> length (ch_items (audio_tx p)) < ch_cap (audio_tx p)
         then (audio_tx p)\<lparr>ch_items := ch_items (audio_tx p) @
                [(if protocol_version p \<ge> 3 then [peer_index s, epoch s] else [peer_index s]) @ frame]\<rparr>
         else audio_tx p)
    \<and> (pid \<noteq> sender \<longrightarrow> peer_index p \<noteq> peer_index s)"
proof -
  have seats: "seats_ok r" using room_run_new_inv [OF assms(1)] by (simp add: room_inv_def)
  have mem: "(sender, s) \<in> set (peers r)" "(pid, p) \<in> set (peers r)" using assms(2,3) by (auto dest: map_of_SomeD)
  then have "Some (protocol_version s) = pinned_version (guard r)" "pinned_version (guard r) = Some (protocol_version p)"
    using seats by (auto simp: seats_ok_def)
  then have v: "protocol_version s = protocol_version p" by simp
  have "pid \<noteq> sender \<longrightarrow> peer_index p \<noteq> peer_index s"
    using seats mem by (auto simp: seats_ok_def distinct_map inj_on_def)
  moreover have "map_of (peers (broadcast_frame sender frame r)) pid =
      Some (if pid = sender then p else send_audio (prefixed_frame s frame) p)"
    using assms(2,3) by (simp add: broadcast_frame_def map_peers_def map_of_peers)
  ultimately show ?thesis
    by (auto simp: send_audio_def try_send_def prefixed_frame_def v)
qed

lemma ended_step:
  assumes "room_step l r r'" "l \<noteq> ClearEnd" "ended (guard r)"
  shows "ended (guard r')"
proof (cases "l = Traffic")
  case True
  with assms(1) obtain f where "r' = map_peers f r" using traffic_step by blast
  then show ?thesis using assms(3) by (simp add: map_peers_def)
next
  case False
  with assms show ?thesis
  proof cases
    case (step_check pid res)
    then show ?thesis using assms(3) by (auto simp: remove_peer_and_check_ended_def Let_def split: option.splits)
  qed (auto simp: add_peer_def add_peer_at_index_def remove_peer_def mark_ended_def Let_def split: option.split)
qed

lemma auto_end_step:
  assumes "room_step AutoEnd r r'"
  shows "\<not> ended (guard r)" "ended (guard r')"
  using assms
  by (cases, auto simp: remove_peer_and_check_ended_def Let_def split: option.splits if_splits)+

text \<open>
  Automatic end.  As long as nobody clears the flag, a room is ended automatically at most once, and
  from then on it is ended, empty of new peers, and refuses every admission.
\<close>

theorem auto_end_once:
  assumes "room_run (room_new c ch) ls r" and "room_run r ls' r'" and "ClearEnd \<notin> set ls'"
  shows "count_list ls' AutoEnd \<le> 1
    \<and> (AutoEnd \<in> set ls' \<longrightarrow> ended (guard r') \<and> snd (add_peer pid pk v r') = Inl Ended
         \<and> snd (add_peer_at_index pid pk v idx r') = Inl Ended)"
proof -
  from assms(2,3) have "count_list ls' AutoEnd \<le> 1 \<and> (AutoEnd \<in> set ls' \<longrightarrow> ended (guard r'))"
  proof (induction rule: room_run.induct)
    case (run_snoc r ls r1 l r2)
    then have IH: "count_list ls AutoEnd \<le> 1" "AutoEnd \<in> set ls \<Longrightarrow> ended (guard r1)" "l \<noteq> ClearEnd" by auto
    have "count_list ls AutoEnd = 0" if "l = AutoEnd"
      using auto_end_step(1) [OF run_snoc.hyps(2) [unfolded that]] IH(2) by (auto simp: count_list_0_iff)
    then show ?case
      using IH ended_step [OF run_snoc.hyps(2)] auto_end_step(2) run_snoc.hyps(2) by auto
  qed simp
  then show ?thesis by (auto simp: add_peer_def add_peer_at_index_def)
qed

section \<open>The fence\<close>

fun media_run :: "mesh_datagram list \<Rightarrow> mesh_router \<Rightarrow> mesh_router \<times> fence_verdict list" where
  "media_run [] m = (m, [])"
| "media_run (d # ds) m =
     (case on_media_datagram d m of (m1, v) \<Rightarrow> case media_run ds m1 of (m2, vs) \<Rightarrow> (m2, v # vs))"

definition is_live :: "fence_verdict \<Rightarrow> bool" where
  "is_live v = (case v of Accept _ \<Rightarrow> True | RejectStale _ \<Rightarrow> False)"

text \<open>The generations of a session seen so far bound its floor.\<close>

definition floor_is :: "mesh_router \<Rightarrow> mesh_datagram list \<Rightarrow> bool" where
  "floor_is m ds \<longleftrightarrow>
     (\<forall>s. case map_of (mr_fence m) s of
            None \<Rightarrow> (\<forall>d\<in>set ds. md_session d \<noteq> s)
          | Some k \<Rightarrow> (\<exists>d\<in>set ds. md_session d = s \<and> md_generation d = k)
                     \<and> (\<forall>d\<in>set ds. md_session d = s \<longrightarrow> md_generation d \<le> k))"

lemma on_media_datagram_fence:
  "mr_fence (fst (on_media_datagram d m)) = fst (fence_check (md_session d) (md_generation d) (mr_fence m))"
  "snd (on_media_datagram d m) = snd (fence_check (md_session d) (md_generation d) (mr_fence m))"
  "\<not> is_live (snd (on_media_datagram d m)) \<Longrightarrow> mr_rooms (fst (on_media_datagram d m)) = mr_rooms m"
  by (auto simp: on_media_datagram_def Let_def is_live_def split: prod.split fence_verdict.split option.split list.split)

lemma fence_step:
  assumes "floor_is m ds"
  shows "floor_is (fst (on_media_datagram d m)) (ds @ [d])"
    and "is_live (snd (on_media_datagram d m)) \<longleftrightarrow>
           (\<forall>d'\<in>set ds. md_session d' = md_session d \<longrightarrow> md_generation d' \<le> md_generation d)"
proof -
  let ?s = "md_session d"
  have at: "case map_of (mr_fence m) s of
        None \<Rightarrow> (\<forall>d\<in>set ds. md_session d \<noteq> s)
      | Some k \<Rightarrow> (\<exists>d\<in>set ds. md_session d = s \<and> md_generation d = k)
                 \<and> (\<forall>d\<in>set ds. md_session d = s \<longrightarrow> md_generation d \<le> k)" for s
    using assms by (simp add: floor_is_def)
  show "is_live (snd (on_media_datagram d m)) \<longleftrightarrow>
      (\<forall>d'\<in>set ds. md_session d' = ?s \<longrightarrow> md_generation d' \<le> md_generation d)"
    using at [of ?s]
    by (auto simp: on_media_datagram_fence fence_check_def is_live_def split: option.splits)
  show "floor_is (fst (on_media_datagram d m)) (ds @ [d])"
    unfolding floor_is_def
  proof
    fix s
    show "case map_of (mr_fence (fst (on_media_datagram d m))) s of
        None \<Rightarrow> (\<forall>d\<in>set (ds @ [d]). md_session d \<noteq> s)
      | Some k \<Rightarrow> (\<exists>d\<in>set (ds @ [d]). md_session d = s \<and> md_generation d = k)
                 \<and> (\<forall>d\<in>set (ds @ [d]). md_session d = s \<longrightarrow> md_generation d \<le> k)"
      using at [of s] at [of ?s]
      by (cases "s = ?s"; cases "map_of (mr_fence m) ?s")
        (auto simp: on_media_datagram_fence fence_check_def split: option.splits)
  qed
qed

lemma media_run_live:
  "floor_is m pre \<Longrightarrow> length (snd (media_run ds m)) = length ds \<and>
     (\<forall>i<length ds. is_live (snd (media_run ds m) ! i) \<longleftrightarrow>
        (\<forall>d\<in>set (pre @ take i ds). md_session d = md_session (ds ! i) \<longrightarrow> md_generation d \<le> md_generation (ds ! i)))"
proof (induction ds arbitrary: m pre)
  case (Cons d ds)
  obtain m1 v where s: "on_media_datagram d m = (m1, v)" by (cases "on_media_datagram d m")
  note f = fence_step [OF Cons.prems, of d, unfolded s fst_conv snd_conv]
  have "snd (media_run (d # ds) m) = v # snd (media_run ds m1)" by (simp add: s split: prod.split)
  with Cons.IH [OF f(1)] f(2) show ?case by (auto simp: nth_Cons less_Suc_eq_0_disj split: nat.split)
qed simp

lemma stale_datagram_ignored: "\<not> is_live (snd (on_media_datagram d m)) \<Longrightarrow> fst (on_media_datagram d m) = m"
  by (auto simp: on_media_datagram_def fence_check_def Let_def is_live_def split: prod.splits option.splits if_splits list.splits)

lemma media_run_filter:
  "fst (media_run ds m) = fst (media_run (map fst (filter (\<lambda>(_, v). is_live v) (zip ds (snd (media_run ds m))))) m)"
proof (induction ds arbitrary: m)
  case (Cons d ds)
  obtain m1 v where s: "on_media_datagram d m = (m1, v)" by (cases "on_media_datagram d m")
  have "fst (media_run (d # ds) m) = fst (media_run ds m1)" "snd (media_run (d # ds) m) = v # snd (media_run ds m1)"
    by (simp_all add: s split: prod.split)
  with Cons.IH [of m1] stale_datagram_ignored [of d m] s show ?case by (auto split: prod.split)
qed simp

text \<open>
  The generation fence.  Of any sequence of media datagrams arriving at a fresh fence, exactly those
  are live whose generation is not below that of an earlier datagram of the same session; the others
  change nothing, so the rooms end up as if they had never arrived.
\<close>

theorem fence_exact:
  assumes "media_run ds m = (m', vs)" and "mr_fence m = []"
  shows "length vs = length ds
    \<and> (\<forall>i<length ds. is_live (vs ! i) \<longleftrightarrow>
         (\<forall>j<i. md_session (ds ! j) = md_session (ds ! i) \<longrightarrow> md_generation (ds ! j) \<le> md_generation (ds ! i)))
    \<and> m' = fst (media_run (map fst (filter (\<lambda>(_, v). is_live v) (zip ds vs))) m)"
proof -
  have "floor_is m []" using assms(2) by (simp add: floor_is_def)
  note live = media_run_live [OF this, of ds]
  have "(\<forall>d\<in>set (take i ds). P d) \<longleftrightarrow> (\<forall>j<i. P (ds ! j))" if "i < length ds" for i P
    using that by (auto simp: all_set_conv_all_nth)
  with live show ?thesis using media_run_filter [of ds m] assms(1) by simp
qed

section \<open>Witnesses\<close>

definition demo_room :: room where
  "demo_room = fst (add_peer 11 ''alice'' 3 (room_new 1 2))"

definition demo_room2 :: room where
  "demo_room2 = fst (add_peer 12 ''bob'' 3 demo_room)"

lemma demo_run: "room_run (room_new 1 2) [Join] demo_room"
  using run_snoc [OF run_nil step_add [of 11 "room_new 1 2" "''alice''" 3]] by (simp add: demo_room_def room_new_def)

lemma demo_run2: "room_run (room_new 1 2) [Join, Join] demo_room2"
proof -
  have "12 \<notin> fst ` set (peers demo_room)" by code_simp
  from run_snoc [OF demo_run step_add [OF this, of "''bob''" 3]] show ?thesis by (simp add: demo_room2_def)
qed

theorem roster_replay_witness:
  "\<exists>ds. roster_tx demo_room2 = roster_tx demo_room @ ds
     \<and> set (rs_peers (roster_snapshot demo_room2)) = foldl apply_delta (set (rs_peers (roster_snapshot demo_room))) ds"
proof -
  have "12 \<notin> fst ` set (peers demo_room)" by code_simp
  from run_snoc [OF run_nil step_add [OF this, of "''bob''" 3]] have "room_run demo_room [Join] demo_room2"
    by (simp add: demo_room2_def)
  from roster_replay [OF demo_run this] show ?thesis by blast
qed

theorem admission_exact_witness: "pinned_version (guard demo_room2) = Some 3 \<and> length (peers demo_room2) < 25"
proof -
  have r: "snd (add_peer 13 ''carol'' 2 demo_room2) = Inl (VersionMismatch 3 2)" by code_simp
  from admission_exact [OF demo_run2, where pid = 13 and pk = "''carol''" and v = 2] show ?thesis unfolding r by simp
qed

theorem epochs_distinguish_occupants_witness: "epochs_of (roster_tx demo_room2) 1 = [0]"
proof -
  have "length (epochs_of (roster_tx demo_room2) 1) = 1" by code_simp
  with epochs_distinguish_occupants [OF demo_run2, of 1] show ?thesis by simp
qed

theorem frame_delivery_witness:
  "\<exists>p'. map_of (peers (broadcast_frame 11 [7, 7] demo_room2)) 12 = Some p' \<and> ch_items (audio_tx p') = [[0, 0, 7, 7]]"
proof -
  obtain s p where s: "map_of (peers demo_room2) 11 = Some s" and p: "map_of (peers demo_room2) 12 = Some p"
    and f: "peer_index s = 0" "epoch s = 0" "protocol_version p = 3" "ch_open (audio_tx p)" "ch_cap (audio_tx p) = 8"
      "ch_items (audio_tx p) = []"
  proof -
    have "map_of (peers demo_room2) 11 = Some \<lparr>ap_pubkey = ''alice'', audio_tx = channel 8, ctrl_tx = channel 32,
        peer_index = 0, epoch = 0, protocol_version = 3\<rparr>"
      "map_of (peers demo_room2) 12 = Some \<lparr>ap_pubkey = ''bob'', audio_tx = channel 8, ctrl_tx = channel 32,
        peer_index = 1, epoch = 0, protocol_version = 3\<rparr>"
      by code_simp+
    then show ?thesis by (rule that) (simp_all add: channel_def)
  qed
  from frame_delivery [OF demo_run2 s p, of "[7, 7]"] f show ?thesis by auto
qed

theorem auto_end_once_witness:
  "snd (add_peer 13 ''carol'' 3 (fst (remove_peer_and_check_ended 11 demo_room))) = Inl Ended"
proof -
  obtain r' res where r: "remove_peer_and_check_ended 11 demo_room = (r', res)"
    by (cases "remove_peer_and_check_ended 11 demo_room")
  have "map_option snd (snd (remove_peer_and_check_ended 11 demo_room)) = Some True" by code_simp
  then have "\<exists>d. res = Some (d, True)" using r by auto
  then have "room_run demo_room [AutoEnd] r'"
    using run_snoc [OF run_nil step_check [OF r]] by simp
  from auto_end_once [OF demo_run this, where pid = 13 and pk = "''carol''" and v = 3] show ?thesis by (simp add: r)
qed

definition demo_datagram :: "64 word \<Rightarrow> mesh_datagram" where
  "demo_datagram g = \<lparr>md_session = 2, md_generation = g, md_owner = [], md_seq = 0, md_payload = [9, 1]\<rparr>"

theorem fence_exact_witness:
  "\<not> is_live (snd (media_run [demo_datagram 6, demo_datagram 5] \<lparr>mr_rooms = [], mr_fence = []\<rparr>) ! 1)"
proof -
  obtain m' vs where r: "media_run [demo_datagram 6, demo_datagram 5] \<lparr>mr_rooms = [], mr_fence = []\<rparr> = (m', vs)"
    by (cases "media_run [demo_datagram 6, demo_datagram 5] \<lparr>mr_rooms = [], mr_fence = []\<rparr>")
  have "is_live (vs ! 1) \<longleftrightarrow> md_generation (demo_datagram 6) \<le> md_generation (demo_datagram 5)"
    using conjunct1 [OF conjunct2 [OF fence_exact [OF r]], THEN spec, of 1] by (simp add: demo_datagram_def)
  then show ?thesis unfolding r by (simp add: demo_datagram_def)
qed

section \<open>The header\<close>

lemma be_word_unat:
  "256 ^ length bs \<le> (2::nat) ^ LENGTH('a) \<Longrightarrow> unat (be_word bs :: 'a::len word) = foldl (\<lambda>acc b. acc * 256 + unat b) 0 bs"
proof -
  have bound: "foldl (\<lambda>acc b. acc * 256 + unat b) 0 bs < 256 ^ length bs" for bs :: "byte list"
  proof (induction bs rule: rev_induct)
    case (snoc b bs)
    have "foldl (\<lambda>acc b. acc * 256 + unat b) 0 bs * 256 + unat b < (foldl (\<lambda>acc b. acc * 256 + unat b) 0 bs + 1) * 256"
      using byte_bound [of b] by simp
    also have "\<dots> \<le> 256 ^ length bs * 256" using snoc.IH by (intro mult_right_mono) simp_all
    finally show ?case by (simp add: mult.commute)
  qed simp
  have "(be_word bs :: 'a word) = of_nat (foldl (\<lambda>acc b. acc * 256 + unat b) 0 bs)"
    by (induction bs rule: rev_induct) (simp_all add: be_word_def)
  then show "256 ^ length bs \<le> (2::nat) ^ LENGTH('a) \<Longrightarrow> ?thesis"
    using bound [of bs] by (simp add: unat_of_nat)
qed

text \<open>
  The frame header is read from any input of at least eight bytes and from no shorter one; sequence
  number and time stamp are big-endian, the rest of the frame is passed on unchanged, and the reported
  level is the transmitted one when that lies in -127 to 0 and -127 otherwise.
\<close>

theorem frame_header_parse:
  "case bytes of
     a # b # c # d # e # f # g # h # rest \<Rightarrow>
       (\<exists>header. parse_frame_header bytes = Some (header, rest)
         \<and> unat (fh_seq header) = 256 * unat a + unat b
         \<and> unat (ts_48k header) = 16777216 * unat c + 65536 * unat d + 256 * unat e + unat f
         \<and> sint (level_dbov header) = (if -127 \<le> sint g \<and> sint g \<le> 0 then sint g else -127)
         \<and> fh_flags header = h)
   | _ \<Rightarrow> parse_frame_header bytes = None"
proof (cases "parse_frame_header bytes")
  case None
  then have "length bytes < 8" by (simp add: parse_frame_header_def Let_def V2_HEADER_LEN_def split: if_splits)
  then show ?thesis using None by (auto split: list.split)
next
  case (Some r)
  then have "8 \<le> length bytes" by (simp add: parse_frame_header_def V2_HEADER_LEN_def split: if_splits)
  then obtain a b c d e f g h rest where bytes: "bytes = a # b # c # d # e # f # g # h # rest"
    by (auto simp: numeral_eq_Suc Suc_le_length_iff)
  have "unat (be_word [a, b] :: u16) = 256 * unat a + unat b"
    "unat (be_word [c, d, e, f] :: 32 word) = 16777216 * unat c + 65536 * unat d + 256 * unat e + unat f"
    by (simp_all add: be_word_unat)
  then show ?thesis by (simp add: bytes parse_frame_header_def V2_HEADER_LEN_def Let_def)
qed

end
