(* ===== verification/Mesh.thy ===== *)
theory Mesh
  imports Complex_Main Buzz_Prelude "HOL-Library.Char_ord" "HOL-Library.List_Lexorder"
begin

text \<open>
  Membership of the relay mesh (\<open>buzz-relay-mesh/src\<close>): the gossip records and their exchange
  (\<open>gossip.rs\<close>), the failure detector, the membership table fed by attested registry records and gossip
  (\<open>membership.rs\<close>, \<open>registry.rs\<close>), the framing of the wire (\<open>wire.rs\<close>) and the tie-break of
  simultaneous dials (\<open>runtime.rs\<close>).

  The codec, hexadecimal printing, the parsing of public keys and the signature check are the fields of the parameter \<open>mesh_lib\<close>.
  Wall-clock milliseconds are arguments.  The failure detector is modelled in exact real arithmetic; the
  rounding of \<open>f64\<close> is not.  The load factor is carried as its 32 bits.
\<close>

type_synonym runtime_id = "byte list"
type_synonym u64 = "64 word"

section \<open>Gossip records\<close>

record gossip_record =
  gr_runtime_id :: runtime_id
  endpoint_addrs :: "string list"
  proto_version :: u16
  gr_load :: "32 word"
  gr_draining :: bool
  capabilities :: "string list"
  gr_version :: u64
  heartbeat_millis :: u64

record digest_entry =
  de_runtime_id :: runtime_id
  de_version :: u64

datatype gossip_message = Digest byte "digest_entry list" | Delta byte "gossip_record list"

record ready_record =
  rr_runtime_id :: runtime_id
  runtime_pubkey :: string
  relay_pubkey :: string
  relay_sig :: string
  rr_endpoint_addrs :: "string list"
  rr_proto_version :: u16
  rr_capabilities :: "string list"

record mesh_lib =
  to_hex :: "byte list \<Rightarrow> string"
  public_key_hex :: "string \<Rightarrow> string option"
  verify_schnorr :: "string \<Rightarrow> string \<Rightarrow> string \<Rightarrow> bool"
  gossip_to_bytes :: "gossip_message \<Rightarrow> byte list option"
  gossip_from_bytes :: "byte list \<Rightarrow> gossip_message option"

definition GOSSIP_PAYLOAD_VERSION :: byte where "GOSSIP_PAYLOAD_VERSION = 1"
definition WIRE_VERSION :: byte where "WIRE_VERSION = 1"

definition gossip_record_new :: "u64 \<Rightarrow> runtime_id \<Rightarrow> string list \<Rightarrow> u16 \<Rightarrow> gossip_record" where
  "gossip_record_new now rid addrs proto =
     \<lparr>gr_runtime_id = rid, endpoint_addrs = addrs, proto_version = proto, gr_load = 0, gr_draining = False,
      capabilities = [], gr_version = 1, heartbeat_millis = now\<rparr>"

definition saturating_inc :: "u64 \<Rightarrow> u64" where
  "saturating_inc v = (if v = - 1 then v else v + 1)"

section \<open>Framing\<close>

datatype mesh_error = EncodeError | DecodeError | UnknownWireVersion byte | EmptyFrame | UnknownGossipVersion byte

text \<open>A frame is the version byte and the encoding of the frame by the codec.\<close>

definition encode_frame :: "('f \<Rightarrow> byte list option) \<Rightarrow> 'f \<Rightarrow> mesh_error + byte list" where
  "encode_frame to_bytes frame =
     (case to_bytes frame of None \<Rightarrow> Inl EncodeError | Some bs \<Rightarrow> Inr (WIRE_VERSION # bs))"

definition decode_frame :: "(byte list \<Rightarrow> 'f option) \<Rightarrow> byte list \<Rightarrow> mesh_error + 'f" where
  "decode_frame from_bytes bytes =
     (case bytes of
        [] \<Rightarrow> Inl EmptyFrame
      | v # rest \<Rightarrow> if v = WIRE_VERSION then ok_or DecodeError (from_bytes rest) else Inl (UnknownWireVersion v))"



section \<open>Gossip state\<close>

type_synonym gossip_state = "(runtime_id, gossip_record) amap"

definition gossip_state_new :: "gossip_record \<Rightarrow> gossip_state" where
  "gossip_state_new r = [(gr_runtime_id r, r)]"

definition gossip_update_local ::
  "u64 \<Rightarrow> runtime_id \<Rightarrow> (gossip_record \<Rightarrow> gossip_record) \<Rightarrow> gossip_state \<Rightarrow> gossip_state \<times> gossip_record option" where
  "gossip_update_local now rid update st =
     (case map_of st rid of
        None \<Rightarrow> (st, None)
      | Some r \<Rightarrow>
          (let r1 = update r;
               r2 = r1\<lparr>gr_version := saturating_inc (gr_version r1), heartbeat_millis := now\<rparr>
           in (AList.update rid r2 st, Some r2)))"

definition digest_of :: "mesh_lib \<Rightarrow> gossip_record list \<Rightarrow> gossip_message" where
  "digest_of L rs =
     Digest GOSSIP_PAYLOAD_VERSION
       (sort_key (\<lambda>e. to_hex L (de_runtime_id e))
         (map (\<lambda>r. \<lparr>de_runtime_id = gr_runtime_id r, de_version = gr_version r\<rparr>) rs))"

text \<open>The digest collected into a map: a later entry for the same runtime replaces an earlier one.\<close>

definition remote_versions :: "digest_entry list \<Rightarrow> runtime_id \<rightharpoonup> u64" where
  "remote_versions digest = map_of (rev (map (\<lambda>e. (de_runtime_id e, de_version e)) digest))"

definition delta_of :: "mesh_lib \<Rightarrow> gossip_record list \<Rightarrow> digest_entry list \<Rightarrow> gossip_message" where
  "delta_of L rs digest =
     Delta GOSSIP_PAYLOAD_VERSION
       (sort_key (\<lambda>r. to_hex L (gr_runtime_id r))
         (filter (\<lambda>r. case remote_versions digest (gr_runtime_id r) of None \<Rightarrow> True | Some v \<Rightarrow> v < gr_version r) rs))"

definition gossip_digest :: "mesh_lib \<Rightarrow> gossip_state \<Rightarrow> gossip_message" where
  "gossip_digest L st = digest_of L (map snd st)"

definition gossip_delta_for :: "mesh_lib \<Rightarrow> gossip_state \<Rightarrow> digest_entry list \<Rightarrow> gossip_message" where
  "gossip_delta_for L st digest = delta_of L (map snd st) digest"

fun apply_delta_loop :: "gossip_record list \<Rightarrow> gossip_state \<Rightarrow> runtime_id list \<Rightarrow> gossip_state \<times> runtime_id list" where
  "apply_delta_loop [] st changed = (st, changed)"
| "apply_delta_loop (r # rs) st changed =
     (if (case map_of st (gr_runtime_id r) of None \<Rightarrow> True | Some old \<Rightarrow> gr_version r > gr_version old)
      then apply_delta_loop rs (AList.update (gr_runtime_id r) r st) (changed @ [gr_runtime_id r])
      else apply_delta_loop rs st changed)"

definition gossip_apply_delta :: "gossip_record list \<Rightarrow> gossip_state \<Rightarrow> gossip_state \<times> runtime_id list" where
  "gossip_apply_delta rs st = apply_delta_loop rs st []"

section \<open>The failure detector\<close>

text \<open>Instants and durations in nanoseconds.\<close>

record phi_accrual =
  samples :: "nat list"
  last_heartbeat :: "nat option"
  max_samples :: nat

definition phi_new :: "nat \<Rightarrow> phi_accrual" where
  "phi_new n = \<lparr>samples = [], last_heartbeat = None, max_samples = max n 1\<rparr>"

definition phi_default :: phi_accrual where
  "phi_default = phi_new 100"

definition observe :: "nat \<Rightarrow> phi_accrual \<Rightarrow> phi_accrual" where
  "observe t phi =
     (let ss = (case last_heartbeat phi of
                  None \<Rightarrow> samples phi
                | Some prev \<Rightarrow>
                    if prev < t then
                      (let ss = samples phi @ [t - prev]
                       in if length ss > max_samples phi then tl ss else ss)
                    else samples phi)
      in phi\<lparr>samples := ss, last_heartbeat := Some t\<rparr>)"

definition as_secs :: "nat \<Rightarrow> real" where
  "as_secs n = real n / 1000000000"

definition mean_secs :: "phi_accrual \<Rightarrow> real" where
  "mean_secs phi = sum_list (map as_secs (samples phi)) / real (length (samples phi))"

definition F64_EPSILON :: real where
  "F64_EPSILON = 1 / 2 ^ 52"

definition phi_value :: "nat \<Rightarrow> phi_accrual \<Rightarrow> real" where
  "phi_value elapsed phi = as_secs elapsed / mean_secs phi / ln 10"

definition phi_at :: "nat \<Rightarrow> phi_accrual \<Rightarrow> real option" where
  "phi_at now phi =
     (case last_heartbeat phi of
        None \<Rightarrow> None
      | Some hb \<Rightarrow>
          if samples phi = [] then None
          else if now < hb then None
          else if mean_secs phi \<le> F64_EPSILON then None
          else Some (phi_value (now - hb) phi))"

definition system_time_from_millis :: "u64 \<Rightarrow> nat" where
  "system_time_from_millis ms = unat ms * 1000000"

section \<open>Membership\<close>

datatype connection_state = Disconnected | Connecting | Connected | Suspect

record peer_counters =
  pc_runtime_id :: string
  streams_opened :: u64
  streams_received :: u64
  datagrams_sent :: u64
  datagrams_received :: u64
  gossip_frames_sent :: u64
  gossip_frames_received :: u64
  pc_stale_generation_rejections :: u64

record peer_state =
  ps_record :: gossip_record
  ps_phi :: phi_accrual
  ps_connection_state :: connection_state
  ps_counters :: peer_counters

record membership =
  local_runtime_id :: runtime_id
  local_record :: gossip_record
  mesh_peers :: "(runtime_id, peer_state) amap"
  draining :: bool
  stale_generation_rejections :: u64
  foreign_relay_rejections :: u64
  expected_relay_pubkey :: "string option"
  phi_suspect_threshold :: real

definition membership_new :: "gossip_record \<Rightarrow> membership" where
  "membership_new r =
     \<lparr>local_runtime_id = gr_runtime_id r, local_record = r, mesh_peers = [], draining = False,
      stale_generation_rejections = 0, foreign_relay_rejections = 0, expected_relay_pubkey = None,
      phi_suspect_threshold = 8\<rparr>"

definition with_expected_relay_pubkey :: "string \<Rightarrow> membership \<Rightarrow> membership" where
  "with_expected_relay_pubkey k m = m\<lparr>expected_relay_pubkey := Some k\<rparr>"

definition with_phi_suspect_threshold :: "real \<Rightarrow> membership \<Rightarrow> membership" where
  "with_phi_suspect_threshold t m = m\<lparr>phi_suspect_threshold := t\<rparr>"

definition ATTESTATION_CONTEXT :: string where
  "ATTESTATION_CONTEXT = ''buzz-relay-mesh-ready-v1''"

definition attestation_preimage :: "mesh_lib \<Rightarrow> runtime_id \<Rightarrow> string \<Rightarrow> string" where
  "attestation_preimage L rid key =
     ATTESTATION_CONTEXT @ [char_of (10 :: nat)] @ ''runtime_pubkey='' @ to_hex L rid
     @ [char_of (10 :: nat)] @ ''relay_pubkey='' @ key"

text \<open>
  \<open>public_key_hex\<close> parses a relay key and prints it again in its canonical form; the signature check on the
  hash of the preimage, including the parsing of the signature, is \<open>verify_schnorr\<close>.
\<close>

definition verify_attestation :: "mesh_lib \<Rightarrow> ready_record \<Rightarrow> bool" where
  "verify_attestation L r \<longleftrightarrow>
     runtime_pubkey r = to_hex L (rr_runtime_id r)
     \<and> (case public_key_hex L (relay_pubkey r) of
          None \<Rightarrow> False
        | Some key \<Rightarrow> verify_schnorr L (relay_sig r) (attestation_preimage L (rr_runtime_id r) key) key)"

definition counters_new :: "mesh_lib \<Rightarrow> runtime_id \<Rightarrow> peer_counters" where
  "counters_new L rid =
     \<lparr>pc_runtime_id = to_hex L rid, streams_opened = 0, streams_received = 0, datagrams_sent = 0,
      datagrams_received = 0, gossip_frames_sent = 0, gossip_frames_received = 0,
      pc_stale_generation_rejections = 0\<rparr>"

definition apply_gossip_record :: "mesh_lib \<Rightarrow> gossip_record \<Rightarrow> membership \<Rightarrow> membership \<times> bool" where
  "apply_gossip_record L r m =
     (if gr_runtime_id r = local_runtime_id m then (m, False)
      else
        (let heartbeat = system_time_from_millis (heartbeat_millis r)
         in case map_of (mesh_peers m) (gr_runtime_id r) of
              Some p \<Rightarrow>
                if gr_version r \<le> gr_version (ps_record p) then (m, False)
                else (m\<lparr>mesh_peers := AList.update (gr_runtime_id r)
                          (p\<lparr>ps_record := r, ps_connection_state := Connected,
                             ps_phi := observe heartbeat (ps_phi p)\<rparr>) (mesh_peers m)\<rparr>, True)
            | None \<Rightarrow>
                (m\<lparr>mesh_peers := AList.update (gr_runtime_id r)
                     \<lparr>ps_record = r, ps_phi = observe heartbeat phi_default, ps_connection_state = Connected,
                      ps_counters = counters_new L (gr_runtime_id r)\<rparr> (mesh_peers m)\<rparr>, True)))"

fun apply_ready_records :: "mesh_lib \<Rightarrow> u64 \<Rightarrow> ready_record list \<Rightarrow> membership \<Rightarrow> membership" where
  "apply_ready_records L now [] m = m"
| "apply_ready_records L now (ready # rs) m =
     (if rr_runtime_id ready = local_runtime_id m then apply_ready_records L now rs m
      else if expected_relay_pubkey m \<noteq> Some (relay_pubkey ready) then
        apply_ready_records L now rs (m\<lparr>foreign_relay_rejections := foreign_relay_rejections m + 1\<rparr>)
      else if \<not> verify_attestation L ready then apply_ready_records L now rs m
      else
        (let r = (gossip_record_new now (rr_runtime_id ready) (rr_endpoint_addrs ready) (rr_proto_version ready))
                   \<lparr>capabilities := rr_capabilities ready\<rparr>
         in apply_ready_records L now rs (fst (apply_gossip_record L r m))))"

definition update_peer :: "runtime_id \<Rightarrow> (peer_state \<Rightarrow> peer_state) \<Rightarrow> membership \<Rightarrow> membership" where
  "update_peer rid f m =
     (case map_of (mesh_peers m) rid of
        None \<Rightarrow> m
      | Some p \<Rightarrow> m\<lparr>mesh_peers := AList.update rid (f p) (mesh_peers m)\<rparr>)"








definition update_counters :: "runtime_id \<Rightarrow> (peer_counters \<Rightarrow> peer_counters) \<Rightarrow> membership \<Rightarrow> membership" where
  "update_counters rid f m = update_peer rid (\<lambda>p. p\<lparr>ps_counters := f (ps_counters p)\<rparr>) m"

definition record_stream_opened :: "runtime_id \<Rightarrow> membership \<Rightarrow> membership" where
  "record_stream_opened rid = update_counters rid (\<lambda>c. c\<lparr>streams_opened := saturating_inc (streams_opened c)\<rparr>)"

definition record_stream_received :: "runtime_id \<Rightarrow> membership \<Rightarrow> membership" where
  "record_stream_received rid = update_counters rid (\<lambda>c. c\<lparr>streams_received := saturating_inc (streams_received c)\<rparr>)"

definition record_datagram_sent :: "runtime_id \<Rightarrow> membership \<Rightarrow> membership" where
  "record_datagram_sent rid = update_counters rid (\<lambda>c. c\<lparr>datagrams_sent := saturating_inc (datagrams_sent c)\<rparr>)"

definition record_datagram_received :: "runtime_id \<Rightarrow> membership \<Rightarrow> membership" where
  "record_datagram_received rid = update_counters rid (\<lambda>c. c\<lparr>datagrams_received := saturating_inc (datagrams_received c)\<rparr>)"

definition record_gossip_frame_sent :: "runtime_id \<Rightarrow> membership \<Rightarrow> membership" where
  "record_gossip_frame_sent rid = update_counters rid (\<lambda>c. c\<lparr>gossip_frames_sent := saturating_inc (gossip_frames_sent c)\<rparr>)"



definition suspect :: "nat \<Rightarrow> membership \<Rightarrow> peer_state \<Rightarrow> bool" where
  "suspect now m p \<longleftrightarrow> (case phi_at now (ps_phi p) of None \<Rightarrow> False | Some x \<Rightarrow> x \<ge> phi_suspect_threshold m)"

record peer_info =
  pi_runtime_id :: runtime_id
  pi_draining :: bool
  pi_phi :: "real option"
  pi_load :: "32 word"

definition live_peers :: "nat \<Rightarrow> membership \<Rightarrow> peer_info list" where
  "live_peers now m =
     map (\<lambda>(_, p). \<lparr>pi_runtime_id = gr_runtime_id (ps_record p), pi_draining = gr_draining (ps_record p),
                    pi_phi = phi_at now (ps_phi p), pi_load = gr_load (ps_record p)\<rparr>)
       (filter (\<lambda>(_, p). \<not> suspect now m p) (mesh_peers m))"

text \<open>The status page.\<close>

record peer_status =
  st_runtime_id :: string
  st_endpoint_addrs :: "string list"
  st_proto_version :: u16
  st_draining :: bool
  st_connection_state :: connection_state
  st_phi :: "real option"
  st_load :: "32 word"
  record_version :: u64
  last_heartbeat_millis :: u64
  st_counters :: peer_counters

record mesh_status =
  enabled :: bool
  status_runtime_id :: string
  status_draining :: bool
  peer_count :: nat
  status_peers :: "peer_status list"
  status_stale_rejections :: u64
  status_foreign_rejections :: u64
  status_peer_counters :: "peer_counters list"

definition peer_statuses :: "mesh_lib \<Rightarrow> nat \<Rightarrow> membership \<Rightarrow> peer_status list" where
  "peer_statuses L now m =
     map (\<lambda>(_, p). \<lparr>st_runtime_id = to_hex L (gr_runtime_id (ps_record p)),
                    st_endpoint_addrs = endpoint_addrs (ps_record p), st_proto_version = proto_version (ps_record p),
                    st_draining = gr_draining (ps_record p),
                    st_connection_state = (if suspect now m p then Suspect else ps_connection_state p),
                    st_phi = phi_at now (ps_phi p), st_load = gr_load (ps_record p),
                    record_version = gr_version (ps_record p),
                    last_heartbeat_millis = heartbeat_millis (ps_record p), st_counters = ps_counters p\<rparr>)
       (mesh_peers m)"

definition status :: "mesh_lib \<Rightarrow> nat \<Rightarrow> membership \<Rightarrow> mesh_status" where
  "status L now m =
     (let peers = sort_key st_runtime_id (peer_statuses L now m)
      in \<lparr>enabled = True, status_runtime_id = to_hex L (gr_runtime_id (local_record m)),
          status_draining = draining m, peer_count = length peers, status_peers = peers,
          status_stale_rejections = stale_generation_rejections m,
          status_foreign_rejections = foreign_relay_rejections m,
          status_peer_counters = map st_counters peers\<rparr>)"

section \<open>Exchange\<close>




text \<open>\<open>a < b\<close> on the bytes of two runtime ids.\<close>

definition new_connection_wins :: "runtime_id \<Rightarrow> runtime_id \<Rightarrow> bool \<Rightarrow> bool" where
  "new_connection_wins here there dialed_by_us = (if here < there then dialed_by_us else \<not> dialed_by_us)"

section \<open>What a table knows\<close>

definition known :: "membership \<Rightarrow> runtime_id \<Rightarrow> gossip_record option" where
  "known m rid =
     (if rid = local_runtime_id m then Some (local_record m)
      else map_option ps_record (map_of (mesh_peers m) rid))"

definition mesh_wf :: "membership \<Rightarrow> bool" where
  "mesh_wf m \<longleftrightarrow>
     gr_runtime_id (local_record m) = local_runtime_id m
     \<and> distinct (map fst (mesh_peers m)) \<and> local_runtime_id m \<notin> fst ` set (mesh_peers m)
     \<and> (\<forall>(rid, p)\<in>set (mesh_peers m). gr_runtime_id (ps_record p) = rid)"

text \<open>The newer of what is known and what arrives; a tie keeps what is known.\<close>

definition newest :: "gossip_record option \<Rightarrow> gossip_record option \<Rightarrow> gossip_record option" where
  "newest a b =
     (case (a, b) of
        (Some x, Some y) \<Rightarrow> if gr_version y \<le> gr_version x then Some x else Some y
      | (None, _) \<Rightarrow> b
      | (_, None) \<Rightarrow> a)"

lemma newest_None [simp]: "newest None b = b" "newest a None = a"
  by (simp_all add: newest_def split: option.split)

lemma mesh_wf_new: "mesh_wf (membership_new r)"
  by (simp add: mesh_wf_def membership_new_def)

lemma set_update_distinct:
  "distinct (map fst m) \<Longrightarrow> set (AList.update k v m) = insert (k, v) {x \<in> set m. fst x \<noteq> k}"
  by (induction m) (auto simp: image_iff)


lemma apply_gossip_record_wf:
  assumes "mesh_wf m"
  shows "mesh_wf (fst (apply_gossip_record L r m))"
    and "local_runtime_id (fst (apply_gossip_record L r m)) = local_runtime_id m"
    and "local_record (fst (apply_gossip_record L r m)) = local_record m"
    and "expected_relay_pubkey (fst (apply_gossip_record L r m)) = expected_relay_pubkey m"
    and "known (fst (apply_gossip_record L r m)) rid =
           (if rid = gr_runtime_id r \<and> rid \<noteq> local_runtime_id m then newest (known m rid) (Some r) else known m rid)"
proof -
  show "mesh_wf (fst (apply_gossip_record L r m))"
    using assms by (auto simp: apply_gossip_record_def Let_def mesh_wf_def distinct_update set_update_distinct
        split: option.split)
  show "local_runtime_id (fst (apply_gossip_record L r m)) = local_runtime_id m"
    "local_record (fst (apply_gossip_record L r m)) = local_record m"
    "expected_relay_pubkey (fst (apply_gossip_record L r m)) = expected_relay_pubkey m"
    by (auto simp: apply_gossip_record_def Let_def split: option.split)
  show "known (fst (apply_gossip_record L r m)) rid =
      (if rid = gr_runtime_id r \<and> rid \<noteq> local_runtime_id m then newest (known m rid) (Some r) else known m rid)"
    by (auto simp: apply_gossip_record_def Let_def known_def newest_def split: option.split)
qed


section \<open>Exchange of records\<close>







section \<open>Properties\<close>



















text \<open>
  Registry seeds.  A runtime that appears in the table by applying registry records is named by one
  of them that carries the trusted relay identity and whose attestation verifies; every other runtime's
  entry is unchanged, and a table without a trusted identity admits nobody.  The rejection counter counts
  exactly the foreign records.
\<close>

theorem ready_records_attested:
  "(map_of (mesh_peers (apply_ready_records L now rs m)) rid \<noteq> map_of (mesh_peers m) rid \<longrightarrow>
      (\<exists>ready\<in>set rs. rr_runtime_id ready = rid \<and> expected_relay_pubkey m = Some (relay_pubkey ready)
         \<and> verify_attestation L ready))
   \<and> foreign_relay_rejections (apply_ready_records L now rs m) = foreign_relay_rejections m
       + of_nat (length (filter (\<lambda>ready. rr_runtime_id ready \<noteq> local_runtime_id m
           \<and> expected_relay_pubkey m \<noteq> Some (relay_pubkey ready)) rs))"
proof (induction rs arbitrary: m)
  case (Cons ready rs)
  let ?r = "(gossip_record_new now (rr_runtime_id ready) (rr_endpoint_addrs ready) (rr_proto_version ready))
    \<lparr>capabilities := rr_capabilities ready\<rparr>"
  let ?m = "fst (apply_gossip_record L ?r m)"
  have id: "gr_runtime_id ?r = rr_runtime_id ready" by (simp add: gossip_record_new_def)
  have frame: "local_runtime_id ?m = local_runtime_id m" "expected_relay_pubkey ?m = expected_relay_pubkey m"
    "foreign_relay_rejections ?m = foreign_relay_rejections m"
    "rid \<noteq> rr_runtime_id ready \<Longrightarrow> map_of (mesh_peers ?m) rid = map_of (mesh_peers m) rid"
    using id by (auto simp: apply_gossip_record_def Let_def split: option.split)
  consider (own) "rr_runtime_id ready = local_runtime_id m"
    | (foreign) "rr_runtime_id ready \<noteq> local_runtime_id m" "expected_relay_pubkey m \<noteq> Some (relay_pubkey ready)"
    | (forged) "rr_runtime_id ready \<noteq> local_runtime_id m" "expected_relay_pubkey m = Some (relay_pubkey ready)"
        "\<not> verify_attestation L ready"
    | (good) "rr_runtime_id ready \<noteq> local_runtime_id m" "expected_relay_pubkey m = Some (relay_pubkey ready)"
        "verify_attestation L ready"
    by blast
  then show ?case
  proof cases
    case foreign
    then show ?thesis using Cons.IH [of "m\<lparr>foreign_relay_rejections := foreign_relay_rejections m + 1\<rparr>"]
      by (auto simp: add.assoc)
  next
    case good
    then show ?thesis using Cons.IH [of ?m] frame by (cases "rid = rr_runtime_id ready") (auto simp: Let_def)
  qed (use Cons.IH [of m] in auto)
qed simp

text \<open>
  The failure detector: between two heartbeats the suspicion level of a peer never falls, so a peer
  that is suspect stays suspect until it is heard of again; the window of samples never exceeds its bound.
\<close>

theorem suspicion_monotone:
  assumes "now \<le> now'"
  shows "(suspect now m p \<longrightarrow> suspect now' m p)
    \<and> (length (samples phi) \<le> max_samples phi \<longrightarrow> length (samples (observe t phi)) \<le> max_samples (observe t phi))"
proof -
  have ln: "ln (10::real) > 0" by simp
  have "\<exists>y. phi_at now' (ps_phi p) = Some y \<and> x \<le> y" if now: "phi_at now (ps_phi p) = Some x" for x
  proof -
    obtain hb where hb: "last_heartbeat (ps_phi p) = Some hb" "samples (ps_phi p) \<noteq> []" "hb \<le> now"
      and mean: "F64_EPSILON < mean_secs (ps_phi p)" and x: "x = phi_value (now - hb) (ps_phi p)"
      using now by (auto simp: phi_at_def not_less not_le split: option.splits if_splits)
    have "0 < F64_EPSILON" by (simp add: F64_EPSILON_def)
    then have "0 < mean_secs (ps_phi p)" using mean by linarith
    moreover have "as_secs (now - hb) \<le> as_secs (now' - hb)" using assms by (simp add: as_secs_def divide_right_mono)
    ultimately have "x \<le> phi_value (now' - hb) (ps_phi p)"
      unfolding x phi_value_def using ln by (intro divide_right_mono) auto
    moreover have "phi_at now' (ps_phi p) = Some (phi_value (now' - hb) (ps_phi p))"
      using hb mean assms by (simp add: phi_at_def)
    ultimately show ?thesis by blast
  qed
  then have "suspect now m p \<longrightarrow> suspect now' m p"
    unfolding suspect_def by (fastforce split: option.splits)
  then show ?thesis by (auto simp: observe_def Let_def split: option.split)
qed

text \<open>
  Simultaneous dials: of two connections between different runtimes, both ends keep the one dialed by
  the runtime with the smaller identifier, so they always agree.
\<close>

theorem tie_break_agrees:
  assumes "a \<noteq> b"
  shows "new_connection_wins a b dialed_by_a = new_connection_wins b a (\<not> dialed_by_a)
    \<and> new_connection_wins a b dialed_by_a = ((if dialed_by_a then a else b) = min a b)"
  using assms by (auto simp: new_connection_wins_def min_def)

text \<open>The peers offered to callers are the ones whose status would not be raised to suspect.\<close>

lemma live_peers_status:
  "map pi_phi (live_peers now m) =
     map st_phi (filter (\<lambda>s. case st_phi s of None \<Rightarrow> True | Some x \<Rightarrow> x < phi_suspect_threshold m) (peer_statuses L now m))"
proof -
  have *: "(case phi_at now (ps_phi p) of None \<Rightarrow> True | Some x \<Rightarrow> x < phi_suspect_threshold m) \<longleftrightarrow> \<not> suspect now m p" for p
    by (auto simp: suspect_def split: option.split)
  show ?thesis
    by (simp add: live_peers_def peer_statuses_def filter_map comp_def case_prod_unfold *)
qed

lemma status_counts: "peer_count (status L now m) = length (mesh_peers m)"
  by (simp add: status_def Let_def peer_statuses_def)

lemma frame_round_trip:
  assumes "to_bytes f = Some bs" "from_bytes bs = Some f"
  shows "bind_result (encode_frame to_bytes f) (decode_frame from_bytes) = Inr f"
  using assms by (simp add: encode_frame_def decode_frame_def)

section \<open>Witnesses\<close>

definition demo_runtime :: "byte \<Rightarrow> u64 \<Rightarrow> gossip_record" where
  "demo_runtime i v = (gossip_record_new 1000 [i] [''10.0.0.1:3478''] 1)\<lparr>gr_version := v\<rparr>"

definition demo_mesh_lib :: mesh_lib where
  "demo_mesh_lib =
     \<lparr>to_hex = map (\<lambda>b. char_of (unat b)), public_key_hex = Some, verify_schnorr = (\<lambda>_ _ _. True),
      gossip_to_bytes = (\<lambda>_. Some []), gossip_from_bytes = (\<lambda>_. Some (Delta 1 [demo_runtime 3 5]))\<rparr>"

definition demo_a :: membership where
  "demo_a = fst (apply_gossip_record demo_mesh_lib (demo_runtime 3 5) (membership_new (demo_runtime 1 7)))"

definition demo_b :: membership where
  "demo_b = fst (apply_gossip_record demo_mesh_lib (demo_runtime 3 6) (membership_new (demo_runtime 2 4)))"


lemma demo_runtime_simps [simp]: "gr_runtime_id (demo_runtime i v) = [i]" "gr_version (demo_runtime i v) = v"
  by (simp_all add: demo_runtime_def gossip_record_new_def)


lemma demo_local [simp]: "local_runtime_id demo_a = [1]" "local_runtime_id demo_b = [2]"
  by (simp_all add: demo_a_def demo_b_def apply_gossip_record_wf mesh_wf_new) (simp_all add: membership_new_def)




theorem ready_records_attested_witness:
  "map_of (mesh_peers (apply_ready_records demo_mesh_lib 9
      [\<lparr>rr_runtime_id = [4], runtime_pubkey = [], relay_pubkey = ''k'', relay_sig = [], rr_endpoint_addrs = [],
        rr_proto_version = 1, rr_capabilities = []\<rparr>] (membership_new (demo_runtime 1 7)))) [4] = None"
  using ready_records_attested [of demo_mesh_lib 9
    "[\<lparr>rr_runtime_id = [4], runtime_pubkey = [], relay_pubkey = ''k'', relay_sig = [], rr_endpoint_addrs = [],
       rr_proto_version = 1, rr_capabilities = []\<rparr>]" "membership_new (demo_runtime 1 7)" "[4]"]
  by (auto simp: membership_new_def)

theorem suspicion_monotone_witness:
  "length (samples (observe 5 (observe 3 phi_default))) \<le> 100"
proof -
  have "length (samples (observe 3 phi_default)) \<le> max_samples (observe 3 phi_default)"
    "max_samples (observe 5 (observe 3 phi_default)) = 100"
    by (simp_all add: observe_def phi_default_def phi_new_def)
  then show ?thesis using suspicion_monotone [of 1 2 demo_a undefined "observe 3 phi_default" 5] by simp
qed

theorem tie_break_agrees_witness: "new_connection_wins [1] [2] True"
proof -
  have "new_connection_wins [1] [2] True = ((if True then [1] else [2]) = min [1] ([2] :: runtime_id))"
    by (rule conjunct2 [OF tie_break_agrees]) simp
  then show ?thesis by (simp add: min_def)
qed

end
