(* ===== verification/Audit_Log.thy ===== *)
theory Audit_Log
  imports Buzz_Prelude Tenant Channel "HOL-Library.Multiset" "HOL-Library.Char_ord" "HOL-Library.List_Lexorder"
begin

text \<open>
  The audit log (\<open>buzz-audit/src\<close>): one hash chain per community.  Actions and their names
  (\<open>action.rs\<close>), entries (\<open>entry.rs\<close>), the hash of an entry over a canonical form of its JSON detail
  (\<open>hash.rs\<close>), appending to a chain and verifying it (\<open>service.rs\<close>).

  The table of the database is the list of its rows in the order of insertion, under its two uniqueness
  constraints; appends of one community are serialized by its advisory lock, so an append is one step.
  SHA-256, the printing of time stamps, strings and scalars, and what the JSON column gives back for a
  value are the fields of the parameter \<open>audit_lib\<close>.  Strings are lists of UTF-8 bytes; instants are
  nanoseconds.  Sequence numbers are integers; appending stays below the bound of \<open>i64\<close>.
\<close>

section \<open>Actions\<close>

datatype audit_action =
  EventCreated | EventDeleted | ChannelCreated | ChannelUpdated | ChannelDeleted | MemberAdded | MemberRemoved
| AuthSuccess | AuthFailure | RateLimitExceeded | MediaUploaded

fun audit_action_as_str :: "audit_action \<Rightarrow> string" where
  "audit_action_as_str EventCreated = ''event_created''"
| "audit_action_as_str EventDeleted = ''event_deleted''"
| "audit_action_as_str ChannelCreated = ''channel_created''"
| "audit_action_as_str ChannelUpdated = ''channel_updated''"
| "audit_action_as_str ChannelDeleted = ''channel_deleted''"
| "audit_action_as_str MemberAdded = ''member_added''"
| "audit_action_as_str MemberRemoved = ''member_removed''"
| "audit_action_as_str AuthSuccess = ''auth_success''"
| "audit_action_as_str AuthFailure = ''auth_failure''"
| "audit_action_as_str RateLimitExceeded = ''rate_limit_exceeded''"
| "audit_action_as_str MediaUploaded = ''media_uploaded''"

definition ALL_ACTIONS :: "audit_action list" where
  "ALL_ACTIONS = [EventCreated, EventDeleted, ChannelCreated, ChannelUpdated, ChannelDeleted, MemberAdded,
     MemberRemoved, AuthSuccess, AuthFailure, RateLimitExceeded, MediaUploaded]"

definition audit_action_from_str :: "string \<Rightarrow> string + audit_action" where
  "audit_action_from_str s = ok_or s (find (\<lambda>a. audit_action_as_str a = s) ALL_ACTIONS)"

interpretation audit_action_enum: str_enum audit_action_as_str audit_action_from_str
proof unfold_locales
  show "audit_action_from_str (audit_action_as_str x) = Inr x" for x
    by (cases x) (simp_all add: audit_action_from_str_def ALL_ACTIONS_def)
  show "audit_action_from_str s = Inr x \<Longrightarrow> s = audit_action_as_str x" for s x
    by (auto simp: audit_action_from_str_def ok_or_Inr find_Some_iff)
qed

section \<open>Entries\<close>

record audit_entry =
  ae_community_id :: uuid
  seq :: int
  ae_hash :: "byte list"
  prev_hash :: "byte list option"
  action :: audit_action
  actor_pubkey :: "byte list option"
  object_id :: "string option"
  detail :: "string json"
  created_at :: int

record new_audit_entry =
  ne_community_id :: community_key
  ne_action :: audit_action
  ne_actor_pubkey :: "byte list option"
  ne_object_id :: "string option"
  ne_detail :: "string json"

datatype audit_error = Database | ChainViolation int | HashMismatch int | UnknownAction | Serialization

record audit_lib =
  sha256 :: "byte list \<Rightarrow> byte list"
  to_rfc3339 :: "int \<Rightarrow> string"
  scalar_json :: "string json \<Rightarrow> string option"
  key_json :: "string \<Rightarrow> string option"
  jsonb_column :: "string json \<Rightarrow> string json"

section \<open>Hash of an entry\<close>

definition GENESIS_HASH :: "byte list" where
  "GENESIS_HASH = replicate 32 0"

definition to_storage_precision :: "int \<Rightarrow> int" where
  "to_storage_precision ns = ns div 1000 * 1000"

fun comma_separated :: "string list \<Rightarrow> string" where
  "comma_separated [] = ''''"
| "comma_separated [s] = s"
| "comma_separated (s # ss) = s @ '','' @ comma_separated ss"

text \<open>
  The members of an object are visited in the order of their keys.  Any failure to print a part fails the
  whole.
\<close>

function canonical_json :: "audit_lib \<Rightarrow> string json \<Rightarrow> string option" where
  "canonical_json L (JObject kvs) =
     map_option (\<lambda>parts. ''{'' @ comma_separated parts @ ''}'')
       (those (map (\<lambda>kv. Option.bind (key_json L (fst kv)) (\<lambda>k.
                      map_option (\<lambda>v. k @ '':'' @ v) (canonical_json L (snd kv)))) (sort_key fst kvs)))"
| "canonical_json L (JArray vs) =
     map_option (\<lambda>parts. ''['' @ comma_separated parts @ '']'') (those (map (canonical_json L) vs))"
| "canonical_json L JNull = scalar_json L JNull"
| "canonical_json L (JBool b) = scalar_json L (JBool b)"
| "canonical_json L (JNumber n) = scalar_json L (JNumber n)"
| "canonical_json L (JString s) = scalar_json L (JString s)"
  by pat_completeness auto
termination
proof (relation "measure (\<lambda>(L, v). size v)", goal_cases)
  case (2 L kvs kv)
  then have mem: "kv \<in> set kvs" by simp
  have "size (snd kv) \<le> size_prod (\<lambda>_. 0) size kv" by (cases kv) simp
  also have "\<dots> < Suc (size_list (size_prod (\<lambda>_. 0) size) kvs)"
    using mem by (simp add: less_Suc_eq_le size_list_estimation')
  finally show ?case by simp
qed (auto simp: less_Suc_eq_le size_list_estimation')

definition str_bytes :: "string \<Rightarrow> byte list" where
  "str_bytes s = map (\<lambda>c. word_of_nat (of_char c)) s"

definition to_be_bytes :: "nat \<Rightarrow> 'a::len word \<Rightarrow> byte list" where
  "to_be_bytes n w = map (\<lambda>i. ucast (drop_bit (8 * i) w)) (rev [0..<n])"

definition optional_field :: "byte list option \<Rightarrow> byte list" where
  "optional_field x = (case x of None \<Rightarrow> [0] | Some bs \<Rightarrow> 1 # bs)"

text \<open>The bytes fed to the hasher.\<close>

definition hash_input :: "audit_lib \<Rightarrow> audit_entry \<Rightarrow> byte list option" where
  "hash_input L e =
     map_option (\<lambda>d.
        to_be_bytes 16 (ae_community_id e) @ to_be_bytes 8 (word_of_int (seq e) :: 64 word)
        @ str_bytes (to_rfc3339 L (to_storage_precision (created_at e)))
        @ str_bytes (audit_action_as_str (action e))
        @ optional_field (actor_pubkey e) @ optional_field (map_option str_bytes (object_id e))
        @ str_bytes d
        @ (case prev_hash e of Some h \<Rightarrow> h | None \<Rightarrow> GENESIS_HASH))
      (canonical_json L (detail e))"

definition compute_hash :: "audit_lib \<Rightarrow> audit_entry \<Rightarrow> audit_error + byte list" where
  "compute_hash L e = bind_result (ok_or Serialization (hash_input L e)) (\<lambda>bs. Inr (sha256 L bs))"

section \<open>The service\<close>

record audit_row =
  row_community :: uuid
  row_seq :: int
  row_hash :: "byte list"
  row_prev_hash :: "byte list option"
  row_action :: string
  row_actor :: "byte list option"
  row_object :: "string option"
  row_detail :: "string json"
  row_micros :: int

type_synonym audit_table = "audit_row list"

definition row_to_audit_entry :: "audit_row \<Rightarrow> audit_error + audit_entry" where
  "row_to_audit_entry row =
     (case audit_action_from_str (row_action row) of
        Inl _ \<Rightarrow> Inl UnknownAction
      | Inr a \<Rightarrow> Inr \<lparr>ae_community_id = row_community row, seq = row_seq row, ae_hash = row_hash row,
                      prev_hash = row_prev_hash row, action = a, actor_pubkey = row_actor row,
                      object_id = row_object row, detail = row_detail row, created_at = row_micros row * 1000\<rparr>)"

definition rows_of :: "uuid \<Rightarrow> audit_table \<Rightarrow> audit_row list" where
  "rows_of c T = sort_key row_seq (filter (\<lambda>r. row_community r = c) T)"

text \<open>
  The insertion of a row.  The statement fails when the row breaks a uniqueness constraint, or when the
  database refuses it for another reason (\<open>accepts\<close>: the foreign key, the write fence, a lost connection).
\<close>

definition insert_row :: "bool \<Rightarrow> audit_row \<Rightarrow> audit_table \<Rightarrow> audit_error + audit_table" where
  "insert_row accepts row T =
     (if \<not> accepts \<or> list_ex (\<lambda>r. row_community r = row_community row
                                \<and> (row_seq r = row_seq row \<or> row_hash r = row_hash row)) T
      then Inl Database else Inr (T @ [row]))"

definition entry_row :: "audit_lib \<Rightarrow> audit_entry \<Rightarrow> audit_row" where
  "entry_row L e =
     \<lparr>row_community = ae_community_id e, row_seq = seq e, row_hash = ae_hash e, row_prev_hash = prev_hash e,
      row_action = audit_action_as_str (action e), row_actor = actor_pubkey e, row_object = object_id e,
      row_detail = jsonb_column L (detail e), row_micros = created_at e div 1000\<rparr>"

definition log_timestamp :: "int \<Rightarrow> int" where
  "log_timestamp now = to_storage_precision now"

definition log_inner :: "audit_lib \<Rightarrow> bool \<Rightarrow> int \<Rightarrow> new_audit_entry \<Rightarrow> audit_table \<Rightarrow> audit_table \<times> (audit_error + audit_entry)" where
  "log_inner L accepts now entry T =
     (let community_id = as_uuid (ne_community_id entry);
          (prev_seq, prev) = (case rev (rows_of community_id T) of
                                row # _ \<Rightarrow> (row_seq row, Some (row_hash row))
                              | [] \<Rightarrow> (0, None));
          e0 = \<lparr>ae_community_id = community_id, seq = prev_seq + 1, ae_hash = [], prev_hash = prev,
                action = ne_action entry, actor_pubkey = ne_actor_pubkey entry, object_id = ne_object_id entry,
                detail = ne_detail entry, created_at = log_timestamp now\<rparr>
      in try_in T (compute_hash L e0) (\<lambda>h.
           let e = e0\<lparr>ae_hash := h\<rparr>
           in try_in T (insert_row accepts (entry_row L e) T) (\<lambda>T1. (T1, Inr e))))"

fun verify_rows :: "audit_lib \<Rightarrow> byte list option \<Rightarrow> audit_row list \<Rightarrow> audit_error + bool" where
  "verify_rows L expected_prev [] = Inr True"
| "verify_rows L expected_prev (row # rows) =
     bind_result (row_to_audit_entry row) (\<lambda>entry.
       if expected_prev \<noteq> None \<and> prev_hash entry \<noteq> expected_prev then Inl (ChainViolation (seq entry))
       else bind_result (compute_hash L entry) (\<lambda>computed.
              if computed \<noteq> ae_hash entry then Inl (HashMismatch (seq entry))
              else verify_rows L (Some (ae_hash entry)) rows))"

definition chain_segment :: "audit_table \<Rightarrow> community_key \<Rightarrow> int \<Rightarrow> int \<Rightarrow> audit_row list" where
  "chain_segment T c from_seq to_seq =
     filter (\<lambda>r. from_seq \<le> row_seq r \<and> row_seq r \<le> to_seq) (rows_of (as_uuid c) T)"

definition verify_chain :: "audit_lib \<Rightarrow> audit_table \<Rightarrow> community_key \<Rightarrow> int \<Rightarrow> int \<Rightarrow> audit_error + bool" where
  "verify_chain L T c from_seq to_seq =
     (let rows = chain_segment T c from_seq to_seq
      in if rows = [] then Inr False else verify_rows L None rows)"

fun collect_entries :: "audit_row list \<Rightarrow> audit_error + audit_entry list" where
  "collect_entries [] = Inr []"
| "collect_entries (row # rows) =
     bind_result (row_to_audit_entry row) (\<lambda>e. bind_result (collect_entries rows) (\<lambda>es. Inr (e # es)))"

definition get_entries :: "audit_table \<Rightarrow> community_key \<Rightarrow> int \<Rightarrow> int \<Rightarrow> audit_error + audit_entry list" where
  "get_entries T c from_seq limit =
     (if limit < 0 then Inl Database
      else collect_entries (take (nat limit) (filter (\<lambda>r. from_seq \<le> row_seq r) (rows_of (as_uuid c) T))))"

section \<open>Chains of hashes\<close>


section \<open>The bytes of an entry\<close>

lemma length_to_be_bytes [simp]: "length (to_be_bytes n w) = n"
  by (simp add: to_be_bytes_def)








section \<open>Verification\<close>

text \<open>What a positive answer means, row by row.\<close>

lemma row_to_audit_entry_fields:
  "row_to_audit_entry row = Inr e \<Longrightarrow>
     ae_community_id e = row_community row \<and> seq e = row_seq row \<and> ae_hash e = row_hash row
     \<and> prev_hash e = row_prev_hash row"
  by (auto simp: row_to_audit_entry_def split: sum.splits)





section \<open>Canonical JSON\<close>

text \<open>Values equal up to the order of the members of their objects; the keys of an object are distinct.\<close>

inductive json_same :: "string json \<Rightarrow> string json \<Rightarrow> bool" where
  same_refl: "json_same v v"
| same_array: "list_all2 json_same vs ws \<Longrightarrow> json_same (JArray vs) (JArray ws)"
| same_object: "list_all2 (rel_prod (=) json_same) kvs kws \<Longrightarrow> mset kws = mset kxs \<Longrightarrow> distinct (map fst kvs) \<Longrightarrow>
     json_same (JObject kvs) (JObject kxs)"

lemma sort_key_perm:
  assumes "mset xs = mset ys" "distinct (map f xs)"
  shows "sort_key f xs = sort_key f ys"
proof -
  have set: "set xs = set ys" using assms(1) by (metis set_mset_mset)
  have dist: "distinct (map f ys)" using assms by (metis mset_eq_imp_distinct_iff mset_map)
  have sorted_dist: "distinct (map f (sort_key f zs))" if "distinct (map f zs)" for zs
    using that by (simp add: distinct_map)
  show ?thesis
    by (rule map_sorted_distinct_set_unique [of f])
      (use set dist assms(2) sorted_dist in \<open>auto simp: distinct_map\<close>)
qed


lemma insort_rel:
  "list_all2 (rel_prod (=) R) xs ys \<Longrightarrow> rel_prod (=) R x y \<Longrightarrow>
     list_all2 (rel_prod (=) R) (insort_key fst x xs) (insort_key fst y ys)"
proof (induction xs ys rule: list_all2_induct)
  case (Cons u us w ws)
  then show ?case by (cases u; cases w; cases x; cases y) auto
qed simp

lemma sort_rel:
  "list_all2 (rel_prod (=) R) xs ys \<Longrightarrow> list_all2 (rel_prod (=) R) (sort_key fst xs) (sort_key fst ys)"
  by (induction xs ys rule: list_all2_induct) (simp_all add: insort_rel)

lemma map_eq_if_rel: "list_all2 R xs ys \<Longrightarrow> (\<And>x y. R x y \<Longrightarrow> f x = f y) \<Longrightarrow> map f xs = map f ys"
  by (induction xs ys rule: list_all2_induct) simp_all

lemma canonical_json_same: "json_same v w \<Longrightarrow> canonical_json L v = canonical_json L w"
proof (induction rule: json_same.induct)
  case (same_array vs ws)
  then have "map (canonical_json L) vs = map (canonical_json L) ws" by (rule map_eq_if_rel) simp
  then show ?case by simp
next
  case (same_object kvs kws kxs)
  let ?member = "\<lambda>kv. Option.bind (key_json L (fst kv)) (\<lambda>k. map_option (\<lambda>v. k @ '':'' @ v) (canonical_json L (snd kv)))"
  have "map fst kvs = map fst kws" using same_object(1) by (rule map_eq_if_rel) (simp add: rel_prod_sel)
  then have "sort_key fst kws = sort_key fst kxs" using same_object(2,3) by (intro sort_key_perm) simp_all
  moreover have "map ?member (sort_key fst kvs) = map ?member (sort_key fst kws)"
    using sort_rel [OF same_object(1)] by (rule map_eq_if_rel) (simp add: rel_prod_sel)
  ultimately show ?case by simp
qed simp

section \<open>Appending\<close>

text \<open>
  A chain: consecutive sequence numbers from a given one, each row linked to its predecessor, each stored
  hash the hash of the entry that the row reads back as.
\<close>

fun chain_from :: "audit_lib \<Rightarrow> int \<Rightarrow> byte list option \<Rightarrow> audit_row list \<Rightarrow> bool" where
  "chain_from L n prev [] \<longleftrightarrow> True"
| "chain_from L n prev (r # rs) \<longleftrightarrow>
     row_seq r = n + 1 \<and> row_prev_hash r = prev
     \<and> bind_result (row_to_audit_entry r) (compute_hash L) = Inr (row_hash r)
     \<and> chain_from L (n + 1) (Some (row_hash r)) rs"

definition chains_ok :: "audit_lib \<Rightarrow> audit_table \<Rightarrow> bool" where
  "chains_ok L T \<longleftrightarrow> (\<forall>c. chain_from L 0 None (filter (\<lambda>r. row_community r = c) T))"

lemma chain_from_snoc:
  "chain_from L n prev (rs @ [r]) \<longleftrightarrow>
     chain_from L n prev rs \<and> row_seq r = n + int (length rs) + 1
     \<and> row_prev_hash r = (if rs = [] then prev else Some (row_hash (last rs)))
     \<and> bind_result (row_to_audit_entry r) (compute_hash L) = Inr (row_hash r)"
  by (induction rs arbitrary: n prev) (auto simp: algebra_simps)

lemma chain_from_seqs:
  "chain_from L n prev rs \<Longrightarrow> map row_seq rs = [n + 1..n + int (length rs)]"
proof (induction rs arbitrary: n prev)
  case (Cons r rs)
  then have "map row_seq rs = [n + 1 + 1..n + 1 + int (length rs)]" and "row_seq r = n + 1" by auto
  moreover have "[n + 1..n + 1 + int (length rs)] = (n + 1) # [n + 1 + 1..n + 1 + int (length rs)]"
    by (rule upto_rec1) simp
  ultimately show ?case by (simp add: add.assoc)
qed simp

lemma chain_from_sorted: "chain_from L n prev rs \<Longrightarrow> sort_key row_seq rs = rs"
  by (intro sort_key_id_if_sorted) (simp add: chain_from_seqs)

lemma rows_of_chain:
  "chains_ok L T \<Longrightarrow> rows_of c T = filter (\<lambda>r. row_community r = c) T"
  unfolding rows_of_def chains_ok_def by (rule chain_from_sorted) blast

lemma chain_from_verifies:
  "chain_from L n prev rs \<Longrightarrow> exp = None \<or> exp = prev \<and> a \<le> n + 1 \<Longrightarrow>
     verify_rows L exp (filter (\<lambda>r. a \<le> row_seq r \<and> row_seq r \<le> b) rs) = Inr True"
proof (induction rs arbitrary: n prev exp)
  case (Cons r rs)
  obtain e where e: "row_to_audit_entry r = Inr e" "compute_hash L e = Inr (row_hash r)"
    using Cons.prems(1) by (auto simp: bind_result_Inr)
  note f = row_to_audit_entry_fields [OF e(1)]
  have r: "row_seq r = n + 1" "row_prev_hash r = prev" and rest: "chain_from L (n + 1) (Some (row_hash r)) rs"
    using Cons.prems(1) by simp_all
  have late: "filter (\<lambda>r. a \<le> row_seq r \<and> row_seq r \<le> b) rs = []" if "b < n + 1"
  proof -
    have "row_seq q > n + 1" if "q \<in> set rs" for q
    proof -
      have "row_seq q \<in> set [n + 1 + 1..n + 1 + int (length rs)]"
        using that by (simp only: chain_from_seqs [OF rest, symmetric] set_map image_eqI)
      then show ?thesis by simp
    qed
    then show ?thesis using that by (force simp: filter_empty_conv)
  qed
  show ?case
  proof (cases "a \<le> row_seq r \<and> row_seq r \<le> b")
    case True
    have "verify_rows L (Some (row_hash r)) (filter (\<lambda>r. a \<le> row_seq r \<and> row_seq r \<le> b) rs) = Inr True"
      by (rule Cons.IH [OF rest]) (use True r in auto)
    then show ?thesis using True e f r Cons.prems(2) by (auto simp: bind_result_Inr)
  next
    case False
    show ?thesis
    proof (cases "exp = None")
      case True
      then show ?thesis using Cons.IH [OF rest, of None] by (simp only: filter.simps if_not_P [OF False]) simp
    qed (use False late r Cons.prems(2) in auto)
  qed
qed simp


type_synonym append = "bool \<times> int \<times> new_audit_entry"

definition exec_append :: "audit_lib \<Rightarrow> append \<Rightarrow> audit_table \<Rightarrow> audit_table \<times> audit_entry option" where
  "exec_append L op T =
     (case op of (accepts, now, entry) \<Rightarrow>
        (case log_inner L accepts now entry T of (T1, r) \<Rightarrow> (T1, case r of Inl _ \<Rightarrow> None | Inr e \<Rightarrow> Some e)))"

text \<open>The column gives back the detail of the entry up to the order of object members.\<close>

definition detail_kept :: "audit_lib \<Rightarrow> new_audit_entry \<Rightarrow> bool" where
  "detail_kept L entry \<longleftrightarrow> json_same (ne_detail entry) (jsonb_column L (ne_detail entry))"

lemma entry_row_sel [simp]:
  "row_community (entry_row L e) = ae_community_id e" "row_seq (entry_row L e) = seq e"
  "row_hash (entry_row L e) = ae_hash e" "row_prev_hash (entry_row L e) = prev_hash e"
  by (simp_all add: entry_row_def)

lemma entry_row_reads_back:
  "created_at e = to_storage_precision t \<Longrightarrow> row_to_audit_entry (entry_row L e) = Inr (e\<lparr>detail := jsonb_column L (detail e)\<rparr>)"
  by (simp add: row_to_audit_entry_def entry_row_def audit_action_enum.from_as to_storage_precision_def)

text \<open>An append that fails changes nothing; one that succeeds adds the row of the entry it returns.\<close>

lemma log_inner_outcome:
  assumes "chains_ok L T" "log_inner L accepts now entry T = (T1, r)"
  defines "c \<equiv> as_uuid (ne_community_id entry)"
  defines "rs \<equiv> rows_of c T"
  shows "(\<exists>err. r = Inl err \<and> T1 = T)
    \<or> (\<exists>e. r = Inr e \<and> T1 = T @ [entry_row L e] \<and> ae_community_id e = c \<and> seq e = int (length rs) + 1
         \<and> prev_hash e = (if rs = [] then None else Some (row_hash (last rs)))
         \<and> created_at e = to_storage_precision now \<and> detail e = ne_detail entry
         \<and> action e = ne_action entry \<and> actor_pubkey e = ne_actor_pubkey entry \<and> object_id e = ne_object_id entry
         \<and> compute_hash L e = Inr (ae_hash e))"
proof -
  have chain: "chain_from L 0 None rs"
    using assms(1) by (simp add: rs_def rows_of_chain [OF assms(1)] chains_ok_def)
  have "row_seq (last rs) = int (length rs)" if "rs \<noteq> []"
  proof -
    have "row_seq (last rs) = last (map row_seq rs)" using that by (simp add: last_map)
    also have "\<dots> = last [1..int (length rs)]" using chain_from_seqs [OF chain] by simp
    also have "\<dots> = int (length rs)" using that by (simp add: last_conv_nth nth_upto Suc_leI)
    finally show ?thesis .
  qed
  then have head: "(case rev rs of row # _ \<Rightarrow> (row_seq row, Some (row_hash row)) | [] \<Rightarrow> (0, None))
      = (int (length rs), if rs = [] then None else Some (row_hash (last rs)))"
    by (cases rs rule: rev_cases) simp_all
  define e0 where "e0 = \<lparr>ae_community_id = c, seq = int (length rs) + 1, ae_hash = [],
    prev_hash = (if rs = [] then None else Some (row_hash (last rs))), action = ne_action entry,
    actor_pubkey = ne_actor_pubkey entry, object_id = ne_object_id entry, detail = ne_detail entry,
    created_at = log_timestamp now\<rparr>"
  have log: "(T1, r) = try_in T (compute_hash L e0) (\<lambda>h.
      try_in T (insert_row accepts (entry_row L (e0\<lparr>ae_hash := h\<rparr>)) T) (\<lambda>T1. (T1, Inr (e0\<lparr>ae_hash := h\<rparr>))))"
    using assms(2) unfolding log_inner_def Let_def c_def [symmetric] rs_def [symmetric] head prod.case e0_def
    by simp
  show ?thesis
  proof (cases "compute_hash L e0")
    case (Inr h)
    let ?e = "e0\<lparr>ae_hash := h\<rparr>"
    have "compute_hash L ?e = Inr h" using Inr by (simp add: compute_hash_def hash_input_def)
    moreover have "created_at ?e = to_storage_precision now" by (simp add: e0_def log_timestamp_def)
    ultimately show ?thesis
      using log Inr by (cases "insert_row accepts (entry_row L ?e) T") (auto simp: e0_def insert_row_def split: if_splits)
  qed (use log in simp)
qed

lemma log_inner_chains_ok:
  assumes "chains_ok L T" "detail_kept L entry"
  shows "chains_ok L (fst (log_inner L accepts now entry T))"
proof -
  obtain T1 r where log: "log_inner L accepts now entry T = (T1, r)" by fastforce
  from log_inner_outcome [OF assms(1) log] show ?thesis
  proof (elim disjE exE conjE)
    fix e
    let ?c = "as_uuid (ne_community_id entry)"
    assume e: "T1 = T @ [entry_row L e]" "ae_community_id e = ?c" "seq e = int (length (rows_of ?c T)) + 1"
      "prev_hash e = (if rows_of ?c T = [] then None else Some (row_hash (last (rows_of ?c T))))"
      "created_at e = to_storage_precision now" "detail e = ne_detail entry" "compute_hash L e = Inr (ae_hash e)"
    have "canonical_json L (jsonb_column L (detail e)) = canonical_json L (detail e)"
      using assms(2) e(6) canonical_json_same by (metis detail_kept_def)
    then have "hash_input L (e\<lparr>detail := jsonb_column L (detail e)\<rparr>) = hash_input L e" by (simp add: hash_input_def)
    then have "bind_result (row_to_audit_entry (entry_row L e)) (compute_hash L) = Inr (row_hash (entry_row L e))"
      using e(7) by (simp add: entry_row_reads_back [OF e(5)] compute_hash_def)
    moreover have "chain_from L 0 None (filter (\<lambda>r. row_community r = ?c) T)" using assms(1) by (simp add: chains_ok_def)
    ultimately have "chain_from L 0 None (filter (\<lambda>r. row_community r = ?c) T @ [entry_row L e])"
      unfolding chain_from_snoc using e(3,4) by (simp add: rows_of_chain [OF assms(1)])
    moreover have "row_community (entry_row L e) = ?c" using e(2) by simp
    ultimately show ?thesis using assms(1) log e(1) by (auto simp: chains_ok_def)
  qed (use assms(1) log in simp)
qed

interpretation audit_machine: op_machine "exec_append L" "chains_ok L" "\<lambda>(_, _, entry). detail_kept L entry"
    "\<lambda>e. compute_hash L e = Inr (ae_hash e)" for L
proof unfold_locales
  fix T and op :: append
  assume T: "chains_ok L T" "case op of (_, _, entry) \<Rightarrow> detail_kept L entry"
  obtain accepts now entry where op: "op = (accepts, now, entry)" by (cases op)
  obtain T1 r where log: "log_inner L accepts now entry T = (T1, r)" by fastforce
  show "chains_ok L (fst (exec_append L op T))"
    using log_inner_chains_ok [OF T(1), of entry accepts now] T(2) by (simp add: op exec_append_def log)
  show "snd (exec_append L op T) = Some e \<Longrightarrow> compute_hash L e = Inr (ae_hash e)" for e
    using log_inner_outcome [OF T(1) log] by (auto simp: op exec_append_def log)
qed


section \<open>Properties\<close>

lemma run_chains_ok:
  assumes "list_all (\<lambda>(_, _, entry). detail_kept L entry) ops"
  shows "chains_ok L (fst (run_ops (exec_append L) ops []))"
  using audit_machine.run_ok [of L "[]" ops] assms by (simp add: chains_ok_def)

text \<open>
  C23.  What the service writes, it verifies.  After any appends, of any communities in any order and with
  any failures, each range of each community's chain verifies, an empty range being reported as such, and
  the sequence numbers of a community are 1, 2, 3 and so on without a gap.  The database is relied on to
  give back a detail up to the order of object members.
\<close>

theorem audit_log_verifies:
  assumes "list_all (\<lambda>(_, _, entry). detail_kept L entry) ops" and "T = fst (run_ops (exec_append L) ops [])"
  shows "verify_chain L T c a b = Inr (\<exists>r\<in>set T. row_community r = as_uuid c \<and> a \<le> row_seq r \<and> row_seq r \<le> b)
    \<and> map row_seq (rows_of (as_uuid c) T) = [1..int (length (rows_of (as_uuid c) T))]"
proof -
  have ok: "chains_ok L T" using run_chains_ok [OF assms(1)] assms(2) by simp
  then have chain: "chain_from L 0 None (rows_of (as_uuid c) T)" by (simp add: rows_of_chain [OF ok] chains_ok_def)
  have "chain_segment T c a b = [] \<longleftrightarrow> \<not> (\<exists>r\<in>set T. row_community r = as_uuid c \<and> a \<le> row_seq r \<and> row_seq r \<le> b)"
    by (auto simp: chain_segment_def rows_of_def filter_empty_conv)
  then show ?thesis
    using chain_from_verifies [OF chain, of None a b] chain_from_seqs [OF chain]
    by (auto simp: verify_chain_def Let_def chain_segment_def)
qed

text \<open>
  The log only grows, one community at a time.  An append leaves every other community's verification
  and entries as they were; in its own chain it keeps the rows and, when it succeeds, adds one at the end
  that reads back as the entry returned, numbered next and linked to the hash before it.
\<close>

theorem audit_append_only:
  assumes "list_all (\<lambda>(_, _, entry). detail_kept L entry) ops" and "T = fst (run_ops (exec_append L) ops [])"
    and "log_inner L accepts now entry T = (T1, r)" and "c \<noteq> ne_community_id entry"
  shows "verify_chain L T1 c a b = verify_chain L T c a b \<and> get_entries T1 c a n = get_entries T c a n
    \<and> (case r of
         Inl _ \<Rightarrow> T1 = T
       | Inr e \<Rightarrow> rows_of (as_uuid (ne_community_id entry)) T1 = rows_of (as_uuid (ne_community_id entry)) T @ [entry_row L e]
           \<and> get_entries T1 (ne_community_id entry) (seq e) 1 = Inr [e\<lparr>detail := jsonb_column L (ne_detail entry)\<rparr>]
           \<and> seq e = int (length (rows_of (as_uuid (ne_community_id entry)) T)) + 1
           \<and> prev_hash e = (if rows_of (as_uuid (ne_community_id entry)) T = [] then None
                            else Some (row_hash (last (rows_of (as_uuid (ne_community_id entry)) T)))))"
proof -
  let ?c = "as_uuid (ne_community_id entry)"
  have ok: "chains_ok L T" using run_chains_ok [OF assms(1)] assms(2) by simp
  have other: "as_uuid c \<noteq> ?c" using assms(4) by (cases c; cases "ne_community_id entry") auto
  show ?thesis using log_inner_outcome [OF ok assms(3)]
  proof (elim disjE exE conjE)
    fix e
    assume e: "r = Inr e" "T1 = T @ [entry_row L e]" "ae_community_id e = ?c" "seq e = int (length (rows_of ?c T)) + 1"
      "prev_hash e = (if rows_of ?c T = [] then None else Some (row_hash (last (rows_of ?c T))))"
      "created_at e = to_storage_precision now" "detail e = ne_detail entry"
    have same: "rows_of (as_uuid c) T1 = rows_of (as_uuid c) T" using e other by (simp add: rows_of_def)
    have chain: "chain_from L 0 None (rows_of ?c T)" using ok by (simp add: rows_of_chain [OF ok] chains_ok_def)
    have seqs: "row_seq q \<le> int (length (rows_of ?c T))" if "q \<in> set (rows_of ?c T)" for q
      using that chain_from_seqs [OF chain] by (metis add_0 atLeastAtMost_iff image_eqI list.set_map set_upto)
    have "sorted (map row_seq (rows_of ?c T @ [entry_row L e]))"
      using seqs e(4) by (force simp: sorted_append rows_of_def)
    then have own: "rows_of ?c T1 = rows_of ?c T @ [entry_row L e]"
      using sort_key_id_if_sorted e(2,3) rows_of_chain [OF ok] by (metis (mono_tags, lifting) entry_row_sel(1)
          filter.simps filter_append rows_of_def)
    have "filter (\<lambda>q. seq e \<le> row_seq q) (rows_of ?c T1) = [entry_row L e]"
      using seqs e(4) by (force simp: own filter_empty_conv)
    then have "get_entries T1 (ne_community_id entry) (seq e) 1 = Inr [e\<lparr>detail := jsonb_column L (ne_detail entry)\<rparr>]"
      using e(7) by (simp add: get_entries_def entry_row_reads_back [OF e(6)])
    then show ?thesis
      using e own same by (simp add: verify_chain_def chain_segment_def get_entries_def)
  qed simp
qed


text \<open>
  The hashed bytes do not separate the actor from the object: moving the end of the actor's bytes,
  from a byte 1 on, into the object leaves the hash of the entry as it was, for every hash function.
\<close>

theorem audit_fields_shift:
  "compute_hash L (e\<lparr>actor_pubkey := Some (p @ 1 # str_bytes s), object_id := Some t\<rparr>)
   = compute_hash L (e\<lparr>actor_pubkey := Some p, object_id := Some (s @ CHR 0x01 # t)\<rparr>)"
  by (simp add: compute_hash_def hash_input_def optional_field_def str_bytes_def)


section \<open>Witnesses\<close>

definition demo_audit_lib :: audit_lib where
  "demo_audit_lib =
     \<lparr>sha256 = (\<lambda>bs. replicate 31 0 @ [sum_list bs]), to_rfc3339 = (\<lambda>_. ''2026-01-01T00:00:00+00:00''),
      scalar_json = (\<lambda>_. Some ''null''), key_json = Some, jsonb_column = id\<rparr>"

definition demo_new_entry :: new_audit_entry where
  "demo_new_entry = \<lparr>ne_community_id = CommunityId 7, ne_action = EventCreated, ne_actor_pubkey = Some [65, 1, 66],
     ne_object_id = Some ''C'', ne_detail = JNull\<rparr>"

definition demo_log :: audit_table where
  "demo_log = fst (run_ops (exec_append demo_audit_lib) [(True, 5000, demo_new_entry), (True, 9000, demo_new_entry)] [])"

lemma demo_kept: "list_all (\<lambda>(_, _, entry). detail_kept demo_audit_lib entry) [(True, 5000, demo_new_entry), (True, 9000, demo_new_entry)]"
  by (simp add: detail_kept_def demo_audit_lib_def same_refl)

theorem audit_log_verifies_witness: "verify_chain demo_audit_lib demo_log (CommunityId 7) 1 9 = Inr True"
proof -
  have "\<exists>r\<in>set demo_log. row_community r = 7 \<and> 1 \<le> row_seq r \<and> row_seq r \<le> 9" by code_simp
  then show ?thesis using audit_log_verifies [OF demo_kept demo_log_def, of "CommunityId 7" 1 9] by simp
qed

theorem audit_append_only_witness:
  "verify_chain demo_audit_lib (fst (log_inner demo_audit_lib True 9500 (demo_new_entry\<lparr>ne_community_id := CommunityId 8\<rparr>) demo_log))
     (CommunityId 7) 1 9 = verify_chain demo_audit_lib demo_log (CommunityId 7) 1 9"
proof -
  obtain T1 r where log: "log_inner demo_audit_lib True 9500 (demo_new_entry\<lparr>ne_community_id := CommunityId 8\<rparr>) demo_log = (T1, r)"
    by fastforce
  show ?thesis using audit_append_only [OF demo_kept demo_log_def log, of "CommunityId 7" 1 9 3] log by simp
qed





end
