(* ===== verification/Auth.thy ===== *)
theory Auth
  imports Nostr_Event Tenant Channel
begin

text \<open>
  Authentication and admission: scopes and channel access (\<open>buzz-auth/src/scope.rs\<close>, \<open>access.rs\<close>),
  the verification of NIP-42 and NIP-98 events (\<open>nip42.rs\<close>, \<open>nip98.rs\<close>, \<open>buzz-core/src/verification.rs\<close>),
  the replay guard and the rate limiter over Redis (\<open>nip98_replay.rs\<close>, \<open>rate_limit.rs\<close>,
  \<open>buzz-pubsub/src/nip98_replay.rs\<close>, \<open>rate_limiter.rs\<close>), and how the HTTP bridge and the operator API
  compose them (\<open>buzz-relay/src/admission.rs\<close>, \<open>api/bridge.rs\<close>, \<open>api/operator.rs\<close>).

  Signature checks, SHA-256, hexadecimal, base64, JSON and URL parsing are the fields of \<open>auth_lib\<close>;
  Redis is the parameter \<open>redis\<close>, and what is relied on of it is the predicate \<open>redis_ok\<close>.  Wall-clock
  milliseconds are arguments.
\<close>

section \<open>Scopes\<close>

datatype scope =
  MessagesRead | MessagesWrite | ChannelsRead | ChannelsWrite | AdminChannels | UsersRead | UsersWrite | AdminUsers
| JobsRead | JobsWrite | SubscriptionsRead | SubscriptionsWrite | FilesRead | FilesWrite | ReposRead | ReposWrite
| UnknownScope string

definition all_known :: "scope list" where
  "all_known = [MessagesRead, MessagesWrite, ChannelsRead, ChannelsWrite, AdminChannels, UsersRead, UsersWrite,
     AdminUsers, JobsRead, JobsWrite, SubscriptionsRead, SubscriptionsWrite, FilesRead, FilesWrite, ReposRead, ReposWrite]"

definition all_non_admin :: "scope list" where
  "all_non_admin = [MessagesRead, MessagesWrite, ChannelsRead, ChannelsWrite, UsersRead, UsersWrite,
     JobsRead, JobsWrite, SubscriptionsRead, SubscriptionsWrite, FilesRead, FilesWrite, ReposRead, ReposWrite]"

fun scope_as_str :: "scope \<Rightarrow> string" where
  "scope_as_str MessagesRead = ''messages:read''"
| "scope_as_str MessagesWrite = ''messages:write''"
| "scope_as_str ChannelsRead = ''channels:read''"
| "scope_as_str ChannelsWrite = ''channels:write''"
| "scope_as_str AdminChannels = ''admin:channels''"
| "scope_as_str UsersRead = ''users:read''"
| "scope_as_str UsersWrite = ''users:write''"
| "scope_as_str AdminUsers = ''admin:users''"
| "scope_as_str JobsRead = ''jobs:read''"
| "scope_as_str JobsWrite = ''jobs:write''"
| "scope_as_str SubscriptionsRead = ''subscriptions:read''"
| "scope_as_str SubscriptionsWrite = ''subscriptions:write''"
| "scope_as_str FilesRead = ''files:read''"
| "scope_as_str FilesWrite = ''files:write''"
| "scope_as_str ReposRead = ''repos:read''"
| "scope_as_str ReposWrite = ''repos:write''"
| "scope_as_str (UnknownScope s) = s"

definition scope_from_str :: "string \<Rightarrow> scope" where
  "scope_from_str s =
     (if s = ''messages:read'' then MessagesRead
      else if s = ''messages:write'' then MessagesWrite
      else if s = ''channels:read'' then ChannelsRead
      else if s = ''channels:write'' then ChannelsWrite
      else if s = ''admin:channels'' then AdminChannels
      else if s = ''users:read'' then UsersRead
      else if s = ''users:write'' then UsersWrite
      else if s = ''admin:users'' then AdminUsers
      else if s = ''jobs:read'' then JobsRead
      else if s = ''jobs:write'' then JobsWrite
      else if s = ''subscriptions:read'' then SubscriptionsRead
      else if s = ''subscriptions:write'' then SubscriptionsWrite
      else if s = ''files:read'' then FilesRead
      else if s = ''files:write'' then FilesWrite
      else if s = ''repos:read'' then ReposRead
      else if s = ''repos:write'' then ReposWrite
      else UnknownScope s)"

definition parse_scopes :: "string list \<Rightarrow> scope list" where
  "parse_scopes raw = map scope_from_str raw"

section \<open>Errors and access\<close>

text \<open>The reasons of \<open>Nip98Invalid\<close> stand for its messages.\<close>

datatype nip98_failure =
  EventJson | WrongKind u16 | BadSignature | OutsideWindow nat | MissingUrl | UrlMismatch string string
| MissingMethod | MethodMismatch string string | PayloadMismatch

datatype auth_error =
  InvalidSignature | ChallengeMismatch | RelayUrlMismatch | EventExpired | Nip98Invalid nip98_failure | Nip98Replay
| PubkeyMismatch | InsufficientScope string "string list" | ChannelAccessDenied | Internal

definition require_scope :: "scope list \<Rightarrow> scope \<Rightarrow> auth_error + unit" where
  "require_scope scopes required =
     (if required \<in> set scopes then Inr ()
      else Inl (InsufficientScope (scope_as_str required) (map scope_as_str scopes)))"

text \<open>The default \<open>can_access\<close> of the membership interface over its \<open>accessible_channel_ids\<close>.\<close>

type_synonym access_checker = "tenant_context \<Rightarrow> pubkey \<Rightarrow> auth_error + uuid set"

definition can_access :: "access_checker \<Rightarrow> tenant_context \<Rightarrow> pubkey \<Rightarrow> uuid \<Rightarrow> auth_error + bool" where
  "can_access checker ctx pk ch = bind_result (checker ctx pk) (\<lambda>ids. Inr (ch \<in> ids))"

definition check_read_access ::
  "access_checker \<Rightarrow> tenant_context \<Rightarrow> pubkey \<Rightarrow> uuid \<Rightarrow> scope list \<Rightarrow> auth_error + unit" where
  "check_read_access checker ctx pk ch scopes =
     bind_result (require_scope scopes MessagesRead) (\<lambda>_.
       bind_result (can_access checker ctx pk ch) (\<lambda>ok. if ok then Inr () else Inl ChannelAccessDenied))"

definition check_write_access ::
  "access_checker \<Rightarrow> tenant_context \<Rightarrow> pubkey \<Rightarrow> uuid \<Rightarrow> scope list \<Rightarrow> auth_error + unit" where
  "check_write_access checker ctx pk ch scopes =
     bind_result (require_scope scopes MessagesWrite) (\<lambda>_.
       bind_result (can_access checker ctx pk ch) (\<lambda>ok. if ok then Inr () else Inl ChannelAccessDenied))"

section \<open>External functions\<close>

record 'u auth_lib =
  nostr :: nostr_lib
  event_id_of :: "event \<Rightarrow> byte list"
  verify_id :: "event \<Rightarrow> bool"
  verify_signature :: "event \<Rightarrow> bool"
  parse_event :: "string \<Rightarrow> event option"
  sha256_of :: "byte list \<Rightarrow> byte list"
  hex_encode :: "byte list \<Rightarrow> string"
  pubkey_from_hex :: "string \<Rightarrow> pubkey option"
  base64_decode :: "string \<Rightarrow> byte list option"
  from_utf8 :: "byte list \<Rightarrow> string option"
  str_lowercase :: "string \<Rightarrow> string"
  url_parse :: "string \<Rightarrow> 'u option"
  url_path :: "'u \<Rightarrow> string"
  set_path :: "string \<Rightarrow> 'u \<Rightarrow> 'u"
  host_str :: "'u \<Rightarrow> string option"
  set_host :: "string \<Rightarrow> 'u \<Rightarrow> 'u"
  url_string :: "'u \<Rightarrow> string"

datatype verification_error = InvalidId string string | InvalidEventSignature

definition verify_event :: "'u auth_lib \<Rightarrow> event \<Rightarrow> verification_error + unit" where
  "verify_event L e =
     (if \<not> verify_id L e then Inl (InvalidId (hex_encode L (event_id_of L e)) (hex_encode L (ev_id e)))
      else if \<not> verify_signature L e then Inl InvalidEventSignature
      else Inr ())"

definition abs_diff :: "nat \<Rightarrow> nat \<Rightarrow> nat" where
  "abs_diff a b = (if a \<le> b then b - a else a - b)"

definition TIMESTAMP_TOLERANCE_SECS :: nat where
  "TIMESTAMP_TOLERANCE_SECS = 60"

text \<open>The content of the first tag of a kind.\<close>

definition first_content :: "nostr_lib \<Rightarrow> string \<Rightarrow> event \<Rightarrow> string option" where
  "first_content N kind e =
     Option.bind (find (\<lambda>t. tag_kind_str N t = kind) (ev_tags e)) (tag_content N)"

definition trim_end_slashes :: "string \<Rightarrow> string" where
  "trim_end_slashes s = rev (dropWhile (\<lambda>c. c = CHR ''/'') (rev s))"

definition eq_ignore_ascii_case :: "string \<Rightarrow> string \<Rightarrow> bool" where
  "eq_ignore_ascii_case a b \<longleftrightarrow> to_ascii_lowercase a = to_ascii_lowercase b"

section \<open>NIP-42\<close>

definition normalize_relay_url :: "'u auth_lib \<Rightarrow> string \<Rightarrow> string" where
  "normalize_relay_url L raw =
     (case url_parse L raw of
        None \<Rightarrow> raw
      | Some u \<Rightarrow>
          (let u1 = (case host_str L u of
                       Some h \<Rightarrow> if h = ''localhost'' \<or> h = ''::1'' then set_host L ''127.0.0.1'' u else u
                     | None \<Rightarrow> u)
           in url_string L (set_path L (trim_end_slashes (url_path L u1)) u1)))"

definition verify_nip42_event ::
  "'u auth_lib \<Rightarrow> nat \<Rightarrow> event \<Rightarrow> string \<Rightarrow> string \<Rightarrow> auth_error + unit" where
  "verify_nip42_event L now e expected_challenge relay_url =
     (if ev_kind e \<noteq> 22242 then Inl InvalidSignature
      else bind_result (map_err (\<lambda>_. InvalidSignature) (verify_event L e)) (\<lambda>_.
        bind_result (ok_or ChallengeMismatch (first_content (nostr L) ''challenge'' e)) (\<lambda>challenge.
          if challenge \<noteq> expected_challenge then Inl ChallengeMismatch
          else bind_result (ok_or RelayUrlMismatch (first_content (nostr L) ''relay'' e)) (\<lambda>relay.
            if normalize_relay_url L relay \<noteq> normalize_relay_url L relay_url then Inl RelayUrlMismatch
            else if abs_diff (now div 1000) (ev_created_at e) > TIMESTAMP_TOLERANCE_SECS then Inl EventExpired
            else Inr ()))))"

datatype auth_method = Nip42 | Nip98

record auth_context =
  ac_pubkey :: pubkey
  ac_scopes :: "scope list"
  ac_channel_ids :: "uuid list option"
  ac_auth_method :: auth_method
  agent_owner_pubkey :: "pubkey option"

definition has_scope :: "auth_context \<Rightarrow> scope \<Rightarrow> bool" where
  "has_scope c s \<longleftrightarrow> s \<in> set (ac_scopes c)"

definition verify_auth_event ::
  "'u auth_lib \<Rightarrow> nat \<Rightarrow> event \<Rightarrow> string \<Rightarrow> string \<Rightarrow> auth_error + auth_context" where
  "verify_auth_event L now e expected_challenge relay_url =
     bind_result (verify_nip42_event L now e expected_challenge relay_url) (\<lambda>_.
       Inr \<lparr>ac_pubkey = ev_pubkey e, ac_scopes = all_known, ac_channel_ids = None, ac_auth_method = Nip42,
            agent_owner_pubkey = None\<rparr>)"

section \<open>NIP-98\<close>

definition normalize_url :: "'u auth_lib \<Rightarrow> string \<Rightarrow> string" where
  "normalize_url L raw =
     (case url_parse L raw of
        None \<Rightarrow> str_lowercase L raw
      | Some u \<Rightarrow> url_string L (set_path L (trim_end_slashes (url_path L u)) u))"

definition verify_nip98_event ::
  "'u auth_lib \<Rightarrow> nat \<Rightarrow> string \<Rightarrow> string \<Rightarrow> string \<Rightarrow> byte list option \<Rightarrow> auth_error + pubkey" where
  "verify_nip98_event L now event_json expected_url expected_method body =
     map_err Nip98Invalid
       (bind_result (ok_or EventJson (parse_event L event_json)) (\<lambda>e.
          if ev_kind e \<noteq> 27235 then Inl (WrongKind (ev_kind e))
          else bind_result (map_err (\<lambda>_. BadSignature) (verify_event L e)) (\<lambda>_.
            let delta = abs_diff (now div 1000) (ev_created_at e)
            in if delta > TIMESTAMP_TOLERANCE_SECS then Inl (OutsideWindow delta)
               else bind_result (ok_or MissingUrl (first_content (nostr L) ''u'' e)) (\<lambda>u_tag.
                 if normalize_url L u_tag \<noteq> normalize_url L expected_url then Inl (UrlMismatch u_tag expected_url)
                 else bind_result (ok_or MissingMethod (first_content (nostr L) ''method'' e)) (\<lambda>method_tag.
                   if \<not> eq_ignore_ascii_case method_tag expected_method
                   then Inl (MethodMismatch method_tag expected_method)
                   else (case (first_content (nostr L) ''payload'' e, body) of
                           (Some payload_hex, Some body_bytes) \<Rightarrow>
                             if hex_encode L (sha256_of L body_bytes) \<noteq> payload_hex then Inl PayloadMismatch
                             else Inr (ev_pubkey e)
                         | _ \<Rightarrow> Inr (ev_pubkey e)))))))"

section \<open>Redis\<close>

text \<open>
  The commands the code sends, each at an instant.  The logical view of a store gives for a key its value
  and, if it has one, the instant of its expiry.
\<close>

datatype set_reply = ReplyOk | ReplyNil | ReplyOther string

record 's redis =
  set_nx_ex :: "nat \<Rightarrow> string \<Rightarrow> nat \<Rightarrow> 's \<Rightarrow> 's \<times> set_reply"
  incr :: "nat \<Rightarrow> string \<Rightarrow> 's \<Rightarrow> 's \<times> nat"
  expire :: "nat \<Rightarrow> string \<Rightarrow> nat \<Rightarrow> 's \<Rightarrow> 's"
  ttl :: "nat \<Rightarrow> string \<Rightarrow> 's \<Rightarrow> int"

type_synonym redis_entry = "nat \<times> nat option"

definition live_entry :: "nat \<Rightarrow> redis_entry option \<Rightarrow> redis_entry option" where
  "live_entry now x =
     (case x of
        Some (v, Some e) \<Rightarrow> if now < e then x else None
      | _ \<Rightarrow> x)"

text \<open>
  What the manual of Redis says of the commands: \<open>SET NX EX\<close> sets an absent or expired key and nothing
  else, \<open>INCR\<close> counts from one and keeps the expiry, \<open>EXPIRE\<close> sets the expiry of a live key, \<open>TTL\<close> is
  negative exactly for a missing key or one without expiry.
\<close>

definition redis_ok :: "'s redis \<Rightarrow> ('s \<Rightarrow> string \<rightharpoonup> redis_entry) \<Rightarrow> bool" where
  "redis_ok R view \<longleftrightarrow>
     (\<forall>now k secs s.
        (case live_entry now (view s k) of
           None \<Rightarrow> snd (set_nx_ex R now k secs s) = ReplyOk
             \<and> view (fst (set_nx_ex R now k secs s)) = (view s)(k \<mapsto> (1, Some (now + 1000 * secs)))
             \<and> view (expire R now k secs s) = view s
             \<and> snd (incr R now k s) = 1 \<and> view (fst (incr R now k s)) = (view s)(k \<mapsto> (1, None))
             \<and> ttl R now k s < 0
         | Some (v, e) \<Rightarrow> snd (set_nx_ex R now k secs s) = ReplyNil
             \<and> view (fst (set_nx_ex R now k secs s)) = view s
             \<and> view (expire R now k secs s) = (view s)(k \<mapsto> (v, Some (now + 1000 * secs)))
             \<and> snd (incr R now k s) = v + 1 \<and> view (fst (incr R now k s)) = (view s)(k \<mapsto> (v + 1, e))
             \<and> (ttl R now k s < 0 \<longleftrightarrow> e = None)))"

section \<open>Rate limits\<close>

datatype limit_type = Messages | ApiCalls | WsEvents | IpConnections

fun key_suffix :: "limit_type \<Rightarrow> string" where
  "key_suffix Messages = ''msg''"
| "key_suffix ApiCalls = ''api''"
| "key_suffix WsEvents = ''ws''"
| "key_suffix IpConnections = ''conn''"

record rate_limit_result =
  rl_allowed :: bool
  rl_current :: nat
  rl_limit :: nat
  reset_in_secs :: nat

record rate_limit_config =
  human_messages_per_min :: nat
  human_api_calls_per_min :: nat
  human_ws_events_per_sec :: nat
  agent_standard_messages_per_min :: nat
  agent_standard_api_calls_per_min :: nat
  agent_elevated_messages_per_min :: nat
  agent_platform_messages_per_min :: nat

definition rate_limit_config_default :: rate_limit_config where
  "rate_limit_config_default =
     \<lparr>human_messages_per_min = 60, human_api_calls_per_min = 300, human_ws_events_per_sec = 10,
      agent_standard_messages_per_min = 120, agent_standard_api_calls_per_min = 600,
      agent_elevated_messages_per_min = 300, agent_platform_messages_per_min = 600\<rparr>"

definition community_str :: "'u auth_lib \<Rightarrow> tenant_context \<Rightarrow> string" where
  "community_str L ctx = uuid_str (nostr L) (as_uuid (tc_community ctx))"

definition rate_limit_key :: "'u auth_lib \<Rightarrow> tenant_context \<Rightarrow> pubkey \<Rightarrow> limit_type \<Rightarrow> string" where
  "rate_limit_key L ctx pk lt =
     ''buzz:'' @ community_str L ctx @ '':ratelimit:'' @ hex_encode L pk @ '':'' @ key_suffix lt"

definition ip_rate_limit_key :: "string \<Rightarrow> string" where
  "ip_rate_limit_key ip = ''buzz:ratelimit:ip:'' @ ip @ '':conn''"

definition rate_limit_script :: "'s redis \<Rightarrow> nat \<Rightarrow> string \<Rightarrow> nat \<Rightarrow> 's \<Rightarrow> 's \<times> nat \<times> int" where
  "rate_limit_script R now key window s =
     (let (s1, count) = incr R now key s;
          s2 = (if count = 1 then expire R now key window s1 else s1)
      in (s2, count, ttl R now key s2))"

text \<open>\<open>up\<close>: whether Redis answers.\<close>

definition run_rate_limit ::
  "'s redis \<Rightarrow> bool \<Rightarrow> nat \<Rightarrow> string \<Rightarrow> nat \<Rightarrow> nat \<Rightarrow> 's \<Rightarrow> 's \<times> (auth_error + rate_limit_result)" where
  "run_rate_limit R up now key window_secs limit s =
     (if \<not> up then (s, Inl Internal)
      else
        (let (s1, count, t) = rate_limit_script R now key window_secs s;
             (s2, reset) = (if t < 0 then (expire R now key window_secs s1, window_secs) else (s1, nat t))
         in (s2, Inr \<lparr>rl_allowed = (count \<le> limit), rl_current = count, rl_limit = limit, reset_in_secs = reset\<rparr>)))"

definition check_and_increment ::
  "'u auth_lib \<Rightarrow> 's redis \<Rightarrow> bool \<Rightarrow> nat \<Rightarrow> tenant_context \<Rightarrow> pubkey \<Rightarrow> limit_type \<Rightarrow> nat \<Rightarrow> nat \<Rightarrow> 's
     \<Rightarrow> 's \<times> (auth_error + rate_limit_result)" where
  "check_and_increment L R up now ctx pk lt window_secs limit s =
     run_rate_limit R up now (rate_limit_key L ctx pk lt) window_secs limit s"

definition check_ip_connection ::
  "'s redis \<Rightarrow> bool \<Rightarrow> nat \<Rightarrow> string \<Rightarrow> nat \<Rightarrow> nat \<Rightarrow> 's \<Rightarrow> 's \<times> (auth_error + rate_limit_result)" where
  "check_ip_connection R up now ip window_secs limit s =
     run_rate_limit R up now (ip_rate_limit_key ip) window_secs limit s"

datatype admission_error = Exceeded nat | Unavailable

definition check_principal ::
  "'u auth_lib \<Rightarrow> 's redis \<Rightarrow> bool \<Rightarrow> nat \<Rightarrow> tenant_context \<Rightarrow> pubkey \<Rightarrow> limit_type \<Rightarrow> nat \<Rightarrow> nat \<Rightarrow> 's
     \<Rightarrow> 's \<times> (admission_error + unit)" where
  "check_principal L R up now ctx pk lt window_secs limit s =
     (case check_and_increment L R up now ctx pk lt window_secs limit s of
        (s1, Inr result) \<Rightarrow> (s1, if rl_allowed result then Inr () else Inl (Exceeded (reset_in_secs result)))
      | (s1, Inl _) \<Rightarrow> (s1, Inl Unavailable))"

definition WS_BURST_WINDOW_SECS :: nat where
  "WS_BURST_WINDOW_SECS = 5"

definition ws_admission_budget :: "64 word \<Rightarrow> nat \<times> 64 word" where
  "ws_admission_budget per_second_limit =
     (WS_BURST_WINDOW_SECS,
      if unat per_second_limit * WS_BURST_WINDOW_SECS < 2 ^ 64
      then per_second_limit * of_nat WS_BURST_WINDOW_SECS else - 1)"

section \<open>Replay guard\<close>

definition DEFAULT_REPLAY_TTL_SECS :: nat where
  "DEFAULT_REPLAY_TTL_SECS = 120"

definition MAX_REPLAY_TTL_SECS :: nat where
  "MAX_REPLAY_TTL_SECS = 3600"

definition nip98_replay_key_for_scope :: "'u auth_lib \<Rightarrow> string \<Rightarrow> byte list \<Rightarrow> string" where
  "nip98_replay_key_for_scope L scp event_id = ''buzz:'' @ scp @ '':nip98:'' @ hex_encode L event_id"

definition nip98_replay_key :: "'u auth_lib \<Rightarrow> tenant_context \<Rightarrow> byte list \<Rightarrow> string" where
  "nip98_replay_key L ctx event_id = nip98_replay_key_for_scope L (community_str L ctx) event_id"

definition try_mark_in_scope ::
  "'u auth_lib \<Rightarrow> 's redis \<Rightarrow> bool \<Rightarrow> nat \<Rightarrow> string \<Rightarrow> byte list \<Rightarrow> nat \<Rightarrow> 's \<Rightarrow> 's \<times> (auth_error + bool)" where
  "try_mark_in_scope L R up now scp event_id ttl_secs s =
     (let lifetime = min (max ttl_secs DEFAULT_REPLAY_TTL_SECS) MAX_REPLAY_TTL_SECS
      in if \<not> up then (s, Inl Internal)
         else (case set_nx_ex R now (nip98_replay_key_for_scope L scp event_id) lifetime s of
                 (s1, ReplyOk) \<Rightarrow> (s1, Inr True)
               | (s1, ReplyNil) \<Rightarrow> (s1, Inr False)
               | (s1, ReplyOther _) \<Rightarrow> (s1, Inl Internal)))"

definition try_mark ::
  "'u auth_lib \<Rightarrow> 's redis \<Rightarrow> bool \<Rightarrow> nat \<Rightarrow> tenant_context \<Rightarrow> byte list \<Rightarrow> nat \<Rightarrow> 's \<Rightarrow> 's \<times> (auth_error + bool)" where
  "try_mark L R up now ctx event_id ttl_secs s = try_mark_in_scope L R up now (community_str L ctx) event_id ttl_secs s"

section \<open>HTTP requests\<close>

datatype api_error =
  InvalidBase64 | InvalidUtf8 | InvalidEventJson | MissingPayloadTag | Nip98Error auth_error | InvalidXPubkey
| MissingNostrAuth | ReplayDetected | ReplayUnavailable | QuotaExceeded nat | AdmissionUnavailable
| NotConfigured | NotOperator

record headers =
  authorization :: "string option"
  x_pubkey :: "string option"

definition verify_bridge_auth_with_options ::
  "'u auth_lib \<Rightarrow> nat \<Rightarrow> headers \<Rightarrow> string \<Rightarrow> string \<Rightarrow> byte list option \<Rightarrow> bool \<Rightarrow> bool \<Rightarrow> api_error + pubkey \<times> byte list" where
  "verify_bridge_auth_with_options L now hs method url body require_auth_token require_payload =
     (case Option.bind (authorization hs) (strip_prefix ''Nostr '') of
        Some auth_str \<Rightarrow>
          bind_result (ok_or InvalidBase64 (base64_decode L auth_str)) (\<lambda>bytes.
          bind_result (ok_or InvalidUtf8 (from_utf8 L bytes)) (\<lambda>event_json.
          bind_result (ok_or InvalidEventJson (parse_event L event_json)) (\<lambda>e.
            if require_payload \<and> \<not> list_ex (\<lambda>t. tag_kind_str (nostr L) t = ''payload'') (ev_tags e)
            then Inl MissingPayloadTag
            else bind_result (map_err Nip98Error (verify_nip98_event L now event_json url method body)) (\<lambda>pk.
                   Inr (pk, ev_id e)))))
      | None \<Rightarrow>
          (case (if require_auth_token then None else x_pubkey hs) of
             Some hex_val \<Rightarrow>
               bind_result (ok_or InvalidXPubkey (pubkey_from_hex L hex_val)) (\<lambda>pk. Inr (pk, replicate 32 0))
           | None \<Rightarrow> Inl MissingNostrAuth))"

definition verify_bridge_auth ::
  "'u auth_lib \<Rightarrow> nat \<Rightarrow> headers \<Rightarrow> string \<Rightarrow> string \<Rightarrow> byte list option \<Rightarrow> bool \<Rightarrow> api_error + pubkey \<times> byte list" where
  "verify_bridge_auth L now hs method url body require_auth_token =
     verify_bridge_auth_with_options L now hs method url body require_auth_token False"

definition check_nip98_replay_with_guard ::
  "'u auth_lib \<Rightarrow> 's redis \<Rightarrow> bool \<Rightarrow> nat \<Rightarrow> tenant_context \<Rightarrow> byte list \<Rightarrow> 's \<Rightarrow> 's \<times> (api_error + unit)" where
  "check_nip98_replay_with_guard L R up now ctx event_id s =
     (if event_id = replicate 32 0 then (s, Inr ())
      else (case try_mark L R up now ctx event_id DEFAULT_REPLAY_TTL_SECS s of
              (s1, Inr True) \<Rightarrow> (s1, Inr ())
            | (s1, Inr False) \<Rightarrow> (s1, Inl ReplayDetected)
            | (s1, Inl _) \<Rightarrow> (s1, Inl ReplayUnavailable)))"

definition enforce_http_admission ::
  "'u auth_lib \<Rightarrow> 's redis \<Rightarrow> bool \<Rightarrow> nat \<Rightarrow> rate_limit_config \<Rightarrow> tenant_context \<Rightarrow> pubkey \<Rightarrow> 's \<Rightarrow> 's \<times> (api_error + unit)" where
  "enforce_http_admission L R up now cfg ctx pk s =
     (case check_principal L R up now ctx pk ApiCalls 60 (human_api_calls_per_min cfg) s of
        (s1, Inr _) \<Rightarrow> (s1, Inr ())
      | (s1, Inl (Exceeded reset)) \<Rightarrow> (s1, Inl (QuotaExceeded reset))
      | (s1, Inl Unavailable) \<Rightarrow> (s1, Inl AdmissionUnavailable))"


definition is_wss :: "ustr \<Rightarrow> bool" where
  "is_wss url \<longleftrightarrow> starts_with (dropWhile is_whitespace url) (ascii ''wss://'')"

definition nip98_expected_url :: "ustr \<Rightarrow> tenant_context \<Rightarrow> string \<Rightarrow> string" where
  "nip98_expected_url config_relay_url tenant path =
     (if is_wss config_relay_url then ''https'' else ''http'') @ ''://'' @ utf8 (host tenant) @ path"

definition nip42_expected_relay_url :: "ustr \<Rightarrow> tenant_context \<Rightarrow> string" where
  "nip42_expected_relay_url config_relay_url tenant =
     (if is_wss config_relay_url then ''wss'' else ''ws'') @ ''://'' @ utf8 (host tenant)"

record relay_config =
  relay_url :: ustr
  require_auth_token :: bool
  rate_limits :: rate_limit_config
  operator_api_origin :: "string option"
  relay_operator_pubkeys :: "string list"

text \<open>
  A request with the instants of its verification and of its Redis commands, and whether Redis answers.
  A bridge request is a \<open>POST\<close> to a path; its community is the one its host is bound to.
\<close>

record http_request =
  verified_at :: nat
  marked_at :: nat
  redis_up :: bool
  req_headers :: headers
  req_method :: string
  req_path :: string
  req_body :: "byte list option"

definition admit_bridge_request ::
  "'u auth_lib \<Rightarrow> 's redis \<Rightarrow> relay_config \<Rightarrow> tenant_context \<Rightarrow> http_request \<Rightarrow> 's \<Rightarrow> 's \<times> (api_error + pubkey)" where
  "admit_bridge_request L R cfg tenant q s =
     try_in s (verify_bridge_auth L (verified_at q) (req_headers q) ''POST''
                 (nip98_expected_url (relay_url cfg) tenant (req_path q)) (req_body q) (require_auth_token cfg))
       (\<lambda>(pk, event_id).
          (case enforce_http_admission L R (redis_up q) (marked_at q) (rate_limits cfg) tenant pk s of
             (s1, Inl e) \<Rightarrow> (s1, Inl e)
           | (s1, Inr _) \<Rightarrow>
               (case check_nip98_replay_with_guard L R (redis_up q) (marked_at q) tenant event_id s1 of
                  (s2, Inl e) \<Rightarrow> (s2, Inl e)
                | (s2, Inr _) \<Rightarrow> (s2, Inr pk))))"

definition OPERATOR_REPLAY_SCOPE :: string where
  "OPERATOR_REPLAY_SCOPE = ''operator-management''"

definition check_operator_replay ::
  "'u auth_lib \<Rightarrow> 's redis \<Rightarrow> bool \<Rightarrow> nat \<Rightarrow> byte list \<Rightarrow> 's \<Rightarrow> 's \<times> (api_error + unit)" where
  "check_operator_replay L R up now event_id s =
     (case try_mark_in_scope L R up now OPERATOR_REPLAY_SCOPE event_id DEFAULT_REPLAY_TTL_SECS s of
        (s1, Inr True) \<Rightarrow> (s1, Inr ())
      | (s1, Inr False) \<Rightarrow> (s1, Inl ReplayDetected)
      | (s1, Inl _) \<Rightarrow> (s1, Inl ReplayUnavailable))"

definition authorize_operator_request ::
  "'u auth_lib \<Rightarrow> 's redis \<Rightarrow> relay_config \<Rightarrow> http_request \<Rightarrow> 's \<Rightarrow> 's \<times> (api_error + pubkey)" where
  "authorize_operator_request L R cfg q s =
     try_in s (ok_or NotConfigured (operator_api_origin cfg)) (\<lambda>origin.
       try_in s (verify_bridge_auth_with_options L (verified_at q) (req_headers q) (req_method q)
                   (origin @ req_path q) (req_body q) True (req_body q \<noteq> None))
         (\<lambda>(pk, event_id).
            (case check_operator_replay L R (redis_up q) (marked_at q) event_id s of
               (s1, Inl e) \<Rightarrow> (s1, Inl e)
             | (s1, Inr _) \<Rightarrow>
                 (if hex_encode L pk \<in> set (relay_operator_pubkeys cfg) then (s1, Inr pk)
                  else (s1, Inl NotOperator)))))"

section \<open>Facts about verification\<close>

lemma scope_as_from_str [simp]: "scope_as_str (scope_from_str s) = s"
  by (simp add: scope_from_str_def)

lemma scope_from_known: "c \<in> set all_known \<Longrightarrow> scope_from_str (scope_as_str c) = c"
  by (cases c) (simp_all add: all_known_def scope_from_str_def)

lemma first_content_Some:
  "first_content N k e = Some v \<Longrightarrow> \<exists>t\<in>set (ev_tags e). tag_kind_str N t = k \<and> tag_content N t = Some v"
  by (auto simp: first_content_def bind_eq_Some_conv find_Some_iff)

lemma verify_event_Inr: "verify_event L e = Inr () \<longleftrightarrow> verify_id L e \<and> verify_signature L e"
  by (simp add: verify_event_def)

lemma payload_check:
  "(case p of None \<Rightarrow> Inr y
    | Some h \<Rightarrow> (case body of None \<Rightarrow> Inr y | Some b \<Rightarrow> if f b \<noteq> h then Inl x else Inr y)) = Inr z \<longleftrightarrow>
     (\<forall>h b. p = Some h \<longrightarrow> body = Some b \<longrightarrow> f b = h) \<and> y = z"
  by (auto split: option.split)

text \<open>A verified NIP-98 event in one formula.\<close>

definition nip98_valid :: "'u auth_lib \<Rightarrow> nat \<Rightarrow> event \<Rightarrow> string \<Rightarrow> string \<Rightarrow> byte list option \<Rightarrow> bool" where
  "nip98_valid L now e url method body \<longleftrightarrow>
     ev_kind e = 27235 \<and> verify_id L e \<and> verify_signature L e
     \<and> abs_diff (now div 1000) (ev_created_at e) \<le> 60
     \<and> (\<exists>u. first_content (nostr L) ''u'' e = Some u \<and> normalize_url L u = normalize_url L url)
     \<and> (\<exists>m. first_content (nostr L) ''method'' e = Some m \<and> eq_ignore_ascii_case m method)
     \<and> (\<forall>h b. first_content (nostr L) ''payload'' e = Some h \<longrightarrow> body = Some b \<longrightarrow> hex_encode L (sha256_of L b) = h)"

lemma verify_nip98_event_exact:
  "verify_nip98_event L now event_json url method body = Inr pk \<longleftrightarrow>
     (\<exists>e. parse_event L event_json = Some e \<and> nip98_valid L now e url method body \<and> pk = ev_pubkey e)"
proof (cases "parse_event L event_json")
  case (Some e)
  then show ?thesis
    unfolding verify_nip98_event_def nip98_valid_def TIMESTAMP_TOLERANCE_SECS_def
    by (cases "first_content (nostr L) ''u'' e"; cases "first_content (nostr L) ''method'' e")
      (auto simp: Let_def not_less payload_check verify_event_def)
qed (simp add: verify_nip98_event_def)

lemma verify_bridge_auth_signed:
  assumes "verify_bridge_auth_with_options L now hs method url body token payload = Inr (pk, i)"
  shows "(\<exists>auth bytes json e. authorization hs = Some (''Nostr '' @ auth) \<and> base64_decode L auth = Some bytes
        \<and> from_utf8 L bytes = Some json \<and> parse_event L json = Some e \<and> nip98_valid L now e url method body
        \<and> pk = ev_pubkey e \<and> i = ev_id e)
      \<or> \<not> token \<and> i = replicate 32 0"
  using assms unfolding verify_bridge_auth_with_options_def
  by (auto simp: bind_result_Inr ok_or_Inr verify_nip98_event_exact split: option.splits if_splits)
    (auto simp: bind_eq_Some_conv)


section \<open>The replay guard over time\<close>

text \<open>The operations of the relay on the shared store.\<close>

datatype relay_op = BridgeOp tenant_context http_request | OperatorOp http_request

fun op_time :: "relay_op \<Rightarrow> nat" where
  "op_time (BridgeOp _ q) = marked_at q"
| "op_time (OperatorOp q) = marked_at q"

fun exec_relay :: "'u auth_lib \<Rightarrow> 's redis \<Rightarrow> relay_config \<Rightarrow> 's \<Rightarrow> relay_op \<Rightarrow> 's" where
  "exec_relay L R cfg s (BridgeOp tenant q) = fst (admit_bridge_request L R cfg tenant q s)"
| "exec_relay L R cfg s (OperatorOp q) = fst (authorize_operator_request L R cfg q s)"

text \<open>The event a request is signed with.\<close>

definition signed_event :: "'u auth_lib \<Rightarrow> http_request \<Rightarrow> event option" where
  "signed_event L q =
     Option.bind (authorization (req_headers q)) (\<lambda>h.
       Option.bind (strip_prefix ''Nostr '' h) (\<lambda>b.
         Option.bind (base64_decode L b) (\<lambda>bytes. Option.bind (from_utf8 L bytes) (parse_event L))))"

lemma signed_event_verified:
  assumes "verify_bridge_auth_with_options L now (req_headers q) method url body True payload = Inr (pk, i)"
    and "signed_event L q = Some e"
  shows "i = ev_id e \<and> pk = ev_pubkey e \<and> nip98_valid L now e url method body"
  using verify_bridge_auth_signed [OF assms(1)] assms(2) by (auto simp: signed_event_def bind_eq_Some_conv)

lemma redis_okD:
  assumes "redis_ok R view"
  shows "live_entry now (view s k) = None \<Longrightarrow> snd (set_nx_ex R now k secs s) = ReplyOk
      \<and> view (fst (set_nx_ex R now k secs s)) = (view s)(k \<mapsto> (1, Some (now + 1000 * secs)))"
    and "live_entry now (view s k) = Some (v, e) \<Longrightarrow> snd (set_nx_ex R now k secs s) = ReplyNil
      \<and> view (fst (set_nx_ex R now k secs s)) = view s"
    and "live_entry now (view s k) = None \<Longrightarrow> snd (incr R now k s) = 1
      \<and> view (fst (incr R now k s)) = (view s)(k \<mapsto> (1, None)) \<and> view (expire R now k secs s) = view s"
    and "live_entry now (view s k) = Some (v, e) \<Longrightarrow> snd (incr R now k s) = v + 1
      \<and> view (fst (incr R now k s)) = (view s)(k \<mapsto> (v + 1, e))
      \<and> view (expire R now k secs s) = (view s)(k \<mapsto> (v, Some (now + 1000 * secs)))
      \<and> (ttl R now k s < 0 \<longleftrightarrow> e = None)"
  using assms [unfolded redis_ok_def, THEN spec, of now, THEN spec, of k, THEN spec, of secs, THEN spec, of s]
  by simp_all

lemma redis_frame:
  assumes "redis_ok R view" "k' \<noteq> k"
  shows "view (fst (set_nx_ex R now k secs s)) k' = view s k'" "view (fst (incr R now k s)) k' = view s k'"
    "view (expire R now k secs s) k' = view s k'"
  using redis_okD [OF assms(1), of now s k] assms(2)
  by (cases "live_entry now (view s k)"; force)+

lemma run_rate_limit_frame:
  assumes "redis_ok R view" "k' \<noteq> k"
  shows "view (fst (run_rate_limit R up now k window limit s)) k' = view s k'"
  by (simp add: run_rate_limit_def rate_limit_script_def Let_def case_prod_unfold redis_frame [OF assms])

lemma enforce_http_admission_frame:
  assumes "redis_ok R view" "k' \<noteq> rate_limit_key L ctx pk ApiCalls"
  shows "view (fst (enforce_http_admission L R up now cfg ctx pk s)) k' = view s k'"
proof -
  let ?lim = "human_api_calls_per_min cfg"
  have "fst (enforce_http_admission L R up now cfg ctx pk s) = fst (check_principal L R up now ctx pk ApiCalls 60 ?lim s)"
    by (simp add: enforce_http_admission_def split: prod.split sum.split unit.split admission_error.split)
  also have "\<dots> = fst (run_rate_limit R up now (rate_limit_key L ctx pk ApiCalls) 60 ?lim s)"
    by (simp add: check_principal_def check_and_increment_def split: prod.split sum.split)
  finally show ?thesis using run_rate_limit_frame [OF assms] by simp
qed

lemma replay_key_not_rate_key:
  assumes "CHR '':'' \<notin> set scp" "\<And>c. CHR '':'' \<notin> set (uuid_str (nostr L) c)"
  shows "nip98_replay_key_for_scope L scp i \<noteq> rate_limit_key L ctx pk lt"
proof
  assume "nip98_replay_key_for_scope L scp i = rate_limit_key L ctx pk lt"
  then have "scp @ CHR '':'' # ''nip98:'' @ hex_encode L i
      = community_str L ctx @ CHR '':'' # ''ratelimit:'' @ hex_encode L pk @ '':'' @ key_suffix lt"
    by (simp add: nip98_replay_key_for_scope_def rate_limit_key_def)
  moreover have "CHR '':'' \<notin> set (community_str L ctx)" using assms(2) by (simp add: community_str_def)
  ultimately show False using first_separator_unique [OF assms(1)] by simp
qed

text \<open>A mark that holds until an instant is not disturbed before it.\<close>

definition marked_until :: "('s \<Rightarrow> string \<rightharpoonup> redis_entry) \<Rightarrow> string \<Rightarrow> nat \<Rightarrow> 's \<Rightarrow> bool" where
  "marked_until view k t s \<longleftrightarrow> (\<exists>v. view s k = Some (v, Some t))"

lemma marked_until_set:
  assumes "redis_ok R view" "marked_until view k t s" "now < t"
  shows "marked_until view k t (fst (set_nx_ex R now k' secs s))"
    and "snd (set_nx_ex R now k secs s) = ReplyNil"
proof -
  obtain v where v: "view s k = Some (v, Some t)" using assms(2) by (auto simp: marked_until_def)
  then have live: "live_entry now (view s k) = Some (v, Some t)" using assms(3) by (simp add: live_entry_def)
  note kept = redis_okD(2) [OF assms(1) live]
  show "snd (set_nx_ex R now k secs s) = ReplyNil" using kept by blast
  show "marked_until view k t (fst (set_nx_ex R now k' secs s))"
    using kept redis_frame(1) [OF assms(1), of k k'] v by (cases "k' = k") (auto simp: marked_until_def)
qed

lemma try_mark_kept:
  assumes "redis_ok R view" "marked_until view k t s" "now < t"
  shows "marked_until view k t (fst (try_mark_in_scope L R up now scp i secs s))"
proof -
  let ?set = "set_nx_ex R now (nip98_replay_key_for_scope L scp i) (min (max secs DEFAULT_REPLAY_TTL_SECS) MAX_REPLAY_TTL_SECS) s"
  have "fst (try_mark_in_scope L R up now scp i secs s) = (if up then fst ?set else s)"
    by (cases ?set) (auto simp: try_mark_in_scope_def Let_def split: set_reply.split)
  then show ?thesis using marked_until_set(1) [OF assms] assms(2) by simp
qed

lemma try_mark_fresh:
  assumes "redis_ok R view" "try_mark_in_scope L R up now scp i DEFAULT_REPLAY_TTL_SECS s = (s1, Inr True)"
  shows "marked_until view (nip98_replay_key_for_scope L scp i) (now + 120000) s1"
    and "\<not> (now < t \<and> marked_until view (nip98_replay_key_for_scope L scp i) t s)"
proof -
  let ?k = "nip98_replay_key_for_scope L scp i"
  have set: "set_nx_ex R now ?k 120 s = (s1, ReplyOk)"
    using assms(2) by (auto simp: try_mark_in_scope_def Let_def DEFAULT_REPLAY_TTL_SECS_def MAX_REPLAY_TTL_SECS_def
        split: if_splits prod.splits set_reply.splits)
  have none: "live_entry now (view s ?k) = None"
    using redis_okD(2) [OF assms(1), of now s ?k _ _ 120] set by (cases "live_entry now (view s ?k)") auto
  show "marked_until view ?k (now + 120000) s1"
    using redis_okD(1) [OF assms(1) none, of 120] set by (simp add: marked_until_def)
  show "\<not> (now < t \<and> marked_until view ?k t s)"
    using none by (auto simp: marked_until_def live_entry_def)
qed


lemma guard_state:
  "fst (check_nip98_replay_with_guard L R up now ctx i s) =
     (if i = replicate 32 0 then s else fst (try_mark L R up now ctx i DEFAULT_REPLAY_TTL_SECS s))"
  "fst (check_operator_replay L R up now i s) =
     fst (try_mark_in_scope L R up now OPERATOR_REPLAY_SCOPE i DEFAULT_REPLAY_TTL_SECS s)"
  by (simp_all add: check_nip98_replay_with_guard_def check_operator_replay_def
      split: prod.split sum.split bool.split)

lemma guard_accepts:
  "check_nip98_replay_with_guard L R up now ctx i s = (s1, Inr ()) \<Longrightarrow> i \<noteq> replicate 32 0 \<Longrightarrow>
     try_mark_in_scope L R up now (community_str L ctx) i DEFAULT_REPLAY_TTL_SECS s = (s1, Inr True)"
  "check_operator_replay L R up now i s = (s1, Inr ()) \<Longrightarrow>
     try_mark_in_scope L R up now OPERATOR_REPLAY_SCOPE i DEFAULT_REPLAY_TTL_SECS s = (s1, Inr True)"
  by (auto simp: check_nip98_replay_with_guard_def check_operator_replay_def try_mark_def
      split: prod.splits sum.splits bool.splits)

lemma operator_state:
  "fst (authorize_operator_request L R cfg q s) = s
   \<or> (\<exists>i. fst (authorize_operator_request L R cfg q s) = fst (check_operator_replay L R (redis_up q) (marked_at q) i s))"
  by (auto simp: authorize_operator_request_def try_in_def split: sum.split prod.split) (metis fst_conv)+

lemma bridge_state:
  "fst (admit_bridge_request L R cfg tenant q s) = s
   \<or> (\<exists>pk. fst (admit_bridge_request L R cfg tenant q s)
             = fst (enforce_http_admission L R (redis_up q) (marked_at q) (rate_limits cfg) tenant pk s))
   \<or> (\<exists>pk i. fst (admit_bridge_request L R cfg tenant q s)
             = fst (check_nip98_replay_with_guard L R (redis_up q) (marked_at q) tenant i
                 (fst (enforce_http_admission L R (redis_up q) (marked_at q) (rate_limits cfg) tenant pk s))))"
proof (cases "verify_bridge_auth L (verified_at q) (req_headers q) ''POST''
    (nip98_expected_url (relay_url cfg) tenant (req_path q)) (req_body q) (require_auth_token cfg)")
  case (Inr b)
  obtain pk i where b: "b = (pk, i)" by (cases b)
  obtain s1 r where e: "enforce_http_admission L R (redis_up q) (marked_at q) (rate_limits cfg) tenant pk s = (s1, r)"
    by (cases "enforce_http_admission L R (redis_up q) (marked_at q) (rate_limits cfg) tenant pk s")
  obtain s2 r2 where g: "check_nip98_replay_with_guard L R (redis_up q) (marked_at q) tenant i s1 = (s2, r2)"
    by (cases "check_nip98_replay_with_guard L R (redis_up q) (marked_at q) tenant i s1")
  show ?thesis
  proof (cases r)
    case Inl
    then have "fst (admit_bridge_request L R cfg tenant q s) = s1" using Inr b e by (simp add: admit_bridge_request_def)
    then show ?thesis using e by (metis fst_conv)
  next
    case (Inr u)
    then have "fst (admit_bridge_request L R cfg tenant q s) = s2"
      using \<open>verify_bridge_auth _ _ _ _ _ _ _ = Inr b\<close> b e g
      by (cases r2) (simp_all add: admit_bridge_request_def)
    then show ?thesis using e g by (metis fst_conv)
  qed
qed (simp add: admit_bridge_request_def)

lemma exec_relay_keeps_mark:
  assumes R: "redis_ok R view" and sep: "CHR '':'' \<notin> set scp" "\<And>c. CHR '':'' \<notin> set (uuid_str (nostr L) c)"
    and mark: "marked_until view (nip98_replay_key_for_scope L scp i) t s" and time: "op_time op < t"
  shows "marked_until view (nip98_replay_key_for_scope L scp i) t (exec_relay L R cfg s op)"
proof -
  let ?k = "nip98_replay_key_for_scope L scp i"
  have admission: "marked_until view ?k t (fst (enforce_http_admission L R up now rl ctx pk s))" for up now rl ctx pk
    using mark enforce_http_admission_frame [OF R replay_key_not_rate_key [OF sep]]
    by (simp add: marked_until_def)
  show ?thesis
  proof (cases op)
    case (BridgeOp tenant q)
    have guard: "marked_until view ?k t (fst (check_nip98_replay_with_guard L R (redis_up q) (marked_at q) tenant j s'))"
      if "marked_until view ?k t s'" for j s'
      using that time BridgeOp by (simp add: guard_state(1) try_mark_def try_mark_kept [OF R that])
    then show ?thesis
      using bridge_state [of L R cfg tenant q s] mark admission unfolding BridgeOp exec_relay.simps by metis
  next
    case (OperatorOp q)
    have "marked_until view ?k t (fst (check_operator_replay L R (redis_up q) (marked_at q) j s))" for j
      using time OperatorOp by (simp add: guard_state(2) try_mark_kept [OF R mark])
    then show ?thesis using operator_state [of L R cfg q s] mark unfolding OperatorOp exec_relay.simps by metis
  qed
qed

lemma run_relay_keeps_mark:
  assumes "redis_ok R view" "CHR '':'' \<notin> set scp" "\<And>c. CHR '':'' \<notin> set (uuid_str (nostr L) c)"
  shows "marked_until view (nip98_replay_key_for_scope L scp i) t s \<Longrightarrow> (\<And>op. op \<in> set ops \<Longrightarrow> op_time op < t) \<Longrightarrow>
     marked_until view (nip98_replay_key_for_scope L scp i) t (foldl (exec_relay L R cfg) s ops)"
  by (induction ops arbitrary: s) (simp_all add: exec_relay_keeps_mark [OF assms])

lemma bridge_admitted:
  assumes "admit_bridge_request L R cfg tenant q s = (s', Inr pk)" "require_auth_token cfg" "signed_event L q = Some e"
    and "ev_id e \<noteq> replicate 32 0"
  shows "\<exists>s1. try_mark_in_scope L R (redis_up q) (marked_at q) (community_str L tenant) (ev_id e) DEFAULT_REPLAY_TTL_SECS s1 = (s', Inr True)
      \<and> s1 = fst (enforce_http_admission L R (redis_up q) (marked_at q) (rate_limits cfg) tenant pk s)"
    and "nip98_valid L (verified_at q) e (nip98_expected_url (relay_url cfg) tenant (req_path q)) ''POST'' (req_body q)
      \<and> pk = ev_pubkey e"
proof -
  obtain b where b: "verify_bridge_auth L (verified_at q) (req_headers q) ''POST''
      (nip98_expected_url (relay_url cfg) tenant (req_path q)) (req_body q) (require_auth_token cfg) = Inr b"
    using assms(1) by (auto simp: admit_bridge_request_def elim: try_in_InrE)
  obtain pk' i where pi: "b = (pk', i)" by (cases b)
  note ver = signed_event_verified [OF b [unfolded pi verify_bridge_auth_def assms(2)[THEN eqTrueI]] assms(3)]
  obtain s1 r where e1: "enforce_http_admission L R (redis_up q) (marked_at q) (rate_limits cfg) tenant pk' s = (s1, r)"
    by (cases "enforce_http_admission L R (redis_up q) (marked_at q) (rate_limits cfg) tenant pk' s")
  have rest: "r = Inr ()" "check_nip98_replay_with_guard L R (redis_up q) (marked_at q) tenant i s1 = (s', Inr ())" "pk = pk'"
    using assms(1) b pi e1 by (auto simp: admit_bridge_request_def split: sum.splits prod.splits)
  then show "\<exists>s1. try_mark_in_scope L R (redis_up q) (marked_at q) (community_str L tenant) (ev_id e) DEFAULT_REPLAY_TTL_SECS s1 = (s', Inr True)
      \<and> s1 = fst (enforce_http_admission L R (redis_up q) (marked_at q) (rate_limits cfg) tenant pk s)"
    using guard_accepts(1) [OF rest(2)] ver assms(4) e1 by auto
  show "nip98_valid L (verified_at q) e (nip98_expected_url (relay_url cfg) tenant (req_path q)) ''POST'' (req_body q)
      \<and> pk = ev_pubkey e"
    using ver rest(3) by simp
qed


section \<open>The fixed window\<close>

text \<open>
  Requests of one key as the limiter sees them: a count and the end of the current window.  The first
  request after the end opens a new window.
\<close>

fun fixed_window :: "nat \<Rightarrow> nat \<Rightarrow> (nat \<times> nat) option \<Rightarrow> nat list \<Rightarrow> (nat \<times> bool) list" where
  "fixed_window W n st [] = []"
| "fixed_window W n st (t # ts) =
     (case st of
        Some (c, e) \<Rightarrow>
          if t < e then (t, c + 1 \<le> n) # fixed_window W n (Some (c + 1, e)) ts
          else (t, 1 \<le> n) # fixed_window W n (Some (1, t + W)) ts
      | None \<Rightarrow> (t, 1 \<le> n) # fixed_window W n (Some (1, t + W)) ts)"

definition allowed_between :: "nat \<Rightarrow> nat \<Rightarrow> (nat \<times> bool) list \<Rightarrow> nat" where
  "allowed_between a b rs = length (filter (\<lambda>(t, ok). ok \<and> a \<le> t \<and> t < b) rs)"

lemma allowed_between_simps [simp]:
  "allowed_between a b [] = 0"
  "allowed_between a b ((t, ok) # rs) = (if ok \<and> a \<le> t \<and> t < b then 1 else 0) + allowed_between a b rs"
  by (simp_all add: allowed_between_def)

lemma fixed_window_times: "map fst (fixed_window W n st ts) = ts"
  by (induction W n st ts rule: fixed_window.induct) (simp_all split: option.split)

lemma allowed_between_late:
  assumes "\<And>t. t \<in> set ts \<Longrightarrow> b \<le> t"
  shows "allowed_between a b (fixed_window W n st ts) = 0"
proof -
  have "b \<le> fst p" if "p \<in> set (fixed_window W n st ts)" for p
    using assms that fixed_window_times [of W n st ts] by (metis list.set_map image_eqI)
  then show ?thesis by (force simp: allowed_between_def filter_empty_conv)
qed

definition window_budget :: "nat \<Rightarrow> nat \<Rightarrow> nat \<Rightarrow> (nat \<times> nat) option \<Rightarrow> nat" where
  "window_budget W n a st =
     (case st of
        Some (c, e) \<Rightarrow> if a + W \<le> e then n - c else if a < e then (n - c) + n else 2 * n
      | None \<Rightarrow> 2 * n)"

lemma fixed_window_budget:
  "sorted ts \<Longrightarrow> 0 < W \<Longrightarrow> allowed_between a (a + W) (fixed_window W n st ts) \<le> window_budget W n a st"
proof (induction W n st ts rule: fixed_window.induct)
  case (2 W n st t ts)
  have sorted: "sorted ts" and late: "a + W \<le> t \<Longrightarrow> allowed_between a (a + W) (fixed_window W n st' ts) = 0" for st'
    using 2(4) allowed_between_late [of ts "a + W" a W n st'] by force+
  show ?case
  proof (cases st)
    case None
    then show ?thesis using 2(1) [OF None sorted 2(5)] late [of "Some (1, t + W)"]
      by (auto simp: window_budget_def split: if_splits)
  next
    case (Some p)
    obtain c e where p: "p = (c, e)" by (cases p)
    show ?thesis
    proof (cases "t < e")
      case True
      then show ?thesis using 2(2) [OF Some p [symmetric] True sorted 2(5)] late [of "Some (c + 1, e)"] Some p
        by (auto simp: window_budget_def split: if_splits)
    next
      case False
      then show ?thesis using 2(3) [OF Some p [symmetric] False sorted 2(5)] late [of "Some (1, t + W)"] Some p
        by (auto simp: window_budget_def split: if_splits)
    qed
  qed
qed (simp add: window_budget_def)

text \<open>A sequence of checks against the shared store.\<close>

record limit_check =
  lc_time :: nat
  lc_key :: string
  lc_window :: nat
  lc_limit :: nat

fun run_checks :: "'s redis \<Rightarrow> limit_check list \<Rightarrow> 's \<Rightarrow> (string \<times> nat \<times> bool) list" where
  "run_checks R [] s = []"
| "run_checks R (c # cs) s =
     (case run_rate_limit R True (lc_time c) (lc_key c) (lc_window c) (lc_limit c) s of
        (s1, Inl _) \<Rightarrow> run_checks R cs s1
      | (s1, Inr r) \<Rightarrow> (lc_key c, lc_time c, rl_allowed r) # run_checks R cs s1)"

definition of_key :: "string \<Rightarrow> (string \<times> nat \<times> bool) list \<Rightarrow> (nat \<times> bool) list" where
  "of_key k rs = map snd (filter (\<lambda>(k', _). k' = k) rs)"

definition window_view :: "redis_entry option \<Rightarrow> (nat \<times> nat) option \<Rightarrow> bool" where
  "window_view x st \<longleftrightarrow> (case st of None \<Rightarrow> x = None | Some (c, e) \<Rightarrow> 1 \<le> c \<and> x = Some (c, Some e))"

lemma run_rate_limit_window:
  assumes R: "redis_ok R view" and st: "window_view (view s k) st" and W: "0 < w"
  shows "\<exists>s1 r. run_rate_limit R True t k w n s = (s1, Inr r)
    \<and> (case st of
         Some (c, e) \<Rightarrow> if t < e then rl_allowed r = (c + 1 \<le> n) \<and> window_view (view s1 k) (Some (c + 1, e))
                       else rl_allowed r = (1 \<le> n) \<and> window_view (view s1 k) (Some (1, t + 1000 * w))
       | None \<Rightarrow> rl_allowed r = (1 \<le> n) \<and> window_view (view s1 k) (Some (1, t + 1000 * w)))"
proof (cases "live_entry t (view s k)")
  case None
  obtain s1 where s1: "incr R t k s = (s1, 1)" "view s1 = (view s)(k \<mapsto> (1, None))"
    using redis_okD(3) [OF R None] by (metis prod.collapse)
  then have live1: "live_entry t (view s1 k) = Some (1, None)" by (simp add: live_entry_def)
  let ?s2 = "expire R t k w s1"
  have s2: "view ?s2 k = Some (1, Some (t + 1000 * w))" using redis_okD(4) [OF R live1, of w] by simp
  then have "live_entry t (view ?s2 k) = Some (1, Some (t + 1000 * w))" using W by (simp add: live_entry_def)
  then have "\<not> ttl R t k ?s2 < 0" using redis_okD(4) [OF R] by fastforce
  then have run: "run_rate_limit R True t k w n s = (?s2, Inr \<lparr>rl_allowed = (1 \<le> n), rl_current = 1, rl_limit = n,
      reset_in_secs = nat (ttl R t k ?s2)\<rparr>)"
    using s1(1) by (simp add: run_rate_limit_def rate_limit_script_def Let_def)
  have "\<not> (\<exists>c e. st = Some (c, e) \<and> t < e)" using st None by (auto simp: window_view_def live_entry_def)
  then show ?thesis using run s2 by (auto simp: window_view_def split: option.split)
next
  case (Some x)
  then obtain c e where c: "st = Some (c, e)" "t < e" "view s k = Some (c, Some e)" and x: "x = (c, Some e)"
    using st by (auto simp: window_view_def live_entry_def split: option.splits if_splits)
  obtain s1 where s1: "incr R t k s = (s1, c + 1)" "view s1 = (view s)(k \<mapsto> (c + 1, Some e))"
    using redis_okD(4) [OF R Some [unfolded x]] by (metis prod.collapse)
  then have live1: "live_entry t (view s1 k) = Some (c + 1, Some e)" using c(2) by (simp add: live_entry_def)
  then have "\<not> ttl R t k s1 < 0" using redis_okD(4) [OF R] by fastforce
  moreover have "c + 1 \<noteq> 1" using st c(1) by (simp add: window_view_def)
  ultimately have run: "run_rate_limit R True t k w n s = (s1, Inr \<lparr>rl_allowed = (c + 1 \<le> n), rl_current = c + 1,
      rl_limit = n, reset_in_secs = nat (ttl R t k s1)\<rparr>)"
    using s1(1) by (simp add: run_rate_limit_def rate_limit_script_def Let_def)
  then show ?thesis using c s1(2) st by (auto simp: window_view_def)
qed


lemma run_checks_window:
  assumes R: "redis_ok R view" and W: "0 < w"
  shows "window_view (view s k) st \<Longrightarrow> (\<And>c. c \<in> set cs \<Longrightarrow> lc_key c = k \<Longrightarrow> lc_window c = w \<and> lc_limit c = n) \<Longrightarrow>
     of_key k (run_checks R cs s) = fixed_window (1000 * w) n st (map lc_time (filter (\<lambda>c. lc_key c = k) cs))"
proof (induction cs arbitrary: s st)
  case (Cons c cs)
  show ?case
  proof (cases "lc_key c = k")
    case True
    then have cfg: "lc_window c = w" "lc_limit c = n" using Cons.prems(2) [of c] by simp_all
    obtain s1 r where run: "run_rate_limit R True (lc_time c) k w n s = (s1, Inr r)"
      and st': "case st of
         Some (cnt, e) \<Rightarrow> if lc_time c < e then rl_allowed r = (cnt + 1 \<le> n) \<and> window_view (view s1 k) (Some (cnt + 1, e))
                       else rl_allowed r = (1 \<le> n) \<and> window_view (view s1 k) (Some (1, lc_time c + 1000 * w))
       | None \<Rightarrow> rl_allowed r = (1 \<le> n) \<and> window_view (view s1 k) (Some (1, lc_time c + 1000 * w))"
      using run_rate_limit_window [OF R Cons.prems(1) W] by blast
    note IH = Cons.IH [of s1, OF _ Cons.prems(2)]
    show ?thesis using True cfg run st' IH
      by (auto simp: of_key_def split: option.splits if_splits)
  next
    case False
    obtain s1 r where run: "run_rate_limit R True (lc_time c) (lc_key c) (lc_window c) (lc_limit c) s = (s1, r)"
      by fastforce
    then have "view s1 k = view s k" using run_rate_limit_frame [OF R, of k "lc_key c"] False by (metis fst_conv)
    then have "of_key k (run_checks R cs s1) = fixed_window (1000 * w) n st (map lc_time (filter (\<lambda>c. lc_key c = k) cs))"
      using Cons.IH [of s1 st] Cons.prems by simp
    then show ?thesis using False run by (cases r) (simp_all add: of_key_def)
  qed
qed (simp add: of_key_def)

section \<open>Further facts\<close>

text \<open>NIP-42 authentication, exactly; what it grants is every known scope.\<close>

lemma verify_auth_event_exact:
  "verify_auth_event L now e challenge url = Inr c \<longleftrightarrow>
     ev_kind e = 22242 \<and> verify_id L e \<and> verify_signature L e
     \<and> first_content (nostr L) ''challenge'' e = Some challenge
     \<and> (\<exists>r. first_content (nostr L) ''relay'' e = Some r \<and> normalize_relay_url L r = normalize_relay_url L url)
     \<and> abs_diff (now div 1000) (ev_created_at e) \<le> 60
     \<and> c = \<lparr>ac_pubkey = ev_pubkey e, ac_scopes = all_known, ac_channel_ids = None, ac_auth_method = Nip42,
            agent_owner_pubkey = None\<rparr>"
  unfolding verify_auth_event_def verify_nip42_event_def TIMESTAMP_TOLERANCE_SECS_def
  by (cases "first_content (nostr L) ''challenge'' e"; cases "first_content (nostr L) ''relay'' e")
    (auto simp: not_less verify_event_def)

lemma check_access_exact:
  "check_read_access checker ctx pk ch scopes = Inr () \<longleftrightarrow>
     MessagesRead \<in> set scopes \<and> (\<exists>ids. checker ctx pk = Inr ids \<and> ch \<in> ids)"
  "check_write_access checker ctx pk ch scopes = Inr () \<longleftrightarrow>
     MessagesWrite \<in> set scopes \<and> (\<exists>ids. checker ctx pk = Inr ids \<and> ch \<in> ids)"
  by (auto simp: check_read_access_def check_write_access_def require_scope_def can_access_def bind_result_Inr)

lemma non_admin_scopes: "set all_non_admin = set all_known - {AdminChannels, AdminUsers}"
  by (auto simp: all_non_admin_def all_known_def)

text \<open>Keys of different communities, or of different kinds of limit, never meet.\<close>

lemma rate_limit_key_separates:
  assumes "\<And>c. CHR '':'' \<notin> set (uuid_str (nostr L) c)" "\<And>b. CHR '':'' \<notin> set (hex_encode L b)"
    and "rate_limit_key L ctx pk lt = rate_limit_key L ctx' pk' lt'"
  shows "community_str L ctx = community_str L ctx' \<and> hex_encode L pk = hex_encode L pk' \<and> lt = lt'"
proof -
  have c: "CHR '':'' \<notin> set (community_str L c)" for c using assms(1) by (simp add: community_str_def)
  have "community_str L ctx @ CHR '':'' # ''ratelimit:'' @ hex_encode L pk @ CHR '':'' # key_suffix lt
      = community_str L ctx' @ CHR '':'' # ''ratelimit:'' @ hex_encode L pk' @ CHR '':'' # key_suffix lt'"
    using assms(3) by (simp add: rate_limit_key_def)
  then have "community_str L ctx = community_str L ctx'"
    and "hex_encode L pk @ CHR '':'' # key_suffix lt = hex_encode L pk' @ CHR '':'' # key_suffix lt'"
    unfolding first_separator_unique [OF c c] by simp_all
  moreover from this(2) have "hex_encode L pk = hex_encode L pk' \<and> key_suffix lt = key_suffix lt'"
    unfolding first_separator_unique [OF assms(2) assms(2)] .
  moreover have "key_suffix lt = key_suffix lt' \<Longrightarrow> lt = lt'" by (cases lt; cases lt') simp_all
  ultimately show ?thesis by blast
qed

section \<open>Properties\<close>

text \<open>
  C25.  Replay.  With tokens required, a signed request admitted once is not admitted again by the same
  community within 120 seconds, whatever other requests run in between; and a second admission could only
  come less than 121 seconds after the first verification, when the signature's time window ends.
\<close>

theorem nip98_replay_window:
  assumes R: "redis_ok R view" and uuid: "\<And>c. CHR '':'' \<notin> set (uuid_str (nostr L) c)"
    and first: "admit_bridge_request L R cfg tenant q1 s0 = (s1, Inr pk1)"
    and between: "s2 = foldl (exec_relay L R cfg) s1 ops"
    and second: "admit_bridge_request L R cfg tenant' q2 s2 = (s3, Inr pk2)"
    and same: "tc_community tenant' = tc_community tenant" "signed_event L q1 = Some e" "signed_event L q2 = Some e"
    and cfg: "require_auth_token cfg" "ev_id e \<noteq> replicate 32 0"
    and times: "sorted (map op_time ops @ [marked_at q2])"
  shows "marked_at q1 + 120000 \<le> marked_at q2 \<and> verified_at q2 < verified_at q1 + 121000"
proof
  let ?k = "nip98_replay_key_for_scope L (community_str L tenant) (ev_id e)"
  have scope: "community_str L tenant' = community_str L tenant" using same(1) by (simp add: community_str_def)
  have sep: "CHR '':'' \<notin> set (community_str L tenant)" using uuid by (simp add: community_str_def)
  obtain t1 where mark1: "try_mark_in_scope L R (redis_up q1) (marked_at q1) (community_str L tenant) (ev_id e)
      DEFAULT_REPLAY_TTL_SECS t1 = (s1, Inr True)"
    using bridge_admitted(1) [OF first cfg(1) same(2) cfg(2)] by blast
  obtain t2 where mark2: "try_mark_in_scope L R (redis_up q2) (marked_at q2) (community_str L tenant) (ev_id e)
      DEFAULT_REPLAY_TTL_SECS t2 = (s3, Inr True)"
    and t2: "t2 = fst (enforce_http_admission L R (redis_up q2) (marked_at q2) (rate_limits cfg) tenant' pk2 s2)"
    using bridge_admitted(1) [OF second cfg(1) same(3) cfg(2)] scope by auto
  show "marked_at q1 + 120000 \<le> marked_at q2"
  proof (rule ccontr)
    assume "\<not> marked_at q1 + 120000 \<le> marked_at q2"
    then have before: "marked_at q2 < marked_at q1 + 120000" by simp
    moreover have "op_time op \<le> marked_at q2" if "op \<in> set ops" for op using times that by (auto simp: sorted_append)
    ultimately have "marked_until view ?k (marked_at q1 + 120000) s2"
      unfolding between by (intro run_relay_keeps_mark [OF R sep uuid] try_mark_fresh(1) [OF R mark1]) force
    then have "marked_until view ?k (marked_at q1 + 120000) t2"
      unfolding t2 using enforce_http_admission_frame [OF R replay_key_not_rate_key [OF sep uuid]]
      by (simp add: marked_until_def)
    then show False using try_mark_fresh(2) [OF R mark2] before by blast
  qed
  have "abs_diff (verified_at q1 div 1000) (ev_created_at e) \<le> 60" "abs_diff (verified_at q2 div 1000) (ev_created_at e) \<le> 60"
    using bridge_admitted(2) [OF first cfg(1) same(2) cfg(2)] bridge_admitted(2) [OF second cfg(1) same(3) cfg(2)]
    by (simp_all add: nip98_valid_def)
  then have "verified_at q2 div 1000 \<le> verified_at q1 div 1000 + 120" by (auto simp: abs_diff_def split: if_splits)
  then show "verified_at q2 < verified_at q1 + 121000" by linarith
qed

text \<open>
  C26.  Bridge authentication.  When tokens are required, an admitted request carries an event of kind
  27235 whose identifier and signature verify, made within 60 seconds of the server's clock, for the
  community's own URL and the method \<open>POST\<close>, with the hash of the body if it names one; the request acts as
  the event's author.
\<close>

theorem bridge_request_authenticated:
  assumes "require_auth_token cfg" "admit_bridge_request L R cfg tenant q s = (s', Inr pk)"
  shows "\<exists>e u m. signed_event L q = Some e \<and> pk = ev_pubkey e \<and> ev_kind e = 27235
     \<and> verify_id L e \<and> verify_signature L e \<and> abs_diff (verified_at q div 1000) (ev_created_at e) \<le> 60
     \<and> first_content (nostr L) ''u'' e = Some u
     \<and> normalize_url L u = normalize_url L (nip98_expected_url (relay_url cfg) tenant (req_path q))
     \<and> first_content (nostr L) ''method'' e = Some m \<and> to_ascii_lowercase m = ''post''
     \<and> (\<forall>h b. first_content (nostr L) ''payload'' e = Some h \<and> req_body q = Some b \<longrightarrow> hex_encode L (sha256_of L b) = h)"
proof -
  obtain pk' i where b: "verify_bridge_auth_with_options L (verified_at q) (req_headers q) ''POST''
      (nip98_expected_url (relay_url cfg) tenant (req_path q)) (req_body q) True False = Inr (pk', i)"
    using assms unfolding admit_bridge_request_def verify_bridge_auth_def by (auto elim!: try_in_InrE)
  then have "pk = pk'"
    using assms unfolding admit_bridge_request_def verify_bridge_auth_def
    by (auto split: sum.splits prod.splits)
  moreover have "to_ascii_lowercase ''POST'' = ''post''" by code_simp
  ultimately show ?thesis
    using verify_bridge_auth_signed [OF b]
    by (auto simp: nip98_valid_def signed_event_def eq_ignore_ascii_case_def bind_eq_Some_conv)
qed

text \<open>
  C27.  The rate limiter.  Checks of a key whose window is \<open>w\<close> seconds and whose limit is \<open>n\<close> behave as a
  fixed window, whatever other keys are checked in between, and in any period of \<open>w\<close> seconds at most
  \<open>2 n\<close> of them are allowed.
\<close>

theorem rate_limit_window:
  assumes "redis_ok R view" "view s k = None" "0 < w"
    and "\<And>c. c \<in> set cs \<Longrightarrow> lc_key c = k \<Longrightarrow> lc_window c = w \<and> lc_limit c = n" and "sorted (map lc_time cs)"
  shows "of_key k (run_checks R cs s) = fixed_window (1000 * w) n None (map lc_time (filter (\<lambda>c. lc_key c = k) cs))
    \<and> allowed_between a (a + 1000 * w) (of_key k (run_checks R cs s)) \<le> 2 * n"
proof -
  have eq: "of_key k (run_checks R cs s) = fixed_window (1000 * w) n None (map lc_time (filter (\<lambda>c. lc_key c = k) cs))"
    by (rule run_checks_window [OF assms(1,3)]) (use assms(2,4) in \<open>simp_all add: window_view_def\<close>)
  have "sorted (map lc_time (filter (\<lambda>c. lc_key c = k) cs))" using assms(5) by (rule sorted_filter)
  then show ?thesis using fixed_window_budget [of _ "1000 * w" a n None] assms(3) eq by (simp add: window_budget_def)
qed


text \<open>
  The end of the window.  A client whose clock runs 60 seconds ahead signs an event that is accepted
  now and again 120 seconds later: its time stamp is still within the tolerance, but the mark has lapsed.
\<close>

theorem nip98_replay_at_edge:
  assumes "redis_ok R view" "parse_event L json = Some e" "ev_created_at e = now div 1000 + 60"
    and "verify_nip98_event L now json url method body = Inr pk"
    and "try_mark L R True now ctx (ev_id e) DEFAULT_REPLAY_TTL_SECS s = (s1, Inr True)"
  shows "verify_nip98_event L (now + 120000) json url method body = Inr pk
    \<and> snd (try_mark L R True (now + 120000) ctx (ev_id e) DEFAULT_REPLAY_TTL_SECS s1) = Inr True"
proof
  have "(now + 120 * 1000) div 1000 = 120 + now div 1000" by (rule div_mult_self1) simp
  then have "abs_diff ((now + 120000) div 1000) (ev_created_at e) \<le> 60" using assms(3) by (simp add: abs_diff_def)
  then show "verify_nip98_event L (now + 120000) json url method body = Inr pk"
    using assms(2,4) unfolding verify_nip98_event_exact nip98_valid_def by auto
  let ?k = "nip98_replay_key_for_scope L (community_str L ctx) (ev_id e)"
  have "marked_until view ?k (now + 120000) s1"
    using try_mark_fresh(1) [OF assms(1)] assms(5) by (simp add: try_mark_def)
  then have "live_entry (now + 120000) (view s1 ?k) = None" by (auto simp: marked_until_def live_entry_def)
  from redis_okD(1) [OF assms(1) this, of 120]
  show "snd (try_mark L R True (now + 120000) ctx (ev_id e) DEFAULT_REPLAY_TTL_SECS s1) = Inr True"
    by (auto simp: try_mark_def try_mark_in_scope_def Let_def DEFAULT_REPLAY_TTL_SECS_def MAX_REPLAY_TTL_SECS_def
        split: prod.split)
qed

section \<open>Witnesses\<close>

type_synonym demo_store = "(string, redis_entry) amap"

definition demo_redis :: "demo_store redis" where
  "demo_redis =
     \<lparr>set_nx_ex = (\<lambda>now k secs s. case live_entry now (map_of s k) of
                      None \<Rightarrow> (AList.update k (1, Some (now + 1000 * secs)) s, ReplyOk)
                    | Some _ \<Rightarrow> (s, ReplyNil)),
      incr = (\<lambda>now k s. case live_entry now (map_of s k) of
                      None \<Rightarrow> (AList.update k (1, None) s, 1)
                    | Some (v, e) \<Rightarrow> (AList.update k (v + 1, e) s, v + 1)),
      expire = (\<lambda>now k secs s. case live_entry now (map_of s k) of
                      None \<Rightarrow> s
                    | Some (v, _) \<Rightarrow> AList.update k (v, Some (now + 1000 * secs)) s),
      ttl = (\<lambda>now k s. case live_entry now (map_of s k) of
                      None \<Rightarrow> - 2
                    | Some (_, None) \<Rightarrow> - 1
                    | Some (_, Some e) \<Rightarrow> int ((e - now + 500) div 1000))\<rparr>"

lemma demo_redis_ok: "redis_ok demo_redis map_of"
  by (auto simp: redis_ok_def demo_redis_def split: option.split)

definition demo_tenant :: tenant_context where
  "demo_tenant = \<lparr>tc_community = CommunityId 5, tc_host = ascii ''a.example''\<rparr>"

definition demo_http_event :: event where
  "demo_http_event = \<lparr>ev_id = [1], ev_pubkey = [2], ev_created_at = 160, ev_kind = 27235,
     ev_tags = [[''u'', ''http://a.example/query''], [''method'', ''POST'']], ev_content = [], ev_sig = []\<rparr>"

definition demo_auth_lib :: "string auth_lib" where
  "demo_auth_lib =
     \<lparr>nostr = demo_lib, event_id_of = ev_id, verify_id = (\<lambda>_. True), verify_signature = (\<lambda>_. True),
      parse_event = (\<lambda>_. Some demo_http_event), sha256_of = id, hex_encode = hex_bytes,
      pubkey_from_hex = (\<lambda>_. None), base64_decode = (\<lambda>_. Some []), from_utf8 = (\<lambda>_. Some []),
      str_lowercase = id, url_parse = (\<lambda>_. None), url_path = (\<lambda>_. []), set_path = (\<lambda>_ u. u),
      host_str = (\<lambda>_. None), set_host = (\<lambda>_ u. u), url_string = id\<rparr>"

definition demo_config :: relay_config where
  "demo_config = \<lparr>relay_url = ascii ''ws://a.example'', require_auth_token = True,
     rate_limits = rate_limit_config_default, operator_api_origin = None, relay_operator_pubkeys = []\<rparr>"

definition demo_request :: "nat \<Rightarrow> http_request" where
  "demo_request t = \<lparr>verified_at = t, marked_at = t, redis_up = True,
     req_headers = \<lparr>authorization = Some ''Nostr x'', x_pubkey = None\<rparr>, req_method = ''POST'',
     req_path = ''/query'', req_body = None\<rparr>"

lemma demo_uuid: "CHR '':'' \<notin> set (uuid_str (nostr demo_auth_lib) c)"
proof -
  have "CHR '':'' \<notin> set (show_nat (unat c))"
    using show_nat_digits [of "unat c"] by (auto simp: is_ascii_digit_def)
  then show ?thesis by (simp add: demo_auth_lib_def demo_lib_def)
qed


lemma demo_verified:
  assumes "abs_diff (t div 1000) 160 \<le> 60"
  shows "verify_bridge_auth demo_auth_lib t (req_headers (demo_request t)) ''POST''
      (nip98_expected_url (relay_url demo_config) demo_tenant ''/query'') None True = Inr ([2], [1])"
proof -
  have url: "nip98_expected_url (relay_url demo_config) demo_tenant ''/query'' = ''http://a.example/query''" by code_simp
  have "strip_prefix ''Nostr '' ''Nostr x'' = Some ''x''" by code_simp
  then have pre: "Option.bind (authorization (req_headers (demo_request t))) (strip_prefix ''Nostr '') = Some ''x''"
    by (simp add: demo_request_def)
  have content: "first_content demo_lib ''u'' demo_http_event = Some ''http://a.example/query''"
    "first_content demo_lib ''method'' demo_http_event = Some ''POST''"
    "first_content demo_lib ''payload'' demo_http_event = None" by code_simp+
  have "verify_nip98_event demo_auth_lib t [] ''http://a.example/query'' ''POST'' None = Inr [2]"
    unfolding verify_nip98_event_exact nip98_valid_def using assms content
    by (simp add: demo_auth_lib_def eq_ignore_ascii_case_def) (simp add: demo_http_event_def)
  then show ?thesis unfolding verify_bridge_auth_def verify_bridge_auth_with_options_def pre url
    by (simp add: demo_auth_lib_def) (simp add: demo_http_event_def)
qed


definition demo_rate_key :: string where
  "demo_rate_key = rate_limit_key demo_auth_lib demo_tenant [2] ApiCalls"

definition demo_replay_key :: string where
  "demo_replay_key = nip98_replay_key_for_scope demo_auth_lib (community_str demo_auth_lib demo_tenant) [1]"

lemma demo_keys: "demo_replay_key \<noteq> demo_rate_key"
  unfolding demo_replay_key_def demo_rate_key_def
  by (rule replay_key_not_rate_key) (use demo_uuid in \<open>simp_all add: community_str_def\<close>)

lemma demo_id_nonzero: "[1 :: byte] \<noteq> replicate 32 0"
  by (simp add: numeral_eq_Suc)

lemma demo_admit:
  assumes "abs_diff (t div 1000) 160 \<le> 60" "live_entry t (map_of s demo_rate_key) = None"
    "live_entry t (map_of s demo_replay_key) = None"
  shows "\<exists>s'. admit_bridge_request demo_auth_lib demo_redis demo_config demo_tenant (demo_request t) s = (s', Inr [2])
    \<and> map_of s' demo_rate_key = Some (1, Some (t + 60000)) \<and> map_of s' demo_replay_key = Some (1, Some (t + 120000))"
proof -
  let ?s1 = "AList.update demo_rate_key (1, Some (t + 60000)) (AList.update demo_rate_key (1, None) s)"
  have "run_rate_limit demo_redis True t demo_rate_key 60 300 s = (?s1, Inr \<lparr>rl_allowed = True, rl_current = 1,
      rl_limit = 300, reset_in_secs = 60\<rparr>)"
    using assms(2) by (simp add: run_rate_limit_def rate_limit_script_def demo_redis_def live_entry_def)
  then have adm: "enforce_http_admission demo_auth_lib demo_redis True t rate_limit_config_default demo_tenant [2] s = (?s1, Inr ())"
    by (simp add: enforce_http_admission_def check_principal_def check_and_increment_def rate_limit_config_default_def
        demo_rate_key_def [symmetric])
  have "set_nx_ex demo_redis t demo_replay_key 120 ?s1 = (AList.update demo_replay_key (1, Some (t + 120000)) ?s1, ReplyOk)"
    using assms(3) demo_keys by (simp add: demo_redis_def)
  then have guard: "check_nip98_replay_with_guard demo_auth_lib demo_redis True t demo_tenant [1] ?s1
      = (AList.update demo_replay_key (1, Some (t + 120000)) ?s1, Inr ())"
    by (simp add: check_nip98_replay_with_guard_def try_mark_def try_mark_in_scope_def Let_def demo_replay_key_def [symmetric]
        DEFAULT_REPLAY_TTL_SECS_def MAX_REPLAY_TTL_SECS_def demo_id_nonzero)
  have req: "verified_at (demo_request t) = t" "marked_at (demo_request t) = t" "redis_up (demo_request t)"
    "req_path (demo_request t) = ''/query''" "req_body (demo_request t) = None"
    "rate_limits demo_config = rate_limit_config_default" "require_auth_token demo_config"
    by (simp_all add: demo_request_def demo_config_def)
  show ?thesis
    using demo_verified [OF assms(1)] adm guard demo_keys by (simp add: admit_bridge_request_def req)
qed

lemma demo_signed: "signed_event demo_auth_lib (demo_request t) = Some demo_http_event"
  by (simp add: signed_event_def demo_request_def demo_auth_lib_def bind_eq_Some_conv)

theorem nip98_replay_window_witness:
  "\<exists>s1 s3. admit_bridge_request demo_auth_lib demo_redis demo_config demo_tenant (demo_request 100000) [] = (s1, Inr [2])
     \<and> admit_bridge_request demo_auth_lib demo_redis demo_config demo_tenant (demo_request 220000) s1 = (s3, Inr [2])
     \<and> marked_at (demo_request 100000) + 120000 \<le> marked_at (demo_request 220000)"
proof -
  obtain s1 where s1: "admit_bridge_request demo_auth_lib demo_redis demo_config demo_tenant (demo_request 100000) [] = (s1, Inr [2])"
    and k: "map_of s1 demo_rate_key = Some (1, Some 160000)" "map_of s1 demo_replay_key = Some (1, Some 220000)"
    using demo_admit [of 100000 "[]"] by (auto simp: abs_diff_def live_entry_def)
  obtain s3 where s3: "admit_bridge_request demo_auth_lib demo_redis demo_config demo_tenant (demo_request 220000) s1 = (s3, Inr [2])"
    using demo_admit [of 220000 s1] k by (auto simp: abs_diff_def live_entry_def)
  have "marked_at (demo_request 100000) + 120000 \<le> marked_at (demo_request 220000)
      \<and> verified_at (demo_request 220000) < verified_at (demo_request 100000) + 121000"
    by (rule nip98_replay_window [OF demo_redis_ok demo_uuid s1 _ s3 refl demo_signed demo_signed, of "[]"])
      (simp_all add: demo_config_def demo_http_event_def demo_id_nonzero)
  then show ?thesis using s1 s3 by blast
qed

theorem bridge_request_authenticated_witness:
  "\<exists>s' e. admit_bridge_request demo_auth_lib demo_redis demo_config demo_tenant (demo_request 100000) [] = (s', Inr [2])
     \<and> signed_event demo_auth_lib (demo_request 100000) = Some e \<and> ev_pubkey e = [2]"
proof -
  obtain s' where s': "admit_bridge_request demo_auth_lib demo_redis demo_config demo_tenant (demo_request 100000) [] = (s', Inr [2])"
    using demo_admit [of 100000 "[]"] by (auto simp: abs_diff_def live_entry_def)
  have "require_auth_token demo_config" by (simp add: demo_config_def)
  from bridge_request_authenticated [OF this s'] s' show ?thesis by metis
qed

definition demo_checks :: "limit_check list" where
  "demo_checks = [\<lparr>lc_time = 3, lc_key = ''k'', lc_window = 1, lc_limit = 1\<rparr>,
     \<lparr>lc_time = 7, lc_key = ''k'', lc_window = 1, lc_limit = 1\<rparr>]"

theorem rate_limit_window_witness:
  "allowed_between 5 (5 + 1000 * 1) (of_key ''k'' (run_checks demo_redis demo_checks [])) \<le> 2 * 1"
  by (rule conjunct2 [OF rate_limit_window [OF demo_redis_ok]]) (auto simp: demo_checks_def)

theorem nip98_replay_at_edge_witness:
  "verify_nip98_event demo_auth_lib 220000 [] ''http://a.example/query'' ''POST'' None = Inr [2]
   \<and> snd (try_mark demo_auth_lib demo_redis True 220000 demo_tenant [1] DEFAULT_REPLAY_TTL_SECS
            [(demo_replay_key, (1, Some 220000))]) = Inr True"
proof -
  have v: "verify_nip98_event demo_auth_lib 100000 [] ''http://a.example/query'' ''POST'' None = Inr [2]"
  proof -
    have content: "first_content demo_lib ''u'' demo_http_event = Some ''http://a.example/query''"
      "first_content demo_lib ''method'' demo_http_event = Some ''POST''"
      "first_content demo_lib ''payload'' demo_http_event = None" by code_simp+
    show ?thesis unfolding verify_nip98_event_exact nip98_valid_def using content
      by (simp add: demo_auth_lib_def eq_ignore_ascii_case_def) (simp add: demo_http_event_def abs_diff_def)
  qed
  have p: "parse_event demo_auth_lib [] = Some demo_http_event" by (simp add: demo_auth_lib_def)
  have ts: "ev_created_at demo_http_event = 100000 div 1000 + 60" "ev_id demo_http_event = [1]"
    by (simp_all add: demo_http_event_def)
  have m: "try_mark demo_auth_lib demo_redis True 100000 demo_tenant (ev_id demo_http_event) DEFAULT_REPLAY_TTL_SECS []
      = ([(demo_replay_key, (1, Some 220000))], Inr True)"
    by (simp add: try_mark_def try_mark_in_scope_def Let_def demo_replay_key_def [symmetric] demo_redis_def live_entry_def
        DEFAULT_REPLAY_TTL_SECS_def MAX_REPLAY_TTL_SECS_def ts(2))
  show ?thesis using nip98_replay_at_edge [OF demo_redis_ok p ts(1) v m] ts(2) by simp
qed


end
