(* ===== verification/Workflow.thy ===== *)
theory Workflow
  imports Buzz_Prelude Network
begin

text \<open>
  Workflow definitions and their execution (\<open>buzz-workflow/src/schema.rs\<close>, \<open>executor.rs\<close>, \<open>error.rs\<close>):
  validation, durations, template and condition contexts, the resolution of a step's templates, the
  dispatch of actions and the sequential execution of the steps.

  Strings are lists of Unicode scalar values.  The expression evaluator, UUIDs, JSON printing, key
  encoding and cron expressions are the fields of the parameter \<open>workflow_lib\<close>; what a step meets outside
  the engine (the community's write lease, the database, the action sink, HTTP) is its \<open>step_env\<close>.
\<close>

section \<open>Definitions of workflows\<close>

datatype trigger_def =
  MessagePosted "ustr option"
| ReactionAdded "ustr option" "ustr option"
| DiffPosted "ustr option"
| Schedule "ustr option" "ustr option"
| Webhook

datatype action_def =
  SendMessage ustr "ustr option" bool
| SendDm ustr ustr
| SetChannelTopic ustr
| AddReaction ustr
| CallWebhook ustr "ustr option" "(ustr, ustr) amap option" "ustr option"
| RequestApproval ustr ustr "ustr option"
| Delay ustr

record wf_step =
  step_id :: ustr
  step_name :: "ustr option"
  if_expr :: "ustr option"
  timeout_secs :: "nat option"
  step_action :: action_def

record workflow_def =
  wf_name :: ustr
  wf_description :: "ustr option"
  wf_trigger :: trigger_def
  wf_steps :: "wf_step list"
  wf_enabled :: bool

text \<open>The faults stand for the messages of \<open>InvalidDefinition\<close>.\<close>

datatype definition_fault =
  EmptyName | NoSteps | EmptyStepId | InvalidStepId ustr | DuplicateStepId ustr | ReplyNeedsMessage ustr
| ScheduleEmpty | ScheduleBoth | InvalidCron ustr | InvalidInterval ustr | IntervalTooShort
| InvalidDuration ustr | DurationOverflow ustr | InvalidChannelOverride | ChannelOverrideMismatch | NoChannel
| NoMessageId | DelayTooLong nat | NoActionSink

datatype workflow_error =
  InvalidYaml | InvalidDefinition definition_fault | ConditionError | TemplateError ustr | StepTimeout ustr nat
| WebhookError | CapacityExceeded | DatabaseError | Unauthorized | NotImplemented string

fun error_code :: "workflow_error \<Rightarrow> string" where
  "error_code InvalidYaml = ''invalid_yaml''"
| "error_code (InvalidDefinition _) = ''invalid_definition''"
| "error_code ConditionError = ''condition_evaluation_failed''"
| "error_code (TemplateError _) = ''template_resolution_failed''"
| "error_code (StepTimeout _ _) = ''step_timeout''"
| "error_code WebhookError = ''webhook_failed''"
| "error_code CapacityExceeded = ''capacity_exceeded''"
| "error_code DatabaseError = ''database_error''"
| "error_code Unauthorized = ''owner_unauthorized''"
| "error_code (NotImplemented _) = ''action_not_implemented''"

type_synonym wjson = "ustr json"
datatype eval_value = EvString ustr | EvBool bool | EvInt int | EvFloat ustr | EvEmpty

record 'c workflow_lib =
  uuid_parse :: "ustr \<Rightarrow> uuid option"
  uuid_print :: "uuid \<Rightarrow> ustr"
  json_print :: "wjson \<Rightarrow> ustr"
  number_value :: "ustr \<Rightarrow> eval_value"
  npub_of :: "ustr \<Rightarrow> ustr option"
  cron_valid :: "ustr \<Rightarrow> bool"
  cron_next_after :: "ustr \<Rightarrow> int \<Rightarrow> int option"
  empty_context :: 'c
  set_value :: "'c \<Rightarrow> ustr \<Rightarrow> eval_value \<Rightarrow> 'c option"
  eval_boolean :: "ustr \<Rightarrow> 'c \<Rightarrow> bool option"

section \<open>Durations\<close>

text \<open>\<open>str::parse::<u64>\<close>: an optional plus sign and decimal digits, below \<open>2 ^ 64\<close>.\<close>

definition is_digit :: "nat \<Rightarrow> bool" where
  "is_digit c \<longleftrightarrow> 48 \<le> c \<and> c \<le> 57"

definition digits_value :: "ustr \<Rightarrow> nat" where
  "digits_value ds = foldl (\<lambda>n c. 10 * n + (c - 48)) 0 ds"

definition parse_u64 :: "ustr \<Rightarrow> nat option" where
  "parse_u64 s =
     (let ds = (case s of c # r \<Rightarrow> if c = 43 then r else s | [] \<Rightarrow> [])
      in if ds = [] \<or> \<not> list_all is_digit ds then None
         else if digits_value ds < 2 ^ 64 then Some (digits_value ds) else None)"

definition checked_mul :: "nat \<Rightarrow> nat \<Rightarrow> nat option" where
  "checked_mul a b = (if a * b < 2 ^ 64 then Some (a * b) else None)"

definition parse_duration_secs :: "ustr \<Rightarrow> workflow_error + nat" where
  "parse_duration_secs raw =
     (let duration = trim raw;
          invalid = InvalidDefinition (InvalidDuration duration);
          overflow = InvalidDefinition (DurationOverflow duration)
      in case strip_suffix (ascii ''h'') duration of
           Some n \<Rightarrow> bind_result (ok_or invalid (parse_u64 (trim n))) (\<lambda>hours. ok_or overflow (checked_mul hours 3600))
         | None \<Rightarrow>
             (case strip_suffix (ascii ''m'') duration of
                Some n \<Rightarrow> bind_result (ok_or invalid (parse_u64 (trim n))) (\<lambda>mins. ok_or overflow (checked_mul mins 60))
              | None \<Rightarrow>
                  (case strip_suffix (ascii ''s'') duration of
                     Some n \<Rightarrow> ok_or invalid (parse_u64 (trim n))
                   | None \<Rightarrow> ok_or invalid (parse_u64 duration))))"

section \<open>Validation\<close>

fun is_call_webhook :: "action_def \<Rightarrow> bool" where
  "is_call_webhook (CallWebhook _ _ _ _) = True"
| "is_call_webhook _ = False"

definition requires_elevated_authority :: "workflow_def \<Rightarrow> bool" where
  "requires_elevated_authority d = list_ex (\<lambda>s. is_call_webhook (step_action s)) (wf_steps d)"

definition is_step_id_char :: "nat \<Rightarrow> bool" where
  "is_step_id_char c \<longleftrightarrow> is_digit c \<or> 65 \<le> c \<and> c \<le> 90 \<or> 97 \<le> c \<and> c \<le> 122 \<or> c = 95"

definition valid_step_id :: "ustr \<Rightarrow> bool" where
  "valid_step_id i \<longleftrightarrow> i \<noteq> [] \<and> length (utf8 i) \<le> 64 \<and> list_all is_step_id_char i"

fun check_step_ids :: "ustr list \<Rightarrow> wf_step list \<Rightarrow> workflow_error + unit" where
  "check_step_ids seen [] = Inr ()"
| "check_step_ids seen (s # ss) =
     (if trim (step_id s) = [] then Inl (InvalidDefinition EmptyStepId)
      else if \<not> valid_step_id (step_id s) then Inl (InvalidDefinition (InvalidStepId (step_id s)))
      else if step_id s \<in> set seen then Inl (InvalidDefinition (DuplicateStepId (step_id s)))
      else check_step_ids (step_id s # seen) ss)"

fun trigger_has_message :: "trigger_def \<Rightarrow> bool" where
  "trigger_has_message (MessagePosted _) = True"
| "trigger_has_message (ReactionAdded _ _) = True"
| "trigger_has_message (DiffPosted _) = True"
| "trigger_has_message (Schedule _ _) = False"
| "trigger_has_message Webhook = False"

fun replies_in_thread :: "action_def \<Rightarrow> bool" where
  "replies_in_thread (SendMessage _ _ r) = r"
| "replies_in_thread _ = False"

fun check_replies :: "wf_step list \<Rightarrow> workflow_error + unit" where
  "check_replies [] = Inr ()"
| "check_replies (s # ss) =
     (if replies_in_thread (step_action s) then Inl (InvalidDefinition (ReplyNeedsMessage (step_id s))) else check_replies ss)"

function split_whitespace :: "ustr \<Rightarrow> ustr list" where
  "split_whitespace [] = []"
| "split_whitespace (c # s) =
     (if is_whitespace c then split_whitespace s
      else (c # takeWhile (\<lambda>c. \<not> is_whitespace c) s) # split_whitespace (dropWhile (\<lambda>c. \<not> is_whitespace c) s))"
  by pat_completeness auto
termination
  by (relation "measure length") (auto simp: le_imp_less_Suc length_dropWhile_le)

definition normalize_cron :: "ustr \<Rightarrow> ustr" where
  "normalize_cron expr =
     (let field_count = length (split_whitespace expr)
      in if field_count = 5 then ascii ''0 '' @ expr @ ascii '' *''
         else if field_count = 6 then expr @ ascii '' *''
         else expr)"

definition validate_cron :: "'c workflow_lib \<Rightarrow> ustr \<Rightarrow> workflow_error + unit" where
  "validate_cron L expr =
     (if cron_valid L (normalize_cron expr) then Inr () else Inl (InvalidDefinition (InvalidCron expr)))"

definition check_interval :: "ustr \<Rightarrow> workflow_error + unit" where
  "check_interval dur =
     bind_result (map_err (\<lambda>_. InvalidDefinition (InvalidInterval dur)) (parse_duration_secs dur)) (\<lambda>secs.
       if secs < 60 then Inl (InvalidDefinition IntervalTooShort) else Inr ())"

fun check_schedule :: "'c workflow_lib \<Rightarrow> trigger_def \<Rightarrow> workflow_error + unit" where
  "check_schedule L (Schedule cron interval) =
     (if cron = None \<and> interval = None then Inl (InvalidDefinition ScheduleEmpty)
      else if cron \<noteq> None \<and> interval \<noteq> None then Inl (InvalidDefinition ScheduleBoth)
      else bind_result (case cron of Some expr \<Rightarrow> validate_cron L expr | None \<Rightarrow> Inr ()) (\<lambda>_.
             case interval of Some dur \<Rightarrow> check_interval dur | None \<Rightarrow> Inr ()))"
| "check_schedule L _ = Inr ()"

definition validate :: "'c workflow_lib \<Rightarrow> workflow_def \<Rightarrow> workflow_error + unit" where
  "validate L d =
     (if trim (wf_name d) = [] then Inl (InvalidDefinition EmptyName)
      else if wf_steps d = [] then Inl (InvalidDefinition NoSteps)
      else bind_result (check_step_ids [] (wf_steps d)) (\<lambda>_.
        bind_result (if trigger_has_message (wf_trigger d) then Inr () else check_replies (wf_steps d)) (\<lambda>_.
          check_schedule L (wf_trigger d))))"

definition parse_yaml ::
  "'c workflow_lib \<Rightarrow> (ustr \<Rightarrow> workflow_def option) \<Rightarrow> (workflow_def \<Rightarrow> ustr) \<Rightarrow> ustr \<Rightarrow> workflow_error + workflow_def \<times> ustr" where
  "parse_yaml L yaml_frmstr json_to_str yaml =
     bind_result (ok_or InvalidYaml (yaml_frmstr yaml)) (\<lambda>d.
       bind_result (validate L d) (\<lambda>_. Inr (d, json_to_str d)))"

section \<open>Templates\<close>

text \<open>\<open>TriggerContext\<close>.  \<open>str::find\<close> and slicing at its result are on scalar values.\<close>

record trigger_context =
  tc_text :: ustr
  tc_author :: ustr
  tc_channel_id :: ustr
  tc_timestamp :: ustr
  tc_emoji :: ustr
  tc_message_id :: ustr
  tc_is_reply :: bool
  tc_webhook_fields :: "(ustr, ustr) amap"

definition get_field :: "trigger_context \<Rightarrow> ustr \<Rightarrow> ustr option" where
  "get_field c name =
     (if name = ascii ''text'' then Some (tc_text c)
      else if name = ascii ''author'' then Some (tc_author c)
      else if name = ascii ''channel_id'' then Some (tc_channel_id c)
      else if name = ascii ''timestamp'' then Some (tc_timestamp c)
      else if name = ascii ''emoji'' then Some (tc_emoji c)
      else if name = ascii ''message_id'' then Some (tc_message_id c)
      else map_of (tc_webhook_fields c) name)"

fun find_sub :: "'a list \<Rightarrow> 'a list \<Rightarrow> nat option" where
  "find_sub p [] = (if p = [] then Some 0 else None)"
| "find_sub p (c # s) = (if starts_with (c # s) p then Some 0 else map_option Suc (find_sub p s))"

definition json_to_string :: "'c workflow_lib \<Rightarrow> wjson \<Rightarrow> ustr" where
  "json_to_string L v =
     (case v of
        JString s \<Rightarrow> s
      | JBool b \<Rightarrow> ascii (if b then ''true'' else ''false'')
      | JNumber n \<Rightarrow> n
      | JNull \<Rightarrow> []
      | _ \<Rightarrow> json_print L v)"

definition json_get_str :: "'c workflow_lib \<Rightarrow> wjson \<Rightarrow> ustr \<Rightarrow> ustr option" where
  "json_get_str L v key =
     (case v of JObject m \<Rightarrow> map_option (json_to_string L) (map_of m key) | _ \<Rightarrow> None)"

text \<open>\<open>rest.splitn(3, '.')\<close> with its three \<open>next()?\<close>.\<close>

definition splitn3 :: "'a \<Rightarrow> 'a list \<Rightarrow> ('a list \<times> 'a list \<times> 'a list) option" where
  "splitn3 c s = Option.bind (split_once c s) (\<lambda>(a, r). map_option (\<lambda>(b, d). (a, b, d)) (split_once c r))"

definition resolve_variable ::
  "'c workflow_lib \<Rightarrow> ustr \<Rightarrow> trigger_context \<Rightarrow> (ustr, wjson) amap \<Rightarrow> ustr option" where
  "resolve_variable L path c outs =
     (case strip_prefix (ascii ''trigger.'') path of
        Some field \<Rightarrow> get_field c field
      | None \<Rightarrow>
          (case strip_prefix (ascii ''steps.'') path of
             Some rest \<Rightarrow>
               (case splitn3 (of_char (CHR ''.'')) rest of
                  None \<Rightarrow> None
                | Some (sid, middle, field) \<Rightarrow>
                    if middle \<noteq> ascii ''output'' then None
                    else (case map_of outs sid of None \<Rightarrow> None | Some out \<Rightarrow> json_get_str L out field))
           | None \<Rightarrow> None))"

definition apply_filter :: "'c workflow_lib \<Rightarrow> ustr \<Rightarrow> ustr \<Rightarrow> workflow_error + ustr" where
  "apply_filter L val raw_filter =
     (let flt = trim raw_filter
      in case Option.bind (strip_prefix (ascii ''truncate('') flt) (strip_suffix (ascii '')'')) of
           Some inner \<Rightarrow>
             bind_result (ok_or (TemplateError (ascii ''truncate() requires a number, got: '' @ inner)) (parse_u64 (trim inner)))
               (\<lambda>n. Inr (take n val))
         | None \<Rightarrow>
             if flt = ascii ''npub'' \<or> flt = ascii ''truncate_pubkey''
             then Inr (case npub_of L val of Some s \<Rightarrow> s | None \<Rightarrow> val)
             else Inl (TemplateError (ascii ''unknown filter: '' @ flt)))"

abbreviation open_braces :: ustr where "open_braces \<equiv> ascii ''{{''"
abbreviation close_braces :: ustr where "close_braces \<equiv> ascii ''}}''"

text \<open>
  The placeholder between the braces: \<open>splitn(2, '|')\<close> into the variable path and the filter.  An unknown
  variable is written back between braces.
\<close>

definition split_filter :: "ustr \<Rightarrow> ustr \<times> ustr option" where
  "split_filter expr =
     (case split_once (of_char (CHR ''|'')) expr of
        None \<Rightarrow> (trim expr, None)
      | Some (path, flt) \<Rightarrow> (trim path, Some (trim flt)))"

definition resolve_expr ::
  "'c workflow_lib \<Rightarrow> trigger_context \<Rightarrow> (ustr, wjson) amap \<Rightarrow> ustr \<Rightarrow> workflow_error + ustr" where
  "resolve_expr L c outs expr =
     (case split_filter expr of (path, flt) \<Rightarrow>
        (case (resolve_variable L path c outs, flt) of
           (Some v, Some f) \<Rightarrow> apply_filter L v f
         | (Some v, None) \<Rightarrow> Inr v
         | (None, _) \<Rightarrow> Inr (open_braces @ expr @ close_braces)))"

text \<open>
  One round of the loop, on the rest of the template and the result so far: \<^const>\<open>Inl\<close> continues the
  loop, \<^const>\<open>Inr\<close> leaves it with the function's result.
\<close>

definition template_step ::
  "'c workflow_lib \<Rightarrow> trigger_context \<Rightarrow> (ustr, wjson) amap \<Rightarrow> ustr \<times> ustr \<Rightarrow> (ustr \<times> ustr) + (workflow_error + ustr)" where
  "template_step L c outs st =
     (case st of (remaining, res) \<Rightarrow>
        (case find_sub open_braces remaining of
           None \<Rightarrow> Inr (Inr (res @ remaining))
         | Some start \<Rightarrow>
             let res1 = res @ take start remaining;
                 remaining1 = drop (start + 2) remaining
             in case find_sub close_braces remaining1 of
                  None \<Rightarrow> Inr (Inr (res1 @ open_braces @ remaining1))
                | Some stop \<Rightarrow>
                    (case resolve_expr L c outs (trim (take stop remaining1)) of
                       Inl e \<Rightarrow> Inr (Inl e)
                     | Inr val \<Rightarrow> Inl (drop (stop + 2) remaining1, res1 @ val))))"

lemma find_sub_SomeD: "find_sub p s = Some i \<Longrightarrow> s = take i s @ p @ drop (i + length p) s \<and> i + length p \<le> length s"
proof (induction s arbitrary: i)
  case (Cons c s)
  show ?case
  proof (cases "starts_with (c # s) p")
    case True
    then obtain t where "c # s = p @ t" by (auto simp: starts_with_iff)
    moreover have "i = 0" using Cons.prems True by simp
    ultimately show ?thesis by simp
  next
    case False
    with Cons.prems obtain j where j: "find_sub p s = Some j" "i = Suc j" by auto
    from Cons.IH [OF j(1)] show ?thesis by (simp add: j(2))
  qed
qed (simp split: if_splits)

lemma template_step_decreases:
  assumes "template_step L c outs (remaining, res) = Inl (remaining', res')"
  shows "length remaining' + 4 \<le> length remaining"
proof -
  obtain i j where "find_sub open_braces remaining = Some i"
    "find_sub close_braces (drop (i + 2) remaining) = Some j"
    "remaining' = drop (j + 2) (drop (i + 2) remaining)"
    using assms by (auto simp: template_step_def Let_def split: option.splits sum.splits)
  with find_sub_SomeD [of open_braces remaining i] find_sub_SomeD [of close_braces "drop (i + 2) remaining" j]
  show ?thesis by (auto simp: ascii_def)
qed

function template_loop ::
  "'c workflow_lib \<Rightarrow> trigger_context \<Rightarrow> (ustr, wjson) amap \<Rightarrow> ustr \<times> ustr \<Rightarrow> workflow_error + ustr" where
  "template_loop L c outs st =
     (case template_step L c outs st of
        Inl st' \<Rightarrow> template_loop L c outs st'
      | Inr r \<Rightarrow> r)"
  by pat_completeness auto
termination
proof (relation "measure (\<lambda>(L, c, outs, st). length (fst st))")
  fix L :: "'c workflow_lib" and c outs st st'
  assume "template_step L c outs st = Inl st'"
  then show "((L, c, outs, st'), (L, c, outs, st)) \<in> measure (\<lambda>(L, c, outs, st). length (fst st))"
    using template_step_decreases [of L c outs "fst st" "snd st" "fst st'" "snd st'"] by simp
qed simp

declare template_loop.simps [simp del]

definition resolve_template ::
  "'c workflow_lib \<Rightarrow> ustr \<Rightarrow> trigger_context \<Rightarrow> (ustr, wjson) amap \<Rightarrow> workflow_error + ustr" where
  "resolve_template L template c outs =
     (if find_sub open_braces template = None then Inr template else template_loop L c outs (template, []))"

section \<open>Conditions\<close>

definition set_var :: "'c workflow_lib \<Rightarrow> ustr \<Rightarrow> eval_value \<Rightarrow> 'c \<Rightarrow> workflow_error + 'c" where
  "set_var L name v ctx = ok_or ConditionError (set_value L ctx name v)"

fun set_vars :: "'c workflow_lib \<Rightarrow> (ustr \<times> eval_value) list \<Rightarrow> 'c \<Rightarrow> workflow_error + 'c" where
  "set_vars L [] ctx = Inr ctx"
| "set_vars L ((name, v) # vs) ctx = bind_result (set_var L name v ctx) (set_vars L vs)"

definition json_value_to_eval :: "'c workflow_lib \<Rightarrow> wjson \<Rightarrow> eval_value" where
  "json_value_to_eval L v =
     (case v of
        JString s \<Rightarrow> EvString s
      | JBool b \<Rightarrow> EvBool b
      | JNumber n \<Rightarrow> number_value L n
      | JNull \<Rightarrow> EvEmpty
      | _ \<Rightarrow> EvString (json_print L v))"

definition webhook_vars :: "(ustr, ustr) amap \<Rightarrow> (ustr \<times> eval_value) list" where
  "webhook_vars ws =
     map (\<lambda>(key, val). (ascii ''trigger_'' @ key, EvString val))
       (filter (\<lambda>(key, val). \<not> (starts_with key (ascii ''trigger_'') \<or> starts_with key (ascii ''steps_''))) ws)"

definition trigger_vars :: "trigger_context \<Rightarrow> (ustr \<times> eval_value) list" where
  "trigger_vars c =
     [(ascii ''trigger_text'', EvString (tc_text c)),
      (ascii ''trigger_author'', EvString (tc_author c)),
      (ascii ''trigger_channel_id'', EvString (tc_channel_id c)),
      (ascii ''trigger_timestamp'', EvString (tc_timestamp c)),
      (ascii ''trigger_emoji'', EvString (tc_emoji c)),
      (ascii ''trigger_message_id'', EvString (tc_message_id c)),
      (ascii ''trigger_is_reply'', EvBool (tc_is_reply c))]"

definition step_var :: "ustr \<Rightarrow> ustr \<Rightarrow> ustr" where
  "step_var sid field = ascii ''steps_'' @ sid @ ascii ''_output_'' @ field"

fun output_vars :: "'c workflow_lib \<Rightarrow> ustr \<times> wjson \<Rightarrow> (ustr \<times> eval_value) list" where
  "output_vars L (sid, JObject m) = map (\<lambda>(field, v). (step_var sid field, json_value_to_eval L v)) m"
| "output_vars L _ = []"

text \<open>The context with the four string helpers already registered is \<open>empty_context\<close>.\<close>

definition build_eval_context ::
  "'c workflow_lib \<Rightarrow> trigger_context \<Rightarrow> (ustr, wjson) amap \<Rightarrow> workflow_error + 'c" where
  "build_eval_context L c outs =
     bind_result (set_vars L (webhook_vars (tc_webhook_fields c)) (empty_context L)) (\<lambda>ctx1.
       bind_result (set_vars L (trigger_vars c) ctx1) (\<lambda>ctx2.
         set_vars L (concat (map (output_vars L) outs)) ctx2))"

definition MAX_EXPR_LEN :: nat where "MAX_EXPR_LEN = 4096"

text \<open>\<open>eval_boolean\<close> is \<open>None\<close> for an expression that fails, times out or panics.\<close>

definition evaluate_condition ::
  "'c workflow_lib \<Rightarrow> ustr \<Rightarrow> trigger_context \<Rightarrow> (ustr, wjson) amap \<Rightarrow> workflow_error + bool" where
  "evaluate_condition L expr c outs =
     bind_result (build_eval_context L c outs) (\<lambda>ctx.
       if MAX_EXPR_LEN < length (utf8 expr) then Inl ConditionError
       else ok_or ConditionError (eval_boolean L expr ctx))"

section \<open>Resolution of a step\<close>

definition resolve_opt ::
  "(ustr \<Rightarrow> workflow_error + ustr) \<Rightarrow> ustr option \<Rightarrow> workflow_error + ustr option" where
  "resolve_opt t s = (case s of Some v \<Rightarrow> bind_result (t v) (\<lambda>r. Inr (Some r)) | None \<Rightarrow> Inr None)"

fun resolve_headers ::
  "(ustr \<Rightarrow> workflow_error + ustr) \<Rightarrow> (ustr, ustr) amap \<Rightarrow> workflow_error + (ustr, ustr) amap" where
  "resolve_headers t [] = Inr []"
| "resolve_headers t ((k, v) # h) =
     bind_result (t v) (\<lambda>r. bind_result (resolve_headers t h) (\<lambda>rest. Inr ((k, r) # rest)))"

fun resolve_action :: "(ustr \<Rightarrow> workflow_error + ustr) \<Rightarrow> action_def \<Rightarrow> workflow_error + action_def" where
  "resolve_action t (SendMessage txt channel reply) =
     bind_result (t txt) (\<lambda>txt'. bind_result (resolve_opt t channel) (\<lambda>ch. Inr (SendMessage txt' ch reply)))"
| "resolve_action t (SendDm to txt) =
     bind_result (t to) (\<lambda>to'. bind_result (t txt) (\<lambda>txt'. Inr (SendDm to' txt')))"
| "resolve_action t (SetChannelTopic topic) = bind_result (t topic) (\<lambda>r. Inr (SetChannelTopic r))"
| "resolve_action t (AddReaction emoji) = bind_result (t emoji) (\<lambda>r. Inr (AddReaction r))"
| "resolve_action t (CallWebhook url method headers body) =
     bind_result (case headers of Some h \<Rightarrow> bind_result (resolve_headers t h) (\<lambda>out. Inr (Some out)) | None \<Rightarrow> Inr None) (\<lambda>hs.
       bind_result (t url) (\<lambda>u.
         bind_result (resolve_opt t body) (\<lambda>b. Inr (CallWebhook u method hs b))))"
| "resolve_action t (RequestApproval frm message timeout) =
     bind_result (t frm) (\<lambda>f. bind_result (t message) (\<lambda>m. Inr (RequestApproval f m timeout)))"
| "resolve_action t (Delay duration) = Inr (Delay duration)"

definition resolve_step_templates ::
  "'c workflow_lib \<Rightarrow> wf_step \<Rightarrow> trigger_context \<Rightarrow> (ustr, wjson) amap \<Rightarrow> workflow_error + action_def" where
  "resolve_step_templates L s c outs = resolve_action (\<lambda>t. resolve_template L t c outs) (step_action s)"

definition resolve_send_message_channel ::
  "'c workflow_lib \<Rightarrow> ustr option \<Rightarrow> ustr \<Rightarrow> uuid option \<Rightarrow> workflow_error + ustr" where
  "resolve_send_message_channel L explicit_channel trigger_channel workflow_channel_id =
     (let explicit = (case explicit_channel of
                        None \<Rightarrow> None
                      | Some v \<Rightarrow> if trim v \<noteq> [] then Some (trim v) else None);
          parsed = (\<lambda>e. ok_or (InvalidDefinition InvalidChannelOverride) (uuid_parse L e))
      in case workflow_channel_id of
           Some wf_ch \<Rightarrow>
             (case explicit of
                Some e \<Rightarrow>
                  bind_result (parsed e) (\<lambda>u.
                    if u \<noteq> wf_ch then Inl (InvalidDefinition ChannelOverrideMismatch) else Inr (uuid_print L wf_ch))
              | None \<Rightarrow> Inr (uuid_print L wf_ch))
         | None \<Rightarrow>
             (case explicit of
                Some e \<Rightarrow> bind_result (parsed e) (\<lambda>u. Inr (uuid_print L u))
              | None \<Rightarrow>
                  if trim trigger_channel = [] then Inl (InvalidDefinition NoChannel)
                  else Inr (trim trigger_channel)))"

section \<open>Dispatch of an action\<close>

text \<open>
  What one step meets: the answers of the community's write lease (\<open>acquire_serving_write\<close>, \<open>verify\<close>,
  \<open>protect\<close>, \<open>finish\<close>), of the database, of the action sink and of the HTTP client, the token drawn for an
  approval, and whether the step's timeout expires.  The answer of the HTTP client is the status and the
  chunks of the body, \<open>None\<close> for a chunk that fails.
\<close>

record http_response =
  resp_status :: nat
  resp_chunks :: "byte list option list"

record step_env =
  lease_acquired :: bool
  lease_verified :: bool
  lease_kept :: bool
  lease_released :: bool
  db_run :: "uuid \<Rightarrow> uuid \<Rightarrow> uuid option"
  db_workflow :: "uuid \<Rightarrow> uuid \<Rightarrow> (uuid option \<times> byte list) option"
  sink :: "(uuid \<Rightarrow> ustr \<Rightarrow> ustr \<Rightarrow> ustr \<Rightarrow> ustr option \<Rightarrow> ustr option) option"
  reaction_call :: "ustr \<Rightarrow> ustr \<Rightarrow> wjson option"
  url_host_port :: "ustr \<Rightarrow> (ustr option \<times> nat option) option"
  lookup_host :: "ustr \<Rightarrow> nat \<Rightarrow> ip_addr list option"
  method_valid :: "ustr \<Rightarrow> bool"
  http_send :: "ustr \<Rightarrow> ustr \<Rightarrow> (ustr, ustr) amap option \<Rightarrow> ustr option \<Rightarrow> ip_addr \<Rightarrow> http_response option"
  utf8_lossy :: "byte list \<Rightarrow> ustr"
  hex_of :: "byte list \<Rightarrow> ustr"
  fresh_token :: ustr
  timed_out :: bool

text \<open>The requests a step makes of the outside world.\<close>

datatype effect =
  MessageSent uuid ustr ustr ustr "ustr option"
| WebhookCalled ustr ustr "(ustr, ustr) amap option" "ustr option" ip_addr nat
| ReactionPosted ustr ustr
| Slept nat

datatype step_result = Completed wjson | Suspended ustr | Skipped

definition check_ssrf :: "step_env \<Rightarrow> ustr \<Rightarrow> nat \<Rightarrow> workflow_error + ip_addr" where
  "check_ssrf E host port =
     bind_result (ok_or WebhookError (lookup_host E host port)) (\<lambda>addrs.
       if addrs = [] then Inl WebhookError
       else if list_ex is_private_ip addrs then Inl WebhookError
       else Inr (hd addrs))"

definition WEBHOOK_MAX_RESPONSE_BYTES :: nat where "WEBHOOK_MAX_RESPONSE_BYTES = 1024 * 1024"

fun read_body :: "byte list option list \<Rightarrow> byte list \<Rightarrow> workflow_error + byte list" where
  "read_body [] body = Inr body"
| "read_body (None # chunks) body = Inl WebhookError"
| "read_body (Some bytes # chunks) body =
     (let body' = body @ bytes
      in if WEBHOOK_MAX_RESPONSE_BYTES < length body' then Inl WebhookError else read_body chunks body')"

definition json_nat :: "nat \<Rightarrow> wjson" where
  "json_nat n = JNumber (ascii (show_nat n))"

text \<open>
  \<open>call_webhook_impl\<close>: the client is built for the validated address only, without proxy and redirects.
\<close>

definition call_webhook_impl ::
  "step_env \<Rightarrow> ustr \<Rightarrow> ustr \<Rightarrow> (ustr, ustr) amap option \<Rightarrow> ustr option \<Rightarrow> effect list \<times> (workflow_error + wjson)" where
  "call_webhook_impl E url method headers body =
     try_in [] (ok_or WebhookError (url_host_port E url)) (\<lambda>(host_str, known_port).
       try_in [] (ok_or WebhookError host_str) (\<lambda>host.
         let port = (case known_port of Some p \<Rightarrow> p | None \<Rightarrow> 80)
         in try_in [] (check_ssrf E host port) (\<lambda>safe_ip.
              if \<not> method_valid E method then ([], Inl WebhookError)
              else ([WebhookCalled url method headers body safe_ip port],
                    bind_result (ok_or WebhookError (http_send E url method headers body safe_ip)) (\<lambda>resp.
                      bind_result (read_body (resp_chunks resp) []) (\<lambda>body_bytes.
                        Inr (JObject [(ascii ''body'', JString (utf8_lossy E body_bytes)),
                                      (ascii ''status'', json_nat (resp_status resp))])))))))"

definition MAX_DELAY_SECS :: nat where "MAX_DELAY_SECS = 270"

fun run_action ::
  "'c workflow_lib \<Rightarrow> step_env \<Rightarrow> uuid \<Rightarrow> uuid \<Rightarrow> trigger_context \<Rightarrow> action_def \<Rightarrow> effect list \<times> (workflow_error + step_result)" where
  "run_action L E community run c (SendMessage txt channel reply_in_thread) =
     try_in [] (ok_or WebhookError (db_run E community run)) (\<lambda>wf_id.
       try_in [] (ok_or WebhookError (db_workflow E community wf_id)) (\<lambda>(wf_channel, owner).
         try_in [] (resolve_send_message_channel L channel (tc_channel_id c) wf_channel) (\<lambda>ch.
           if reply_in_thread \<and> tc_message_id c = [] then ([], Inl (InvalidDefinition NoMessageId))
           else
             let reply_to = (if reply_in_thread then Some (tc_message_id c) else None);
                 owner_hex = hex_of E owner
             in try_in [] (ok_or (InvalidDefinition NoActionSink) (sink E)) (\<lambda>send.
                  ([MessageSent community ch txt owner_hex reply_to],
                   bind_result (ok_or WebhookError (send community ch txt owner_hex reply_to)) (\<lambda>event_id.
                     Inr (Completed (JObject [(ascii ''event_id'', JString event_id), (ascii ''sent'', JBool True)]))))))))"
| "run_action L E community run c (SendDm to txt) = ([], Inl (NotImplemented ''SendDm''))"
| "run_action L E community run c (SetChannelTopic topic) = ([], Inl (NotImplemented ''SetChannelTopic''))"
| "run_action L E community run c (AddReaction emoji) =
     (if tc_message_id c = [] then ([], Inl (InvalidDefinition NoMessageId))
      else ([ReactionPosted (tc_message_id c) emoji],
            bind_result (ok_or WebhookError (reaction_call E (tc_message_id c) emoji)) (\<lambda>v. Inr (Completed v))))"
| "run_action L E community run c (CallWebhook url method headers body) =
     (case call_webhook_impl E url (case method of Some m \<Rightarrow> m | None \<Rightarrow> ascii ''POST'') headers body of
        (effs, r) \<Rightarrow> (effs, bind_result r (\<lambda>v. Inr (Completed v))))"
| "run_action L E community run c (RequestApproval frm message timeout) = ([], Inr (Suspended (fresh_token E)))"
| "run_action L E community run c (Delay duration) =
     try_in [] (parse_duration_secs duration) (\<lambda>secs.
       if MAX_DELAY_SECS < secs then ([], Inl (InvalidDefinition (DelayTooLong secs)))
       else ([Slept secs], Inr (Completed (JObject [(ascii ''slept_secs'', json_nat secs)]))))"

text \<open>
  \<open>dispatch_action\<close>: the action runs under the write lease.  When the lease is lost while the action
  runs, or the step's timeout expires, the step fails; what the action had asked for by then is a part of
  the effects.
\<close>

definition dispatch_action ::
  "'c workflow_lib \<Rightarrow> step_env \<Rightarrow> uuid \<Rightarrow> uuid \<Rightarrow> trigger_context \<Rightarrow> action_def \<Rightarrow> effect list \<times> (workflow_error + step_result)" where
  "dispatch_action L E community run c action =
     (if \<not> lease_acquired E \<or> \<not> lease_verified E then ([], Inl WebhookError)
      else
        case run_action L E community run c action of
          (effs, result) \<Rightarrow>
            (effs,
             if \<not> lease_kept E then Inl WebhookError
             else (case result of
                     Inr v \<Rightarrow> if lease_released E then Inr v else Inl WebhookError
                   | Inl e \<Rightarrow> Inl e)))"

section \<open>Execution of the steps\<close>

record execution_result =
  approval_token :: "ustr option"
  step_index :: nat
  step_outputs :: "(ustr, wjson) amap"
  exec_trace :: "wjson list"

record partial_progress =
  failed_index :: nat
  partial_trace :: "wjson list"

type_synonym run_outcome = "(workflow_error \<times> partial_progress) + execution_result"

definition skipped_entry :: "ustr \<Rightarrow> wjson" where
  "skipped_entry sid = JObject [(ascii ''status'', JString (ascii ''skipped'')), (ascii ''step_id'', JString sid)]"

definition completed_entry :: "ustr \<Rightarrow> wjson \<Rightarrow> wjson" where
  "completed_entry sid out =
     JObject [(ascii ''output'', out), (ascii ''status'', JString (ascii ''completed'')), (ascii ''step_id'', JString sid)]"

definition failed_at :: "nat \<Rightarrow> wjson list \<Rightarrow> workflow_error \<Rightarrow> run_outcome" where
  "failed_at i trace e = Inl (e, \<lparr>failed_index = i, partial_trace = trace\<rparr>)"

text \<open>The condition of a step: a step without one runs.\<close>

definition step_condition ::
  "'c workflow_lib \<Rightarrow> wf_step \<Rightarrow> trigger_context \<Rightarrow> (ustr, wjson) amap \<Rightarrow> workflow_error + bool" where
  "step_condition L s c outs = (case if_expr s of Some expr \<Rightarrow> evaluate_condition L expr c outs | None \<Rightarrow> Inr True)"

text \<open>Steps \<open>i, i + 1, \<dots>\<close> of the definition, \<open>E i\<close> being what step \<open>i\<close> meets.\<close>

fun exec_steps ::
  "'c workflow_lib \<Rightarrow> nat \<Rightarrow> (nat \<Rightarrow> step_env) \<Rightarrow> uuid \<Rightarrow> uuid \<Rightarrow> trigger_context \<Rightarrow> nat \<Rightarrow> wf_step list \<Rightarrow>
   (ustr, wjson) amap \<Rightarrow> wjson list \<Rightarrow> effect list \<times> run_outcome" where
  "exec_steps L default_timeout E community run c i [] outs trace =
     ([], Inr \<lparr>approval_token = None, step_index = i, step_outputs = outs, exec_trace = trace\<rparr>)"
| "exec_steps L default_timeout E community run c i (s # ss) outs trace =
     (case step_condition L s c outs of
        Inl e \<Rightarrow> ([], failed_at i trace e)
      | Inr False \<Rightarrow> exec_steps L default_timeout E community run c (Suc i) ss outs (trace @ [skipped_entry (step_id s)])
      | Inr True \<Rightarrow>
          (case resolve_step_templates L s c outs of
             Inl e \<Rightarrow> ([], failed_at i trace e)
           | Inr action \<Rightarrow>
               (case dispatch_action L (E i) community run c action of
                  (effs, result) \<Rightarrow>
                    if timed_out (E i)
                    then (effs, failed_at i trace
                            (StepTimeout (step_id s) (case timeout_secs s of Some t \<Rightarrow> t | None \<Rightarrow> default_timeout)))
                    else
                      (case result of
                         Inl e \<Rightarrow> (effs, failed_at i trace e)
                       | Inr (Completed out) \<Rightarrow>
                           (case exec_steps L default_timeout E community run c (Suc i) ss
                                   (AList.update (step_id s) out outs) (trace @ [completed_entry (step_id s) out]) of
                              (effs', r) \<Rightarrow> (effs @ effs', r))
                       | Inr (Suspended token) \<Rightarrow>
                           (effs, Inr \<lparr>approval_token = Some token, step_index = i, step_outputs = outs, exec_trace = trace\<rparr>)
                       | Inr Skipped \<Rightarrow>
                           (case exec_steps L default_timeout E community run c (Suc i) ss outs
                                   (trace @ [skipped_entry (step_id s)]) of
                              (effs', r) \<Rightarrow> (effs @ effs', r))))))"

definition execute_steps ::
  "'c workflow_lib \<Rightarrow> nat \<Rightarrow> (nat \<Rightarrow> step_env) \<Rightarrow> uuid \<Rightarrow> uuid \<Rightarrow> workflow_def \<Rightarrow> trigger_context \<Rightarrow> nat \<Rightarrow>
   (ustr, wjson) amap option \<Rightarrow> effect list \<times> run_outcome" where
  "execute_steps L default_timeout E community run d c start_index initial_outputs =
     exec_steps L default_timeout E community run c (min start_index (length (wf_steps d))) (drop start_index (wf_steps d))
       (case initial_outputs of Some outs \<Rightarrow> outs | None \<Rightarrow> []) []"

section \<open>What a template means\<close>

text \<open>
  A template read once: literal text and placeholders in turn, the text after the last placeholder, and the
  text after an opening pair of braces that is never closed.  \<open>first_at\<close> says that the braces after a text
  are the first ones.
\<close>

definition first_at :: "ustr \<Rightarrow> ustr \<Rightarrow> bool" where
  "first_at p l \<longleftrightarrow> find_sub p (l @ p) = Some (length l)"

definition wf_pieces :: "(ustr \<times> ustr) list \<Rightarrow> ustr \<Rightarrow> ustr option \<Rightarrow> bool" where
  "wf_pieces segs tl_text unclosed \<longleftrightarrow>
     list_all (\<lambda>(l, e). first_at open_braces l \<and> first_at close_braces e) segs \<and>
     (case unclosed of
        None \<Rightarrow> find_sub open_braces tl_text = None
      | Some u \<Rightarrow> first_at open_braces tl_text \<and> find_sub close_braces u = None)"

definition written_tail :: "ustr \<Rightarrow> ustr option \<Rightarrow> ustr" where
  "written_tail tl_text unclosed = tl_text @ (case unclosed of None \<Rightarrow> [] | Some u \<Rightarrow> open_braces @ u)"

definition written :: "(ustr \<times> ustr) list \<Rightarrow> ustr \<Rightarrow> ustr option \<Rightarrow> ustr" where
  "written segs tl_text unclosed =
     concat (map (\<lambda>(l, e). l @ open_braces @ e @ close_braces) segs) @ written_tail tl_text unclosed"

fun render_pieces :: "(ustr \<Rightarrow> workflow_error + ustr) \<Rightarrow> (ustr \<times> ustr) list \<Rightarrow> ustr \<Rightarrow> workflow_error + ustr" where
  "render_pieces val [] tl_text = Inr tl_text"
| "render_pieces val ((l, e) # segs) tl_text =
     bind_result (val (trim e)) (\<lambda>v. bind_result (render_pieces val segs tl_text) (\<lambda>r. Inr (l @ v @ r)))"

lemma starts_with_append: "length p \<le> length x \<Longrightarrow> starts_with (x @ y) p \<longleftrightarrow> starts_with x p"
  by (simp add: starts_with_def)

lemma find_sub_first_at: "find_sub p s = Some i \<Longrightarrow> find_sub p (take i s @ p) = Some i"
proof (induction s arbitrary: i)
  case (Cons c s)
  show ?case
  proof (cases "starts_with (c # s) p")
    case True
    with Cons.prems have "i = 0" by simp
    then show ?thesis by (cases p) (simp_all add: starts_with_def)
  next
    case False
    with Cons.prems obtain j where j: "find_sub p s = Some j" "i = Suc j" by auto
    have "c # s = (c # take j s @ p) @ drop (j + length p) s"
      using find_sub_SomeD [OF j(1)] by simp
    with False have "\<not> starts_with (c # take j s @ p) p"
      using starts_with_append [of p "c # take j s @ p" "drop (j + length p) s"] by simp
    with Cons.IH [OF j(1)] j(2) show ?thesis by simp
  qed
qed (simp split: if_splits)

lemma first_at_take: "find_sub p s = Some i \<Longrightarrow> first_at p (take i s)"
  using find_sub_first_at [of p s i] find_sub_SomeD [of p s i] by (simp add: first_at_def min_def)

lemma length_braces [simp]: "length open_braces = 2" "length close_braces = 2"
  by (simp_all add: ascii_def)

lemma written_Cons: "written ((l, e) # segs) t u = l @ open_braces @ e @ close_braces @ written segs t u"
  by (simp add: written_def)

lemma template_loop_pieces:
  "\<exists>segs t u. wf_pieces segs t u \<and> written segs t u = remaining \<and>
     (\<forall>(L :: 'c workflow_lib) c outs res.
        template_loop L c outs (remaining, res) =
        bind_result (render_pieces (resolve_expr L c outs) segs (written_tail t u)) (\<lambda>r. Inr (res @ r)))"
proof (induction "length remaining" arbitrary: remaining rule: less_induct)
  case less
  show ?case
  proof (cases "find_sub open_braces remaining")
    case None
    then show ?thesis
      by - (rule exI [of _ "[]"], rule exI [of _ remaining], rule exI [of _ None],
        simp add: wf_pieces_def written_def written_tail_def template_loop.simps template_step_def)
  next
    case (Some i)
    define rest where "rest = drop (i + 2) remaining"
    have rem: "remaining = take i remaining @ open_braces @ rest"
      using find_sub_SomeD [OF Some] by (simp add: rest_def)
    have first: "first_at open_braces (take i remaining)" using first_at_take [OF Some] .
    show ?thesis
    proof (cases "find_sub close_braces rest")
      case None
      have loop: "template_loop L c outs (remaining, res) = Inr (res @ take i remaining @ open_braces @ rest)"
        for L :: "'c workflow_lib" and c outs res
        using Some None by (subst template_loop.simps) (simp add: template_step_def Let_def rest_def)
      show ?thesis
        by (rule exI [of _ "[]"], rule exI [of _ "take i remaining"], rule exI [of _ "Some rest"])
          (use first None in \<open>simp add: wf_pieces_def written_def written_tail_def loop rem [symmetric]\<close>)
    next
      case (Some j)
      define rest2 where "rest2 = drop (j + 2) rest"
      have rest: "rest = take j rest @ close_braces @ rest2"
        using find_sub_SomeD [OF Some] by (simp add: rest2_def)
      have "length rest2 < length remaining"
        using find_sub_SomeD [OF \<open>find_sub open_braces remaining = Some i\<close>, THEN conjunct2]
        by (simp add: rest_def rest2_def)
      from less [OF this] obtain segs t u where IH: "wf_pieces segs t u" "written segs t u = rest2"
        "\<And>(L :: 'c workflow_lib) c outs res. template_loop L c outs (rest2, res) =
           bind_result (render_pieces (resolve_expr L c outs) segs (written_tail t u)) (\<lambda>r. Inr (res @ r))"
        by blast
      have unfold: "template_loop L c outs (remaining, res) =
          bind_result (resolve_expr L c outs (trim (take j rest)))
            (\<lambda>v. template_loop L c outs (rest2, res @ take i remaining @ v))" for L :: "'c workflow_lib" and c outs res
        using Some \<open>find_sub open_braces remaining = Some i\<close>
        by (subst template_loop.simps)
          (simp add: template_step_def Let_def bind_result_def rest_def rest2_def split: sum.split)
      show ?thesis
      proof (intro exI [of _ "(take i remaining, take j rest) # segs"] exI [of _ t] exI [of _ u] conjI allI)
        show "wf_pieces ((take i remaining, take j rest) # segs) t u"
          using IH(1) first first_at_take [OF Some] by (simp add: wf_pieces_def)
        show "written ((take i remaining, take j rest) # segs) t u = remaining"
          by (simp add: written_Cons IH(2) rem [symmetric] rest [symmetric])
      next
        fix L :: "'c workflow_lib" and c outs res
        show "template_loop L c outs (remaining, res) =
           bind_result (render_pieces (resolve_expr L c outs) ((take i remaining, take j rest) # segs) (written_tail t u))
             (\<lambda>r. Inr (res @ r))"
          by (simp add: unfold IH(3) bind_result_def split: sum.split)
      qed
    qed
  qed
qed

text \<open>
  C34. Templates are substituted in a single pass.  Every template is made of literal text and
  placeholders, found in the template alone, and its resolution replaces each placeholder by its value in
  order: a value that contains braces is never looked at again, whatever the trigger or an earlier step
  put in it.
\<close>

theorem template_single_pass:
  "\<exists>segs t u. wf_pieces segs t u \<and> written segs t u = template \<and>
     (\<forall>(L :: 'c workflow_lib) c outs.
        resolve_template L template c outs = render_pieces (resolve_expr L c outs) segs (written_tail t u))"
proof (cases "find_sub open_braces template")
  case None
  then show ?thesis
    by - (rule exI [of _ "[]"], rule exI [of _ template], rule exI [of _ None],
      simp add: wf_pieces_def written_def written_tail_def resolve_template_def)
next
  case (Some i)
  obtain segs t u where "wf_pieces segs t u" "written segs t u = template"
    "\<And>(L :: 'c workflow_lib) c outs res. template_loop L c outs (template, res) =
       bind_result (render_pieces (resolve_expr L c outs) segs (written_tail t u)) (\<lambda>r. Inr (res @ r))"
    using template_loop_pieces [of template] by blast
  then show ?thesis
    by (intro exI [of _ segs] exI [of _ t] exI [of _ u]) (simp add: resolve_template_def Some bind_result_def split: sum.split)
qed

text \<open>Running the loop for a bounded number of rounds.\<close>

fun run_rounds :: "nat \<Rightarrow> ('s \<Rightarrow> 's + 'r) \<Rightarrow> 's \<Rightarrow> 'r option" where
  "run_rounds 0 f s = None"
| "run_rounds (Suc n) f s = (case f s of Inl s' \<Rightarrow> run_rounds n f s' | Inr r \<Rightarrow> Some r)"

lemma run_rounds_template:
  "length remaining div 4 < n \<Longrightarrow>
     run_rounds n (template_step L c outs) (remaining, res) = Some (template_loop L c outs (remaining, res))"
proof (induction n arbitrary: remaining res)
  case (Suc n)
  show ?case
  proof (cases "template_step L c outs (remaining, res)")
    case (Inl st)
    then obtain r' s' where st: "st = (r', s')" "length r' + 4 \<le> length remaining"
      using template_step_decreases [of L c outs remaining res "fst st" "snd st"] by (cases st) auto
    then have "length r' div 4 < n" using Suc.prems by linarith
    then show ?thesis using Suc.IH Inl st(1) by (subst template_loop.simps) simp
  qed (subst template_loop.simps, simp)
qed simp

text \<open>
  C35. Resolving a template terminates within a number of rounds linear in its length, whatever the values
  substituted are: after at most a quarter of the template's length, plus one, rounds the loop is left with
  the function's result.
\<close>

theorem template_loop_bounded:
  "\<exists>n \<le> length template div 4 + 1. run_rounds n (template_step L c outs) (template, []) = Some (resolve_template L template c outs)"
proof -
  have "template_loop L c outs (template, []) = Inr template" if "find_sub open_braces template = None"
    using that by (subst template_loop.simps) (simp add: template_step_def)
  then show ?thesis
    using run_rounds_template [of template "length template div 4 + 1" L c outs "[]"]
    by (intro exI [of _ "length template div 4 + 1"]) (auto simp: resolve_template_def)
qed

section \<open>Validated definitions\<close>









section \<open>What conditions see\<close>

text \<open>
  What the code relies on of \<open>evalexpr\<close>'s contexts, \<open>get\<close> being the value a variable has: it is the value
  last set, and a variable that has a value keeps its type.
\<close>

definition keeps_last :: "'c workflow_lib \<Rightarrow> ('c \<Rightarrow> ustr \<Rightarrow> eval_value option) \<Rightarrow> bool" where
  "keeps_last L get \<longleftrightarrow>
     (\<forall>ctx n v ctx' m. set_value L ctx n v = Some ctx' \<longrightarrow> get ctx' m = (if m = n then Some v else get ctx m))"

fun ev_type :: "eval_value \<Rightarrow> nat" where
  "ev_type (EvString _) = 0"
| "ev_type (EvBool _) = 1"
| "ev_type (EvInt _) = 2"
| "ev_type (EvFloat _) = 3"
| "ev_type EvEmpty = 4"

definition keeps_type :: "'c workflow_lib \<Rightarrow> ('c \<Rightarrow> ustr \<Rightarrow> eval_value option) \<Rightarrow> bool" where
  "keeps_type L get \<longleftrightarrow>
     (\<forall>ctx n v w. get ctx n = Some w \<and> ev_type w \<noteq> ev_type v \<longrightarrow> set_value L ctx n v = None)"

lemma set_vars_get:
  assumes law: "keeps_last L get"
    and "set_vars L vs ctx = Inr ctx'"
  shows "get ctx' m = (case map_of (rev vs) m of Some v \<Rightarrow> Some v | None \<Rightarrow> get ctx m)"
  using assms(2)
proof (induction vs arbitrary: ctx)
  case (Cons nv vs)
  obtain n v where nv: "nv = (n, v)" by (cases nv)
  with Cons.prems obtain ctx1 where "set_value L ctx n v = Some ctx1" "set_vars L vs ctx1 = Inr ctx'"
    by (auto simp: set_var_def bind_result_Inr ok_or_Inr)
  with Cons.IH [of ctx1] law show ?case
    by (auto simp: nv keeps_last_def map_add_def split: option.split)
qed simp

lemma set_vars_error: "set_vars L vs ctx = Inl e \<Longrightarrow> e = ConditionError"
proof (induction vs arbitrary: ctx)
  case (Cons nv vs)
  then show ?case by (cases nv) (auto simp: set_var_def ok_or_def split: option.splits)
qed simp

lemma set_vars_append: "set_vars L (vs @ ws) ctx = bind_result (set_vars L vs ctx) (set_vars L ws)"
proof (induction vs arbitrary: ctx)
  case (Cons nv vs)
  then show ?case by (cases nv) (simp add: bind_result_def split: sum.split)
qed simp

lemma output_vars_not_trigger:
  "(ascii ''trigger_'' @ x, v) \<notin> set (output_vars L so)"
  by (cases so; cases "snd so") (auto simp: step_var_def ascii_def)

lemma trigger_var_name: "(n, v) \<in> set (trigger_vars c) \<Longrightarrow> \<exists>x. n = ascii ''trigger_'' @ x"
  by (auto simp: trigger_vars_def ascii_def)

lemma distinct_trigger_vars: "distinct (map fst (trigger_vars c))"
  by (simp add: trigger_vars_def ascii_def)

text \<open>
  What a condition reads about its trigger cannot be forged: whatever the fields of a webhook body and
  the outputs of earlier steps are called, \<open>trigger_author\<close>, \<open>trigger_channel_id\<close> and the other standard
  variables have the values of the trigger.  It relies on the context keeping the value last set.
\<close>

theorem trigger_vars_not_spoofed:
  assumes law: "keeps_last L get"
    and built: "build_eval_context L c outs = Inr ctx"
    and var: "(n, v) \<in> set (trigger_vars c)"
  shows "get ctx n = Some v"
proof -
  obtain ctx1 ctx2 where "set_vars L (trigger_vars c) ctx1 = Inr ctx2"
    and last: "set_vars L (concat (map (output_vars L) outs)) ctx2 = Inr ctx"
    using built by (auto simp: build_eval_context_def bind_result_Inr)
  moreover have "map_of (rev (trigger_vars c)) n = Some v"
    using var distinct_trigger_vars [of c] by (simp add: rev_map [symmetric])
  ultimately have "get ctx2 n = Some v" using set_vars_get [OF law, where m = n] by simp
  moreover obtain x where x: "n = ascii ''trigger_'' @ x" using trigger_var_name [OF var] ..
  have "map_of (rev (concat (map (output_vars L) outs))) n = None"
    using output_vars_not_trigger [of x _ L] by (auto simp: map_of_eq_None_iff x)
  ultimately show ?thesis using set_vars_get [OF law last, where m = n] by simp
qed

lemma webhook_var_is_reply:
  "(ascii ''is_reply'', s) \<in> set ws \<Longrightarrow>
     \<exists>s'. map_of (rev (webhook_vars ws)) (ascii ''trigger_is_reply'') = Some (EvString s')"
proof -
  assume "(ascii ''is_reply'', s) \<in> set ws"
  then have "(ascii ''trigger_is_reply'', EvString s) \<in> set (rev (webhook_vars ws))"
    by (force simp: webhook_vars_def starts_with_def ascii_def)
  then obtain v where v: "map_of (rev (webhook_vars ws)) (ascii ''trigger_is_reply'') = Some v"
    by (meson weak_map_of_SomeI)
  then have "(ascii ''trigger_is_reply'', v) \<in> set (rev (webhook_vars ws))" by (rule map_of_SomeD)
  with v show ?thesis by (auto simp: webhook_vars_def)
qed

text \<open>
  A webhook body with a field \<open>is_reply\<close> makes every condition of the workflow fail: the field is
  registered as the string \<open>trigger_is_reply\<close> before the standard variable of that name, a boolean, is set,
  and the context refuses the change of type.
\<close>

theorem webhook_is_reply_breaks_conditions:
  assumes law: "keeps_last L get"
    and typed: "keeps_type L get"
    and field: "(ascii ''is_reply'', s) \<in> set (tc_webhook_fields c)"
  shows "evaluate_condition L expr c outs = Inl ConditionError"
proof -
  have "build_eval_context L c outs \<noteq> Inr ctx" for ctx
  proof
    assume "build_eval_context L c outs = Inr ctx"
    then obtain ctx1 ctx2 where w: "set_vars L (webhook_vars (tc_webhook_fields c)) (empty_context L) = Inr ctx1"
      and t: "set_vars L (trigger_vars c) ctx1 = Inr ctx2"
      by (auto simp: build_eval_context_def bind_result_Inr)
    have split: "trigger_vars c = butlast (trigger_vars c) @ [(ascii ''trigger_is_reply'', EvBool (tc_is_reply c))]"
      by (simp add: trigger_vars_def)
    obtain ctx3 where b: "set_vars L (butlast (trigger_vars c)) ctx1 = Inr ctx3"
      and l: "set_value L ctx3 (ascii ''trigger_is_reply'') (EvBool (tc_is_reply c)) \<noteq> None"
      using t by (subst (asm) split) (auto simp: set_vars_append bind_result_Inr set_var_def ok_or_Inr)
    obtain s' where "get ctx1 (ascii ''trigger_is_reply'') = Some (EvString s')"
      using webhook_var_is_reply [OF field] set_vars_get [OF law w, where m = "ascii ''trigger_is_reply''"] by auto
    moreover have "map_of (rev (butlast (trigger_vars c))) (ascii ''trigger_is_reply'') = None"
      by (simp add: trigger_vars_def ascii_def)
    ultimately have "get ctx3 (ascii ''trigger_is_reply'') = Some (EvString s')"
      using set_vars_get [OF law b, where m = "ascii ''trigger_is_reply''"] by simp
    with l typed show False by (auto simp: keeps_type_def)
  qed
  moreover have "e = ConditionError" if "build_eval_context L c outs = Inl e" for e
    using that by (auto simp: build_eval_context_def bind_result_def dest: set_vars_error split: sum.splits)
  ultimately show ?thesis by (cases "build_eval_context L c outs") (auto simp: evaluate_condition_def)
qed

section \<open>Effects of a run\<close>

text \<open>
  What a step may do: it holds the community's write lease; it posts in its own community and, when the
  workflow is bound to a channel, in that channel, in the name of the workflow's owner; it calls public
  addresses only; it sleeps for less than the default timeout.
\<close>

definition effect_confined :: "'c workflow_lib \<Rightarrow> step_env \<Rightarrow> uuid \<Rightarrow> uuid \<Rightarrow> effect \<Rightarrow> bool" where
  "effect_confined L E community run eff \<longleftrightarrow>
     lease_acquired E \<and> lease_verified E \<and>
     (case eff of
        MessageSent com ch txt author reply_to \<Rightarrow>
          com = community \<and>
          (case Option.bind (db_run E community run) (db_workflow E community) of
             None \<Rightarrow> False
           | Some (wf_channel, owner) \<Rightarrow>
               author = hex_of E owner \<and> (case wf_channel of Some u \<Rightarrow> ch = uuid_print L u | None \<Rightarrow> True))
      | WebhookCalled url method headers body ip port \<Rightarrow> \<not> is_private_ip ip
      | ReactionPosted message emoji \<Rightarrow> message \<noteq> []
      | Slept secs \<Rightarrow> secs \<le> 270)"

lemma check_ssrf_public: "check_ssrf E host port = Inr ip \<Longrightarrow> \<not> is_private_ip ip"
  by (auto simp: check_ssrf_def bind_result_Inr list_ex_iff split: if_splits)

lemma channel_bound:
  "resolve_send_message_channel L explicit trig (Some u) = Inr ch \<Longrightarrow> ch = uuid_print L u"
  by (auto simp: resolve_send_message_channel_def Let_def bind_result_Inr split: option.splits if_splits)

lemma call_webhook_confined:
  "lease_acquired E \<Longrightarrow> lease_verified E \<Longrightarrow>
     list_all (effect_confined L E community run) (fst (call_webhook_impl E url method headers body))"
  by (auto simp: call_webhook_impl_def try_in_def Let_def effect_confined_def dest!: check_ssrf_public split: sum.split prod.split)

lemma run_action_confined:
  assumes "lease_acquired E" "lease_verified E"
  shows "list_all (effect_confined L E community run) (fst (run_action L E community run c action))"
proof (cases action)
  case (SendMessage msg channel reply)
  with assms show ?thesis
    by (auto simp: try_in_def Let_def effect_confined_def ok_or_def dest: channel_bound split: sum.split prod.split option.splits)
next
  case (CallWebhook url meth hdrs body)
  with assms show ?thesis
    by (simp add: case_prod_unfold call_webhook_confined)
next
  case (Delay dur)
  with assms show ?thesis by (auto simp: try_in_def effect_confined_def MAX_DELAY_SECS_def split: sum.split)
qed (use assms in \<open>auto simp: effect_confined_def\<close>)

lemma dispatch_confined:
  "list_all (effect_confined L E community run) (fst (dispatch_action L E community run c action))"
  using run_action_confined [of E L community run c action]
  by (auto simp: dispatch_action_def split: prod.split)

lemma exec_steps_confined:
  "list_all (\<lambda>eff. \<exists>j<i + length ss. effect_confined L (E j) community run eff)
     (fst (exec_steps L T E community run c i ss outs trace))"
proof (induction ss arbitrary: i outs trace)
  case (Cons s ss)
  have later: "list_all (\<lambda>eff. \<exists>j<i + length (s # ss). effect_confined L (E j) community run eff)
      (fst (exec_steps L T E community run c (Suc i) ss outs' trace'))" for outs' trace'
    using Cons.IH [of "Suc i" outs' trace'] by simp
  have now: "list_all (\<lambda>eff. \<exists>j<i + length (s # ss). effect_confined L (E j) community run eff)
      (fst (dispatch_action L (E i) community run c action))" for action
    using dispatch_confined [of L "E i" community run c action]
    by (rule list.pred_mono_strong) (auto intro: exI [of _ i])
  show ?case
    using later now by (simp add: case_prod_unfold split: sum.split bool.split step_result.split)
qed simp

text \<open>
  C13. A run does nothing outside its bounds, whatever its definition, its trigger and the answers it gets
  are: every effect of every step is covered by a write lease acquired for that step, messages go to the
  run's own community, to the channel of the workflow when it has one and in the owner's name, webhooks are
  called at addresses that are not private, and delays are at most 270 seconds.
\<close>

theorem run_effects_confined:
  "list_all (\<lambda>eff. \<exists>i. effect_confined L (E i) community run eff)
     (fst (execute_steps L T E community run d c start_index initial_outputs))"
  unfolding execute_steps_def by (rule list.pred_mono_strong [OF exec_steps_confined]) blast

section \<open>The trace of a run\<close>

text \<open>What the resuming side reads of a trace entry: \<open>entry.get(key)\<close> and \<open>as_str\<close>.\<close>

definition json_get :: "wjson \<Rightarrow> ustr \<Rightarrow> wjson option" where
  "json_get v key = (case v of JObject m \<Rightarrow> map_of m key | _ \<Rightarrow> None)"

definition json_as_str :: "wjson \<Rightarrow> ustr option" where
  "json_as_str v = (case v of JString s \<Rightarrow> Some s | _ \<Rightarrow> None)"

definition entry_step_id :: "wjson \<Rightarrow> ustr option" where
  "entry_step_id entry = Option.bind (json_get entry (ascii ''step_id'')) json_as_str"

definition restore_output :: "(ustr, wjson) amap \<Rightarrow> wjson \<Rightarrow> (ustr, wjson) amap" where
  "restore_output outs entry =
     (case (entry_step_id entry, json_get entry (ascii ''output'')) of
        (Some sid, Some out) \<Rightarrow> AList.update sid out outs
      | _ \<Rightarrow> outs)"

definition reconstruct_outputs :: "wjson \<Rightarrow> (ustr, wjson) amap" where
  "reconstruct_outputs trace = (case trace of JArray entries \<Rightarrow> foldl restore_output [] entries | _ \<Rightarrow> [])"

lemma entry_facts [simp]:
  "entry_step_id (skipped_entry sid) = Some sid"
  "entry_step_id (completed_entry sid out) = Some sid"
  "restore_output outs (skipped_entry sid) = outs"
  "restore_output outs (completed_entry sid out) = AList.update sid out outs"
  by (simp_all add: restore_output_def entry_step_id_def json_get_def json_as_str_def skipped_entry_def completed_entry_def ascii_def)

definition outcome_index :: "run_outcome \<Rightarrow> nat" where
  "outcome_index r = (case r of Inl (e, p) \<Rightarrow> failed_index p | Inr x \<Rightarrow> step_index x)"

definition outcome_trace :: "run_outcome \<Rightarrow> wjson list" where
  "outcome_trace r = (case r of Inl (e, p) \<Rightarrow> partial_trace p | Inr x \<Rightarrow> exec_trace x)"

definition finished :: "run_outcome \<Rightarrow> bool" where
  "finished r = (case r of Inl _ \<Rightarrow> False | Inr x \<Rightarrow> approval_token x = None)"

lemma outcome_simps [simp]:
  "outcome_index (failed_at i trace e) = i" "outcome_trace (failed_at i trace e) = trace" "\<not> finished (failed_at i trace e)"
  "outcome_index (Inr x) = step_index x" "outcome_trace (Inr x) = exec_trace x" "finished (Inr x) \<longleftrightarrow> approval_token x = None"
  by (simp_all add: outcome_index_def outcome_trace_def finished_def failed_at_def)

definition accounts :: "nat \<Rightarrow> wf_step list \<Rightarrow> wjson list \<Rightarrow> run_outcome \<Rightarrow> bool" where
  "accounts i ss trace r \<longleftrightarrow>
     (\<exists>new. outcome_trace r = trace @ new \<and> outcome_index r = i + length new \<and> length new \<le> length ss \<and>
            map entry_step_id new = map (\<lambda>s. Some (step_id s)) (take (length new) ss) \<and>
            finished r = (length new = length ss))"

lemma accounts_stop: "outcome_trace r = trace \<Longrightarrow> outcome_index r = i \<Longrightarrow> \<not> finished r \<Longrightarrow> accounts i (s # ss) trace r"
  by (simp add: accounts_def)

lemma accounts_Cons:
  "accounts (Suc i) ss (trace @ [e]) r \<Longrightarrow> entry_step_id e = Some (step_id s) \<Longrightarrow> accounts i (s # ss) trace r"
  unfolding accounts_def by (elim exE, rule_tac x = "e # new" in exI) auto

lemma exec_steps_accounts: "accounts i ss trace (snd (exec_steps L T E community run c i ss outs trace))"
proof (induction ss arbitrary: i outs trace)
  case (Cons s ss)
  have later: "accounts i (s # ss) trace (snd (exec_steps L T E community run c (Suc i) ss outs' (trace @ [e])))"
    if "entry_step_id e = Some (step_id s)" for outs' e
    using Cons.IH [of "Suc i" "trace @ [e]" outs'] accounts_Cons that by blast
  show ?case
    by (simp add: case_prod_unfold later accounts_stop split: sum.split bool.split step_result.split)
qed (simp add: accounts_def)

text \<open>
  The trace accounts for every step: it has one entry per step run or skipped, in the order of the
  definition, and the recorded index is the one of the step that failed or suspended.  A run ends as
  completed exactly when every step from the starting one has its entry.
\<close>

theorem run_trace_accounts:
  "accounts (min start_index (length (wf_steps d))) (drop start_index (wf_steps d)) []
     (snd (execute_steps L T E community run d c start_index initial_outputs))"
  by (simp add: execute_steps_def exec_steps_accounts)

lemma exec_steps_outputs:
  "snd (exec_steps L T E community run c i ss (foldl restore_output [] trace) trace) = Inr x \<Longrightarrow>
     foldl restore_output [] (exec_trace x) = step_outputs x"
proof (induction ss arbitrary: i trace)
  case (Cons s ss)
  have later: "foldl restore_output [] (exec_trace x) = step_outputs x"
    if "snd (exec_steps L T E community run c (Suc i) ss (restore_output (foldl restore_output [] trace) e) (trace @ [e])) = Inr x" for e
    using Cons.IH [of "Suc i" "trace @ [e]"] that by simp
  show ?case
    using Cons.prems later [of "skipped_entry (step_id s)"] later [of "completed_entry (step_id s) _"]
    by (auto simp: case_prod_unfold failed_at_def split: sum.splits bool.splits step_result.splits if_splits)
qed auto

text \<open>
  C37. A suspended run can be resumed from its stored trace alone: the outputs read back from the trace are
  those the run had, in the same order, so the templates and conditions of the remaining steps see what they
  would have seen without the suspension.
\<close>

theorem resume_restores_outputs:
  assumes "snd (execute_steps L T E community run d c 0 None) = Inr x"
  shows "execute_steps L T E community run d c (Suc (step_index x)) (Some (reconstruct_outputs (JArray (exec_trace x)))) =
         execute_steps L T E community run d c (Suc (step_index x)) (Some (step_outputs x))"
  using exec_steps_outputs [of L T E community run c 0 "wf_steps d" "[]" x] assms by (simp add: execute_steps_def reconstruct_outputs_def)

section \<open>Concrete instances\<close>

text \<open>A library with contexts as association lists; expressions are names of boolean variables.\<close>

definition list_context_lib :: "(ustr \<times> eval_value) list workflow_lib" where
  "list_context_lib =
     \<lparr>uuid_parse = (\<lambda>s. if s = [] then None else Some (of_nat (length s))), uuid_print = (\<lambda>u. replicate (unat u) 48),
      json_print = (\<lambda>_. []), number_value = EvFloat, npub_of = (\<lambda>_. None), cron_valid = (\<lambda>_. True),
      cron_next_after = (\<lambda>_ t. Some (60000000000 * (t div 60000000000) + 60000000000)), empty_context = [],
      set_value = (\<lambda>ctx n v. case map_of ctx n of
                     Some w \<Rightarrow> if ev_type w = ev_type v then Some ((n, v) # ctx) else None
                   | None \<Rightarrow> Some ((n, v) # ctx)),
      eval_boolean = (\<lambda>expr ctx. case map_of ctx expr of Some (EvBool b) \<Rightarrow> Some b | _ \<Rightarrow> None)\<rparr>"

definition hook_context :: "ustr \<Rightarrow> trigger_context" where
  "hook_context key =
     \<lparr>tc_text = [], tc_author = ascii ''alice'', tc_channel_id = [], tc_timestamp = [], tc_emoji = [],
      tc_message_id = [], tc_is_reply = False, tc_webhook_fields = [(key, ascii ''mallory'')]\<rparr>"

lemma list_context_laws: "keeps_last list_context_lib map_of" "keeps_type list_context_lib map_of"
  by (auto simp: keeps_last_def keeps_type_def list_context_lib_def split: option.splits if_splits)

theorem trigger_vars_not_spoofed_witness:
  "\<exists>ctx. build_eval_context list_context_lib (hook_context (ascii ''author'')) [] = Inr ctx \<and>
         map_of ctx (ascii ''trigger_author'') = Some (EvString (ascii ''alice''))"
proof -
  obtain ctx where ctx: "build_eval_context list_context_lib (hook_context (ascii ''author'')) [] = Inr ctx"
    by (simp add: build_eval_context_def hook_context_def webhook_vars_def trigger_vars_def set_var_def
        list_context_lib_def starts_with_def ascii_def)
  with trigger_vars_not_spoofed [OF list_context_laws(1) ctx, of "ascii ''trigger_author''" "EvString (ascii ''alice'')"]
  show ?thesis by (simp add: trigger_vars_def hook_context_def)
qed

theorem webhook_is_reply_breaks_conditions_witness:
  "evaluate_condition list_context_lib (ascii ''trigger_is_reply'') (hook_context (ascii ''is_reply'')) [] = Inl ConditionError"
  by (rule webhook_is_reply_breaks_conditions [OF list_context_laws, of "ascii ''mallory''"]) (simp add: hook_context_def)

definition approval_flow :: workflow_def where
  "approval_flow =
     \<lparr>wf_name = ascii ''deploy'', wf_description = None, wf_trigger = Webhook,
      wf_steps = [\<lparr>step_id = ascii ''wait'', step_name = None, if_expr = None, timeout_secs = None, step_action = Delay (ascii ''5'')\<rparr>,
                  \<lparr>step_id = ascii ''ask'', step_name = None, if_expr = None, timeout_secs = None,
                   step_action = RequestApproval [] [] None\<rparr>],
      wf_enabled = True\<rparr>"

definition calm_env :: step_env where
  "calm_env =
     \<lparr>lease_acquired = True, lease_verified = True, lease_kept = True, lease_released = True,
      db_run = (\<lambda>_ _. None), db_workflow = (\<lambda>_ _. None), sink = None, reaction_call = (\<lambda>_ _. None),
      url_host_port = (\<lambda>_. None), lookup_host = (\<lambda>_ _. None), method_valid = (\<lambda>_. True),
      http_send = (\<lambda>_ _ _ _ _. None), utf8_lossy = (\<lambda>_. []), hex_of = (\<lambda>_. []), fresh_token = ascii ''t'', timed_out = False\<rparr>"

lemma approval_flow_suspends:
  "snd (execute_steps list_context_lib 300 (\<lambda>_. calm_env) 1 2 approval_flow (hook_context []) 0 None) =
     Inr \<lparr>approval_token = Some (ascii ''t''), step_index = 1,
          step_outputs = [(ascii ''wait'', JObject [(ascii ''slept_secs'', json_nat 5)])],
          exec_trace = [completed_entry (ascii ''wait'') (JObject [(ascii ''slept_secs'', json_nat 5)])]\<rparr>"
  by (simp add: execute_steps_def approval_flow_def step_condition_def resolve_step_templates_def resolve_template_def
      dispatch_action_def calm_env_def parse_duration_secs_def parse_u64_def digits_value_def is_digit_def
      MAX_DELAY_SECS_def trim_def trim_end_def is_whitespace_def ascii_def strip_suffix_def strip_prefix_def starts_with_def)

theorem resume_restores_outputs_witness:
  "execute_steps list_context_lib 300 (\<lambda>_. calm_env) 1 2 approval_flow (hook_context []) 2
     (Some (reconstruct_outputs (JArray [completed_entry (ascii ''wait'') (JObject [(ascii ''slept_secs'', json_nat 5)])]))) =
   execute_steps list_context_lib 300 (\<lambda>_. calm_env) 1 2 approval_flow (hook_context []) 2
     (Some [(ascii ''wait'', JObject [(ascii ''slept_secs'', json_nat 5)])])"
  using resume_restores_outputs [OF approval_flow_suspends] by (simp add: numeral_2_eq_2)

end
