(* ===== verification/Workflow_Store.thy ===== *)
theory Workflow_Store
  imports Workflow Channel "HOL-Library.Product_Lexorder"
begin

text \<open>
  The workflow tables (\<open>buzz-db/src/workflow.rs\<close>): definitions, runs, claims of scheduled fires and
  approvals, with the statements of the file as functions on them.  A table is an association list by its
  primary key; a statement that PostgreSQL rejects or cannot run is the caller's concern.  Instants are
  integers, the clock of a statement is its argument \<open>now\<close>.
\<close>

section \<open>Status enums\<close>

datatype workflow_status = Active | Disabled | Archived

fun workflow_status_as_str :: "workflow_status \<Rightarrow> string" where
  "workflow_status_as_str Active = ''active''"
| "workflow_status_as_str Disabled = ''disabled''"
| "workflow_status_as_str Archived = ''archived''"

definition workflow_status_from_str :: "string \<Rightarrow> string + workflow_status" where
  "workflow_status_from_str s =
     (if s = ''active'' then Inr Active
      else if s = ''disabled'' then Inr Disabled
      else if s = ''archived'' then Inr Archived
      else Inl s)"

datatype run_status = RunPending | Running | WaitingApproval | RunCompleted | RunFailed | Cancelled

fun run_status_as_str :: "run_status \<Rightarrow> string" where
  "run_status_as_str RunPending = ''pending''"
| "run_status_as_str Running = ''running''"
| "run_status_as_str WaitingApproval = ''waiting_approval''"
| "run_status_as_str RunCompleted = ''completed''"
| "run_status_as_str RunFailed = ''failed''"
| "run_status_as_str Cancelled = ''cancelled''"

definition run_status_from_str :: "string \<Rightarrow> string + run_status" where
  "run_status_from_str s =
     (if s = ''pending'' then Inr RunPending
      else if s = ''running'' then Inr Running
      else if s = ''waiting_approval'' then Inr WaitingApproval
      else if s = ''completed'' then Inr RunCompleted
      else if s = ''failed'' then Inr RunFailed
      else if s = ''cancelled'' then Inr Cancelled
      else Inl s)"

datatype approval_status = ApPending | Granted | Denied | Expired

fun approval_status_as_str :: "approval_status \<Rightarrow> string" where
  "approval_status_as_str ApPending = ''pending''"
| "approval_status_as_str Granted = ''granted''"
| "approval_status_as_str Denied = ''denied''"
| "approval_status_as_str Expired = ''expired''"

definition approval_status_from_str :: "string \<Rightarrow> string + approval_status" where
  "approval_status_from_str s =
     (if s = ''pending'' then Inr ApPending
      else if s = ''granted'' then Inr Granted
      else if s = ''denied'' then Inr Denied
      else if s = ''expired'' then Inr Expired
      else Inl s)"

interpretation workflow_status_enum: str_enum workflow_status_as_str workflow_status_from_str
proof
  fix x s
  show "workflow_status_from_str (workflow_status_as_str x) = Inr x"
    by (cases x) (simp_all add: workflow_status_from_str_def)
  show "workflow_status_from_str s = Inr x \<Longrightarrow> s = workflow_status_as_str x"
    by (auto simp: workflow_status_from_str_def split: if_splits)
qed

interpretation run_status_enum: str_enum run_status_as_str run_status_from_str
proof
  fix x s
  show "run_status_from_str (run_status_as_str x) = Inr x"
    by (cases x) (simp_all add: run_status_from_str_def)
  show "run_status_from_str s = Inr x \<Longrightarrow> s = run_status_as_str x"
    by (auto simp: run_status_from_str_def split: if_splits)
qed

interpretation approval_status_enum: str_enum approval_status_as_str approval_status_from_str
proof
  fix x s
  show "approval_status_from_str (approval_status_as_str x) = Inr x"
    by (cases x) (simp_all add: approval_status_from_str_def)
  show "approval_status_from_str s = Inr x \<Longrightarrow> s = approval_status_as_str x"
    by (auto simp: approval_status_from_str_def split: if_splits)
qed

section \<open>Rows and tables\<close>

datatype db_error = NotFound | AccessDenied

record workflow_record =
  wr_id :: uuid
  wr_community :: uuid
  wr_name :: ustr
  wr_owner :: "byte list"
  wr_channel :: "uuid option"
  wr_definition :: wjson
  wr_hash :: "byte list"
  wr_status :: workflow_status
  wr_enabled :: bool
  wr_created_at :: int
  wr_updated_at :: int

record run_record =
  rr_id :: uuid
  rr_community :: uuid
  rr_workflow :: uuid
  rr_status :: run_status
  rr_trigger_event :: "byte list option"
  rr_current_step :: nat
  rr_trace :: wjson
  rr_trigger_context :: "trigger_context option"
  rr_started_at :: "int option"
  rr_completed_at :: "int option"
  rr_error_code :: "string option"
  rr_created_at :: int

record fire_row =
  fr_claimed_at :: int
  fr_run :: "uuid option"

record approval_record =
  ap_token :: "byte list"
  ap_workflow :: uuid
  ap_run :: uuid
  ap_step_id :: ustr
  ap_step_index :: nat
  ap_approver_spec :: ustr
  ap_status :: approval_status
  ap_approver :: "byte list option"
  ap_note :: "ustr option"
  ap_expires_at :: int
  ap_created_at :: int

type_synonym fire_key = "uuid \<times> uuid \<times> int"

record wf_db =
  workflows :: "(uuid \<times> uuid, workflow_record) amap"
  runs :: "(uuid \<times> uuid, run_record) amap"
  fires :: "(fire_key, fire_row) amap"
  approvals :: "(uuid \<times> byte list, approval_record) amap"

definition LIST_MAX_LIMIT :: nat where "LIST_MAX_LIMIT = 1000"
definition LIST_DEFAULT_LIMIT :: nat where "LIST_DEFAULT_LIMIT = 100"

text \<open>\<open>i64::clamp(1, max)\<close>.\<close>

definition clamp_limit :: "int \<Rightarrow> nat" where
  "clamp_limit n = nat (min (int LIST_MAX_LIMIT) (max 1 n))"

section \<open>Definitions of workflows\<close>

definition new_workflow ::
  "uuid \<Rightarrow> uuid \<Rightarrow> uuid option \<Rightarrow> byte list \<Rightarrow> ustr \<Rightarrow> wjson \<Rightarrow> byte list \<Rightarrow> int \<Rightarrow> workflow_record" where
  "new_workflow community i channel owner name d h now =
     \<lparr>wr_id = i, wr_community = community, wr_name = name, wr_owner = owner, wr_channel = channel, wr_definition = d,
      wr_hash = h, wr_status = Active, wr_enabled = True, wr_created_at = now, wr_updated_at = now\<rparr>"

text \<open>The identifier \<open>Uuid::new_v4()\<close> draws is an argument.\<close>

definition create_workflow ::
  "uuid \<Rightarrow> uuid \<Rightarrow> uuid option \<Rightarrow> byte list \<Rightarrow> ustr \<Rightarrow> wjson \<Rightarrow> byte list \<Rightarrow> int \<Rightarrow> wf_db \<Rightarrow> wf_db \<times> uuid" where
  "create_workflow fresh community channel owner name d h now s =
     (s\<lparr>workflows := AList.update (community, fresh) (new_workflow community fresh channel owner name d h now) (workflows s)\<rparr>,
      fresh)"

definition upsert_workflow ::
  "uuid \<Rightarrow> uuid \<Rightarrow> uuid option \<Rightarrow> byte list \<Rightarrow> ustr \<Rightarrow> wjson \<Rightarrow> byte list \<Rightarrow> int \<Rightarrow> wf_db \<Rightarrow> wf_db \<times> (db_error + unit)" where
  "upsert_workflow community i channel owner name d h now s =
     (case map_of (workflows s) (community, i) of
        None \<Rightarrow>
          (s\<lparr>workflows := AList.update (community, i) (new_workflow community i channel owner name d h now) (workflows s)\<rparr>, Inr ())
      | Some r \<Rightarrow>
          if wr_owner r = owner \<and> wr_channel r = channel
          then (s\<lparr>workflows := AList.update (community, i)
                   (r\<lparr>wr_name := name, wr_definition := d, wr_hash := h, wr_updated_at := now\<rparr>) (workflows s)\<rparr>, Inr ())
          else (s, Inl AccessDenied))"

definition get_workflow :: "uuid \<Rightarrow> uuid \<Rightarrow> wf_db \<Rightarrow> db_error + workflow_record" where
  "get_workflow community i s = ok_or NotFound (map_of (workflows s) (community, i))"

definition newest_first :: "workflow_record list \<Rightarrow> workflow_record list" where
  "newest_first = sort_key (\<lambda>r. - wr_created_at r)"

definition list_channel_workflows ::
  "uuid \<Rightarrow> uuid \<Rightarrow> int option \<Rightarrow> int option \<Rightarrow> wf_db \<Rightarrow> workflow_record list" where
  "list_channel_workflows community channel limit offset s =
     take (clamp_limit (case limit of Some n \<Rightarrow> n | None \<Rightarrow> int LIST_DEFAULT_LIMIT))
       (drop (nat (max 0 (case offset of Some n \<Rightarrow> n | None \<Rightarrow> 0)))
         (newest_first (filter (\<lambda>r. wr_community r = community \<and> wr_channel r = Some channel) (map snd (workflows s)))))"

definition list_enabled_channel_workflows :: "uuid \<Rightarrow> uuid \<Rightarrow> wf_db \<Rightarrow> workflow_record list" where
  "list_enabled_channel_workflows community channel s =
     take LIST_MAX_LIMIT
       (newest_first
         (filter (\<lambda>r. wr_community r = community \<and> wr_channel r = Some channel \<and> wr_status r = Active \<and> wr_enabled r)
           (map snd (workflows s))))"

text \<open>\<open>definition->'trigger'->>'on' = 'schedule'\<close>, for communities that are not archived.\<close>

definition trigger_kind :: "wjson \<Rightarrow> ustr option" where
  "trigger_kind d = Option.bind (json_get d (ascii ''trigger'')) (\<lambda>t. Option.bind (json_get t (ascii ''on'')) json_as_str)"

definition list_all_enabled_workflows :: "(uuid \<Rightarrow> bool) \<Rightarrow> wf_db \<Rightarrow> workflow_record list" where
  "list_all_enabled_workflows archived s =
     take LIST_MAX_LIMIT
       (sort_key wr_created_at
         (filter (\<lambda>r. wr_status r = Active \<and> wr_enabled r \<and> trigger_kind (wr_definition r) = Some (ascii ''schedule'')
                     \<and> \<not> archived (wr_community r))
           (map snd (workflows s))))"

text \<open>\<open>UPDATE \<dots> WHERE community_id = \<dots> AND id = \<dots>\<close> with its \<open>rows_affected\<close> check.\<close>

definition update_row ::
  "(workflow_record \<Rightarrow> workflow_record) \<Rightarrow> uuid \<Rightarrow> uuid \<Rightarrow> wf_db \<Rightarrow> wf_db \<times> (db_error + unit)" where
  "update_row f community i s =
     (case map_of (workflows s) (community, i) of
        None \<Rightarrow> (s, Inl NotFound)
      | Some r \<Rightarrow> (s\<lparr>workflows := AList.update (community, i) (f r) (workflows s)\<rparr>, Inr ()))"

definition update_workflow :: "uuid \<Rightarrow> uuid \<Rightarrow> ustr \<Rightarrow> wjson \<Rightarrow> byte list \<Rightarrow> wf_db \<Rightarrow> wf_db \<times> (db_error + unit)" where
  "update_workflow community i name d h = update_row (\<lambda>r. r\<lparr>wr_name := name, wr_definition := d, wr_hash := h\<rparr>) community i"

definition update_workflow_status :: "uuid \<Rightarrow> uuid \<Rightarrow> workflow_status \<Rightarrow> wf_db \<Rightarrow> wf_db \<times> (db_error + unit)" where
  "update_workflow_status community i st = update_row (\<lambda>r. r\<lparr>wr_status := st\<rparr>) community i"

definition set_workflow_enabled :: "uuid \<Rightarrow> uuid \<Rightarrow> bool \<Rightarrow> wf_db \<Rightarrow> wf_db \<times> (db_error + unit)" where
  "set_workflow_enabled community i b = update_row (\<lambda>r. r\<lparr>wr_enabled := b\<rparr>) community i"

definition owned_in_channel :: "uuid \<Rightarrow> uuid \<Rightarrow> byte list \<Rightarrow> workflow_record \<Rightarrow> bool" where
  "owned_in_channel community channel owner r \<longleftrightarrow>
     wr_community r = community \<and> wr_channel r = Some channel \<and> wr_owner r = owner \<and> wr_enabled r"

definition disable_workflows_for_owner_in_channel ::
  "uuid \<Rightarrow> uuid \<Rightarrow> byte list \<Rightarrow> wf_db \<Rightarrow> wf_db \<times> nat" where
  "disable_workflows_for_owner_in_channel community channel owner s =
     (s\<lparr>workflows := map (\<lambda>(k, r). (k, if owned_in_channel community channel owner r then r\<lparr>wr_enabled := False\<rparr> else r)) (workflows s)\<rparr>,
      length (filter (owned_in_channel community channel owner) (map snd (workflows s))))"

text \<open>\<open>ON DELETE CASCADE\<close>: the runs, fires and approvals of a deleted workflow go with it.\<close>

definition cascade :: "uuid \<Rightarrow> uuid \<Rightarrow> wf_db \<Rightarrow> wf_db" where
  "cascade community i s =
     s\<lparr>workflows := AList.delete (community, i) (workflows s),
       runs := filter (\<lambda>(k, r). \<not> (fst k = community \<and> rr_workflow r = i)) (runs s),
       fires := filter (\<lambda>((c, w, t), r). \<not> (c = community \<and> w = i)) (fires s),
       approvals := filter (\<lambda>(k, r). \<not> (fst k = community \<and> ap_workflow r = i)) (approvals s)\<rparr>"

definition delete_workflow :: "uuid \<Rightarrow> uuid \<Rightarrow> wf_db \<Rightarrow> wf_db \<times> (db_error + unit)" where
  "delete_workflow community i s =
     (case map_of (workflows s) (community, i) of
        None \<Rightarrow> (s, Inl NotFound)
      | Some r \<Rightarrow> (cascade community i s, Inr ()))"

definition delete_workflow_for_owner :: "uuid \<Rightarrow> uuid \<Rightarrow> byte list \<Rightarrow> wf_db \<Rightarrow> wf_db \<times> (db_error + uuid option)" where
  "delete_workflow_for_owner community i owner s =
     (case map_of (workflows s) (community, i) of
        None \<Rightarrow> (s, Inl NotFound)
      | Some r \<Rightarrow> if wr_owner r = owner then (cascade community i s, Inr (wr_channel r)) else (s, Inl NotFound))"

definition find_by_owner_and_name :: "uuid \<Rightarrow> byte list \<Rightarrow> ustr \<Rightarrow> wf_db \<Rightarrow> workflow_record option" where
  "find_by_owner_and_name community owner name s =
     find (\<lambda>r. wr_community r = community \<and> wr_owner r = owner \<and> wr_name r = name) (map snd (workflows s))"

section \<open>Claims of scheduled fires\<close>

text \<open>\<open>INSERT \<dots> SELECT \<dots> FROM workflows \<dots> ON CONFLICT DO NOTHING RETURNING\<close>: whether a row was inserted.\<close>

definition claim_scheduled_workflow_fire :: "int \<Rightarrow> fire_key \<Rightarrow> wf_db \<Rightarrow> wf_db \<times> bool" where
  "claim_scheduled_workflow_fire now key s =
     (case key of (community, wf_id, scheduled_for) \<Rightarrow>
        if map_of (workflows s) (community, wf_id) = None \<or> map_of (fires s) key \<noteq> None then (s, False)
        else (s\<lparr>fires := AList.update key \<lparr>fr_claimed_at = now, fr_run = None\<rparr> (fires s)\<rparr>, True))"

definition fire_instants :: "uuid \<Rightarrow> uuid \<Rightarrow> wf_db \<Rightarrow> int list" where
  "fire_instants community wf_id s =
     map (\<lambda>((c, w, t), r). t) (filter (\<lambda>((c, w, t), r). c = community \<and> w = wf_id) (fires s))"

definition latest_scheduled_workflow_fire :: "uuid \<Rightarrow> uuid \<Rightarrow> wf_db \<Rightarrow> int option" where
  "latest_scheduled_workflow_fire community wf_id s =
     (case fire_instants community wf_id s of [] \<Rightarrow> None | t # ts \<Rightarrow> Some (fold max ts t))"

definition attach_scheduled_workflow_run :: "fire_key \<Rightarrow> uuid \<Rightarrow> wf_db \<Rightarrow> wf_db \<times> bool" where
  "attach_scheduled_workflow_run key run s =
     (case map_of (fires s) key of
        Some r \<Rightarrow>
          if fr_run r = None then (s\<lparr>fires := AList.update key (r\<lparr>fr_run := Some run\<rparr>) (fires s)\<rparr>, True) else (s, False)
      | None \<Rightarrow> (s, False))"

definition prune_scheduled_workflow_fires_before :: "(uuid \<Rightarrow> bool) \<Rightarrow> int \<Rightarrow> wf_db \<Rightarrow> wf_db \<times> nat" where
  "prune_scheduled_workflow_fires_before write_allowed older_than s =
     (let stale = (\<lambda>((c, w, t), r). fr_claimed_at r < older_than \<and> write_allowed c)
      in (s\<lparr>fires := filter (\<lambda>e. \<not> stale e) (fires s)\<rparr>, length (filter stale (fires s))))"

section \<open>Runs\<close>

definition create_workflow_run ::
  "uuid \<Rightarrow> uuid \<Rightarrow> uuid \<Rightarrow> byte list option \<Rightarrow> trigger_context option \<Rightarrow> int \<Rightarrow> wf_db \<Rightarrow> wf_db \<times> uuid" where
  "create_workflow_run fresh community wf_id trigger_event ctx now s =
     (s\<lparr>runs := AList.update (community, fresh)
          \<lparr>rr_id = fresh, rr_community = community, rr_workflow = wf_id, rr_status = RunPending, rr_trigger_event = trigger_event,
           rr_current_step = 0, rr_trace = JArray [], rr_trigger_context = ctx, rr_started_at = None, rr_completed_at = None,
           rr_error_code = None, rr_created_at = now\<rparr> (runs s)\<rparr>, fresh)"

definition get_workflow_run :: "uuid \<Rightarrow> uuid \<Rightarrow> wf_db \<Rightarrow> db_error + run_record" where
  "get_workflow_run community i s = ok_or NotFound (map_of (runs s) (community, i))"

text \<open>The order of the pages: by creation and identifier, newest first.\<close>

definition run_key :: "run_record \<Rightarrow> int \<times> uuid" where
  "run_key r = (rr_created_at r, rr_id r)"

definition workflow_runs_newest_first :: "uuid \<Rightarrow> uuid \<Rightarrow> wf_db \<Rightarrow> run_record list" where
  "workflow_runs_newest_first community wf_id s =
     rev (sort_key run_key (filter (\<lambda>r. rr_community r = community \<and> rr_workflow r = wf_id) (map snd (runs s))))"

definition list_workflow_runs_page ::
  "uuid \<Rightarrow> uuid \<Rightarrow> int option \<Rightarrow> uuid option \<Rightarrow> int \<Rightarrow> wf_db \<Rightarrow> run_record list" where
  "list_workflow_runs_page community wf_id before before_id limit s =
     take (clamp_limit limit)
       (filter (\<lambda>r. case (before, before_id) of (Some t, Some i) \<Rightarrow> run_key r < (t, i) | _ \<Rightarrow> True)
         (workflow_runs_newest_first community wf_id s))"

definition list_workflow_runs :: "uuid \<Rightarrow> uuid \<Rightarrow> int \<Rightarrow> wf_db \<Rightarrow> run_record list" where
  "list_workflow_runs community wf_id limit s = list_workflow_runs_page community wf_id None None limit s"

text \<open>The failure of a run is represented by its code; its diagnostic text is not modelled.\<close>

definition updated_run :: "run_status \<Rightarrow> nat \<Rightarrow> wjson \<Rightarrow> string option \<Rightarrow> int \<Rightarrow> run_record \<Rightarrow> run_record" where
  "updated_run st step trace failure now r =
     r\<lparr>rr_status := st, rr_current_step := step, rr_trace := trace, rr_error_code := failure,
       rr_started_at := (if run_status_as_str st = ''running'' \<and> rr_started_at r = None then Some now else rr_started_at r),
       rr_completed_at := (if run_status_as_str st \<in> set [''completed'', ''failed'', ''cancelled''] then Some now
                           else rr_completed_at r)\<rparr>"

definition update_workflow_run ::
  "uuid \<Rightarrow> uuid \<Rightarrow> run_status \<Rightarrow> nat \<Rightarrow> wjson \<Rightarrow> string option \<Rightarrow> int \<Rightarrow> wf_db \<Rightarrow> wf_db \<times> (db_error + unit)" where
  "update_workflow_run community i st step trace failure now s =
     (case map_of (runs s) (community, i) of
        None \<Rightarrow> (s, Inl NotFound)
      | Some r \<Rightarrow> (s\<lparr>runs := AList.update (community, i) (updated_run st step trace failure now r) (runs s)\<rparr>, Inr ()))"

section \<open>Approvals\<close>

text \<open>\<open>hash_approval_token\<close> is SHA-256, the argument \<open>hash\<close>.\<close>

record approval_params =
  cp_community :: uuid
  cp_token :: ustr
  cp_workflow :: uuid
  cp_run :: uuid
  cp_step_id :: ustr
  cp_step_index :: nat
  cp_approver_spec :: ustr
  cp_expires_at :: int

definition create_approval :: "(ustr \<Rightarrow> byte list) \<Rightarrow> approval_params \<Rightarrow> int \<Rightarrow> wf_db \<Rightarrow> wf_db" where
  "create_approval hash p now s =
     s\<lparr>approvals := AList.update (cp_community p, hash (cp_token p))
         \<lparr>ap_token = hash (cp_token p), ap_workflow = cp_workflow p, ap_run = cp_run p, ap_step_id = cp_step_id p,
          ap_step_index = cp_step_index p, ap_approver_spec = cp_approver_spec p, ap_status = ApPending, ap_approver = None,
          ap_note = None, ap_expires_at = cp_expires_at p, ap_created_at = now\<rparr> (approvals s)\<rparr>"

definition get_approval_by_stored_hash :: "uuid \<Rightarrow> byte list \<Rightarrow> wf_db \<Rightarrow> db_error + approval_record" where
  "get_approval_by_stored_hash community token_hash s = ok_or NotFound (map_of (approvals s) (community, token_hash))"

definition get_approval :: "(ustr \<Rightarrow> byte list) \<Rightarrow> uuid \<Rightarrow> ustr \<Rightarrow> wf_db \<Rightarrow> db_error + approval_record" where
  "get_approval hash community token s = get_approval_by_stored_hash community (hash token) s"

definition get_run_approvals :: "uuid \<Rightarrow> uuid \<Rightarrow> uuid \<Rightarrow> wf_db \<Rightarrow> approval_record list" where
  "get_run_approvals community wf_id run s =
     sort_key (\<lambda>a. (ap_step_index a, ap_created_at a))
       (map snd (filter (\<lambda>(k, a). fst k = community \<and> ap_run a = run \<and> ap_workflow a = wf_id) (approvals s)))"

definition update_approval_by_stored_hash ::
  "uuid \<Rightarrow> byte list \<Rightarrow> approval_status \<Rightarrow> byte list option \<Rightarrow> ustr option \<Rightarrow> wf_db \<Rightarrow> wf_db \<times> bool" where
  "update_approval_by_stored_hash community token_hash st approver note s =
     (case map_of (approvals s) (community, token_hash) of
        Some a \<Rightarrow>
          if ap_status a = ApPending
          then (s\<lparr>approvals := AList.update (community, token_hash)
                   (a\<lparr>ap_status := st, ap_approver := approver, ap_note := note\<rparr>) (approvals s)\<rparr>, True)
          else (s, False)
      | None \<Rightarrow> (s, False))"

definition update_approval ::
  "(ustr \<Rightarrow> byte list) \<Rightarrow> uuid \<Rightarrow> ustr \<Rightarrow> approval_status \<Rightarrow> byte list option \<Rightarrow> ustr option \<Rightarrow> wf_db \<Rightarrow> wf_db \<times> bool" where
  "update_approval hash community token st approver note s =
     update_approval_by_stored_hash community (hash token) st approver note s"

section \<open>Claims are won once\<close>

interpretation fire_claims: claim_table "claim_scheduled_workflow_fire now" "\<lambda>s key. map_of (fires s) key \<noteq> None" for now
  by unfold_locales (auto simp: claim_scheduled_workflow_fire_def split: prod.splits if_splits)

text \<open>An approval is acted on when its status is no longer pending.\<close>

definition acted_on :: "wf_db \<Rightarrow> uuid \<times> byte list \<Rightarrow> bool" where
  "acted_on s key = (case map_of (approvals s) key of Some a \<Rightarrow> ap_status a \<noteq> ApPending | None \<Rightarrow> False)"

definition decide_approval :: "(uuid \<times> byte list \<Rightarrow> bool \<times> byte list \<times> ustr option) \<Rightarrow> uuid \<times> byte list \<Rightarrow> wf_db \<Rightarrow> wf_db \<times> bool" where
  "decide_approval answer key s =
     (case answer key of (grant, approver, note) \<Rightarrow>
        update_approval_by_stored_hash (fst key) (snd key) (if grant then Granted else Denied) (Some approver) note s)"

interpretation approval_claims: claim_table "decide_approval answer" acted_on for answer
  by unfold_locales
    (auto simp: decide_approval_def acted_on_def update_approval_by_stored_hash_def split: prod.splits option.splits if_splits)

text \<open>
  However many grant and deny requests arrive, and in whatever order, each approval is acted on at most
  once; the others are told of the conflict.
\<close>

theorem approval_decided_once: "distinct (snd (run_claims (decide_approval answer) requests s))"
  by (rule approval_claims.claims_won_once)

section \<open>Pages of runs\<close>

definition runs_keyed :: "wf_db \<Rightarrow> bool" where
  "runs_keyed s \<longleftrightarrow> distinct (map fst (runs s)) \<and> list_all (\<lambda>(k, r). k = (rr_community r, rr_id r)) (runs s)"

lemma distinct_run_keys:
  "distinct (map (\<lambda>r. (rr_community r, rr_id r)) rs) \<Longrightarrow>
     distinct (map run_key (filter (\<lambda>r. rr_community r = c \<and> rr_workflow r = w) rs))"
  by (auto simp: distinct_map inj_on_def run_key_def)

lemma runs_keyed_distinct:
  assumes "runs_keyed s"
  shows "distinct (map run_key (filter (\<lambda>r. rr_community r = c \<and> rr_workflow r = w) (map snd (runs s))))"
proof (rule distinct_run_keys)
  have "map (\<lambda>r. (rr_community r, rr_id r)) (map snd (runs s)) = map fst (runs s)"
    using assms by (auto simp: runs_keyed_def list_all_iff)
  then show "distinct (map (\<lambda>r. (rr_community r, rr_id r)) (map snd (runs s)))"
    using assms unfolding runs_keyed_def by metis
qed

lemma runs_strictly_sorted:
  assumes "runs_keyed s"
  shows "sorted_wrt (\<lambda>a b. run_key b < run_key a) (workflow_runs_newest_first c w s)"
proof -
  let ?rs = "filter (\<lambda>r. rr_community r = c \<and> rr_workflow r = w) (map snd (runs s))"
  have "distinct (map run_key (sort_key run_key ?rs))"
    using runs_keyed_distinct [OF assms] by (simp add: distinct_map)
  then have "sorted_wrt (<) (map run_key (sort_key run_key ?rs))" by (simp add: strict_sorted_iff)
  then show ?thesis by (simp add: workflow_runs_newest_first_def sorted_wrt_rev sorted_wrt_map)
qed

text \<open>
  Paging through the runs of a workflow neither repeats nor skips one: the page asked for after a run is
  what follows that run in the list of all its runs, newest first, also for runs created at the same instant.
\<close>

theorem runs_page_continues:
  assumes "runs_keyed s" and "i < length (workflow_runs_newest_first community wf_id s)"
    and "r = workflow_runs_newest_first community wf_id s ! i"
  shows "list_workflow_runs_page community wf_id (Some (rr_created_at r)) (Some (rr_id r)) limit s =
         take (clamp_limit limit) (drop (Suc i) (workflow_runs_newest_first community wf_id s))"
  using filter_below_drop [OF runs_strictly_sorted [OF assms(1)] assms(2)] assms(3)
  by (simp add: list_workflow_runs_page_def run_key_def)

lemma list_all_update: "list_all P m \<Longrightarrow> P (k, v) \<Longrightarrow> list_all P (AList.update k v m)"
  by (induction m) auto

lemma updated_run_key [simp]:
  "rr_community (updated_run st step trace failure now r) = rr_community r"
  "rr_id (updated_run st step trace failure now r) = rr_id r"
  by (simp_all add: updated_run_def)

lemma runs_keyed_create:
  "runs_keyed s \<Longrightarrow> runs_keyed (fst (create_workflow_run fresh community wf_id ev ctx now s))"
  by (simp add: runs_keyed_def create_workflow_run_def distinct_update list_all_update)

lemma runs_keyed_update:
  assumes "runs_keyed s"
  shows "runs_keyed (fst (update_workflow_run community i st step trace failure now s))"
proof (cases "map_of (runs s) (community, i)")
  case (Some r)
  then have "(community, i) = (rr_community r, rr_id r)"
    using assms by (fastforce simp: runs_keyed_def list_all_iff dest: map_of_SomeD)
  with assms Some show ?thesis
    by (simp add: runs_keyed_def update_workflow_run_def distinct_update list_all_update)
qed (use assms in \<open>simp add: update_workflow_run_def\<close>)

definition empty_db :: wf_db where
  "empty_db = \<lparr>workflows = [], runs = [], fires = [], approvals = []\<rparr>"

definition two_runs_db :: wf_db where
  "two_runs_db = fst (create_workflow_run 8 1 5 None None 100 (fst (create_workflow_run 7 1 5 None None 100 empty_db)))"

lemma two_runs_sorted:
  "map rr_id (workflow_runs_newest_first 1 5 two_runs_db) = [8, 7]"
  by (simp add: workflow_runs_newest_first_def two_runs_db_def create_workflow_run_def empty_db_def run_key_def)

theorem runs_page_continues_witness:
  "list_workflow_runs_page 1 5 (Some 100) (Some 8) 10 two_runs_db = take (clamp_limit 10) (drop 1 (workflow_runs_newest_first 1 5 two_runs_db))"
proof -
  have "runs_keyed two_runs_db"
    unfolding two_runs_db_def by (intro runs_keyed_create) (simp add: runs_keyed_def empty_db_def)
  moreover have "length (workflow_runs_newest_first 1 5 two_runs_db) = 2"
    using arg_cong [OF two_runs_sorted, of length] by simp
  moreover have "rr_id (workflow_runs_newest_first 1 5 two_runs_db ! 0) = 8 \<and> rr_created_at (workflow_runs_newest_first 1 5 two_runs_db ! 0) = 100"
    by (simp add: workflow_runs_newest_first_def two_runs_db_def create_workflow_run_def empty_db_def run_key_def)
  ultimately show ?thesis
    using runs_page_continues [of two_runs_db 0 1 5 "workflow_runs_newest_first 1 5 two_runs_db ! 0" 10] by simp
qed

end
