(* ===== verification/Workflow_Engine.thy ===== *)
theory Workflow_Engine
  imports Workflow_Store Kinds Event_Filter
begin

text \<open>
  The workflow engine (\<open>buzz-workflow/src/lib.rs\<close>) over the tables of \<open>Workflow_Store\<close>: the owner's
  authority, the triggering by channel events, the scheduler, and the task that executes a run.

  The database is shared by the pods of a deployment; a pod keeps its own cache and interval clock in
  memory.  An answer of the database that may also be a failure is a field of \<open>engine_env\<close>.  Instants of
  the scheduler are nanoseconds since the epoch.
\<close>

section \<open>The owner's authority\<close>

text \<open>
  What the engine meets: the members' roles (\<open>get_member_role\<close>, \<open>None\<close> for a failed lookup), the reading of
  a stored definition, the identifier of a new run (\<open>None\<close> when the insert fails), the queries and claims
  that fail, and the entries the cache has dropped.
\<close>

record engine_env =
  role_of :: "uuid \<Rightarrow> uuid \<Rightarrow> byte list \<Rightarrow> string option option"
  def_of :: "wjson \<Rightarrow> workflow_def option"
  fresh_run :: "uuid \<Rightarrow> uuid \<Rightarrow> uuid option"
  list_ok :: bool
  anchor_ok :: "uuid \<Rightarrow> uuid \<Rightarrow> bool"
  claim_ok :: "fire_key \<Rightarrow> bool"
  attach_ok :: "fire_key \<Rightarrow> bool"
  evicted :: "uuid \<times> uuid \<Rightarrow> bool"
  archived_community :: "uuid \<Rightarrow> bool"

definition owner_authority_allows :: "string option \<Rightarrow> bool \<Rightarrow> bool" where
  "owner_authority_allows role needs_elevated =
     (case role of
        None \<Rightarrow> False
      | Some r \<Rightarrow> if needs_elevated then r = ''owner'' \<or> r = ''admin'' else True)"

definition check_owner_authority ::
  "engine_env \<Rightarrow> uuid \<Rightarrow> uuid \<Rightarrow> byte list \<Rightarrow> workflow_def \<Rightarrow> workflow_error + unit" where
  "check_owner_authority E community channel owner d =
     (case role_of E community channel owner of
        None \<Rightarrow> Inl Unauthorized
      | Some role \<Rightarrow>
          if owner_authority_allows role (requires_elevated_authority d) then Inr () else Inl Unauthorized)"

section \<open>Triggering by events\<close>

fun trigger_matches_event :: "trigger_def \<Rightarrow> nat \<Rightarrow> bool" where
  "trigger_matches_event (MessagePosted _) k \<longleftrightarrow> k = KIND_STREAM_MESSAGE"
| "trigger_matches_event (ReactionAdded _ _) k \<longleftrightarrow> k = KIND_REACTION"
| "trigger_matches_event (DiffPosted _) k \<longleftrightarrow> k = KIND_STREAM_MESSAGE_DIFF"
| "trigger_matches_event (Schedule _ _) k \<longleftrightarrow> False"
| "trigger_matches_event Webhook k \<longleftrightarrow> False"

definition event_is_reply :: "event \<Rightarrow> bool" where
  "event_is_reply e \<longleftrightarrow> reply (parse_thread_markers e) \<noteq> None"

definition reaction_target :: "nostr_lib \<Rightarrow> tag \<Rightarrow> string option" where
  "reaction_target N t =
     (if tag_kind_str N t = ''e''
      then Option.bind (tag_content N t) (\<lambda>v. if length v = 64 \<and> list_all is_ascii_hexdigit v then Some v else None)
      else None)"

definition trigger_message_id :: "nostr_lib \<Rightarrow> event \<Rightarrow> string" where
  "trigger_message_id N e =
     (if event_kind_u32 e = KIND_REACTION
      then (case find_map (reaction_target N) (rev (ev_tags e)) of Some v \<Rightarrow> v | None \<Rightarrow> id_to_hex N (ev_id e))
      else id_to_hex N (ev_id e))"

definition build_trigger_context :: "'c workflow_lib \<Rightarrow> nostr_lib \<Rightarrow> stored_event \<Rightarrow> trigger_context" where
  "build_trigger_context L N s =
     (let e = event s
      in \<lparr>tc_text = chars (ev_content e),
          tc_author = ascii (id_to_hex N (ev_pubkey e)),
          tc_channel_id = (case channel_id s of Some u \<Rightarrow> uuid_print L u | None \<Rightarrow> []),
          tc_timestamp = ascii (show_nat (ev_created_at e)),
          tc_emoji = (if event_kind_u32 e = KIND_REACTION then chars (ev_content e) else []),
          tc_message_id = ascii (trigger_message_id N e),
          tc_is_reply = event_is_reply e,
          tc_webhook_fields = []\<rparr>)"

fun trigger_filter :: "trigger_def \<Rightarrow> ustr option" where
  "trigger_filter (MessagePosted f) = f"
| "trigger_filter (ReactionAdded _ f) = f"
| "trigger_filter (DiffPosted f) = f"
| "trigger_filter (Schedule _ _) = None"
| "trigger_filter Webhook = None"

fun emoji_matches :: "trigger_def \<Rightarrow> trigger_context \<Rightarrow> bool" where
  "emoji_matches (ReactionAdded (Some expected) _) c \<longleftrightarrow> tc_emoji c = expected"
| "emoji_matches _ c \<longleftrightarrow> True"

definition should_fire_workflow :: "'c workflow_lib \<Rightarrow> workflow_def \<Rightarrow> trigger_context \<Rightarrow> bool" where
  "should_fire_workflow L d c \<longleftrightarrow>
     emoji_matches (wf_trigger d) c \<and>
     (case trigger_filter (wf_trigger d) of
        None \<Rightarrow> True
      | Some expr \<Rightarrow> (case evaluate_condition L expr c [] of Inr b \<Rightarrow> b | Inl _ \<Rightarrow> False))"

text \<open>The state of a pod; a run it has created and is about to execute.\<close>

record pod =
  pod_last_fired :: "(uuid \<times> uuid, int) amap"
  pod_cache :: "(uuid \<times> uuid, int \<times> workflow_record list) amap"

record launch =
  la_community :: uuid
  la_workflow :: uuid
  la_channel :: uuid
  la_owner :: "byte list"
  la_run :: uuid
  la_def :: workflow_def
  la_ctx :: trigger_context

definition NANOS :: int where "NANOS = 1000000000"

text \<open>The cache keeps an entry for at most ten seconds, and may drop it earlier.\<close>

definition cache_get :: "engine_env \<Rightarrow> int \<Rightarrow> uuid \<times> uuid \<Rightarrow> pod \<Rightarrow> workflow_record list option" where
  "cache_get E now key p =
     (case map_of (pod_cache p) key of
        Some (t, ws) \<Rightarrow> if now < t + 10 * NANOS \<and> \<not> evicted E key then Some ws else None
      | None \<Rightarrow> None)"

definition invalidate_channel_workflows :: "uuid \<Rightarrow> uuid \<Rightarrow> pod \<Rightarrow> pod" where
  "invalidate_channel_workflows community channel p = p\<lparr>pod_cache := AList.delete (community, channel) (pod_cache p)\<rparr>"

text \<open>The body of the loop over the workflows of the event's channel.\<close>

definition trigger_one ::
  "'c workflow_lib \<Rightarrow> engine_env \<Rightarrow> int \<Rightarrow> uuid \<Rightarrow> uuid \<Rightarrow> event \<Rightarrow> trigger_context \<Rightarrow> workflow_record \<Rightarrow> wf_db \<Rightarrow> wf_db \<times> launch list" where
  "trigger_one L E now community channel e c w db =
     (case def_of E (wr_definition w) of
        None \<Rightarrow> (db, [])
      | Some d \<Rightarrow>
          if \<not> wf_enabled d \<or> \<not> trigger_matches_event (wf_trigger d) (event_kind_u32 e) then (db, [])
          else if \<not> should_fire_workflow L d c then (db, [])
          else (case check_owner_authority E community channel (wr_owner w) d of
                  Inl _ \<Rightarrow> (db, [])
                | Inr _ \<Rightarrow>
                    (case fresh_run E community (wr_id w) of
                       None \<Rightarrow> (db, [])
                     | Some run \<Rightarrow>
                         (fst (create_workflow_run run community (wr_id w) (Some (ev_id e)) (Some c) now db),
                          [\<lparr>la_community = community, la_workflow = wr_id w, la_channel = channel, la_owner = wr_owner w,
                            la_run = run, la_def = d, la_ctx = c\<rparr>]))))"

text \<open>A loop whose body changes the state and may start runs.\<close>

fun collect_launches :: "('w \<Rightarrow> 's \<Rightarrow> 's \<times> 'l list) \<Rightarrow> 'w list \<Rightarrow> 's \<Rightarrow> 's \<times> 'l list" where
  "collect_launches f [] s = (s, [])"
| "collect_launches f (w # ws) s =
     (case f w s of (s1, l1) \<Rightarrow> case collect_launches f ws s1 of (s2, l2) \<Rightarrow> (s2, l1 @ l2))"

definition on_event ::
  "'c workflow_lib \<Rightarrow> nostr_lib \<Rightarrow> engine_env \<Rightarrow> int \<Rightarrow> uuid \<Rightarrow> stored_event \<Rightarrow> pod \<times> wf_db \<Rightarrow>
   (pod \<times> wf_db) \<times> (workflow_error + launch list)" where
  "on_event L N E now community ev s =
     (case s of (p, db) \<Rightarrow>
        (case channel_id ev of
           None \<Rightarrow> (s, Inr [])
         | Some channel \<Rightarrow>
             if is_workflow_execution_kind (event_kind_u32 (event ev)) then (s, Inr [])
             else
               (case (case cache_get E now (community, channel) p of
                        Some ws \<Rightarrow> Inr (p, ws)
                      | None \<Rightarrow>
                          if \<not> list_ok E then Inl DatabaseError
                          else let fresh = list_enabled_channel_workflows community channel db
                               in Inr (p\<lparr>pod_cache := AList.update (community, channel) (now, fresh) (pod_cache p)\<rparr>, fresh)) of
                  Inl e \<Rightarrow> (s, Inl e)
                | Inr (p1, ws) \<Rightarrow>
                    (case collect_launches (trigger_one L E now community channel (event ev) (build_trigger_context L N ev)) ws db of
                       (db1, ls) \<Rightarrow> ((p1, db1), Inr ls)))))"

section \<open>Executing a run\<close>

text \<open>
  \<open>execute_run\<close> and \<open>execute_from_step\<close>: a permit of the semaphore, the transition to running, the steps.
  \<open>ok\<close> says whether the database accepts the updates of the run's row.
\<close>

definition no_progress :: partial_progress where
  "no_progress = \<lparr>failed_index = 0, partial_trace = []\<rparr>"

definition start_run ::
  "bool \<Rightarrow> uuid \<Rightarrow> uuid \<Rightarrow> nat \<Rightarrow> wjson \<Rightarrow> int \<Rightarrow> wf_db \<Rightarrow> wf_db \<times> (db_error option)" where
  "start_run ok community run step trace now db =
     (if \<not> ok then (db, Some NotFound)
      else case update_workflow_run community run Running step trace None now db of
             (db', r) \<Rightarrow> (db', err r))"

definition execute_run ::
  "'c workflow_lib \<Rightarrow> nat \<Rightarrow> (nat \<Rightarrow> step_env) \<Rightarrow> bool \<Rightarrow> nat \<Rightarrow> int \<Rightarrow> uuid \<Rightarrow> uuid \<Rightarrow> workflow_def \<Rightarrow> trigger_context \<Rightarrow>
   wf_db \<Rightarrow> wf_db \<times> effect list \<times> run_outcome" where
  "execute_run L T SE ok permits now community run d c db =
     (if permits = 0 then (db, [], Inl (CapacityExceeded, no_progress))
      else case start_run ok community run 0 (JArray []) now db of
             (db', Some e) \<Rightarrow> (db', [], Inl (DatabaseError, no_progress))
           | (db', None) \<Rightarrow> (db', execute_steps L T SE community run d c 0 None))"

definition execute_from_step ::
  "'c workflow_lib \<Rightarrow> nat \<Rightarrow> (nat \<Rightarrow> step_env) \<Rightarrow> bool \<Rightarrow> nat \<Rightarrow> int \<Rightarrow> uuid \<Rightarrow> uuid \<Rightarrow> workflow_def \<Rightarrow> trigger_context \<Rightarrow>
   nat \<Rightarrow> (ustr, wjson) amap option \<Rightarrow> wf_db \<Rightarrow> wf_db \<times> effect list \<times> run_outcome" where
  "execute_from_step L T SE ok permits now community run d c start_index initial_outputs db =
     (if permits = 0 then (db, [], Inl (CapacityExceeded, no_progress))
      else
        let existing_trace = (case get_workflow_run community run db of
                                Inr r \<Rightarrow> if ok then rr_trace r else JArray []
                              | Inl _ \<Rightarrow> JArray [])
        in case start_run ok community run start_index existing_trace now db of
             (db', Some e) \<Rightarrow> (db', [], Inl (DatabaseError, no_progress))
           | (db', None) \<Rightarrow> (db', execute_steps L T SE community run d c start_index initial_outputs))"

text \<open>\<open>finalize_run\<close>: the one place where an outcome becomes the status of the run.  A failing update is
  only logged.\<close>

definition final_status :: "run_outcome \<Rightarrow> run_status \<times> string option" where
  "final_status r =
     (case r of
        Inr x \<Rightarrow> if approval_token x \<noteq> None then (RunFailed, Some ''approval_not_supported'') else (RunCompleted, None)
      | Inl (e, p) \<Rightarrow> (RunFailed, Some (error_code e)))"

definition finalize_run ::
  "bool \<Rightarrow> int \<Rightarrow> uuid \<Rightarrow> uuid \<Rightarrow> run_outcome \<Rightarrow> wjson list option \<Rightarrow> wf_db \<Rightarrow> wf_db" where
  "finalize_run ok now community run r existing_trace db =
     (let prefix = (case existing_trace of Some t \<Rightarrow> t | None \<Rightarrow> []);
          full_trace = prefix @ outcome_trace r;
          (st, failure) = final_status r
      in if ok then fst (update_workflow_run community run st (outcome_index r) (JArray full_trace) failure now db) else db)"

text \<open>The task spawned for a run: execution and its finalization, at a later instant.\<close>

definition run_task ::
  "'c workflow_lib \<Rightarrow> nat \<Rightarrow> (nat \<Rightarrow> step_env) \<Rightarrow> bool \<Rightarrow> bool \<Rightarrow> nat \<Rightarrow> int \<Rightarrow> int \<Rightarrow> launch \<Rightarrow> wf_db \<Rightarrow> wf_db \<times> effect list" where
  "run_task L T SE ok_start ok_final permits now done_at l db =
     (case execute_run L T SE ok_start permits now (la_community l) (la_run l) (la_def l) (la_ctx l) db of
        (db1, effs, r) \<Rightarrow> (finalize_run ok_final done_at (la_community l) (la_run l) r None db1, effs))"

section \<open>The scheduler\<close>

definition cron_fire_instant :: "'c workflow_lib \<Rightarrow> ustr \<Rightarrow> int \<Rightarrow> int \<Rightarrow> int option" where
  "cron_fire_instant L expr now window_secs =
     (let normalized = normalize_cron expr
      in if \<not> cron_valid L normalized then None
         else case cron_next_after L normalized (now - window_secs * NANOS) of
                Some t \<Rightarrow> if t \<le> now then Some t else None
              | None \<Rightarrow> None)"

definition as_i64 :: "nat \<Rightarrow> int" where
  "as_i64 n = (if n < 2 ^ 63 then int n else int n - 2 ^ 64)"

definition div_euclid :: "int \<Rightarrow> int \<Rightarrow> int" where
  "div_euclid a b = (if 0 < b then a div b else - (a div (- b)))"

text \<open>The bucket of an instant after the epoch lies between the epoch and the instant, so
  \<open>DateTime::from_timestamp\<close> accepts it.\<close>

definition interval_fire_instant :: "ustr \<Rightarrow> int \<Rightarrow> int option" where
  "interval_fire_instant dur now =
     (case parse_duration_secs dur of
        Inr interval_secs \<Rightarrow>
          if 0 < interval_secs
          then let secs = as_i64 interval_secs; bucket = div_euclid (now div NANOS) secs * secs in Some (bucket * NANOS)
          else None
      | Inl _ \<Rightarrow> None)"

definition interval_should_fire :: "ustr \<Rightarrow> int option \<Rightarrow> int \<Rightarrow> bool" where
  "interval_should_fire dur last_fired now =
     (case parse_duration_secs dur of
        Inr interval_secs \<Rightarrow>
          let l = (case last_fired of Some t \<Rightarrow> t | None \<Rightarrow> now) in int interval_secs \<le> \<bar>now - l\<bar> div NANOS
      | Inl _ \<Rightarrow> False)"

definition interval_prefilter_should_fire ::
  "uuid \<times> uuid \<Rightarrow> ustr \<Rightarrow> int option \<Rightarrow> int \<Rightarrow> (uuid \<times> uuid, int) amap \<Rightarrow> (uuid \<times> uuid, int) amap \<times> bool" where
  "interval_prefilter_should_fire key dur l now lf =
     (if interval_should_fire dur l now then (lf, True)
      else if l = None then (AList.update key now lf, False)
      else (lf, False))"

text \<open>The instant a tick fires a workflow for, and whether it comes from an interval.\<close>

definition due_instant ::
  "'c workflow_lib \<Rightarrow> engine_env \<Rightarrow> int \<Rightarrow> uuid \<times> uuid \<Rightarrow> trigger_def \<Rightarrow> wf_db \<Rightarrow> (uuid \<times> uuid, int) amap \<Rightarrow>
   (uuid \<times> uuid, int) amap \<times> (int \<times> bool) option" where
  "due_instant L E now key t db lf =
     (case t of
        Schedule (Some expr) None \<Rightarrow> (lf, map_option (\<lambda>i. (i, False)) (cron_fire_instant L expr now 60))
      | Schedule None (Some dur) \<Rightarrow>
          let l = (case map_of lf key of
                     Some t \<Rightarrow> Some t
                   | None \<Rightarrow> if anchor_ok E (fst key) (snd key) then latest_scheduled_workflow_fire (fst key) (snd key) db else None)
          in (case interval_prefilter_should_fire key dur l now lf of
                (lf', True) \<Rightarrow> (lf', map_option (\<lambda>i. (i, True)) (interval_fire_instant dur now))
              | (lf', False) \<Rightarrow> (lf', None))
      | _ \<Rightarrow> (lf, None))"

definition schedule_context :: "'c workflow_lib \<Rightarrow> uuid \<Rightarrow> int \<Rightarrow> trigger_context" where
  "schedule_context L channel now =
     \<lparr>tc_text = [], tc_author = [], tc_channel_id = uuid_print L channel,
      tc_timestamp = ascii (show_nat (nat (now div NANOS))), tc_emoji = [], tc_message_id = [], tc_is_reply = False,
      tc_webhook_fields = []\<rparr>"

definition tick_one ::
  "'c workflow_lib \<Rightarrow> engine_env \<Rightarrow> int \<Rightarrow> workflow_record \<Rightarrow> pod \<times> wf_db \<Rightarrow> (pod \<times> wf_db) \<times> (fire_key \<times> launch) list" where
  "tick_one L E now w s =
     (case s of (p, db) \<Rightarrow>
        let community = wr_community w; key = (community, wr_id w)
        in case (def_of E (wr_definition w), wr_channel w) of
             (Some d, Some channel) \<Rightarrow>
               if \<not> wf_enabled d then (s, [])
               else
                 (case due_instant L E now key (wf_trigger d) db (pod_last_fired p) of
                    (lf, None) \<Rightarrow> ((p\<lparr>pod_last_fired := lf\<rparr>, db), [])
                  | (lf, Some (scheduled_for, is_interval)) \<Rightarrow>
                      let fkey = (community, wr_id w, scheduled_for);
                          fired = (if is_interval then AList.update key now lf else lf)
                      in case check_owner_authority E community channel (wr_owner w) d of
                           Inl _ \<Rightarrow> ((p\<lparr>pod_last_fired := lf\<rparr>, db), [])
                         | Inr _ \<Rightarrow>
                             if \<not> claim_ok E fkey then ((p\<lparr>pod_last_fired := lf\<rparr>, db), [])
                             else
                               (case claim_scheduled_workflow_fire now fkey db of
                                  (db1, False) \<Rightarrow> ((p\<lparr>pod_last_fired := fired\<rparr>, db1), [])
                                | (db1, True) \<Rightarrow>
                                    (case fresh_run E community (wr_id w) of
                                       None \<Rightarrow> ((p\<lparr>pod_last_fired := lf\<rparr>, db1), [])
                                     | Some run \<Rightarrow>
                                         let c = schedule_context L channel now;
                                             db2 = fst (create_workflow_run run community (wr_id w) None (Some c) now db1);
                                             db3 = (if attach_ok E fkey then fst (attach_scheduled_workflow_run fkey run db2) else db2)
                                         in ((p\<lparr>pod_last_fired := fired\<rparr>, db3),
                                             [(fkey, \<lparr>la_community = community, la_workflow = wr_id w, la_channel = channel,
                                                      la_owner = wr_owner w, la_run = run, la_def = d, la_ctx = c\<rparr>)]))))
           | _ \<Rightarrow> (s, []))"

definition scheduler_tick ::
  "'c workflow_lib \<Rightarrow> engine_env \<Rightarrow> int \<Rightarrow> pod \<times> wf_db \<Rightarrow> (pod \<times> wf_db) \<times> (fire_key \<times> launch) list" where
  "scheduler_tick L E now s =
     (if \<not> list_ok E then (s, [])
      else
        let ws = list_all_enabled_workflows (archived_community E) (snd s);
            active_ids = map (\<lambda>w. (wr_community w, wr_id w)) ws
        in case collect_launches (tick_one L E now) ws s of
             ((p, db), ls) \<Rightarrow>
               ((p\<lparr>pod_last_fired := filter (\<lambda>(k, _). k \<in> set active_ids) (pod_last_fired p)\<rparr>, db), ls))"

text \<open>A deployment: pods that tick at their own instants and restart, over the shared database.\<close>

definition pod_new :: pod where
  "pod_new = \<lparr>pod_last_fired = [], pod_cache = []\<rparr>"

datatype sched_op = Tick nat int engine_env | Restart nat

fun sched_step ::
  "'c workflow_lib \<Rightarrow> sched_op \<Rightarrow> (nat \<Rightarrow> pod) \<times> wf_db \<Rightarrow> ((nat \<Rightarrow> pod) \<times> wf_db) \<times> (fire_key \<times> launch) list" where
  "sched_step L (Tick i now E) (pods, db) =
     (case scheduler_tick L E now (pods i, db) of ((p, db'), ls) \<Rightarrow> ((pods(i := p), db'), ls))"
| "sched_step L (Restart i) (pods, db) = ((pods(i := pod_new), db), [])"

section \<open>Each instant fires once\<close>


definition fired :: "wf_db \<Rightarrow> fire_key \<Rightarrow> bool" where
  "fired db k \<longleftrightarrow> map_of (fires db) k \<noteq> None"

lemma fired_create_run [simp]: "fired (fst (create_workflow_run run c w ev ctx now db)) = fired db"
  by (simp add: fired_def create_workflow_run_def fun_eq_iff)

lemma fired_attach [simp]: "fired (fst (attach_scheduled_workflow_run key run db)) = fired db"
  by (auto simp: fired_def attach_scheduled_workflow_run_def fun_eq_iff split: option.split)



lemma scheduler_tick_parts:
  "snd (scheduler_tick L E now s) =
     (if list_ok E then snd (collect_launches (tick_one L E now) (list_all_enabled_workflows (archived_community E) (snd s)) s) else [])"
  "snd (fst (scheduler_tick L E now s)) =
     (if list_ok E then snd (fst (collect_launches (tick_one L E now) (list_all_enabled_workflows (archived_community E) (snd s)) s))
      else snd s)"
  by (simp_all add: scheduler_tick_def Let_def case_prod_unfold)




section \<open>Every run is settled\<close>

lemma update_run_lookup:
  "map_of (runs (fst (update_workflow_run c i st step trace failure now db))) (c, i) =
     map_option (updated_run st step trace failure now) (map_of (runs db) (c, i))"
  by (simp add: update_workflow_run_def split: option.split)

lemma start_run_lookup:
  "map_of (runs (fst (start_run ok c i step trace now db))) (c, i) = None \<longleftrightarrow> map_of (runs db) (c, i) = None"
  by (auto simp: start_run_def case_prod_unfold update_run_lookup)

lemma execute_run_row:
  assumes "map_of (runs db) (c, i) = Some r" and "wf_steps d \<noteq> []"
  obtains db1 r1 effs res where "execute_run L T SE ok permits now c i d ctx db = (db1, effs, res)"
    and "map_of (runs db1) (c, i) = Some r1" and "accounts 0 (wf_steps d) [] res"
proof -
  have stopped: "accounts 0 (wf_steps d) [] (Inl (e, no_progress))" for e
    using assms(2) by (auto simp: accounts_def outcome_trace_def outcome_index_def no_progress_def finished_def)
  have ran: "accounts 0 (wf_steps d) [] (snd (execute_steps L T SE c i d ctx 0 None))"
    by (simp add: execute_steps_def exec_steps_accounts)
  obtain db1 e where s: "start_run ok c i 0 (JArray []) now db = (db1, e)" by (cases "start_run ok c i 0 (JArray []) now db")
  then obtain r1 where "map_of (runs db1) (c, i) = Some r1"
    using start_run_lookup [of ok c i 0 "JArray []" now db] assms(1) by (cases "map_of (runs db1) (c, i)") auto
  moreover obtain effs res where x: "execute_steps L T SE c i d ctx 0 None = (effs, res)"
    by (cases "execute_steps L T SE c i d ctx 0 None")
  ultimately show thesis
    using that [of db "[]"] that [of db1 "[]"] that [of db1 effs res] assms(1) stopped ran s
    by (cases "permits = 0"; cases e) (simp_all add: execute_run_def x)
qed

text \<open>
  C36. The task spawned for a run settles it: unless the last update is lost, the run ends as completed or
  failed, never as running, whatever happens on the way, no permit and no lease included.  Its trace has the
  entries of the steps run before the recorded one, and it is completed exactly when every step has its entry.
\<close>

theorem run_task_settles:
  assumes "map_of (runs db) (la_community l, la_run l) = Some r" and "wf_steps (la_def l) \<noteq> []"
  shows "\<exists>r' entries.
     map_of (runs (fst (run_task L T SE ok_start True permits now done_at l db))) (la_community l, la_run l) = Some r'
     \<and> rr_trace r' = JArray entries \<and> rr_current_step r' = length entries
     \<and> map entry_step_id entries = map (\<lambda>s. Some (step_id s)) (take (length entries) (wf_steps (la_def l)))
     \<and> rr_status r' = (if length entries = length (wf_steps (la_def l)) then RunCompleted else RunFailed)
     \<and> (rr_error_code r' = None \<longleftrightarrow> rr_status r' = RunCompleted)
     \<and> rr_completed_at r' = Some done_at"
proof -
  obtain db1 r1 effs res where e: "execute_run L T SE ok_start permits now (la_community l) (la_run l) (la_def l) (la_ctx l) db = (db1, effs, res)"
    and r1: "map_of (runs db1) (la_community l, la_run l) = Some r1" and acc: "accounts 0 (wf_steps (la_def l)) [] res"
    using execute_run_row [OF assms] .
  obtain st failure where st: "final_status res = (st, failure)" by (cases "final_status res")
  have fin: "fst (final_status res) = (if finished res then RunCompleted else RunFailed)"
    and code: "snd (final_status res) = None \<longleftrightarrow> finished res"
    by (auto simp: final_status_def finished_def split: sum.split)
  show ?thesis
    using acc r1 fin code
    by (auto simp: run_task_def e finalize_run_def st update_run_lookup updated_run_def accounts_def Let_def
        intro!: exI [of _ "outcome_trace res"])
qed

section \<open>Cron instants\<close>

text \<open>What the scheduler relies on of a cron schedule: the next instant after a time is the first later
  element of the set of its instants.\<close>

definition cron_instants :: "'c workflow_lib \<Rightarrow> ustr \<Rightarrow> int set \<Rightarrow> bool" where
  "cron_instants L expr S \<longleftrightarrow>
     cron_valid L (normalize_cron expr) \<and>
     (\<forall>t u. cron_next_after L (normalize_cron expr) t = Some u \<longleftrightarrow> u \<in> S \<and> t < u \<and> (\<forall>v \<in> S. t < v \<longrightarrow> u \<le> v))"

definition minute_apart :: "int set \<Rightarrow> bool" where
  "minute_apart S \<longleftrightarrow> (\<forall>u \<in> S. \<forall>v \<in> S. u < v \<longrightarrow> u + 60 * NANOS \<le> v)"

lemma tick_reaching:
  "successively (\<lambda>a b. b \<le> a + (g :: int)) ticks \<Longrightarrow> ticks \<noteq> [] \<Longrightarrow> hd ticks < T \<Longrightarrow> T \<le> last ticks \<Longrightarrow>
     \<exists>now \<in> set ticks. T \<le> now \<and> now - g < T"
proof (induction ticks rule: induct_list012)
  case (3 a b ts)
  show ?case
  proof (cases "T \<le> b")
    case True
    with 3 show ?thesis by (intro bexI [of _ b]) auto
  next
    case False
    with 3 show ?thesis by auto
  qed
qed auto

text \<open>
  Every instant of a cron schedule is fired: when its instants are at least a minute apart and the
  scheduler ticks at most 60 seconds apart, each instant between the first and the last tick is the one some
  tick fires for.
\<close>

theorem cron_instants_fired:
  assumes "cron_instants L expr S" and "minute_apart S" and "T \<in> S"
    and "successively (\<lambda>a b. b \<le> a + 60 * NANOS) ticks" and "ticks \<noteq> []" and "hd ticks < T" and "T \<le> last ticks"
  shows "list_ex (\<lambda>now. cron_fire_instant L expr now 60 = Some T) ticks"
proof -
  obtain now where now: "now \<in> set ticks" "T \<le> now" "now - 60 * NANOS < T"
    using tick_reaching [OF assms(4-7)] by blast
  have "T \<le> v" if "v \<in> S" "now - 60 * NANOS < v" for v
    using assms(2,3) that now(2) unfolding minute_apart_def by (meson leI less_le_trans linorder_not_le add_less_cancel_right diff_less_eq)
  then have "cron_next_after L (normalize_cron expr) (now - 60 * NANOS) = Some T"
    using assms(1,3) now(3) unfolding cron_instants_def by blast
  moreover have "cron_valid L (normalize_cron expr)" using assms(1) by (simp add: cron_instants_def)
  ultimately have "cron_fire_instant L expr now 60 = Some T" using now(2) by (simp add: cron_fire_instant_def Let_def)
  with now(1) show ?thesis by (auto simp: list_ex_iff)
qed

text \<open>A tick more than 60 seconds after an instant does not fire for it: with ticks 61 seconds apart an
  instant just after a tick is lost.\<close>

lemma cron_late_tick_misses:
  assumes "cron_instants L expr S" and "T + 60 * NANOS \<le> now"
  shows "cron_fire_instant L expr now 60 \<noteq> Some T"
proof
  assume "cron_fire_instant L expr now 60 = Some T"
  then have "cron_next_after L (normalize_cron expr) (now - 60 * NANOS) = Some T"
    by (auto simp: cron_fire_instant_def Let_def split: option.splits if_splits)
  with assms show False by (auto simp: cron_instants_def)
qed

section \<open>Intervals\<close>

text \<open>A deployment with one hourly workflow, whose definition reads back, and whose owner is a member.\<close>

definition hourly :: workflow_def where
  "hourly =
     \<lparr>wf_name = ascii ''h'', wf_description = None, wf_trigger = Schedule None (Some (ascii ''1h'')),
      wf_steps = [\<lparr>step_id = ascii ''s'', step_name = None, if_expr = None, timeout_secs = None, step_action = Delay (ascii ''5'')\<rparr>],
      wf_enabled = True\<rparr>"

definition hourly_row :: workflow_record where
  "hourly_row =
     new_workflow 1 5 (Some 9) [] (ascii ''h'') (JObject [(ascii ''trigger'', JObject [(ascii ''on'', JString (ascii ''schedule''))])]) [] 0"

definition hourly_env :: engine_env where
  "hourly_env =
     \<lparr>role_of = (\<lambda>_ _ _. Some (Some ''member'')), def_of = (\<lambda>_. Some hourly), fresh_run = (\<lambda>_ _. Some 7), list_ok = True,
      anchor_ok = (\<lambda>_ _. True), claim_ok = (\<lambda>_. True), attach_ok = (\<lambda>_. False), evicted = (\<lambda>_. False),
      archived_community = (\<lambda>_. False)\<rparr>"

definition hourly_db :: "(fire_key, fire_row) amap \<Rightarrow> (uuid \<times> uuid, run_record) amap \<Rightarrow> wf_db" where
  "hourly_db fs rs = \<lparr>workflows = [((1, 5), hourly_row)], runs = rs, fires = fs, approvals = []\<rparr>"

lemma hourly_listed: "list_all_enabled_workflows (\<lambda>_. False) (hourly_db fs rs) = [hourly_row]"
  by (simp add: list_all_enabled_workflows_def hourly_db_def hourly_row_def new_workflow_def trigger_kind_def
      json_get_def json_as_str_def LIST_MAX_LIMIT_def)

lemma parse_hour: "parse_duration_secs (ascii ''1h'') = Inr 3600"
  by (simp add: parse_duration_secs_def parse_u64_def digits_value_def is_digit_def checked_mul_def trim_def trim_end_def
      is_whitespace_def ascii_def strip_suffix_def strip_prefix_def starts_with_def)

lemma hourly_bucket: "interval_fire_instant (ascii ''1h'') now = Some (now div NANOS div 3600 * 3600 * NANOS)"
  by (simp add: interval_fire_instant_def parse_hour as_i64_def div_euclid_def)

lemma hourly_elapsed: "interval_should_fire (ascii ''1h'') (Some t) now \<longleftrightarrow> 3600 \<le> \<bar>now - t\<bar> div NANOS"
  by (simp add: interval_should_fire_def parse_hour)

text \<open>The instants of a tick are whole seconds here; a tick fires when the hour since the anchor has passed.\<close>

lemma hourly_tick:
  assumes "case map_of lf (1, 5) of Some t \<Rightarrow> t = a * NANOS | None \<Rightarrow> latest_scheduled_workflow_fire 1 5 (hourly_db fs rs) = Some (a * NANOS)"
    and "3600 \<le> s - a" and "map_of fs (1, 5, s div 3600 * 3600 * NANOS) = None"
  shows "map fst (snd (scheduler_tick L hourly_env (s * NANOS) (\<lparr>pod_last_fired = lf, pod_cache = []\<rparr>, hourly_db fs rs))) =
           [(1, 5, s div 3600 * 3600 * NANOS)]"
    and "\<exists>rs'. snd (fst (scheduler_tick L hourly_env (s * NANOS) (\<lparr>pod_last_fired = lf, pod_cache = []\<rparr>, hourly_db fs rs))) =
           hourly_db (AList.update (1, 5, s div 3600 * 3600 * NANOS) \<lparr>fr_claimed_at = s * NANOS, fr_run = None\<rparr> fs) rs'"
proof -
  have nanos: "0 < NANOS" by (simp add: NANOS_def)
  have "\<bar>s * NANOS - a * NANOS\<bar> = (s - a) * NANOS"
    using assms(2) nanos by (simp only: left_diff_distrib [symmetric] abs_mult)
  with nanos have [simp]: "s * NANOS div NANOS = s" "\<bar>s * NANOS - a * NANOS\<bar> div NANOS = s - a" by simp_all
  have due: "due_instant L hourly_env (s * NANOS) (1, 5) (Schedule None (Some (ascii ''1h''))) (hourly_db fs rs) lf =
      (lf, Some (s div 3600 * 3600 * NANOS, True))"
    using assms(1,2)
    by (auto simp: due_instant_def hourly_env_def interval_prefilter_should_fire_def hourly_elapsed hourly_bucket split: option.splits)
  have one: "tick_one L hourly_env (s * NANOS) hourly_row (\<lparr>pod_last_fired = lf, pod_cache = []\<rparr>, hourly_db fs rs) =
      ((\<lparr>pod_last_fired = AList.update (1, 5) (s * NANOS) lf, pod_cache = []\<rparr>,
        fst (create_workflow_run 7 1 5 None (Some (schedule_context L 9 (s * NANOS))) (s * NANOS)
          (hourly_db (AList.update (1, 5, s div 3600 * 3600 * NANOS) \<lparr>fr_claimed_at = s * NANOS, fr_run = None\<rparr> fs) rs))),
       [((1, 5, s div 3600 * 3600 * NANOS),
         \<lparr>la_community = 1, la_workflow = 5, la_channel = 9, la_owner = [], la_run = 7, la_def = hourly,
          la_ctx = schedule_context L 9 (s * NANOS)\<rparr>)])"
    using due assms(3)
    by (simp add: tick_one_def hourly_row_def new_workflow_def hourly_env_def hourly_def check_owner_authority_def
        owner_authority_allows_def requires_elevated_authority_def claim_scheduled_workflow_fire_def hourly_db_def Let_def)
  have ok: "list_ok hourly_env" "archived_community hourly_env = (\<lambda>_. False)" by (simp_all add: hourly_env_def)
  show "map fst (snd (scheduler_tick L hourly_env (s * NANOS) (\<lparr>pod_last_fired = lf, pod_cache = []\<rparr>, hourly_db fs rs))) =
           [(1, 5, s div 3600 * 3600 * NANOS)]"
    by (simp add: scheduler_tick_parts ok hourly_listed one)
  show "\<exists>rs'. snd (fst (scheduler_tick L hourly_env (s * NANOS) (\<lparr>pod_last_fired = lf, pod_cache = []\<rparr>, hourly_db fs rs))) =
           hourly_db (AList.update (1, 5, s div 3600 * 3600 * NANOS) \<lparr>fr_claimed_at = s * NANOS, fr_run = None\<rparr> fs) rs'"
    by (simp add: scheduler_tick_parts ok hourly_listed one) (simp add: create_workflow_run_def hourly_db_def)
qed

lemma hourly_latest:
  "latest_scheduled_workflow_fire 1 5 (hourly_db (AList.update (1, 5, 3600 * NANOS) r [((1, 5, 0), r0)]) rs) = Some (3600 * NANOS)"
  by (simp add: latest_scheduled_workflow_fire_def fire_instants_def hourly_db_def NANOS_def)

text \<open>
  A restart can fire an interval workflow again long before its interval has passed: the durable anchor
  read after a restart is the start of the bucket of the last fire, not the time of the fire.  An hourly
  workflow fired at 7140 seconds fires again 60 seconds later when the pod restarts in between.
\<close>

theorem restart_refires_interval:
  "map fst (snd (collect_launches (sched_step L)
     [Tick 0 (7140 * NANOS) hourly_env, Restart 0, Tick 0 (7200 * NANOS) hourly_env]
     (\<lambda>_. \<lparr>pod_last_fired = [((1, 5), 3540 * NANOS)], pod_cache = []\<rparr>,
      hourly_db [((1, 5, 0), \<lparr>fr_claimed_at = 3540 * NANOS, fr_run = None\<rparr>)] []))) =
   [(1, 5, 3600 * NANOS), (1, 5, 7200 * NANOS)]"
proof -
  let ?p = "\<lparr>pod_last_fired = [((1, 5), 3540 * NANOS)], pod_cache = []\<rparr>" and ?r0 = "\<lparr>fr_claimed_at = 3540 * NANOS, fr_run = None\<rparr>"
  let ?r1 = "\<lparr>fr_claimed_at = 7140 * NANOS, fr_run = None\<rparr>"
  let ?t1 = "scheduler_tick L hourly_env (7140 * NANOS) (?p, hourly_db [((1, 5, 0), ?r0)] [])"
  have first: "map fst (snd ?t1) = [(1, 5, 3600 * NANOS)]"
    using hourly_tick(1) [where lf = "[((1, 5), 3540 * NANOS)]" and a = 3540 and fs = "[((1, 5, 0), ?r0)]" and rs = "[]" and s = 7140 and L = L] by (simp add: NANOS_def)
  obtain rs where db: "snd (fst ?t1) = hourly_db (AList.update (1, 5, 3600 * NANOS) ?r1 [((1, 5, 0), ?r0)]) rs"
    using hourly_tick(2) [where lf = "[((1, 5), 3540 * NANOS)]" and a = 3540 and fs = "[((1, 5, 0), ?r0)]" and rs = "[]" and s = 7140 and L = L] by (auto simp: NANOS_def)
  have "map fst (snd (scheduler_tick L hourly_env (7200 * NANOS) (pod_new, snd (fst ?t1)))) = [(1, 5, 7200 div 3600 * 3600 * NANOS)]"
    unfolding db pod_new_def
    by (rule hourly_tick(1) [where a = 3600]) (simp only: map_of.simps option.case hourly_latest, simp, simp add: NANOS_def)
  then have second: "map fst (snd (scheduler_tick L hourly_env (7200 * NANOS) (pod_new, snd (fst ?t1)))) = [(1, 5, 7200 * NANOS)]"
    by simp
  obtain p1 db1 l1 where t1: "?t1 = ((p1, db1), l1)" by (metis prod.exhaust)
  then show ?thesis using first second
    by (simp add: case_prod_unfold t1)
qed

section \<open>Concrete instances\<close>

definition settle_launch :: launch where
  "settle_launch =
     \<lparr>la_community = 1, la_workflow = 5, la_channel = 9, la_owner = [], la_run = 7, la_def = approval_flow, la_ctx = hook_context []\<rparr>"

definition approval_run_db :: wf_db where
  "approval_run_db = fst (create_workflow_run 7 1 5 None None 0 empty_db)"

lemma approval_run_row: "\<exists>r. map_of (runs approval_run_db) (la_community settle_launch, la_run settle_launch) = Some r"
  by (simp add: approval_run_db_def create_workflow_run_def empty_db_def settle_launch_def)

theorem run_task_settles_witness:
  "\<exists>r'. map_of (runs (fst (run_task list_context_lib 300 (\<lambda>_. calm_env) True True 1 0 9 settle_launch approval_run_db))) (1, 7) = Some r'
     \<and> rr_status r' \<in> {RunCompleted, RunFailed} \<and> rr_completed_at r' = Some 9"
proof -
  obtain r where r: "map_of (runs approval_run_db) (la_community settle_launch, la_run settle_launch) = Some r"
    using approval_run_row ..
  have "wf_steps (la_def settle_launch) \<noteq> []" by (simp add: settle_launch_def approval_flow_def)
  from run_task_settles [OF r this, of list_context_lib 300 "\<lambda>_. calm_env" True 1 0 9]
  show ?thesis by (auto simp: settle_launch_def)
qed

lemma next_multiple:
  assumes "0 < (m :: int)"
  shows "m * (t div m) + m = u \<longleftrightarrow> (\<exists>k. u = m * k) \<and> t < u \<and> (\<forall>v. (\<exists>k. v = m * k) \<longrightarrow> t < v \<longrightarrow> u \<le> v)"
proof -
  have t: "t < m * (t div m) + m" "m * (t div m) \<le> t"
    using pos_mod_bound [OF assms, of t] pos_mod_sign [OF assms, of t] mult_div_mod_eq [of m t] by linarith+
  have least: "m * (t div m) + m \<le> m * k" if "t < m * k" for k
  proof -
    have "m * (t div m) < m * k" using t(2) that by linarith
    then have "t div m < k" using assms by simp
    then have "m * (t div m + 1) \<le> m * k" using assms by (intro mult_left_mono) auto
    then show ?thesis by (simp add: algebra_simps)
  qed
  show ?thesis
  proof
    assume "m * (t div m) + m = u"
    then have "u = m * (t div m + 1)" by (simp add: algebra_simps)
    with t least \<open>m * (t div m) + m = u\<close> show "(\<exists>k. u = m * k) \<and> t < u \<and> (\<forall>v. (\<exists>k. v = m * k) \<longrightarrow> t < v \<longrightarrow> u \<le> v)" by auto
  next
    assume r: "(\<exists>k. u = m * k) \<and> t < u \<and> (\<forall>v. (\<exists>k. v = m * k) \<longrightarrow> t < v \<longrightarrow> u \<le> v)"
    then have "m * (t div m) + m \<le> u" using least by blast
    moreover have "u \<le> m * (t div m + 1)" using r t(1) by (metis distrib_left mult.right_neutral)
    ultimately show "m * (t div m) + m = u" by (simp add: algebra_simps)
  qed
qed

lemma every_minute: "cron_instants list_context_lib [] {u. \<exists>k. u = 60000000000 * k}"
  using next_multiple [of 60000000000] by (simp add: cron_instants_def list_context_lib_def)

theorem cron_instants_fired_witness:
  "list_ex (\<lambda>now. cron_fire_instant list_context_lib [] now 60 = Some 60000000000) [30000000000, 75000000000]"
  by (rule cron_instants_fired [OF every_minute]) (auto simp: minute_apart_def NANOS_def)

end
