(* ===== verification/Workflow_Doors.thy ===== *)
theory Workflow_Doors
  imports Workflow_Engine
begin

text \<open>
  The relay's doors to the workflow engine: commands that save a definition, start a run by hand and decide an
  approval (\<open>buzz-relay/src/handlers/command_executor.rs\<close>), and the webhook endpoint with its secrets
  (\<open>buzz-relay/src/api/bridge.rs\<close>, \<open>webhook_secret.rs\<close>).
\<close>

section \<open>Manual and webhook triggers\<close>

text \<open>
  The faults stand for the texts of \<open>IngestError\<close> and of the HTTP errors.  \<open>json_parse\<close> reads a JSON text;
  \<open>persist\<close> is the answer of \<open>persist_command_event\<close>, \<open>Some True\<close> for a duplicate.
\<close>

datatype door_error =
  MissingReference | BadWorkflowId | WorkflowNotFound | NotWorkflowOwner | WorkflowInactive | CorruptDefinition
| NoChannelScope | NotAuthorized | PersistFailed | RunInsertFailed | CommitFailed
| NotWebhookTrigger | BadSecret | SecretMissing | InvalidBody

datatype door_result = AlreadyProcessed | Started launch

fun started :: "door_error + door_result \<Rightarrow> launch list" where
  "started (Inr (Started l)) = [l]"
| "started _ = []"

definition extract_tag :: "nostr_lib \<Rightarrow> string \<Rightarrow> event \<Rightarrow> string option" where
  "extract_tag N name e = find_map (\<lambda>t. if tag_kind_str N t = name then tag_content N t else None) (ev_tags e)"

definition body_fields :: "'c workflow_lib \<Rightarrow> wjson option \<Rightarrow> (ustr, ustr) amap" where
  "body_fields L body =
     (case body of
        Some (JObject m) \<Rightarrow>
          foldl (\<lambda>fs (k, v). AList.update k (case v of JString s \<Rightarrow> s | _ \<Rightarrow> json_print L v) fs) [] m
      | _ \<Rightarrow> [])"

definition door_context :: "'c workflow_lib \<Rightarrow> uuid option \<Rightarrow> ustr \<Rightarrow> (ustr, ustr) amap \<Rightarrow> trigger_context" where
  "door_context L channel author fs =
     \<lparr>tc_text = [], tc_author = author, tc_channel_id = (case channel of Some u \<Rightarrow> uuid_print L u | None \<Rightarrow> []),
      tc_timestamp = [], tc_emoji = [], tc_message_id = [], tc_is_reply = False, tc_webhook_fields = fs\<rparr>"

text \<open>The checks both doors make before they create a run.\<close>

definition live_workflow :: "workflow_record \<Rightarrow> bool" where
  "live_workflow w \<longleftrightarrow> wr_enabled w \<and> wr_status w = Active"

definition start_door ::
  "engine_env \<Rightarrow> int \<Rightarrow> uuid \<Rightarrow> uuid \<Rightarrow> byte list \<Rightarrow> uuid \<Rightarrow> workflow_def \<Rightarrow> byte list option \<Rightarrow> trigger_context \<Rightarrow> bool \<Rightarrow> wf_db \<Rightarrow>
   wf_db \<times> (door_error + door_result)" where
  "start_door E now community wf_id owner channel d trigger_event c commit_ok db =
     (case fresh_run E community wf_id of
        None \<Rightarrow> (db, Inl RunInsertFailed)
      | Some run \<Rightarrow>
          let db' = fst (create_workflow_run run community wf_id trigger_event (Some c) now db)
          in if \<not> commit_ok then (db', Inl CommitFailed)
             else (db', Inr (Started \<lparr>la_community = community, la_workflow = wf_id, la_channel = channel,
                                      la_owner = owner, la_run = run, la_def = d, la_ctx = c\<rparr>)))"

definition handle_workflow_trigger ::
  "'c workflow_lib \<Rightarrow> nostr_lib \<Rightarrow> engine_env \<Rightarrow> (ustr \<Rightarrow> wjson option) \<Rightarrow> bool option \<Rightarrow> bool \<Rightarrow> int \<Rightarrow> uuid \<Rightarrow> event \<Rightarrow> byte list \<Rightarrow>
   wf_db \<Rightarrow> wf_db \<times> (door_error + door_result)" where
  "handle_workflow_trigger L N E json_parse persist commit_ok now community e self db =
     try_in db (ok_or MissingReference (case extract_tag N ''d'' e of Some v \<Rightarrow> Some v | None \<Rightarrow> extract_tag N ''e'' e)) (\<lambda>ref.
       try_in db (ok_or BadWorkflowId (uuid_parse L (chars ref))) (\<lambda>wf_id.
         try_in db (map_err (\<lambda>_. WorkflowNotFound) (get_workflow community wf_id db)) (\<lambda>w.
           if wr_owner w \<noteq> self then (db, Inl NotWorkflowOwner)
           else if \<not> live_workflow w then (db, Inl WorkflowInactive)
           else try_in db (ok_or CorruptDefinition (def_of E (wr_definition w))) (\<lambda>d.
             try_in db (ok_or NoChannelScope (wr_channel w)) (\<lambda>channel.
               try_in db (map_err (\<lambda>_. NotAuthorized) (check_owner_authority E community channel (wr_owner w) d)) (\<lambda>_.
                 case persist of
                   None \<Rightarrow> (db, Inl PersistFailed)
                 | Some True \<Rightarrow> (db, Inr AlreadyProcessed)
                 | Some False \<Rightarrow>
                     let body = (if ev_content e = [] then None else json_parse (chars (ev_content e)));
                         c = door_context L (wr_channel w) (ascii (id_to_hex N self)) (body_fields L body)
                     in start_door E now community wf_id (wr_owner w) channel d (Some (ev_id e)) c commit_ok db))))))"

subsection \<open>Webhook secrets\<close>

definition extract_secret :: "wjson \<Rightarrow> ustr option" where
  "extract_secret d = Option.bind (json_get d (ascii ''_webhook_secret'')) json_as_str"

definition inject_secret :: "ustr \<Rightarrow> wjson \<Rightarrow> wjson" where
  "inject_secret secret d =
     (case d of JObject m \<Rightarrow> JObject (AList.update (ascii ''_webhook_secret'') (JString secret) m) | _ \<Rightarrow> d)"

definition strip_secret :: "wjson \<Rightarrow> wjson" where
  "strip_secret d =
     (case d of JObject m \<Rightarrow> JObject (filter (\<lambda>(k, v). k \<noteq> ascii ''_webhook_secret'') m) | _ \<Rightarrow> d)"

definition utf8_bytes :: "ustr \<Rightarrow> byte list" where
  "utf8_bytes s = map (\<lambda>c. of_nat (of_char c)) (utf8 s)"

definition xor_fold :: "byte list \<Rightarrow> byte list \<Rightarrow> byte" where
  "xor_fold xs ys = foldl (\<lambda>r (a, b). or r (xor a b)) 0 (zip xs ys)"

definition verify_secret :: "byte list \<Rightarrow> byte list \<Rightarrow> bool" where
  "verify_secret provided stored \<longleftrightarrow> length provided = length stored \<and> xor_fold provided stored = 0"

text \<open>
  \<open>workflow_webhook\<close>: \<open>bound\<close> is the community of the request's host, \<open>header_secret\<close> and \<open>query_secret\<close>
  what the caller presents, \<open>body\<close> the bytes of the request, read by \<open>json_parse\<close>.
\<close>

definition workflow_webhook ::
  "'c workflow_lib \<Rightarrow> engine_env \<Rightarrow> (byte list \<Rightarrow> wjson option) \<Rightarrow> int \<Rightarrow> ustr \<Rightarrow> uuid option \<Rightarrow> ustr option \<Rightarrow> ustr option \<Rightarrow> byte list \<Rightarrow>
   wf_db \<Rightarrow> wf_db \<times> (door_error + door_result)" where
  "workflow_webhook L E json_parse now id_str bound header_secret query_secret body db =
     try_in db (ok_or BadWorkflowId (uuid_parse L id_str)) (\<lambda>wf_id.
       try_in db (ok_or WorkflowNotFound bound) (\<lambda>community.
         try_in db (map_err (\<lambda>_. WorkflowNotFound) (get_workflow community wf_id db)) (\<lambda>w.
           try_in db (ok_or CorruptDefinition (def_of E (wr_definition w))) (\<lambda>d.
             if wf_trigger d \<noteq> Webhook then (db, Inl NotWebhookTrigger)
             else
               let provided = (case header_secret of Some s \<Rightarrow> s | None \<Rightarrow> (case query_secret of Some s \<Rightarrow> s | None \<Rightarrow> []))
               in case extract_secret (wr_definition w) of
                    None \<Rightarrow> (db, Inl SecretMissing)
                  | Some secret \<Rightarrow>
                      if \<not> verify_secret (utf8_bytes provided) (utf8_bytes secret) then (db, Inl BadSecret)
                      else try_in db (if body = [] then Inr None
                                      else case json_parse body of None \<Rightarrow> Inl InvalidBody | Some v \<Rightarrow> Inr (Some v)) (\<lambda>body_json.
                        let c = door_context L (wr_channel w) [] (body_fields L body_json)
                        in if \<not> live_workflow w then (db, Inl WorkflowNotFound)
                           else try_in db (ok_or WorkflowNotFound (wr_channel w)) (\<lambda>channel.
                             try_in db (map_err (\<lambda>_. WorkflowNotFound) (check_owner_authority E community channel (wr_owner w) d)) (\<lambda>_.
                               start_door E now community wf_id (wr_owner w) channel d None c True db)))))))"

section \<open>Approvals\<close>

datatype approval_error =
  MissingApproval | BadTokenHash | ApprovalNotFound | AlreadyActedOn approval_status | ApprovalExpired
| NotDesignated | SpecUnsupported ustr | ApprovalPersistFailed | ApprovalRace | ApprovalCommitFailed

definition is_hex_scalar :: "nat \<Rightarrow> bool" where
  "is_hex_scalar c \<longleftrightarrow> is_digit c \<or> 97 \<le> c \<and> c \<le> 102 \<or> 65 \<le> c \<and> c \<le> 70"

text \<open>\<open>to_lowercase\<close> on hexadecimal strings.\<close>

definition lower_scalar :: "nat \<Rightarrow> nat" where
  "lower_scalar c = (if 65 \<le> c \<and> c \<le> 90 then c + 32 else c)"

definition check_approver_spec :: "ustr \<Rightarrow> ustr \<Rightarrow> approval_error + unit" where
  "check_approver_spec approver_spec requester_hex =
     (let spec = trim approver_spec
      in if spec = [] \<or> spec = ascii ''any'' then Inr ()
         else if length (utf8 spec) = 64 \<and> list_all is_hex_scalar spec then
           (if map lower_scalar requester_hex = map lower_scalar spec then Inr () else Inl NotDesignated)
         else Inl (SpecUnsupported spec))"

text \<open>
  The part the grant and the deny command share.  \<open>hex_decode\<close> reads the token hash; the result is the
  approval that was acted on, \<open>None\<close> for a duplicate of the command.
\<close>

definition decide ::
  "nostr_lib \<Rightarrow> (string \<Rightarrow> byte list option) \<Rightarrow> bool option \<Rightarrow> bool \<Rightarrow> int \<Rightarrow> uuid \<Rightarrow> event \<Rightarrow> byte list \<Rightarrow> approval_status \<Rightarrow>
   wf_db \<Rightarrow> wf_db \<times> (approval_error + approval_record option)" where
  "decide N hex_decode persist commit_ok now community e self st db =
     try_in db (ok_or MissingApproval (case extract_tag N ''d'' e of Some v \<Rightarrow> Some v | None \<Rightarrow> extract_tag N ''e'' e)) (\<lambda>h.
       try_in db (ok_or BadTokenHash (hex_decode h)) (\<lambda>token_hash.
         try_in db (map_err (\<lambda>_. ApprovalNotFound) (get_approval_by_stored_hash community token_hash db)) (\<lambda>a.
           if ap_status a \<noteq> ApPending then (db, Inl (AlreadyActedOn (ap_status a)))
           else if ap_expires_at a < now then (db, Inl ApprovalExpired)
           else try_in db (check_approver_spec (ap_approver_spec a) (ascii (id_to_hex N self))) (\<lambda>_.
             case persist of
               None \<Rightarrow> (db, Inl ApprovalPersistFailed)
             | Some True \<Rightarrow> (db, Inr None)
             | Some False \<Rightarrow>
                 let note = (if ev_content e = [] then None else Some (chars (ev_content e)))
                 in case update_approval_by_stored_hash community token_hash st (Some self) note db of
                      (db', False) \<Rightarrow> (db', Inl ApprovalRace)
                    | (db', True) \<Rightarrow> if commit_ok then (db', Inr (Some a)) else (db', Inl ApprovalCommitFailed)))))"

text \<open>A granted approval resumes its run after the step that asked for it; a denied one cancels the run.\<close>

definition handle_approval_grant ::
  "nostr_lib \<Rightarrow> (string \<Rightarrow> byte list option) \<Rightarrow> bool option \<Rightarrow> bool \<Rightarrow> int \<Rightarrow> uuid \<Rightarrow> event \<Rightarrow> byte list \<Rightarrow>
   wf_db \<Rightarrow> wf_db \<times> (approval_error + (uuid \<times> uuid \<times> nat) option)" where
  "handle_approval_grant N hex_decode persist commit_ok now community e self db =
     (case decide N hex_decode persist commit_ok now community e self Granted db of
        (db', r) \<Rightarrow> (db', bind_result r (\<lambda>a. Inr (map_option (\<lambda>a. (ap_run a, ap_workflow a, ap_step_index a + 1)) a))))"

definition handle_approval_deny ::
  "nostr_lib \<Rightarrow> (string \<Rightarrow> byte list option) \<Rightarrow> bool option \<Rightarrow> bool \<Rightarrow> int \<Rightarrow> uuid \<Rightarrow> event \<Rightarrow> byte list \<Rightarrow>
   wf_db \<Rightarrow> wf_db \<times> (approval_error + uuid option)" where
  "handle_approval_deny N hex_decode persist commit_ok now community e self db =
     (case decide N hex_decode persist commit_ok now community e self Denied db of
        (db', r) \<Rightarrow> (db', bind_result r (\<lambda>a. Inr (map_option ap_run a))))"

definition cancel_denied_run :: "int \<Rightarrow> uuid \<Rightarrow> uuid \<Rightarrow> wf_db \<Rightarrow> wf_db" where
  "cancel_denied_run now community run db =
     (case get_workflow_run community run db of
        Inl _ \<Rightarrow> db
      | Inr r \<Rightarrow>
          if rr_status r \<noteq> WaitingApproval then db
          else fst (update_workflow_run community run Cancelled (rr_current_step r) (rr_trace r) (Some ''approval_denied'') now db))"

definition default_context :: trigger_context where
  "default_context =
     \<lparr>tc_text = [], tc_author = [], tc_channel_id = [], tc_timestamp = [], tc_emoji = [], tc_message_id = [],
      tc_is_reply = False, tc_webhook_fields = []\<rparr>"

definition trace_entries :: "wjson \<Rightarrow> wjson list option" where
  "trace_entries v = (case v of JArray es \<Rightarrow> Some es | _ \<Rightarrow> None)"

definition resume_workflow_after_approval ::
  "'c workflow_lib \<Rightarrow> engine_env \<Rightarrow> nat \<Rightarrow> (nat \<Rightarrow> step_env) \<Rightarrow> bool \<Rightarrow> bool \<Rightarrow> nat \<Rightarrow> int \<Rightarrow> int \<Rightarrow> uuid \<Rightarrow> uuid \<Rightarrow> uuid \<Rightarrow> nat \<Rightarrow>
   wf_db \<Rightarrow> wf_db \<times> effect list" where
  "resume_workflow_after_approval L E T SE ok_start ok_final permits now done_at community run wf_id resume_index db =
     (case get_workflow_run community run db of
        Inl _ \<Rightarrow> (db, [])
      | Inr r \<Rightarrow>
          if rr_status r \<noteq> WaitingApproval then (db, [])
          else
            (case get_workflow community wf_id db of
               Inl _ \<Rightarrow> (db, [])
             | Inr w \<Rightarrow>
                 (case def_of E (wr_definition w) of
                    None \<Rightarrow>
                      (fst (update_workflow_run community run RunFailed (rr_current_step r) (rr_trace r) (Some ''invalid_definition'') now db), [])
                  | Some d \<Rightarrow>
                      let c = (case rr_trigger_context r of Some c \<Rightarrow> c | None \<Rightarrow> default_context)
                      in (case execute_from_step L T SE ok_start permits now community run d c resume_index
                                 (Some (reconstruct_outputs (rr_trace r))) db of
                            (db1, effs, res) \<Rightarrow>
                              (finalize_run ok_final done_at community run res (trace_entries (rr_trace r)) db1, effs)))))"

section \<open>Runs need their owner's current authority\<close>

definition owner_may_run :: "engine_env \<Rightarrow> launch \<Rightarrow> bool" where
  "owner_may_run E l \<longleftrightarrow>
     (\<exists>r. role_of E (la_community l) (la_channel l) (la_owner l) = Some (Some r) \<and>
          (list_ex (\<lambda>s. is_call_webhook (step_action s)) (wf_steps (la_def l)) \<longrightarrow> r \<in> {''owner'', ''admin''}))"

lemma check_owner_authority_iff:
  "check_owner_authority E community channel owner d = Inr u \<longleftrightarrow>
     (\<exists>r. role_of E community channel owner = Some (Some r) \<and>
          (list_ex (\<lambda>s. is_call_webhook (step_action s)) (wf_steps d) \<longrightarrow> r \<in> {''owner'', ''admin''}))"
  by (auto simp: check_owner_authority_def owner_authority_allows_def requires_elevated_authority_def
      split: option.split)

definition event_launches :: "(pod \<times> wf_db) \<times> (workflow_error + launch list) \<Rightarrow> launch list" where
  "event_launches r = (case snd r of Inr ls \<Rightarrow> ls | Inl _ \<Rightarrow> [])"

lemma collect_launches_all:
  "(\<And>w s. list_all P (snd (f w s))) \<Longrightarrow> list_all P (snd (collect_launches f ws s))"
  by (induction ws arbitrary: s) (simp_all add: case_prod_unfold)

lemma trigger_one_authorized: "list_all (owner_may_run E) (snd (trigger_one L E now community channel e c w db))"
  by (auto simp: trigger_one_def owner_may_run_def check_owner_authority_iff split: option.split sum.split)

lemma trigger_loop_authorized:
  "list_all (owner_may_run E) (snd (collect_launches (trigger_one L E now community channel e c) ws db))"
  by (rule collect_launches_all) (rule trigger_one_authorized)

lemma tick_one_authorized: "list_all (\<lambda>(k, l). owner_may_run E l) (snd (tick_one L E now w s))"
  by (auto simp: tick_one_def Let_def owner_may_run_def check_owner_authority_iff
      split: prod.split option.split sum.split bool.split)

lemma start_door_authorized:
  "check_owner_authority E community channel owner d = Inr u \<Longrightarrow>
     list_all (owner_may_run E) (started (snd (start_door E now community wf_id owner channel d ev c commit_ok db)))"
  by (auto simp: start_door_def Let_def owner_may_run_def check_owner_authority_iff split: option.split)

lemma trigger_door_authorized:
  "list_all (owner_may_run E)
     (started (snd (handle_workflow_trigger L N E json_parse persist commit_ok now community e self db)))"
  by (auto simp: handle_workflow_trigger_def try_in_def Let_def map_err_def ok_or_def
      intro!: start_door_authorized split: sum.split option.split bool.split)

lemma webhook_door_authorized:
  "list_all (owner_may_run E)
     (started (snd (workflow_webhook L E json_parse now id_str bound header_secret query_secret body db)))"
  by (auto simp: workflow_webhook_def try_in_def Let_def map_err_def ok_or_def
      intro!: start_door_authorized split: sum.split option.split)

text \<open>
  C3. No door creates a run without its owner's authority at that moment.  Whatever the stored definitions,
  the cached list, the secret presented and the state of the database are, a run started by a channel event,
  by the scheduler, by hand or by a webhook belongs to an owner whose current role in the workflow's channel
  could be read, and who is an owner or admin of it when a step calls a webhook.
\<close>

theorem runs_need_authority:
  "list_all (owner_may_run E) (event_launches (on_event L N E now community ev s))
   \<and> list_all (\<lambda>(k, l). owner_may_run E l) (snd (scheduler_tick L E now s))
   \<and> list_all (owner_may_run E) (started (snd (handle_workflow_trigger L N E parse_text persist commit_ok now community e self db)))
   \<and> list_all (owner_may_run E) (started (snd (workflow_webhook L E parse_body now id_str bound header_secret query_secret body db)))"
proof (intro conjI trigger_door_authorized webhook_door_authorized)
  show "list_all (owner_may_run E) (event_launches (on_event L N E now community ev s))"
    by (auto simp: on_event_def event_launches_def case_prod_unfold Let_def trigger_loop_authorized split: option.split sum.split)
  show "list_all (\<lambda>(k, l). owner_may_run E l) (snd (scheduler_tick L E now s))"
    unfolding scheduler_tick_parts by (simp add: collect_launches_all [OF tick_one_authorized])
qed

section \<open>Webhook callers know the secret\<close>

lemma xor_zero_iff: "xor a b = (0 :: byte) \<longleftrightarrow> a = b"
  by (metis xor.assoc xor.left_neutral xor.right_neutral xor_self_eq)

lemma xor_fold_zero:
  "foldl (\<lambda>r (a, b). or r (xor a b)) r0 zs = (0 :: byte) \<longleftrightarrow> r0 = 0 \<and> list_all (\<lambda>(a, b). a = b) zs"
proof (induction zs arbitrary: r0)
  case (Cons z zs)
  obtain a b where "z = (a, b)" by (cases z)
  then show ?case by (simp add: Cons.IH or_eq_0_iff xor_zero_iff conj_ac)
qed simp

lemma verify_secret_exact: "verify_secret provided stored \<longleftrightarrow> provided = stored"
proof -
  have "list_all (\<lambda>(a, b). a = b) (zip provided stored) \<longleftrightarrow> provided = stored" if "length provided = length stored"
    using that by (induction provided stored rule: list_induct2) auto
  then show ?thesis by (auto simp: verify_secret_def xor_fold_def xor_fold_zero)
qed

text \<open>
  C38. A webhook starts a run only for a caller who presents the workflow's secret: the byte-wise comparison
  accepts exactly the stored secret, and a workflow without one is never started.
\<close>

theorem webhook_needs_secret:
  assumes "started (snd (workflow_webhook L E parse_body now id_str bound header_secret query_secret body db)) = [l]"
  shows "\<exists>w secret. map_of (workflows db) (la_community l, la_workflow l) = Some w
           \<and> bound = Some (la_community l) \<and> live_workflow w \<and> extract_secret (wr_definition w) = Some secret
           \<and> utf8_bytes (case header_secret of Some s \<Rightarrow> s | None \<Rightarrow> (case query_secret of Some s \<Rightarrow> s | None \<Rightarrow> [])) = utf8_bytes secret"
proof -
  let ?provided = "case header_secret of Some s \<Rightarrow> s | None \<Rightarrow> (case query_secret of Some s \<Rightarrow> s | None \<Rightarrow> [])"
  obtain wf_id community w d secret body_json channel u
    where "uuid_parse L id_str = Some wf_id" "bound = Some community" and w: "get_workflow community wf_id db = Inr w"
      and "extract_secret (wr_definition w) = Some secret" "verify_secret (utf8_bytes ?provided) (utf8_bytes secret)"
      and "live_workflow w"
      and l: "started (snd (start_door E now community wf_id (wr_owner w) channel d None (door_context L (wr_channel w) [] (body_fields L body_json)) True db)) = [l]"
    using assms unfolding workflow_webhook_def Let_def
    by (auto simp: try_in_def ok_or_def map_err_def split: sum.splits option.splits if_splits)
  moreover have "la_community l = community" "la_workflow l = wf_id"
    using l by (auto simp: start_door_def Let_def split: option.splits if_splits)
  ultimately show ?thesis
    using w by (intro exI [of _ w] exI [of _ secret]) (simp add: get_workflow_def ok_or_Inr verify_secret_exact)
qed

definition hook_row :: workflow_record where
  "hook_row = new_workflow 1 5 (Some 9) [] (ascii ''h'') (JObject [(ascii ''_webhook_secret'', JString (ascii ''s''))]) [] 0"

definition hook_db :: wf_db where
  "hook_db = \<lparr>workflows = [((1, 5), hook_row)], runs = [], fires = [], approvals = []\<rparr>"

definition hook_launch :: launch where
  "hook_launch =
     \<lparr>la_community = 1, la_workflow = 5, la_channel = 9, la_owner = [], la_run = 7, la_def = approval_flow,
      la_ctx = door_context list_context_lib (Some 9) [] []\<rparr>"

lemma hook_started:
  "started (snd (workflow_webhook list_context_lib (hourly_env\<lparr>def_of := \<lambda>_. Some approval_flow\<rparr>) (\<lambda>_. None) 0 (ascii ''abcde'')
     (Some 1) (Some (ascii ''s'')) None [] hook_db)) = [hook_launch]"
  by (simp add: workflow_webhook_def try_in_def Let_def hook_db_def hook_row_def new_workflow_def list_context_lib_def get_workflow_def
      hourly_env_def approval_flow_def extract_secret_def json_get_def json_as_str_def verify_secret_exact live_workflow_def
      check_owner_authority_def owner_authority_allows_def requires_elevated_authority_def start_door_def body_fields_def
      hook_launch_def ascii_def)

theorem webhook_needs_secret_witness:
  "\<exists>w secret. map_of (workflows hook_db) (1, 5) = Some w \<and> extract_secret (wr_definition w) = Some secret
     \<and> utf8_bytes (ascii ''s'') = utf8_bytes secret"
  using webhook_needs_secret [OF hook_started] by (auto simp: hook_launch_def)

section \<open>Saving a definition\<close>

datatype save_error =
  MissingChannelTag | BadChannelId | MissingWorkflowTag | BadSavedId | MembershipCheckFailed | NotMember | YamlError
| RoleCheckFailed | NeedsElevatedRole | LookupFailed | ForeignWorkflow | SavePersistFailed | ChannelNotFound | SaveCommitFailed

text \<open>
  What a save meets: membership (\<open>None\<close> for a failed lookup), the YAML reader, the JSON form of a
  definition and its hash, whether the stored row can be read, a fresh secret, the answer of \<open>persist_command_event\<close>, whether the channel exists
  in the community, and whether the transaction commits.
\<close>

record save_env =
  sv_member :: "uuid \<Rightarrow> uuid \<Rightarrow> byte list \<Rightarrow> bool option"
  sv_yaml :: "ustr \<Rightarrow> workflow_def option"
  sv_json :: "workflow_def \<Rightarrow> wjson"
  sv_hash :: "wjson \<Rightarrow> byte list"
  sv_lookup_ok :: bool
  sv_secret :: ustr
  sv_persist :: "bool option"
  sv_channel_exists :: "uuid \<Rightarrow> uuid \<Rightarrow> bool"
  sv_commit :: bool

definition existing_secret :: "workflow_record option \<Rightarrow> ustr option" where
  "existing_secret w = Option.bind w (\<lambda>w. extract_secret (wr_definition w))"

text \<open>The stored form of a definition, and the secret to show the caller when the workflow first gets one.\<close>

definition stored_definition :: "save_env \<Rightarrow> workflow_def \<Rightarrow> workflow_record option \<Rightarrow> wjson \<times> ustr option" where
  "stored_definition V d existing =
     (if wf_trigger d = Webhook
      then (let secret = (case existing_secret existing of Some s \<Rightarrow> s | None \<Rightarrow> sv_secret V)
            in (inject_secret secret (sv_json V d), if existing_secret existing = None then Some secret else None))
      else (sv_json V d, None))"

definition store_saved ::
  "save_env \<Rightarrow> int \<Rightarrow> uuid \<Rightarrow> uuid \<Rightarrow> uuid \<Rightarrow> byte list \<Rightarrow> ustr \<Rightarrow> wjson \<times> ustr option \<Rightarrow> pod \<times> wf_db \<Rightarrow>
   (pod \<times> wf_db) \<times> (save_error + (uuid \<times> ustr option) option)" where
  "store_saved V now community wf_id channel self name stored s =
     (case sv_persist V of
        None \<Rightarrow> (s, Inl SavePersistFailed)
      | Some True \<Rightarrow> (s, Inr None)
      | Some False \<Rightarrow>
          if \<not> sv_channel_exists V community channel then (s, Inl ChannelNotFound)
          else
            (case upsert_workflow community wf_id (Some channel) self name (fst stored) (sv_hash V (fst stored)) now (snd s) of
               (db', Inl _) \<Rightarrow> ((fst s, db'), Inl ForeignWorkflow)
             | (db', Inr _) \<Rightarrow>
                 ((invalidate_channel_workflows community channel (fst s), db'),
                  if sv_commit V then Inr (Some (wf_id, snd stored)) else Inl SaveCommitFailed)))"

definition check_save_role :: "engine_env \<Rightarrow> uuid \<Rightarrow> uuid \<Rightarrow> byte list \<Rightarrow> workflow_def \<Rightarrow> save_error + unit" where
  "check_save_role E community channel self d =
     (if requires_elevated_authority d
      then bind_result (ok_or RoleCheckFailed (role_of E community channel self)) (\<lambda>role.
             if role = Some ''owner'' \<or> role = Some ''admin'' then Inr () else Inl NeedsElevatedRole)
      else Inr ())"

definition handle_workflow_def ::
  "'c workflow_lib \<Rightarrow> nostr_lib \<Rightarrow> engine_env \<Rightarrow> save_env \<Rightarrow> int \<Rightarrow> uuid \<Rightarrow> event \<Rightarrow> byte list \<Rightarrow> pod \<times> wf_db \<Rightarrow>
   (pod \<times> wf_db) \<times> (save_error + (uuid \<times> ustr option) option)" where
  "handle_workflow_def L N E V now community e self s =
     try_in s (ok_or MissingChannelTag (extract_tag N ''h'' e)) (\<lambda>ch.
     try_in s (ok_or BadChannelId (uuid_parse L (chars ch))) (\<lambda>channel.
     try_in s (ok_or MissingWorkflowTag (extract_tag N ''d'' e)) (\<lambda>wid.
     try_in s (ok_or BadSavedId (uuid_parse L (chars wid))) (\<lambda>wf_id.
     try_in s (ok_or MembershipCheckFailed (sv_member V community channel self)) (\<lambda>is_member.
     if \<not> is_member then (s, Inl NotMember)
     else try_in s (map_err (\<lambda>_. YamlError) (parse_yaml L (sv_yaml V) (\<lambda>_. []) (chars (ev_content e)))) (\<lambda>parsed.
     try_in s (check_save_role E community channel self (fst parsed)) (\<lambda>_.
     let name = (case extract_tag N ''name'' e of Some n \<Rightarrow> chars n | None \<Rightarrow> wf_name (fst parsed));
         existing = map_of (workflows (snd s)) (community, wf_id)
     in if \<not> sv_lookup_ok V then (s, Inl LookupFailed)
        else if (case existing of Some w \<Rightarrow> wr_owner w \<noteq> self \<or> wr_channel w \<noteq> Some channel | None \<Rightarrow> False)
        then (s, Inl ForeignWorkflow)
        else store_saved V now community wf_id channel self name (stored_definition V (fst parsed) existing) s)))))))"

text \<open>How a row may change when \<open>self\<close> saves a definition.\<close>

definition saved_by :: "byte list \<Rightarrow> workflow_record option \<Rightarrow> workflow_record option \<Rightarrow> bool" where
  "saved_by self old new =
     (case new of
        None \<Rightarrow> False
      | Some w' \<Rightarrow>
          wr_owner w' = self \<and>
          (case old of
             None \<Rightarrow> wr_enabled w' \<and> wr_status w' = Active
           | Some w \<Rightarrow> wr_owner w = self \<and> wr_channel w' = wr_channel w \<and> wr_enabled w' = wr_enabled w \<and> wr_status w' = wr_status w))"

lemma upsert_saved_by:
  "upsert_workflow community i channel owner name d h now db = (db', r) \<Longrightarrow>
     map_of (workflows db') k = map_of (workflows db) k \<or>
     k = (community, i) \<and> saved_by owner (map_of (workflows db) k) (map_of (workflows db') k)"
  by (auto simp: upsert_workflow_def saved_by_def new_workflow_def split: option.splits if_splits)

definition save_ok :: "uuid \<Rightarrow> byte list \<Rightarrow> uuid \<times> uuid \<Rightarrow> pod \<times> wf_db \<Rightarrow> pod \<times> wf_db \<Rightarrow> bool" where
  "save_ok community self k s s' \<longleftrightarrow>
     map_of (workflows (snd s')) k = map_of (workflows (snd s)) k
     \<or> fst k = community \<and> saved_by self (map_of (workflows (snd s)) k) (map_of (workflows (snd s')) k)"

lemma save_ok_intros:
  "save_ok community self k s s"
  "(\<And>a. save_ok community self k s (fst (f a))) \<Longrightarrow> save_ok community self k s (fst (try_in s r f))"
  by (simp_all add: save_ok_def try_in_def split: sum.split)

lemma store_saved_ok: "save_ok community self k s (fst (store_saved V now community wf_id channel self name stored s))"
  by (auto simp: store_saved_def save_ok_def dest: upsert_saved_by [where k = k] split: option.split bool.split prod.split sum.split)

text \<open>
  A save touches nothing but the caller's own workflow: whatever the event says, every other row stays as
  it is, no row of another owner or community changes, an existing workflow keeps its channel, and saving does
  not enable a workflow that was disabled.
\<close>

theorem workflow_save_confined:
  "map_of (workflows (snd (fst (handle_workflow_def L N E V now community e self s)))) k = map_of (workflows (snd s)) k
   \<or> fst k = community
     \<and> saved_by self (map_of (workflows (snd s)) k) (map_of (workflows (snd (fst (handle_workflow_def L N E V now community e self s)))) k)"
proof -
  have "save_ok community self k s (fst (handle_workflow_def L N E V now community e self s))"
    unfolding handle_workflow_def_def Let_def
    by (intro save_ok_intros) (simp add: save_ok_intros store_saved_ok)
  then show ?thesis by (simp add: save_ok_def)
qed

end
