(* ===== verification/Event_Store.thy ===== *)
theory Event_Store
  imports Kinds Event_Filter "HOL-Library.List_Lexorder" "HOL-Library.Product_Lexorder"
begin

text \<open>
  The event tables of the database (\<open>buzz-db/src/event.rs\<close>, \<open>replaceable.rs\<close>, \<open>reaction.rs\<close>, \<open>thread.rs\<close> and
  the event methods of \<open>lib.rs\<close>): events, mentions, watermarks, thread metadata and reactions, with each
  statement of these files as a function on them.  A table is a list of rows: a selection filters it, an
  update maps it.  The row triggers that change the outcome of these statements (the watermark guard and
  the purges of migrations 0009 to 0019) are part of the statements; the other guards of the database, which
  can only refuse a row, are the field \<open>db_refuses\<close> of the library.  A transaction is one step; the clock of a
  statement is its argument \<open>now\<close>.
\<close>

section \<open>Rows\<close>

record event_row =
  er_community :: uuid
  er_event :: event
  er_at :: int
  er_received_at :: nat
  er_channel :: "uuid option"
  er_deleted_at :: "nat option"
  er_d_tag :: "string option"
  er_not_before :: "int option"
  er_delivered_at :: "int option"

record mention_row =
  mn_community :: uuid
  mn_pubkey_hex :: string
  mn_event_id :: "byte list"
  mn_event_created_at :: int
  mn_channel :: "uuid option"
  mn_event_kind :: nat

record thread_row =
  th_community :: uuid
  th_event_created_at :: int
  th_event_id :: "byte list"
  th_channel :: uuid
  th_parent :: "byte list option"
  th_parent_created_at :: "int option"
  th_root :: "byte list option"
  th_root_created_at :: "int option"
  th_depth :: int
  th_reply_count :: int
  th_descendant_count :: int
  th_last_reply_at :: "nat option"
  th_broadcast :: bool

type_synonym reaction_key = "uuid \<times> int \<times> byte list \<times> byte list \<times> string"

record reaction_row =
  ra_created_at :: nat
  ra_removed_at :: "nat option"
  ra_event_id :: "byte list option"

type_synonym coordinate = "uuid \<times> nat \<times> pubkey \<times> string"

record event_db =
  ed_events :: "event_row list"
  ed_mentions :: "mention_row list"
  ed_watermarks :: "(coordinate, int \<times> byte list) amap"
  ed_threads :: "thread_row list"
  ed_reactions :: "(reaction_key, reaction_row) amap"

datatype store_error =
  AuthEventRejected | EphemeralEventRejected u16 | InvalidTimestamp int | InvalidData | SqlxError

text \<open>
  What the statements use of code outside the repository: the range of \<open>chrono::DateTime::from_timestamp\<close>,
  whether the \<open>nostr\<close> crate reads an event back from its JSON, JSON and UUID parsing and printing, the
  sort key of the collation, and the
  guards of the database that can refuse a new row (time floor, roster, community fence).
\<close>

record store_lib =
  valid_timestamp :: "int \<Rightarrow> bool"
  event_parses :: "event \<Rightarrow> bool"
  json_parse :: "string \<Rightarrow> string json option"
  uuid_parse :: "string \<Rightarrow> uuid option"
  uuid_display :: "uuid \<Rightarrow> string"
  collate :: "string \<Rightarrow> byte list"
  db_refuses :: "event_row \<Rightarrow> bool"

definition empty_event_db :: event_db where
  "empty_event_db = \<lparr>ed_events = [], ed_mentions = [], ed_watermarks = [], ed_threads = [], ed_reactions = []\<rparr>"

text \<open>\<open>created_at.as_secs() as i64\<close>: the 64-bit seconds reinterpreted as signed.\<close>

definition created_secs :: "event \<Rightarrow> int" where
  "created_secs e = sint (of_nat (ev_created_at e) :: 64 word)"

definition event_timestamp :: "store_lib \<Rightarrow> event \<Rightarrow> store_error + int" where
  "event_timestamp L e =
     (if valid_timestamp L (created_secs e) then Inr (created_secs e) else Inl (InvalidTimestamp (created_secs e)))"

section \<open>Columns taken from the tags\<close>

abbreviation tag_value_at :: "string \<Rightarrow> tag \<Rightarrow> string option" where
  "tag_value_at name parts \<equiv> (if length parts \<ge> 2 \<and> parts ! 0 = name then Some (parts ! 1) else None)"

definition D_TAG_MAX_LEN :: nat where "D_TAG_MAX_LEN = 1024"

definition extract_d_tag :: "event \<Rightarrow> string option" where
  "extract_d_tag e =
     (if \<not> is_parameterized_replaceable (event_kind_u32 e) then None
      else Some (case find_map (tag_value_at ''d'') (ev_tags e) of Some d \<Rightarrow> d | None \<Rightarrow> []))"

text \<open>\<open>str::parse::<i64>\<close>: an optional sign and decimal digits, in range.\<close>

definition parse_i64 :: "string \<Rightarrow> int option" where
  "parse_i64 s =
     (let (negative, digits) =
        (case s of CHR ''-'' # ds \<Rightarrow> (True, ds) | CHR ''+'' # ds \<Rightarrow> (False, ds) | _ \<Rightarrow> (False, s));
          n = int (read_nat digits);
          v = (if negative then - n else n)
      in if digits \<noteq> [] \<and> list_all is_ascii_digit digits \<and> - (2 ^ 63) \<le> v \<and> v < 2 ^ 63 then Some v else None)"

definition extract_not_before :: "event \<Rightarrow> int option" where
  "extract_not_before e =
     (if event_kind_u32 e \<noteq> KIND_EVENT_REMINDER then None
      else find_map (\<lambda>parts. case tag_value_at ''not_before'' parts of Some v \<Rightarrow> parse_i64 v | None \<Rightarrow> None) (ev_tags e))"

text \<open>Containment of a JSON array of strings in one of the tags: every element occurs, in any order.\<close>

definition tags_contain :: "tag list \<Rightarrow> string list \<Rightarrow> bool" where
  "tags_contain ts pat \<longleftrightarrow> list_ex (\<lambda>t. list_all (\<lambda>x. x \<in> set t) pat) ts"

section \<open>Read state and mesh status\<close>

definition lower_hex :: "char \<Rightarrow> bool" where
  "lower_hex c \<longleftrightarrow> is_ascii_hexdigit c \<and> \<not> is_ascii_upper c"

definition is_read_state_slot :: "string \<Rightarrow> bool" where
  "is_read_state_slot d =
     (case strip_prefix ''read-state:'' d of Some slot \<Rightarrow> length slot = 32 \<and> list_all lower_hex slot | None \<Rightarrow> False)"

definition is_nip_rs :: "event \<Rightarrow> string \<Rightarrow> bool" where
  "is_nip_rs e d \<longleftrightarrow>
     event_kind_u32 e = KIND_READ_STATE
     \<and> length (filter (\<lambda>t. t \<noteq> [] \<and> t ! 0 = ''d'') (ev_tags e)) = 1
     \<and> list_ex (\<lambda>t. tag_value_at ''d'' t = Some d) (ev_tags e)
     \<and> is_read_state_slot d
     \<and> length (filter (\<lambda>t. t = [''t'', ''read-state'']) (ev_tags e)) = 1"

definition is_buzz_mesh_status :: "event \<Rightarrow> string \<Rightarrow> bool" where
  "is_buzz_mesh_status e d \<longleftrightarrow>
     event_kind_u32 e = KIND_BOOKMARK_SET
     \<and> starts_with d ''buzz-mesh-member-status:''
     \<and> list_ex (\<lambda>t. t = [''k'', ''buzz-mesh-status'']) (ev_tags e)"

text \<open>The predicates of the triggers, on a row.\<close>

definition nip_rs_row :: "event_row \<Rightarrow> bool" where
  "nip_rs_row r = (case er_d_tag r of Some d \<Rightarrow> is_nip_rs (er_event r) d | None \<Rightarrow> False)"

definition mesh_status_row :: "event_row \<Rightarrow> bool" where
  "mesh_status_row r \<longleftrightarrow>
     event_kind_u32 (er_event r) = KIND_BOOKMARK_SET
     \<and> (case er_d_tag r of Some d \<Rightarrow> starts_with d ''buzz-mesh-member-status:'' | None \<Rightarrow> False)
     \<and> tags_contain (ev_tags (er_event r)) [''k'', ''buzz-mesh-status'']"

definition purged_row :: "event_row \<Rightarrow> bool" where
  "purged_row r \<longleftrightarrow> nip_rs_row r \<or> mesh_status_row r"

section \<open>Selecting, inserting and deleting rows\<close>

definition row_id :: "event_row \<Rightarrow> byte list" where
  "row_id r = ev_id (er_event r)"

definition row_key :: "event_row \<Rightarrow> uuid \<times> int \<times> byte list" where
  "row_key r = (er_community r, er_at r, row_id r)"

definition live :: "event_row \<Rightarrow> bool" where
  "live r \<longleftrightarrow> er_deleted_at r = None"

text \<open>\<open>ORDER BY created_at DESC, id ASC\<close>, and its first row.\<close>

definition row_rank :: "event_row \<Rightarrow> int \<times> byte list" where
  "row_rank r = (- er_at r, row_id r)"

definition newest_first :: "event_row list \<Rightarrow> event_row list" where
  "newest_first rs = sort_key row_rank rs"

definition first_row :: "'a list \<Rightarrow> 'a option" where
  "first_row rs = (case rs of [] \<Rightarrow> None | r # _ \<Rightarrow> Some r)"

definition row_coordinate :: "event_row \<Rightarrow> string \<Rightarrow> coordinate" where
  "row_coordinate r d = (er_community r, event_kind_u32 (er_event r), ev_pubkey (er_event r), d)"

text \<open>A candidate dominates an earlier one when it is newer, or as old with a smaller id.\<close>

definition advances :: "int \<times> byte list \<Rightarrow> int \<times> byte list \<Rightarrow> bool" where
  "advances new old \<longleftrightarrow> fst old < fst new \<or> fst new = fst old \<and> snd new < snd old"

definition insert_unless_present :: "event_row \<Rightarrow> event_db \<Rightarrow> event_db \<times> bool" where
  "insert_unless_present r s =
     (if list_ex (\<lambda>x. row_key x = row_key r) (ed_events s) then (s, False)
      else (s\<lparr>ed_events := ed_events s @ [r]\<rparr>, True))"

text \<open>\<open>INSERT ... ON CONFLICT DO NOTHING\<close>, after the guards of the database and the watermark trigger.\<close>

definition insert_row :: "store_lib \<Rightarrow> event_row \<Rightarrow> event_db \<Rightarrow> store_error + (event_db \<times> bool)" where
  "insert_row L r s =
     (if db_refuses L r then Inl SqlxError
      else if nip_rs_row r then
        (let c = row_coordinate r (the (er_d_tag r)); mark = (er_at r, row_id r);
             advanced = (case map_of (ed_watermarks s) c of None \<Rightarrow> True | Some w \<Rightarrow> advances mark w)
         in if advanced then Inr (insert_unless_present r (s\<lparr>ed_watermarks := AList.update c mark (ed_watermarks s)\<rparr>))
            else if map_of (ed_watermarks s) c = Some mark then Inr (s, False)
            else Inl SqlxError)
      else Inr (insert_unless_present r s))"

definition delete_mentions :: "(uuid \<times> byte list \<Rightarrow> bool) \<Rightarrow> event_db \<Rightarrow> event_db" where
  "delete_mentions P s = s\<lparr>ed_mentions := filter (\<lambda>m. \<not> P (mn_community m, mn_event_id m)) (ed_mentions s)\<rparr>"

text \<open>\<open>UPDATE events SET deleted_at = NOW() WHERE ... AND deleted_at IS NULL\<close>, with the purge triggers.\<close>

definition soft_delete_where :: "nat \<Rightarrow> (event_row \<Rightarrow> bool) \<Rightarrow> event_db \<Rightarrow> event_db \<times> bool" where
  "soft_delete_where now P s =
     (let hit = (\<lambda>r. P r \<and> live r);
          purged = filter (\<lambda>r. hit r \<and> purged_row r) (ed_events s);
          kept = filter (\<lambda>r. \<not> (hit r \<and> purged_row r)) (ed_events s)
      in (delete_mentions (\<lambda>k. list_ex (\<lambda>r. (er_community r, row_id r) = k) purged)
            (s\<lparr>ed_events := map (\<lambda>r. if hit r then r\<lparr>er_deleted_at := Some now\<rparr> else r) kept\<rparr>),
          list_ex hit (ed_events s)))"

definition hard_delete_where :: "(event_row \<Rightarrow> bool) \<Rightarrow> event_db \<Rightarrow> event_db" where
  "hard_delete_where P s = s\<lparr>ed_events := filter (\<lambda>r. \<not> (P r \<and> live r)) (ed_events s)\<rparr>"

section \<open>Mentions\<close>

definition mention_pubkeys :: "event \<Rightarrow> string list" where
  "mention_pubkeys e =
     map to_ascii_lowercase
       (filter (\<lambda>pk. length pk = 64 \<and> list_all is_ascii_hexdigit pk)
         (List.map_filter (tag_value_at ''p'') (ev_tags e)))"

text \<open>
  One row of the insertion, with the trigger that requires a live event for read state; the chunks of the
  statement only bound its size.
\<close>

definition insert_mention :: "mention_row \<Rightarrow> event_db \<Rightarrow> event_db" where
  "insert_mention m s =
     (if mn_event_kind m = 30078
         \<and> \<not> list_ex (\<lambda>r. row_key r = (mn_community m, mn_event_created_at m, mn_event_id m) \<and> live r) (ed_events s)
      then s
      else if list_ex (\<lambda>x. (mn_community x, mn_pubkey_hex x, mn_event_id x) = (mn_community m, mn_pubkey_hex m, mn_event_id m))
             (ed_mentions s)
      then s
      else s\<lparr>ed_mentions := ed_mentions s @ [m]\<rparr>)"

definition insert_mentions :: "uuid \<Rightarrow> event \<Rightarrow> int \<Rightarrow> uuid option \<Rightarrow> event_db \<Rightarrow> event_db" where
  "insert_mentions c e ts ch s =
     fold (\<lambda>pk. insert_mention \<lparr>mn_community = c, mn_pubkey_hex = pk, mn_event_id = ev_id e, mn_event_created_at = ts,
                                mn_channel = ch, mn_event_kind = event_kind_u32 e\<rparr>) (mention_pubkeys e) s"

section \<open>Inserting events and thread metadata\<close>

definition check_storable :: "event \<Rightarrow> store_error + unit" where
  "check_storable e =
     (if event_kind_u32 e = KIND_AUTH then Inl AuthEventRejected
      else if is_ephemeral (event_kind_u32 e) then Inl (EphemeralEventRejected (ev_kind e))
      else Inr ())"

definition event_row_of :: "nat \<Rightarrow> uuid \<Rightarrow> event \<Rightarrow> int \<Rightarrow> uuid option \<Rightarrow> string option \<Rightarrow> int option \<Rightarrow> event_row" where
  "event_row_of now c e ts ch d nb =
     \<lparr>er_community = c, er_event = e, er_at = ts, er_received_at = now, er_channel = ch, er_deleted_at = None,
      er_d_tag = d, er_not_before = nb, er_delivered_at = None\<rparr>"

definition insert_event ::
  "store_lib \<Rightarrow> nat \<Rightarrow> uuid \<Rightarrow> event \<Rightarrow> uuid option \<Rightarrow> event_db \<Rightarrow> event_db \<times> (store_error + stored_event \<times> bool)" where
  "insert_event L now c e ch s =
     try_in s (check_storable e) (\<lambda>_.
     try_in s (event_timestamp L e) (\<lambda>ts.
     try_in s (insert_row L (event_row_of now c e ts ch (extract_d_tag e) (extract_not_before e)) s) (\<lambda>(s1, inserted).
     (s1, Inr (with_received_at e now ch True, inserted)))))"

record thread_params =
  tp_event_id :: "byte list"
  tp_event_created_at :: int
  tp_channel :: uuid
  tp_parent :: "byte list option"
  tp_parent_created_at :: "int option"
  tp_root :: "byte list option"
  tp_root_created_at :: "int option"
  tp_depth :: int
  tp_broadcast :: bool

definition thread_row_of :: "uuid \<Rightarrow> thread_params \<Rightarrow> thread_row" where
  "thread_row_of c m =
     \<lparr>th_community = c, th_event_created_at = tp_event_created_at m, th_event_id = tp_event_id m, th_channel = tp_channel m,
      th_parent = tp_parent m, th_parent_created_at = tp_parent_created_at m, th_root = tp_root m,
      th_root_created_at = tp_root_created_at m, th_depth = tp_depth m, th_reply_count = 0, th_descendant_count = 0,
      th_last_reply_at = None, th_broadcast = tp_broadcast m\<rparr>"

text \<open>The row of a message that is not a reply, created when its first reply arrives.\<close>

definition stub_params :: "byte list \<Rightarrow> int \<Rightarrow> uuid \<Rightarrow> thread_params" where
  "stub_params i ts ch =
     \<lparr>tp_event_id = i, tp_event_created_at = ts, tp_channel = ch, tp_parent = None, tp_parent_created_at = None,
      tp_root = None, tp_root_created_at = None, tp_depth = 0, tp_broadcast = False\<rparr>"

definition thread_key :: "thread_row \<Rightarrow> uuid \<times> int \<times> byte list" where
  "thread_key t = (th_community t, th_event_created_at t, th_event_id t)"

definition insert_thread_row :: "thread_row \<Rightarrow> event_db \<Rightarrow> event_db \<times> bool" where
  "insert_thread_row t s =
     (if list_ex (\<lambda>x. thread_key x = thread_key t) (ed_threads s) then (s, False)
      else (s\<lparr>ed_threads := ed_threads s @ [t]\<rparr>, True))"

definition update_threads :: "uuid \<Rightarrow> byte list \<Rightarrow> (thread_row \<Rightarrow> thread_row) \<Rightarrow> event_db \<Rightarrow> event_db" where
  "update_threads c i f s =
     s\<lparr>ed_threads := map (\<lambda>t. if th_community t = c \<and> th_event_id t = i then f t else t) (ed_threads s)\<rparr>"

definition increment_reply_count :: "nat \<Rightarrow> uuid \<Rightarrow> byte list \<Rightarrow> byte list option \<Rightarrow> event_db \<Rightarrow> event_db" where
  "increment_reply_count now c parent root_id s =
     (let s1 = update_threads c parent (\<lambda>t. t\<lparr>th_reply_count := th_reply_count t + 1, th_last_reply_at := Some now\<rparr>) s
      in case root_id of None \<Rightarrow> s1
         | Some r \<Rightarrow> update_threads c r (\<lambda>t. t\<lparr>th_descendant_count := th_descendant_count t + 1\<rparr>) s1)"

definition decrement_reply_count :: "uuid \<Rightarrow> byte list \<Rightarrow> byte list option \<Rightarrow> event_db \<Rightarrow> event_db" where
  "decrement_reply_count c parent root_id s =
     (let s1 = update_threads c parent (\<lambda>t. t\<lparr>th_reply_count := max (th_reply_count t - 1) 0\<rparr>) s
      in case root_id of None \<Rightarrow> s1
         | Some r \<Rightarrow> update_threads c r (\<lambda>t. t\<lparr>th_descendant_count := max (th_descendant_count t - 1) 0\<rparr>) s1)"

definition insert_thread_metadata :: "nat \<Rightarrow> uuid \<Rightarrow> thread_params \<Rightarrow> event_db \<Rightarrow> event_db" where
  "insert_thread_metadata now c m s =
     (case insert_thread_row (thread_row_of c m) s of
        (s1, False) \<Rightarrow> s1
      | (s1, True) \<Rightarrow>
          (case tp_parent m of
             None \<Rightarrow> s1
           | Some pid \<Rightarrow>
               (let stub = (\<lambda>i ts. fst \<circ> insert_thread_row (thread_row_of c
                              (stub_params i (case ts of Some t \<Rightarrow> t | None \<Rightarrow> tp_event_created_at m) (tp_channel m))));
                    s2 = stub pid (tp_parent_created_at m) s1;
                    s3 = (case tp_root m of
                            Some rid \<Rightarrow> if rid \<noteq> pid then stub rid (tp_root_created_at m) s2 else s2
                          | None \<Rightarrow> s2)
                in increment_reply_count now c pid (tp_root m) s3)))"

definition insert_event_with_thread_metadata_tx ::
  "store_lib \<Rightarrow> nat \<Rightarrow> uuid \<Rightarrow> event \<Rightarrow> uuid option \<Rightarrow> thread_params option \<Rightarrow> event_db
     \<Rightarrow> event_db \<times> (store_error + stored_event \<times> bool)" where
  "insert_event_with_thread_metadata_tx L now c e ch meta s =
     try_in s (check_storable e) (\<lambda>_.
     try_in s (event_timestamp L e) (\<lambda>ts.
     try_in s (insert_row L (event_row_of now c e ts ch (extract_d_tag e) (extract_not_before e)) s) (\<lambda>(s1, inserted).
     ((if inserted then (case meta of Some m \<Rightarrow> insert_thread_metadata now c m s1 | None \<Rightarrow> s1) else s1),
      Inr (with_received_at e now ch True, inserted)))))"

text \<open>\<open>Db::insert_event_with_thread_metadata\<close>: the mentions are indexed after the transaction.\<close>

definition insert_event_with_thread_metadata ::
  "store_lib \<Rightarrow> nat \<Rightarrow> uuid \<Rightarrow> event \<Rightarrow> uuid option \<Rightarrow> thread_params option \<Rightarrow> event_db
     \<Rightarrow> event_db \<times> (store_error + stored_event \<times> bool)" where
  "insert_event_with_thread_metadata L now c e ch meta s =
     (case insert_event_with_thread_metadata_tx L now c e ch meta s of
        (s1, Inr (stored, True)) \<Rightarrow> (insert_mentions c e (created_secs e) ch s1, Inr (stored, True))
      | r \<Rightarrow> r)"

section \<open>Reactions\<close>

definition add_reaction :: "nat \<Rightarrow> reaction_key \<Rightarrow> byte list option \<Rightarrow> event_db \<Rightarrow> store_error + (event_db \<times> bool)" where
  "add_reaction now key source s =
     (let put = (\<lambda>src.
        if src \<noteq> None \<and> list_ex (\<lambda>(k, r). k \<noteq> key \<and> fst k = fst key \<and> ra_event_id r = src) (ed_reactions s)
        then Inl SqlxError
        else Inr (s\<lparr>ed_reactions := AList.update key \<lparr>ra_created_at = now, ra_removed_at = None, ra_event_id = src\<rparr>
                    (ed_reactions s)\<rparr>, True))
      in case map_of (ed_reactions s) key of
           None \<Rightarrow> put source
         | Some r \<Rightarrow> if ra_removed_at r = None then Inr (s, False)
                     else put (case source of Some i \<Rightarrow> Some i | None \<Rightarrow> ra_event_id r))"

definition remove_reaction :: "nat \<Rightarrow> reaction_key \<Rightarrow> event_db \<Rightarrow> event_db \<times> bool" where
  "remove_reaction now key s =
     (case map_of (ed_reactions s) key of
        Some r \<Rightarrow> if ra_removed_at r = None
                  then (s\<lparr>ed_reactions := AList.update key (r\<lparr>ra_removed_at := Some now\<rparr>) (ed_reactions s)\<rparr>, True)
                  else (s, False)
      | None \<Rightarrow> (s, False))"

definition remove_reaction_by_source_event_id :: "nat \<Rightarrow> uuid \<Rightarrow> byte list \<Rightarrow> event_db \<Rightarrow> event_db \<times> bool" where
  "remove_reaction_by_source_event_id now c i s =
     (let hit = (\<lambda>(k, r). fst k = c \<and> ra_event_id r = Some i \<and> ra_removed_at r = None)
      in (s\<lparr>ed_reactions := map (\<lambda>kr. if hit kr then (fst kr, (snd kr)\<lparr>ra_removed_at := Some now\<rparr>) else kr) (ed_reactions s)\<rparr>,
          list_ex hit (ed_reactions s)))"

definition get_active_reaction_record :: "reaction_key \<Rightarrow> event_db \<Rightarrow> byte list option option" where
  "get_active_reaction_record key s =
     (case map_of (ed_reactions s) key of
        Some r \<Rightarrow> if ra_removed_at r = None then Some (ra_event_id r) else None
      | None \<Rightarrow> None)"

definition set_reaction_event_id :: "reaction_key \<Rightarrow> byte list \<Rightarrow> event_db \<Rightarrow> event_db \<times> bool" where
  "set_reaction_event_id key i s =
     (case map_of (ed_reactions s) key of
        Some r \<Rightarrow> if ra_removed_at r = None
                  then (s\<lparr>ed_reactions := AList.update key (r\<lparr>ra_event_id := Some i\<rparr>) (ed_reactions s)\<rparr>, True)
                  else (s, False)
      | None \<Rightarrow> (s, False))"

text \<open>The active reactions of an event: emoji, reaction time, user and source event.\<close>

definition active_reactions :: "uuid \<Rightarrow> byte list \<Rightarrow> int \<Rightarrow> event_db \<Rightarrow> (string \<times> nat \<times> byte list \<times> byte list option) list" where
  "active_reactions c i ts s =
     List.map_filter (\<lambda>((rc, rts, ri, pk, emoji), r).
       if rc = c \<and> ri = i \<and> rts = ts \<and> ra_removed_at r = None then Some (emoji, ra_created_at r, pk, ra_event_id r) else None)
       (ed_reactions s)"

record reaction_group =
  rg_emoji :: string
  rg_count :: nat
  rg_users :: "(byte list \<times> byte list option) list"

fun group_reactions ::
  "(string \<times> nat \<times> byte list \<times> byte list option) list \<Rightarrow> string option \<Rightarrow> (byte list \<times> byte list option) list
     \<Rightarrow> reaction_group list \<Rightarrow> reaction_group list" where
  "group_reactions [] current users groups =
     (case current of
        Some emoji \<Rightarrow> groups @ [\<lparr>rg_emoji = emoji, rg_count = length users, rg_users = users\<rparr>]
      | None \<Rightarrow> groups)"
| "group_reactions ((emoji, _, user, source) # rows) current users groups =
     (if current \<noteq> Some emoji then
        (case current of
           Some prev \<Rightarrow>
             group_reactions rows (Some emoji) [(user, source)]
               (groups @ [\<lparr>rg_emoji = prev, rg_count = length users, rg_users = users\<rparr>])
         | None \<Rightarrow> group_reactions rows (Some emoji) (users @ [(user, source)]) groups)
      else group_reactions rows current (users @ [(user, source)]) groups)"

definition get_reactions :: "store_lib \<Rightarrow> uuid \<Rightarrow> byte list \<Rightarrow> int \<Rightarrow> nat \<Rightarrow> event_db \<Rightarrow> reaction_group list" where
  "get_reactions L c i ts limit s =
     (let rows = active_reactions c i ts s;
          emojis = take limit (sort_key (collate L) (remdups (map fst rows)))
      in group_reactions (sort_key (\<lambda>(emoji, at_time, _). (collate L emoji, at_time)) (filter (\<lambda>r. fst r \<in> set emojis) rows)) None [] [])"

definition get_reactions_bulk :: "store_lib \<Rightarrow> uuid \<Rightarrow> (byte list \<times> int) list \<Rightarrow> event_db \<Rightarrow> ((byte list \<times> int) \<times> (string \<times> nat) list) list" where
  "get_reactions_bulk L c ids s =
     List.map_filter (\<lambda>(i, ts).
       let rows = active_reactions c i ts s
       in if rows = [] then None
          else Some ((i, ts), map (\<lambda>emoji. (emoji, length (filter (\<lambda>r. fst r = emoji) rows))) (sort_key (collate L) (remdups (map fst rows)))))
       ids"

datatype reaction_outcome = TargetMissing | DuplicateReaction | Inserted stored_event bool

definition insert_reaction_event_tx ::
  "store_lib \<Rightarrow> nat \<Rightarrow> uuid \<Rightarrow> event \<Rightarrow> uuid option \<Rightarrow> thread_params option \<Rightarrow> byte list \<Rightarrow> byte list \<Rightarrow> string \<Rightarrow> event_db
     \<Rightarrow> event_db \<times> (store_error + reaction_outcome)" where
  "insert_reaction_event_tx L now c e ch meta target actor emoji s =
     (case first_row (newest_first (filter (\<lambda>r. er_community r = c \<and> row_id r = target \<and> live r) (ed_events s))) of
        None \<Rightarrow> (s, Inr TargetMissing)
      | Some t \<Rightarrow>
          (case add_reaction now (c, er_at t, target, actor, emoji) (Some (ev_id e)) s of
             Inl x \<Rightarrow> (s, Inl x)
           | Inr (s1, False) \<Rightarrow> (s, Inr DuplicateReaction)
           | Inr (s1, True) \<Rightarrow>
               (case insert_event_with_thread_metadata_tx L now c e ch meta s1 of
                  (_, Inl x) \<Rightarrow> (s, Inl x)
                | (s2, Inr (stored, inserted)) \<Rightarrow> (s2, Inr (Inserted stored inserted)))))"

definition insert_reaction_event_with_thread_metadata ::
  "store_lib \<Rightarrow> nat \<Rightarrow> uuid \<Rightarrow> event \<Rightarrow> uuid option \<Rightarrow> thread_params option \<Rightarrow> byte list \<Rightarrow> byte list \<Rightarrow> string \<Rightarrow> event_db
     \<Rightarrow> event_db \<times> (store_error + reaction_outcome)" where
  "insert_reaction_event_with_thread_metadata L now c e ch meta target actor emoji s =
     (case insert_reaction_event_tx L now c e ch meta target actor emoji s of
        (s1, Inr (Inserted stored True)) \<Rightarrow> (insert_mentions c e (created_secs e) ch s1, Inr (Inserted stored True))
      | r \<Rightarrow> r)"

section \<open>Replaceable events\<close>

text \<open>The key of the advisory lock, a 64-bit FNV-1a hash; a collision only adds waiting.\<close>

definition fnv_step :: "byte \<Rightarrow> 64 word \<Rightarrow> 64 word" where
  "fnv_step b hash = (xor hash (ucast b)) * 0x100000001b3"

definition le_bytes32 :: "32 word \<Rightarrow> byte list" where
  "le_bytes32 w = map (\<lambda>k. ucast (drop_bit (8 * k) w)) [0, 1, 2, 3]"

definition be_bytes128 :: "uuid \<Rightarrow> byte list" where
  "be_bytes128 u = map (\<lambda>k. ucast (drop_bit (8 * (15 - k)) u)) [0..<16]"

definition event_replacement_lock_key :: "uuid \<Rightarrow> 32 word \<Rightarrow> byte list \<Rightarrow> byte list option \<Rightarrow> 64 word" where
  "event_replacement_lock_key c kind pk coord =
     fold fnv_step (be_bytes128 c @ le_bytes32 kind @ pk @ (case coord of Some bs \<Rightarrow> bs | None \<Rightarrow> [])) 0xcbf29ce484222325"

definition at_address :: "uuid \<Rightarrow> nat \<Rightarrow> pubkey \<Rightarrow> uuid option \<Rightarrow> event_row \<Rightarrow> bool" where
  "at_address c kind pk ch r \<longleftrightarrow>
     er_community r = c \<and> event_kind_u32 (er_event r) = kind \<and> ev_pubkey (er_event r) = pk \<and> er_channel r = ch"

definition at_coordinate :: "uuid \<Rightarrow> nat \<Rightarrow> pubkey \<Rightarrow> string \<Rightarrow> event_row \<Rightarrow> bool" where
  "at_coordinate c kind pk d r \<longleftrightarrow>
     er_community r = c \<and> event_kind_u32 (er_event r) = kind \<and> ev_pubkey (er_event r) = pk \<and> er_d_tag r = Some d"

definition head_row :: "(event_row \<Rightarrow> bool) \<Rightarrow> event_db \<Rightarrow> event_row option" where
  "head_row P s = first_row (newest_first (filter (\<lambda>r. P r \<and> live r) (ed_events s)))"

definition row_mark :: "event_row \<Rightarrow> int \<times> byte list" where
  "row_mark r = (er_at r, row_id r)"

definition replace_addressable_event ::
  "store_lib \<Rightarrow> nat \<Rightarrow> uuid \<Rightarrow> event \<Rightarrow> uuid option \<Rightarrow> event_db \<Rightarrow> event_db \<times> (store_error + stored_event \<times> bool)" where
  "replace_addressable_event L now c e ch s =
     try_in s (event_timestamp L e) (\<lambda>ts.
     let here = at_address c (event_kind_u32 e) (ev_pubkey e) ch;
         refused = (s, Inr (with_received_at e now ch False, False))
     in if (case head_row here s of Some r \<Rightarrow> \<not> advances (ts, ev_id e) (row_mark r) | None \<Rightarrow> False) then refused
        else (case insert_row L (event_row_of now c e ts ch (extract_d_tag e) None) (fst (soft_delete_where now here s)) of
                Inl x \<Rightarrow> (s, Inl x)
              | Inr (s1, False) \<Rightarrow> refused
              | Inr (s1, True) \<Rightarrow> (insert_mentions c e ts ch s1, Inr (with_received_at e now ch True, True))))"

datatype replace_status = RInserted | RDuplicate | RSuperseded | RRevisionMissing | RRevisionMismatch | RReplayOnlyMiss

datatype replace_precondition = Unconditional | ExpectedRevision "byte list" | ExactReplayOnly

definition revision_status :: "replace_precondition \<Rightarrow> event_row option \<Rightarrow> replace_status option" where
  "revision_status pre existing =
     (case pre of
        ExpectedRevision expected \<Rightarrow>
          (case existing of
             None \<Rightarrow> Some RRevisionMissing
           | Some r \<Rightarrow> if row_id r \<noteq> expected then Some RRevisionMismatch else None)
      | ExactReplayOnly \<Rightarrow> Some RReplayOnlyMiss
      | Unconditional \<Rightarrow> None)"

text \<open>The part of the savepoint that removes the superseded head.\<close>

definition supersede :: "nat \<Rightarrow> bool \<Rightarrow> (event_row \<Rightarrow> bool) \<Rightarrow> uuid \<Rightarrow> event_row option \<Rightarrow> event_db \<Rightarrow> event_db" where
  "supersede now hard here c existing s =
     (case existing of
        None \<Rightarrow> s
      | Some r \<Rightarrow>
          if hard then delete_mentions (\<lambda>k. k = (c, row_id r)) (hard_delete_where here s)
          else fst (soft_delete_where now here s))"

definition replace_parameterized_event_in_transaction ::
  "store_lib \<Rightarrow> nat \<Rightarrow> uuid \<Rightarrow> event \<Rightarrow> string \<Rightarrow> uuid option \<Rightarrow> replace_precondition \<Rightarrow> event_db
     \<Rightarrow> event_db \<times> (store_error + stored_event \<times> replace_status)" where
  "replace_parameterized_event_in_transaction L now c e d ch pre s =
     try_in s (event_timestamp L e) (\<lambda>ts.
     let rs = is_nip_rs e d;
         hard = rs \<or> is_buzz_mesh_status e d;
         coord = (c, event_kind_u32 e, ev_pubkey e, d);
         here = at_coordinate c (event_kind_u32 e) (ev_pubkey e) d;
         existing = head_row here s;
         watermark = (if rs then map_of (ed_watermarks s) coord else None);
         done_with = (\<lambda>st. (s, Inr (with_received_at e now ch False, st)))
     in if map_option row_id existing = Some (ev_id e) \<or> map_option snd watermark = Some (ev_id e) then done_with RDuplicate
        else (case revision_status pre existing of
                Some st \<Rightarrow> done_with st
              | None \<Rightarrow>
                  if list_ex (\<lambda>old. \<not> advances (ts, ev_id e) old)
                       ((case existing of Some r \<Rightarrow> [row_mark r] | None \<Rightarrow> []) @ (case watermark of Some w \<Rightarrow> [w] | None \<Rightarrow> []))
                  then done_with RSuperseded
                  else
                    (case insert_row L (event_row_of now c e ts ch (Some d) (extract_not_before e)) (supersede now hard here c existing s) of
                       Inl x \<Rightarrow> (s, Inl x)
                     | Inr (s1, False) \<Rightarrow> done_with RDuplicate
                     | Inr (s1, True) \<Rightarrow>
                         (let s2 = (if rs then s1\<lparr>ed_watermarks := AList.update coord (ts, ev_id e) (ed_watermarks s1)\<rparr> else s1)
                          in (insert_mentions c e ts ch s2, Inr (with_received_at e now ch True, RInserted))))))"

definition replace_parameterized_event ::
  "store_lib \<Rightarrow> nat \<Rightarrow> uuid \<Rightarrow> event \<Rightarrow> string \<Rightarrow> uuid option \<Rightarrow> event_db \<Rightarrow> event_db \<times> (store_error + stored_event \<times> bool)" where
  "replace_parameterized_event L now c e d ch s =
     (case replace_parameterized_event_in_transaction L now c e d ch Unconditional s of
        (s1, Inl x) \<Rightarrow> (s, Inl x)
      | (s1, Inr (stored, st)) \<Rightarrow> (if st = RInserted then s1 else s, Inr (stored, st = RInserted)))"

section \<open>Deletions\<close>

definition soft_delete_event :: "nat \<Rightarrow> uuid \<Rightarrow> byte list \<Rightarrow> event_db \<Rightarrow> event_db \<times> bool" where
  "soft_delete_event now c i s = soft_delete_where now (\<lambda>r. er_community r = c \<and> row_id r = i) s"

definition soft_delete_by_coordinate ::
  "store_lib \<Rightarrow> nat \<Rightarrow> uuid \<Rightarrow> nat \<Rightarrow> pubkey \<Rightarrow> string \<Rightarrow> int \<Rightarrow> event_db \<Rightarrow> event_db \<times> (store_error + bool)" where
  "soft_delete_by_coordinate L now c kind pk d deletion_secs s =
     (if \<not> valid_timestamp L deletion_secs then (s, Inl (InvalidTimestamp deletion_secs))
      else (case soft_delete_where now (\<lambda>r. at_coordinate c kind pk d r \<and> er_at r \<le> deletion_secs) s of
              (s1, hit) \<Rightarrow> (s1, Inr hit)))"

definition soft_delete_event_and_update_thread ::
  "nat \<Rightarrow> uuid \<Rightarrow> byte list \<Rightarrow> byte list option \<Rightarrow> byte list option \<Rightarrow> event_db \<Rightarrow> event_db \<times> bool" where
  "soft_delete_event_and_update_thread now c i parent root_id s =
     (case soft_delete_event now c i s of
        (s1, True) \<Rightarrow> ((case parent of Some pid \<Rightarrow> decrement_reply_count c pid root_id s1 | None \<Rightarrow> s1), True)
      | (s1, False) \<Rightarrow> (s1, False))"

section \<open>Reading events\<close>

definition row_to_stored_event :: "store_lib \<Rightarrow> event_row \<Rightarrow> stored_event option" where
  "row_to_stored_event L r =
     (let e = (er_event r)\<lparr>ev_created_at := nat (er_at r)\<rparr>
      in if 0 \<le> er_at r \<and> event_parses L e then Some (with_received_at e (er_received_at r) (er_channel r) True) else None)"

abbreviation option_bind :: "'a option \<Rightarrow> ('a \<Rightarrow> 'b option) \<Rightarrow> 'b option" where
  "option_bind x f \<equiv> (case x of Some a \<Rightarrow> f a | None \<Rightarrow> None)"

definition get_event_by_id :: "store_lib \<Rightarrow> uuid \<Rightarrow> byte list \<Rightarrow> event_db \<Rightarrow> stored_event option" where
  "get_event_by_id L c i s =
     option_bind (first_row (newest_first (filter (\<lambda>r. er_community r = c \<and> row_id r = i \<and> live r) (ed_events s))))
       (row_to_stored_event L)"

definition get_event_by_id_including_deleted :: "store_lib \<Rightarrow> uuid \<Rightarrow> byte list \<Rightarrow> event_db \<Rightarrow> stored_event option" where
  "get_event_by_id_including_deleted L c i s =
     option_bind (first_row (newest_first (filter (\<lambda>r. er_community r = c \<and> row_id r = i) (ed_events s)))) (row_to_stored_event L)"

definition get_latest_global_replaceable :: "store_lib \<Rightarrow> uuid \<Rightarrow> nat \<Rightarrow> pubkey \<Rightarrow> event_db \<Rightarrow> stored_event option" where
  "get_latest_global_replaceable L c kind pk s = option_bind (head_row (at_address c kind pk None) s) (row_to_stored_event L)"

definition get_events_by_ids :: "store_lib \<Rightarrow> uuid \<Rightarrow> byte list list \<Rightarrow> event_db \<Rightarrow> stored_event list" where
  "get_events_by_ids L c ids s =
     List.map_filter (row_to_stored_event L)
       (filter (\<lambda>r. er_community r = c \<and> live r \<and> row_id r \<in> set ids) (ed_events s))"

definition get_last_message_at :: "uuid \<Rightarrow> uuid \<Rightarrow> event_db \<Rightarrow> int option" where
  "get_last_message_at c ch s =
     map_option er_at (first_row (sort_key (\<lambda>r. - er_at r)
       (filter (\<lambda>r. er_community r = c \<and> er_channel r = Some ch \<and> live r) (ed_events s))))"

definition get_last_message_at_bulk :: "uuid \<Rightarrow> uuid list \<Rightarrow> event_db \<Rightarrow> (uuid, int) amap" where
  "get_last_message_at_bulk c chs s =
     List.map_filter (\<lambda>ch. map_option (Pair ch) (get_last_message_at c ch s)) (remdups chs)"

record event_query =
  q_community :: uuid
  q_channel :: "uuid option"
  q_kinds :: "int list option"
  q_pubkey :: "pubkey option"
  q_since :: "int option"
  q_until :: "int option"
  q_limit :: "int option"
  q_offset :: "int option"
  q_p_tag :: "string option"
  q_d_tag :: "string option"
  q_d_tags :: "string list option"
  q_before_id :: "byte list option"
  q_global_only :: bool
  q_authors :: "pubkey list option"
  q_ids :: "byte list list option"
  q_e_tags :: "string list option"
  q_channel_ids :: "uuid list option"
  q_include_global :: bool
  q_max_limit :: "int option"
  q_reader :: "pubkey option"

definition for_community :: "uuid \<Rightarrow> event_query" where
  "for_community c =
     \<lparr>q_community = c, q_channel = None, q_kinds = None, q_pubkey = None, q_since = None, q_until = None, q_limit = None,
      q_offset = None, q_p_tag = None, q_d_tag = None, q_d_tags = None, q_before_id = None, q_global_only = False,
      q_authors = None, q_ids = None, q_e_tags = None, q_channel_ids = None, q_include_global = True, q_max_limit = None,
      q_reader = None\<rparr>"

definition DEFAULT_MAX_PAGE_LIMIT :: int where "DEFAULT_MAX_PAGE_LIMIT = 1000"

abbreviation if_set :: "'a option \<Rightarrow> ('a \<Rightarrow> bool) \<Rightarrow> bool" where
  "if_set x P \<equiv> (case x of Some a \<Rightarrow> P a | None \<Rightarrow> True)"

definition empty_selector :: "event_query \<Rightarrow> bool" where
  "empty_selector q \<longleftrightarrow> q_kinds q = Some [] \<or> q_authors q = Some [] \<or> q_ids q = Some [] \<or> q_e_tags q = Some []"

definition channel_clause :: "event_query \<Rightarrow> event_row \<Rightarrow> bool" where
  "channel_clause q r \<longleftrightarrow>
     (case q_channel q of Some ch \<Rightarrow> er_channel r = Some ch | None \<Rightarrow> (if q_global_only q then er_channel r = None else True))
     \<and> if_set (q_channel_ids q) (\<lambda>chs. (q_include_global q \<and> er_channel r = None)
         \<or> (case er_channel r of Some ch \<Rightarrow> ch \<in> set chs | None \<Rightarrow> False))"

definition d_tag_clause :: "event_query \<Rightarrow> event_row \<Rightarrow> bool" where
  "d_tag_clause q r \<longleftrightarrow>
     (case q_d_tag q of
        Some d \<Rightarrow> er_d_tag r = Some d
      | None \<Rightarrow> (case q_d_tags q of
                   Some ds \<Rightarrow> ds = [] \<or> (case er_d_tag r of Some d \<Rightarrow> d \<in> set ds | None \<Rightarrow> False)
                 | None \<Rightarrow> True))"

text \<open>The clauses \<open>query_events\<close> and \<open>count_events\<close> share.\<close>

definition common_clauses :: "event_query \<Rightarrow> event_db \<Rightarrow> event_row \<Rightarrow> bool" where
  "common_clauses q s r \<longleftrightarrow>
     er_community r = q_community q \<and> live r
     \<and> if_set (q_p_tag q) (\<lambda>p. list_ex (\<lambda>m. mn_community m = q_community q \<and> mn_event_id m = row_id r
         \<and> mn_pubkey_hex m = to_ascii_lowercase p) (ed_mentions s))
     \<and> channel_clause q r
     \<and> if_set (q_kinds q) (\<lambda>ks. int (event_kind_u32 (er_event r)) \<in> set ks)
     \<and> if_set (q_pubkey q) (\<lambda>pk. ev_pubkey (er_event r) = pk)
     \<and> if_set (q_authors q) (\<lambda>as. ev_pubkey (er_event r) \<in> set as)
     \<and> if_set (q_ids q) (\<lambda>is. row_id r \<in> set is)
     \<and> if_set (q_e_tags q) (list_ex (\<lambda>h. tags_contain (ev_tags (er_event r)) [''e'', h]))
     \<and> if_set (q_since q) (\<lambda>t. t \<le> er_at r)
     \<and> d_tag_clause q r"

definition until_clause :: "event_query \<Rightarrow> event_row \<Rightarrow> bool" where
  "until_clause q r \<longleftrightarrow>
     if_set (q_until q) (\<lambda>u. case q_before_id q of
       Some bid \<Rightarrow> er_at r < u \<or> er_at r = u \<and> bid < row_id r
     | None \<Rightarrow> er_at r \<le> u)"

definition reader_clause :: "event_query \<Rightarrow> event_row \<Rightarrow> bool" where
  "reader_clause q r \<longleftrightarrow>
     if_set (q_reader q) (\<lambda>reader. event_kind_u32 (er_event r) \<notin> set SHARED_GATED_KINDS
       \<or> ev_pubkey (er_event r) = reader \<or> tags_contain (ev_tags (er_event r)) [''shared'', ''true''])"

definition query_rows :: "event_query \<Rightarrow> event_db \<Rightarrow> event_row list" where
  "query_rows q s =
     newest_first (filter (\<lambda>r. common_clauses q s r \<and> until_clause q r \<and> reader_clause q r) (ed_events s))"

definition query_events :: "store_lib \<Rightarrow> event_query \<Rightarrow> event_db \<Rightarrow> store_error + stored_event list" where
  "query_events L q s =
     (if q_before_id q \<noteq> None \<and> q_until q = None then Inl InvalidData
      else if q_global_only q \<and> q_channel q \<noteq> None then Inl InvalidData
      else if empty_selector q then Inr []
      else
        (let clamp = (case q_max_limit q of Some m \<Rightarrow> m | None \<Rightarrow> DEFAULT_MAX_PAGE_LIMIT);
             limit = min (case q_limit q of Some l \<Rightarrow> l | None \<Rightarrow> 100) clamp;
             offset = (case q_offset q of Some k \<Rightarrow> k | None \<Rightarrow> 0)
         in if limit < 0 \<or> offset < 0 then Inl SqlxError
            else Inr (List.map_filter (row_to_stored_event L) (take (nat limit) (drop (nat offset) (query_rows q s))))))"

definition count_events :: "event_query \<Rightarrow> event_db \<Rightarrow> nat" where
  "count_events q s =
     (if empty_selector q then 0
      else length (filter (\<lambda>r. common_clauses q s r \<and> if_set (q_until q) (\<lambda>u. er_at r \<le> u)) (ed_events s)))"

section \<open>Reading threads and channel windows\<close>

definition get_thread_metadata_by_event :: "uuid \<Rightarrow> byte list \<Rightarrow> event_db \<Rightarrow> thread_row option" where
  "get_thread_metadata_by_event c i s = first_row (filter (\<lambda>t. th_community t = c \<and> th_event_id t = i) (ed_threads s))"

text \<open>A thread row joined with its live event.\<close>

definition thread_event :: "event_db \<Rightarrow> thread_row \<Rightarrow> event_row option" where
  "thread_event s t = find (\<lambda>r. row_key r = thread_key t \<and> live r) (ed_events s)"

definition be_i64 :: "byte list \<Rightarrow> int" where
  "be_i64 bs = sint (fold (\<lambda>b w. push_bit 8 w + ucast b) bs 0 :: 64 word)"

definition decode_cursor :: "store_lib \<Rightarrow> byte list option \<Rightarrow> (int \<times> byte list option) option" where
  "decode_cursor L cursor =
     (case cursor of
        Some bs \<Rightarrow>
          if length bs \<ge> 8 \<and> valid_timestamp L (be_i64 (take 8 bs))
          then Some (be_i64 (take 8 bs), if length bs > 8 then Some (drop 8 bs) else None) else None
      | None \<Rightarrow> None)"

definition after_cursor :: "(int \<times> byte list option) option \<Rightarrow> thread_row \<Rightarrow> bool" where
  "after_cursor cursor t =
     (case cursor of
        None \<Rightarrow> True
      | Some (ts, Some i) \<Rightarrow> (ts, i) < (th_event_created_at t, th_event_id t)
      | Some (ts, None) \<Rightarrow> ts < th_event_created_at t)"

definition thread_order :: "thread_row \<Rightarrow> int \<times> byte list" where
  "thread_order t = (th_event_created_at t, th_event_id t)"

text \<open>The columns of a \<open>ThreadReply\<close> that are not in the thread row are those of its event.\<close>

definition thread_reply_rows :: "uuid \<Rightarrow> byte list \<Rightarrow> nat option \<Rightarrow> event_db \<Rightarrow> thread_row list" where
  "thread_reply_rows c root_id depth_limit s =
     sort_key thread_order
       (filter (\<lambda>t. th_community t = c \<and> th_root t = Some root_id \<and> thread_event s t \<noteq> None
                  \<and> if_set depth_limit (\<lambda>n. th_depth t \<le> int n)) (ed_threads s))"

definition get_thread_replies ::
  "store_lib \<Rightarrow> uuid \<Rightarrow> byte list \<Rightarrow> nat option \<Rightarrow> nat \<Rightarrow> byte list option \<Rightarrow> event_db \<Rightarrow> (thread_row \<times> stored_event) list" where
  "get_thread_replies L c root_id depth_limit limit cursor s =
     List.map_filter
       (\<lambda>t. option_bind (option_bind (thread_event s t) (row_to_stored_event L)) (\<lambda>st. Some (t, st\<lparr>channel_id := Some (th_channel t)\<rparr>)))
       (take limit (filter (after_cursor (decode_cursor L cursor)) (thread_reply_rows c root_id depth_limit s)))"

record thread_summary =
  ts_reply_count :: int
  ts_descendant_count :: int
  ts_last_reply_at :: "nat option"
  ts_participants :: "pubkey list"

definition thread_participants :: "uuid \<Rightarrow> byte list \<Rightarrow> event_db \<Rightarrow> pubkey list" where
  "thread_participants c root_id s =
     (let rows = List.map_filter (thread_event s) (filter (\<lambda>t. th_community t = c \<and> th_root t = Some root_id) (ed_threads s));
          last_seen = (\<lambda>pk. Max (set (map er_at (filter (\<lambda>r. ev_pubkey (er_event r) = pk) rows))))
      in take 10 (sort_key (\<lambda>pk. - last_seen pk) (remdups (map (ev_pubkey \<circ> er_event) rows))))"

definition get_thread_summary :: "uuid \<Rightarrow> byte list \<Rightarrow> event_db \<Rightarrow> thread_summary option" where
  "get_thread_summary c i s =
     map_option (\<lambda>t. \<lparr>ts_reply_count = th_reply_count t, ts_descendant_count = th_descendant_count t,
                      ts_last_reply_at = th_last_reply_at t, ts_participants = thread_participants c i s\<rparr>)
       (get_thread_metadata_by_event c i s)"

text \<open>The thread row of an event, by its key.\<close>

definition row_thread :: "event_db \<Rightarrow> event_row \<Rightarrow> thread_row option" where
  "row_thread s r = find (\<lambda>t. thread_key t = row_key r) (ed_threads s)"

definition top_level :: "event_db \<Rightarrow> event_row \<Rightarrow> bool" where
  "top_level s r =
     (case row_thread s r of None \<Rightarrow> True | Some t \<Rightarrow> th_depth t = 0 \<or> th_depth t = 1 \<and> th_broadcast t)"

definition window_rows :: "uuid \<Rightarrow> uuid \<Rightarrow> nat list option \<Rightarrow> event_db \<Rightarrow> event_row list" where
  "window_rows c ch kinds s =
     newest_first
       (filter (\<lambda>r. er_community r = c \<and> er_channel r = Some ch \<and> live r \<and> top_level s r
                  \<and> if_set kinds (\<lambda>ks. ks = [] \<or> event_kind_u32 (er_event r) \<in> set ks)) (ed_events s))"

definition before_row :: "(int \<times> byte list) option \<Rightarrow> event_row \<Rightarrow> bool" where
  "before_row cursor r =
     (case cursor of None \<Rightarrow> True | Some (ts, i) \<Rightarrow> er_at r < ts \<or> er_at r = ts \<and> i < row_id r)"

record channel_window =
  cw_rows :: "(stored_event \<times> thread_summary option) list"
  cw_has_more :: bool
  cw_next_cursor :: "(int \<times> byte list) option"

definition window_summary :: "uuid \<Rightarrow> event_db \<Rightarrow> event_row \<Rightarrow> thread_summary option" where
  "window_summary c s r =
     (case row_thread s r of
        Some t \<Rightarrow>
          if th_reply_count t > 0
          then Some \<lparr>ts_reply_count = th_reply_count t, ts_descendant_count = th_descendant_count t,
                     ts_last_reply_at = th_last_reply_at t, ts_participants = thread_participants c (row_id r) s\<rparr>
          else None
      | None \<Rightarrow> None)"

text \<open>The rows a window retains: the page after the cursor, probed with one row more.\<close>

definition window_page ::
  "uuid \<Rightarrow> uuid \<Rightarrow> nat \<Rightarrow> (int \<times> byte list) option \<Rightarrow> nat list option \<Rightarrow> event_db \<Rightarrow> event_row list \<times> bool" where
  "window_page c ch limit cursor kinds s =
     (let probed = take (limit + 1) (filter (before_row cursor) (window_rows c ch kinds s))
      in (take limit probed, length probed > limit))"

definition get_channel_window ::
  "store_lib \<Rightarrow> uuid \<Rightarrow> uuid \<Rightarrow> nat \<Rightarrow> (int \<times> byte list) option \<Rightarrow> nat list option \<Rightarrow> event_db \<Rightarrow> channel_window" where
  "get_channel_window L c ch limit cursor kinds s =
     (case window_page c ch limit cursor kinds s of (retained, has_more) \<Rightarrow>
        \<lparr>cw_rows = List.map_filter (\<lambda>r. option_bind (row_to_stored_event L r) (\<lambda>st. Some (st, window_summary c s r))) retained,
         cw_has_more = has_more,
         cw_next_cursor = (if has_more \<and> retained \<noteq> [] then Some (row_mark (last retained)) else None)\<rparr>)"

section \<open>Reminders\<close>

text \<open>\<open>host_of\<close>: the host of a community that is not archived.\<close>

fun first_per_key :: "('a \<Rightarrow> 'k) \<Rightarrow> 'a list \<Rightarrow> 'a list" where
  "first_per_key f [] = []"
| "first_per_key f (x # xs) = x # first_per_key f (filter (\<lambda>y. f y \<noteq> f x) xs)"

definition reminder_slot :: "event_row \<Rightarrow> uuid \<times> pubkey \<times> string option" where
  "reminder_slot r = (er_community r, ev_pubkey (er_event r), er_d_tag r)"

text \<open>The order of the rows: community, author, address (a missing one last), then newest first.\<close>

definition reminder_order :: "store_lib \<Rightarrow> event_row \<Rightarrow> uuid \<times> pubkey \<times> (nat \<times> byte list) \<times> int \<times> byte list" where
  "reminder_order L r =
     (er_community r, ev_pubkey (er_event r), (case er_d_tag r of Some d \<Rightarrow> (0, collate L d) | None \<Rightarrow> (1, [])), row_rank r)"

definition query_due_reminders ::
  "store_lib \<Rightarrow> (uuid \<Rightarrow> string option) \<Rightarrow> int \<Rightarrow> nat \<Rightarrow> event_db \<Rightarrow> (event_row \<times> string) list" where
  "query_due_reminders L host_of now_secs batch_limit s =
     take batch_limit
       (List.map_filter (\<lambda>r. map_option (Pair r) (host_of (er_community r)))
         (first_per_key reminder_slot
           (sort_key (reminder_order L)
             (filter (\<lambda>r. event_kind_u32 (er_event r) = KIND_EVENT_REMINDER
                        \<and> (case er_not_before r of Some t \<Rightarrow> t \<le> now_secs | None \<Rightarrow> False)
                        \<and> live r \<and> er_delivered_at r = None \<and> host_of (er_community r) \<noteq> None) (ed_events s)))))"

definition claim_due_reminder_with_stamp :: "int \<Rightarrow> uuid \<times> int \<times> byte list \<Rightarrow> event_db \<Rightarrow> event_db \<times> bool" where
  "claim_due_reminder_with_stamp stamp key s =
     (let hit = (\<lambda>r. row_key r = key \<and> er_delivered_at r = None)
      in (s\<lparr>ed_events := map (\<lambda>r. if hit r then r\<lparr>er_delivered_at := Some stamp\<rparr> else r) (ed_events s)\<rparr>,
          list_ex hit (ed_events s)))"

definition release_due_reminder :: "int \<Rightarrow> uuid \<times> int \<times> byte list \<Rightarrow> event_db \<Rightarrow> event_db \<times> bool" where
  "release_due_reminder stamp key s =
     (let hit = (\<lambda>r. row_key r = key \<and> er_delivered_at r = Some stamp)
      in (s\<lparr>ed_events := map (\<lambda>r. if hit r then r\<lparr>er_delivered_at := None\<rparr> else r) (ed_events s)\<rparr>,
          length (filter hit (ed_events s)) = 1))"

section \<open>Huddle links\<close>

definition HUDDLE_LINK_CONTENT_MAX_BYTES :: nat where "HUDDLE_LINK_CONTENT_MAX_BYTES = 512"
definition HUDDLE_LINK_CANDIDATE_LIMIT :: nat where "HUDDLE_LINK_CANDIDATE_LIMIT = 32"

definition json_string_field :: "string \<Rightarrow> string json \<Rightarrow> string option" where
  "json_string_field k j =
     (case j of JObject fs \<Rightarrow> (case map_of fs k of Some (JString v) \<Rightarrow> Some v | _ \<Rightarrow> None) | _ \<Rightarrow> None)"

definition huddle_started_content_links :: "store_lib \<Rightarrow> string \<Rightarrow> uuid \<Rightarrow> bool" where
  "huddle_started_content_links L content ch =
     (option_bind (option_bind (json_parse L content) (json_string_field ''ephemeral_channel_id'')) (uuid_parse L) = Some ch)"

text \<open>\<open>ILIKE '%needle%'\<close> on an ASCII needle.\<close>

definition contains_ignoring_case :: "string \<Rightarrow> string \<Rightarrow> bool" where
  "contains_ignoring_case needle content \<longleftrightarrow>
     list_ex (\<lambda>k. starts_with (to_ascii_lowercase (drop k content)) (to_ascii_lowercase needle)) [0..<Suc (length content)]"

definition huddle_started_link_exists :: "store_lib \<Rightarrow> uuid \<Rightarrow> uuid \<Rightarrow> uuid \<Rightarrow> pubkey \<Rightarrow> event_db \<Rightarrow> bool" where
  "huddle_started_link_exists L c parent_channel ch creator s =
     list_ex (\<lambda>r. huddle_started_content_links L (ev_content (er_event r)) ch)
       (take HUDDLE_LINK_CANDIDATE_LIMIT
         (newest_first
           (filter (\<lambda>r. live r \<and> er_community r = c \<and> er_channel r = Some parent_channel
                      \<and> event_kind_u32 (er_event r) = KIND_HUDDLE_STARTED \<and> ev_pubkey (er_event r) = creator
                      \<and> length (ev_content (er_event r)) \<le> HUDDLE_LINK_CONTENT_MAX_BYTES
                      \<and> contains_ignoring_case (uuid_display L ch) (ev_content (er_event r))) (ed_events s))))"

section \<open>Read state never regresses\<close>

text \<open>A write or a deletion of an addressable event.\<close>

datatype store_op =
  Replace nat uuid event string "uuid option"
| DeleteCoordinate nat uuid nat pubkey string int
| DeleteEvent nat uuid "byte list"

text \<open>The step of an operation; its output is the mark of an accepted read-state event of the coordinate.\<close>

fun store_step :: "store_lib \<Rightarrow> coordinate \<Rightarrow> store_op \<Rightarrow> event_db \<Rightarrow> event_db \<times> (int \<times> byte list) option" where
  "store_step L k (Replace now c e d ch) s =
     (case replace_parameterized_event L now c e d ch s of
        (s1, Inr (_, True)) \<Rightarrow>
          (s1, if is_nip_rs e d \<and> k = (c, event_kind_u32 e, ev_pubkey e, d) then Some (created_secs e, ev_id e) else None)
      | (s1, _) \<Rightarrow> (s1, None))"
| "store_step L k (DeleteCoordinate now c kind pk d secs) s = (fst (soft_delete_by_coordinate L now c kind pk d secs s), None)"
| "store_step L k (DeleteEvent now c i) s = (fst (soft_delete_event now c i s), None)"

lemma soft_delete_watermarks [simp]: "ed_watermarks (fst (soft_delete_where now P s)) = ed_watermarks s"
  by (simp add: soft_delete_where_def delete_mentions_def Let_def)

lemma insert_mention_frame [simp]:
  "ed_watermarks (insert_mention m s) = ed_watermarks s"
  "ed_events (insert_mention m s) = ed_events s"
  "ed_threads (insert_mention m s) = ed_threads s"
  by (simp_all add: insert_mention_def)

lemma fold_frame: "(\<And>x s. F (g x s) = F s) \<Longrightarrow> F (fold g xs s) = F s"
  by (induction xs arbitrary: s) simp_all

lemma insert_mentions_frame [simp]:
  "ed_watermarks (insert_mentions c e ts ch s) = ed_watermarks s"
  "ed_events (insert_mentions c e ts ch s) = ed_events s"
  "ed_threads (insert_mentions c e ts ch s) = ed_threads s"
  unfolding insert_mentions_def by (rule fold_frame, simp)+

lemma supersede_watermarks [simp]: "ed_watermarks (supersede now hard here c existing s) = ed_watermarks s"
  by (simp add: supersede_def delete_mentions_def hard_delete_where_def split: option.split)

lemma insert_unless_present_watermarks [simp]: "ed_watermarks (fst (insert_unless_present r s)) = ed_watermarks s"
  by (simp add: insert_unless_present_def)

text \<open>The row of a write at a coordinate, and the cases of the write: refused without effect, or accepted.\<close>

abbreviation coord_row :: "nat \<Rightarrow> uuid \<Rightarrow> event \<Rightarrow> string \<Rightarrow> uuid option \<Rightarrow> event_row" where
  "coord_row now c e d ch \<equiv> event_row_of now c e (created_secs e) ch (Some d) (extract_not_before e)"

abbreviation coord_here :: "uuid \<Rightarrow> event \<Rightarrow> string \<Rightarrow> event_row \<Rightarrow> bool" where
  "coord_here c e d \<equiv> at_coordinate c (event_kind_u32 e) (ev_pubkey e) d"

abbreviation event_mark :: "event \<Rightarrow> int \<times> byte list" where
  "event_mark e \<equiv> (created_secs e, ev_id e)"

lemma event_row_of_simps [simp]:
  "er_community (event_row_of now c e ts ch d nb) = c"
  "er_event (event_row_of now c e ts ch d nb) = e"
  "er_at (event_row_of now c e ts ch d nb) = ts"
  "er_channel (event_row_of now c e ts ch d nb) = ch"
  "er_deleted_at (event_row_of now c e ts ch d nb) = None"
  "er_d_tag (event_row_of now c e ts ch d nb) = d"
  "row_id (event_row_of now c e ts ch d nb) = ev_id e"
  "nip_rs_row (event_row_of now c e ts ch (Some d') nb) = is_nip_rs e d'"
  "\<not> nip_rs_row (event_row_of now c e ts ch None nb)"
  "row_coordinate (event_row_of now c e ts ch d nb) d' = (c, event_kind_u32 e, ev_pubkey e, d')"
  by (simp_all add: event_row_of_def row_id_def nip_rs_row_def row_coordinate_def)

lemma replace_parameterized_cases:
  assumes "replace_parameterized_event L now c e d ch s = (s1, res)"
  obtains (refused) "s1 = s" "\<And>st. res \<noteq> Inr (st, True)"
    | (accepted) s2 where "valid_timestamp L (created_secs e)"
        "insert_row L (coord_row now c e d ch)
           (supersede now (is_nip_rs e d \<or> is_buzz_mesh_status e d) (coord_here c e d) c (head_row (coord_here c e d) s) s) = Inr (s2, True)"
        "\<And>r. head_row (coord_here c e d) s = Some r \<Longrightarrow> advances (event_mark e) (row_mark r)"
        "\<And>w. is_nip_rs e d \<Longrightarrow> map_of (ed_watermarks s) (c, event_kind_u32 e, ev_pubkey e, d) = Some w \<Longrightarrow> advances (event_mark e) w"
        "ed_events s1 = ed_events s2" "ed_threads s1 = ed_threads s2"
        "ed_watermarks s1 = (if is_nip_rs e d then AList.update (c, event_kind_u32 e, ev_pubkey e, d) (event_mark e) (ed_watermarks s2)
                             else ed_watermarks s2)"
        "res = Inr (with_received_at e now ch True, True)"
proof (cases "valid_timestamp L (created_secs e)")
  case False
  with assms have "s1 = s \<and> res = Inl (InvalidTimestamp (created_secs e))"
    by (simp add: replace_parameterized_event_def replace_parameterized_event_in_transaction_def event_timestamp_def)
  with that(1) show ?thesis by blast
next
  case True
  let ?k = "(c, event_kind_u32 e, ev_pubkey e, d)" and ?h = "head_row (coord_here c e d) s"
  let ?wm = "if is_nip_rs e d then map_of (ed_watermarks s) ?k else None"
  let ?olds = "(case ?h of Some r \<Rightarrow> [row_mark r] | None \<Rightarrow> []) @ (case ?wm of Some w \<Rightarrow> [w] | None \<Rightarrow> [])"
  let ?ins = "insert_row L (coord_row now c e d ch)
     (supersede now (is_nip_rs e d \<or> is_buzz_mesh_status e d) (coord_here c e d) c ?h s)"
  note unfold = replace_parameterized_event_def replace_parameterized_event_in_transaction_def event_timestamp_def Let_def revision_status_def
  show ?thesis
  proof (cases "(map_option row_id ?h = Some (ev_id e) \<or> map_option snd ?wm = Some (ev_id e))
      \<or> list_ex (\<lambda>old. \<not> advances (event_mark e) old) ?olds")
    case True
    with assms \<open>valid_timestamp L (created_secs e)\<close> have "s1 = s \<and> (\<exists>st. res = Inr (st, False))"
      by (simp only: unfold) (auto split: if_splits)
    with that(1) show ?thesis by auto
  next
    case False
    then have no: "\<not> (map_option row_id ?h = Some (ev_id e) \<or> map_option snd ?wm = Some (ev_id e))"
      "\<not> list_ex (\<lambda>old. \<not> advances (event_mark e) old) ?olds" by auto
    show ?thesis
    proof (cases ?ins)
      case (Inl x)
      with assms \<open>valid_timestamp L (created_secs e)\<close> no have "s1 = s \<and> res = Inl x"
        by (simp only: unfold) simp
      with that(1) show ?thesis by auto
    next
      case (Inr b)
      obtain s2 ok where b: "b = (s2, ok)" by (cases b)
      show ?thesis
      proof (cases ok)
        case False
        with assms \<open>valid_timestamp L (created_secs e)\<close> no Inr b have "s1 = s \<and> (\<exists>st. res = Inr (st, False))"
          by (simp only: unfold) auto
        with that(1) show ?thesis by auto
      next
        case ok: True
        with assms \<open>valid_timestamp L (created_secs e)\<close> no Inr b
        have r: "s1 = insert_mentions c e (created_secs e) ch
                  (if is_nip_rs e d then s2\<lparr>ed_watermarks := AList.update ?k (event_mark e) (ed_watermarks s2)\<rparr> else s2)"
          "res = Inr (with_received_at e now ch True, True)"
          by (simp_all only: unfold) auto
        show ?thesis
          by (rule that(2) [of s2]) (use True Inr b ok no r in \<open>auto split: option.splits\<close>)
      qed
    qed
  qed
qed

text \<open>What a write does to the watermark of a coordinate: an accepted read-state event advances it.\<close>

lemma insert_row_watermarks:
  assumes "insert_row L r s = Inr (s2, b)"
  shows "ed_watermarks s2 = (if nip_rs_row r \<and> map_of (ed_watermarks s) (row_coordinate r (the (er_d_tag r))) \<noteq> Some (row_mark r)
           then AList.update (row_coordinate r (the (er_d_tag r))) (row_mark r) (ed_watermarks s) else ed_watermarks s)"
  using assms
  by (auto simp: insert_row_def Let_def row_mark_def advances_def insert_unless_present_def split: if_splits option.splits)

lemma replace_watermark:
  assumes "replace_parameterized_event L now c e d ch s = (s1, res)"
  shows "if is_nip_rs e d \<and> k = (c, event_kind_u32 e, ev_pubkey e, d) \<and> (\<exists>st. res = Inr (st, True))
         then map_of (ed_watermarks s1) k = Some (event_mark e)
              \<and> (case map_of (ed_watermarks s) k of Some w \<Rightarrow> advances (event_mark e) w | None \<Rightarrow> True)
         else map_of (ed_watermarks s1) k = map_of (ed_watermarks s) k"
  using assms
proof (cases rule: replace_parameterized_cases)
  case (accepted s2)
  then show ?thesis
    using insert_row_watermarks [OF accepted(2)] by (auto simp: row_mark_def map_of_update split: option.split)
qed auto

lemma advances_rank: "advances (t, i) (t', i') \<longleftrightarrow> (- t, i) < (- t', i')"
  by (auto simp: advances_def less_prod_def' )

lemma advances_trans: "advances b a \<Longrightarrow> advances c b \<Longrightarrow> advances c a"
  by (auto simp: advances_def)

lemma store_step_watermark:
  assumes "store_step L k op s = (s1, out)"
  shows "case out of
           Some m \<Rightarrow> map_of (ed_watermarks s1) k = Some m
                     \<and> (case map_of (ed_watermarks s) k of Some w \<Rightarrow> advances m w | None \<Rightarrow> True)
         | None \<Rightarrow> map_of (ed_watermarks s1) k = map_of (ed_watermarks s) k"
proof (cases op)
  case (Replace now c e d ch)
  obtain s2 res where r: "replace_parameterized_event L now c e d ch s = (s2, res)" by (cases "replace_parameterized_event L now c e d ch s")
  show ?thesis
    using assms replace_watermark [OF r, of k] by (auto simp: Replace r split: sum.splits prod.splits bool.splits if_splits)
next
  case (DeleteCoordinate now c kind pk d secs)
  with assms show ?thesis
    by (auto simp: soft_delete_by_coordinate_def case_prod_unfold)
next
  case (DeleteEvent now c i)
  with assms show ?thesis by (auto simp: soft_delete_event_def)
qed

lemma run_marks:
  "sorted_wrt (\<lambda>a b. advances b a) (snd (run_ops (store_step L k) ops s))
   \<and> (case map_of (ed_watermarks s) k of
        Some w \<Rightarrow> list_all (\<lambda>m. advances m w) (snd (run_ops (store_step L k) ops s)) | None \<Rightarrow> True)"
proof (induction ops arbitrary: s)
  case (Cons op ops)
  obtain s1 out where o: "store_step L k op s = (s1, out)" by (cases "store_step L k op s")
  obtain s2 outs where r: "run_ops (store_step L k) ops s1 = (s2, outs)" by (cases "run_ops (store_step L k) ops s1")
  show ?case
    using store_step_watermark [OF o] Cons.IH [of s1]
    by (cases out; cases "map_of (ed_watermarks s) k") (auto simp: o r list_all_iff intro: advances_trans)
qed (simp split: option.split)

text \<open>
  C9. Whatever writes and deletions a community's clients make, in whatever order, the read-state events
  accepted for one coordinate only get newer: a deleted or superseded read state never comes back.
\<close>

theorem read_state_never_regresses:
  "sorted_wrt (\<lambda>older newer. advances newer older) (snd (run_ops (store_step L k) ops s))"
  using run_marks by blast

section \<open>Claims of reminders\<close>

definition undelivered :: "event_db \<Rightarrow> uuid \<times> int \<times> byte list \<Rightarrow> bool" where
  "undelivered s key \<longleftrightarrow> list_ex (\<lambda>r. row_key r = key \<and> er_delivered_at r = None) (ed_events s)"

lemma row_key_delivered [simp]: "row_key (r\<lparr>er_delivered_at := x\<rparr>) = row_key r"
  by (simp add: row_key_def row_id_def)

lemma claim_undelivered:
  "undelivered (fst (claim_due_reminder_with_stamp stamp k s)) k' \<longleftrightarrow> k' \<noteq> k \<and> undelivered s k'"
proof -
  have "list_ex (\<lambda>r. row_key r = k' \<and> er_delivered_at r = None)
          (map (\<lambda>r. if row_key r = k \<and> er_delivered_at r = None then r\<lparr>er_delivered_at := Some stamp\<rparr> else r) rs)
        \<longleftrightarrow> k' \<noteq> k \<and> list_ex (\<lambda>r. row_key r = k' \<and> er_delivered_at r = None) rs" for rs
    by (induction rs) auto
  then show ?thesis by (simp add: undelivered_def claim_due_reminder_with_stamp_def Let_def)
qed

interpretation reminder_claims: claim_table "claim_due_reminder_with_stamp stamp" "\<lambda>s key. \<not> undelivered s key" for stamp
  by unfold_locales (auto simp: claim_undelivered, simp_all add: undelivered_def claim_due_reminder_with_stamp_def Let_def)

text \<open>However many relays deliver due reminders, each reminder is delivered by at most one of them.\<close>

theorem reminder_delivered_once: "distinct (snd (run_claims (claim_due_reminder_with_stamp stamp) keys s))"
  by (rule reminder_claims.claims_won_once)

section \<open>The heads of replaceable events\<close>

text \<open>
  The contract of a store that keeps one item per slot: a write leaves the better of the old and the new item
  in the slot of the new one and does not touch the others.  What is kept then depends only on which items
  were written, not on their order or repetition.
\<close>

fun better :: "('x \<Rightarrow> 'r :: linorder) \<Rightarrow> 'x option \<Rightarrow> 'x \<Rightarrow> 'x option" where
  "better rank None x = Some x"
| "better rank (Some y) x = Some (if rank x < rank y then x else y)"

locale best_kept =
  fixes put :: "'t \<Rightarrow> 'x \<Rightarrow> 's \<Rightarrow> 's"
    and head :: "'s \<Rightarrow> 'k \<Rightarrow> 'x option"
    and slot :: "'x \<Rightarrow> 'k"
    and rank :: "'x \<Rightarrow> 'r :: linorder"
    and inv :: "'s \<Rightarrow> bool"
    and ok :: "'x \<Rightarrow> bool"
  assumes put_inv: "inv s \<Longrightarrow> ok x \<Longrightarrow> inv (put t x s)"
    and put_head: "inv s \<Longrightarrow> ok x \<Longrightarrow> head (put t x s) k = (if slot x = k then better rank (head s k) x else head s k)"
begin

lemma heads_after:
  "inv s \<Longrightarrow> list_all (ok \<circ> snd) ops \<Longrightarrow>
     head (fold (\<lambda>(t, x). put t x) ops s) k = foldl (better rank) (head s k) (filter (\<lambda>x. slot x = k) (map snd ops))"
proof (induction ops arbitrary: s)
  case (Cons op ops)
  obtain t x where "op = (t, x)" by (cases op)
  with Cons show ?case by (simp add: put_inv put_head)
qed simp

end

lemma foldl_better_Some:
  "foldl (better rank) (Some y) xs = Some (foldl (\<lambda>a x. if rank x < rank a then x else a) y xs)"
  by (induction xs arbitrary: y) auto

lemma best_in:
  "foldl (\<lambda>a x. if (rank x :: 'r :: linorder) < rank a then x else a) y xs \<in> insert y (set xs)
   \<and> list_all (\<lambda>x. rank (foldl (\<lambda>a x. if rank x < rank a then x else a) y xs) \<le> rank x) (y # xs)"
proof (induction xs arbitrary: y)
  case (Cons x xs)
  show ?case
    using Cons.IH [of "if rank x < rank y then x else y"] by (auto simp: list_all_iff split: if_splits)
qed simp

lemma foldl_better_best:
  "case foldl (better rank) None xs of
     None \<Rightarrow> xs = []
   | Some z \<Rightarrow> z \<in> set xs \<and> list_all (\<lambda>x. rank z \<le> rank x) xs"
proof (cases xs)
  case (Cons y ys)
  then show ?thesis using best_in [of rank y ys] by (simp add: foldl_better_Some)
qed simp

type_synonym item = "uuid \<times> event \<times> uuid option"

datatype slot = Address uuid nat pubkey "uuid option" | Coordinate uuid nat pubkey string

definition item_d :: "event \<Rightarrow> string" where
  "item_d e = (case extract_d_tag e of Some d \<Rightarrow> d | None \<Rightarrow> [])"

fun slot_of :: "item \<Rightarrow> slot" where
  "slot_of (c, e, ch) =
     (if is_replaceable (event_kind_u32 e) then Address c (event_kind_u32 e) (ev_pubkey e) ch
      else Coordinate c (event_kind_u32 e) (ev_pubkey e) (item_d e))"

fun in_slot :: "slot \<Rightarrow> event_row \<Rightarrow> bool" where
  "in_slot (Address c kind pk ch) r = at_address c kind pk ch r"
| "in_slot (Coordinate c kind pk d) r = at_coordinate c kind pk d r"

definition item_of :: "event_row \<Rightarrow> item" where
  "item_of r = (er_community r, er_event r, er_channel r)"

fun item_rank :: "item \<Rightarrow> int \<times> byte list" where
  "item_rank (c, e, ch) = (- created_secs e, ev_id e)"

text \<open>The write of an item, by its kind, as the ingest path makes it.\<close>

fun put_item :: "store_lib \<Rightarrow> nat \<Rightarrow> item \<Rightarrow> event_db \<Rightarrow> event_db" where
  "put_item L now (c, e, ch) s =
     (if is_replaceable (event_kind_u32 e) then fst (replace_addressable_event L now c e ch s)
      else fst (replace_parameterized_event L now c e (item_d e) ch s))"

definition slot_head :: "event_db \<Rightarrow> slot \<Rightarrow> item option" where
  "slot_head s k = map_option item_of (head_row (\<lambda>r. slot_of (item_of r) = k) s)"

text \<open>
  Items the database accepts: replaceable kinds, representable times, no refused rows.  A set of items is
  free of collisions when an event id stands for one item of a community.
\<close>

fun item_storable :: "store_lib \<Rightarrow> item \<Rightarrow> bool" where
  "item_storable L (c, e, ch) \<longleftrightarrow>
     (is_replaceable (event_kind_u32 e) \<or> is_parameterized_replaceable (event_kind_u32 e))
     \<and> valid_timestamp L (created_secs e)
     \<and> (\<forall>now ts d nb. \<not> db_refuses L (event_row_of now c e ts ch d nb))"

definition collision_free :: "item set \<Rightarrow> bool" where
  "collision_free U \<longleftrightarrow> (\<forall>(c, e, ch) \<in> U. \<forall>(c', e', ch') \<in> U. c = c' \<and> ev_id e = ev_id e' \<longrightarrow> (e, ch) = (e', ch'))"

definition rows_ok :: "item set \<Rightarrow> event_db \<Rightarrow> bool" where
  "rows_ok U s \<longleftrightarrow>
     distinct (map row_key (ed_events s))
     \<and> (\<forall>r \<in> set (ed_events s). item_of r \<in> U \<and> er_at r = created_secs (er_event r) \<and> in_slot (slot_of (item_of r)) r)"

definition one_live :: "event_db \<Rightarrow> bool" where
  "one_live s \<longleftrightarrow>
     (\<forall>r \<in> set (ed_events s). \<forall>r' \<in> set (ed_events s). live r \<and> live r' \<and> slot_of (item_of r) = slot_of (item_of r') \<longrightarrow> r = r')"

definition head_below :: "event_db \<Rightarrow> slot \<Rightarrow> int \<times> byte list \<Rightarrow> bool" where
  "head_below s k m \<longleftrightarrow> (\<exists>r \<in> set (ed_events s). live r \<and> slot_of (item_of r) = k \<and> row_rank r \<le> m)"

fun coordinate_slot :: "coordinate \<Rightarrow> slot" where
  "coordinate_slot (c, kind, pk, d) = Coordinate c kind pk d"

definition heads_inv :: "item set \<Rightarrow> event_db \<Rightarrow> bool" where
  "heads_inv U s \<longleftrightarrow>
     collision_free U \<and> rows_ok U s \<and> one_live s
     \<and> (\<forall>r \<in> set (ed_events s). head_below s (slot_of (item_of r)) (row_rank r))
     \<and> (\<forall>k w. map_of (ed_watermarks s) k = Some w \<longrightarrow>
          head_below s (coordinate_slot k) (- fst w, snd w) \<and> (\<exists>e ch. (fst k, e, ch) \<in> U \<and> w = event_mark e))"

lemma first_row_newest:
  assumes "\<And>r r'. r \<in> set rs \<Longrightarrow> r' \<in> set rs \<Longrightarrow> r = r'"
  shows "first_row (newest_first rs) = Some r \<longleftrightarrow> r \<in> set rs"
proof (cases "newest_first rs")
  case Nil
  then have "set rs = {}" by (metis newest_first_def set_sort set_empty)
  with Nil show ?thesis by (simp add: first_row_def)
next
  case (Cons y ys)
  then have "y \<in> set rs" by (metis newest_first_def set_sort list.set_intros(1))
  with Cons assms show ?thesis by (auto simp: first_row_def)
qed

lemma head_row_unique:
  assumes "\<And>r r'. r \<in> set (ed_events s) \<Longrightarrow> r' \<in> set (ed_events s) \<Longrightarrow> P r \<Longrightarrow> P r' \<Longrightarrow> live r \<Longrightarrow> live r' \<Longrightarrow> r = r'"
  shows "head_row P s = Some r \<longleftrightarrow> r \<in> set (ed_events s) \<and> P r \<and> live r"
  unfolding head_row_def by (subst first_row_newest) (use assms in auto)

lemma slot_row:
  assumes "heads_inv U s"
  shows "head_row (\<lambda>r. slot_of (item_of r) = k) s = Some r \<longleftrightarrow> r \<in> set (ed_events s) \<and> slot_of (item_of r) = k \<and> live r"
  by (rule head_row_unique) (use assms in \<open>auto simp: heads_inv_def one_live_def\<close>)

lemma item_slot_rows:
  assumes "item_storable L x" "in_slot (slot_of (item_of r)) r"
  shows "in_slot (slot_of x) r \<longleftrightarrow> slot_of (item_of r) = slot_of x"
  using assms
  by (cases x) (auto simp: item_of_def at_address_def at_coordinate_def split: if_splits)

text \<open>In a state of the invariant, the selection of the write is that of its slot.\<close>

lemma head_row_slot:
  assumes "heads_inv U s" "item_storable L x"
  shows "head_row (in_slot (slot_of x)) s = head_row (\<lambda>r. slot_of (item_of r) = slot_of x) s"
proof -
  have "filter (\<lambda>r. in_slot (slot_of x) r \<and> live r) (ed_events s) = filter (\<lambda>r. slot_of (item_of r) = slot_of x \<and> live r) (ed_events s)"
    by (rule filter_cong) (use assms item_slot_rows in \<open>auto simp: heads_inv_def rows_ok_def\<close>)
  then show ?thesis by (simp add: head_row_def)
qed

text \<open>The live rows of the slot are gone or marked as deleted, the others are as before.\<close>

definition cleared :: "nat \<Rightarrow> slot \<Rightarrow> event_db \<Rightarrow> event_db \<Rightarrow> bool" where
  "cleared now k s s0 \<longleftrightarrow>
     distinct (map row_key (ed_events s0))
     \<and> (\<forall>y \<in> set (ed_events s). \<not> (slot_of (item_of y) = k \<and> live y) \<longrightarrow> y \<in> set (ed_events s0))
     \<and> (\<forall>y \<in> set (ed_events s0). y \<in> set (ed_events s) \<and> \<not> (slot_of (item_of y) = k \<and> live y)
          \<or> (\<exists>z \<in> set (ed_events s). slot_of (item_of z) = k \<and> live z \<and> y = z\<lparr>er_deleted_at := Some now\<rparr>))"

lemma row_deleted [simp]:
  "row_key (r\<lparr>er_deleted_at := x\<rparr>) = row_key r" "row_rank (r\<lparr>er_deleted_at := x\<rparr>) = row_rank r"
  "item_of (r\<lparr>er_deleted_at := x\<rparr>) = item_of r" "in_slot k (r\<lparr>er_deleted_at := x\<rparr>) = in_slot k r"
  "\<not> live (r\<lparr>er_deleted_at := Some t\<rparr>)"
  by (cases k; simp add: row_key_def row_id_def row_rank_def item_of_def live_def at_address_def at_coordinate_def)+

lemma soft_delete_events:
  "ed_events (fst (soft_delete_where now P s)) =
     map (\<lambda>r. if P r \<and> live r then r\<lparr>er_deleted_at := Some now\<rparr> else r)
       (filter (\<lambda>r. \<not> ((P r \<and> live r) \<and> purged_row r)) (ed_events s))"
  unfolding soft_delete_where_def delete_mentions_def Let_def fst_conv by simp

lemma distinct_map_filter_key: "distinct (map f xs) \<Longrightarrow> distinct (map f (filter P xs))"
  by (simp add: distinct_map inj_on_def)

lemma soft_delete_cleared:
  assumes "heads_inv U s" "item_storable L x"
  shows "cleared now (slot_of x) s (fst (soft_delete_where now (in_slot (slot_of x)) s))"
proof -
  have here: "in_slot (slot_of x) r \<longleftrightarrow> slot_of (item_of r) = slot_of x" if "r \<in> set (ed_events s)" for r
    using that assms item_slot_rows by (auto simp: heads_inv_def rows_ok_def)
  have keys: "map row_key (map (\<lambda>r. if P r then r\<lparr>er_deleted_at := Some now\<rparr> else r) rs) = map row_key rs" for P rs
    by simp
  have "distinct (map row_key (ed_events s))" using assms by (simp add: heads_inv_def rows_ok_def)
  then show ?thesis
    unfolding cleared_def soft_delete_events keys using here
    by (fastforce simp: distinct_map_filter_key)
qed

lemma hard_delete_cleared:
  assumes "heads_inv U s" "item_storable L x"
  shows "cleared now (slot_of x) s (hard_delete_where (in_slot (slot_of x)) s)"
  using assms item_slot_rows
  by (auto simp: cleared_def hard_delete_where_def heads_inv_def rows_ok_def distinct_map_filter_key)

lemma cleared_row:
  assumes "cleared now k s s0" "y \<in> set (ed_events s0)"
  obtains z where "z \<in> set (ed_events s)" "row_key y = row_key z" "row_rank y = row_rank z" "item_of y = item_of z"
    "\<And>k'. in_slot k' y = in_slot k' z" "live y \<Longrightarrow> y = z \<and> slot_of (item_of z) \<noteq> k" "er_at y = er_at z" "er_event y = er_event z"
proof -
  consider "y \<in> set (ed_events s)" "\<not> (slot_of (item_of y) = k \<and> live y)"
    | z where "z \<in> set (ed_events s)" "y = z\<lparr>er_deleted_at := Some now\<rparr>"
    using assms unfolding cleared_def by blast
  then show ?thesis
  proof cases
    case 1
    then show ?thesis by (intro that [of y]) auto
  next
    case (2 z)
    then show ?thesis by (intro that [of z]) auto
  qed
qed

lemma collision_freeD:
  "collision_free U \<Longrightarrow> (c, e, ch) \<in> U \<Longrightarrow> (c, e', ch') \<in> U \<Longrightarrow> ev_id e = ev_id e' \<Longrightarrow> e = e' \<and> ch = ch'"
  by (fastforce simp: collision_free_def)

text \<open>A better item is never stored already.\<close>

lemma no_conflict:
  assumes inv: "heads_inv U s" and x: "(c, e, ch) \<in> U" and clear: "cleared now (slot_of (c, e, ch)) s s0"
    and row: "item_of row = (c, e, ch)" "er_at row = created_secs e"
    and better: "\<And>r. head_row (\<lambda>r. slot_of (item_of r) = slot_of (c, e, ch)) s = Some r \<Longrightarrow> row_rank row < row_rank r"
    and y: "y \<in> set (ed_events s0)"
  shows "row_key y \<noteq> row_key row"
proof
  assume key: "row_key y = row_key row"
  obtain z where z: "z \<in> set (ed_events s)" "row_key y = row_key z" "row_rank y = row_rank z" "item_of y = item_of z"
    using cleared_row [OF clear y] by metis
  have "item_of z \<in> U" using inv z by (auto simp: heads_inv_def rows_ok_def)
  moreover have "er_community z = c" "ev_id (er_event z) = ev_id e"
    using key z(2) row(1) by (auto simp: row_key_def row_id_def item_of_def)
  ultimately have "item_of z = (c, e, ch)"
    using collision_freeD [OF _ x, of "er_event z" "er_channel z"] inv by (simp add: heads_inv_def item_of_def)
  then obtain r where r: "r \<in> set (ed_events s)" "live r" "slot_of (item_of r) = slot_of (c, e, ch)" "row_rank r \<le> row_rank z"
    using inv z(1) unfolding heads_inv_def head_below_def by metis
  with better have "row_rank row < row_rank r" using slot_row [OF inv] by blast
  moreover have "row_rank z = row_rank row" using key z by (simp add: row_key_def row_rank_def)
  ultimately show False using r by simp
qed

lemma put_row:
  assumes inv: "heads_inv U s" and x: "(c, e, ch) \<in> U" and k: "k = slot_of (c, e, ch)" and clear: "cleared now k s s0"
    and row: "item_of row = (c, e, ch)" "er_at row = created_secs e" "in_slot k row" "live row"
    and better: "\<And>r. head_row (\<lambda>r. slot_of (item_of r) = k) s = Some r \<Longrightarrow> row_rank row < row_rank r"
    and ev: "ed_events s' = ed_events s0 @ [row]"
    and wm: "\<And>q w. map_of (ed_watermarks s') q = Some w \<Longrightarrow>
               map_of (ed_watermarks s) q = Some w \<or> w = event_mark e \<and> coordinate_slot q = k \<and> fst q = c"
  shows "heads_inv U s'" and "slot_head s' k' = (if k = k' then Some (c, e, ch) else slot_head s k')"
proof -
  have parts: "collision_free U" "rows_ok U s" "one_live s" using inv by (simp_all add: heads_inv_def)
  have rank: "row_rank row = (- created_secs e, ev_id e)"
    using row by (simp add: row_rank_def row_id_def item_of_def)
  have live_rows: "y = row \<or> y \<in> set (ed_events s) \<and> slot_of (item_of y) \<noteq> k" if "y \<in> set (ed_events s')" "live y" for y
    using that cleared_row [OF clear, of y] by (auto simp: ev)
  have kept: "r \<in> set (ed_events s')" if "r \<in> set (ed_events s)" "slot_of (item_of r) \<noteq> k" for r
    using that clear by (auto simp: cleared_def ev)
  have below: "head_below s' q m" if "head_below s q m" for q m
  proof (cases "q = k")
    case True
    with that obtain r where r: "r \<in> set (ed_events s)" "live r" "slot_of (item_of r) = k" "row_rank r \<le> m"
      by (auto simp: head_below_def)
    with better have "row_rank row < row_rank r" using slot_row [OF inv] by blast
    with r row k True show ?thesis by (auto simp: head_below_def ev intro!: bexI [of _ row])
  next
    case False
    with that kept show ?thesis by (auto simp: head_below_def)
  qed
  have "row_key row \<notin> row_key ` set (ed_events s0)"
    using no_conflict [OF inv x clear [unfolded k] row(1,2) better [unfolded k]] by (metis (no_types) imageE)
  then have "distinct (map row_key (ed_events s'))"
    using clear by (simp add: ev cleared_def)
  moreover have "item_of y \<in> U \<and> er_at y = created_secs (er_event y) \<and> in_slot (slot_of (item_of y)) y"
    if y: "y \<in> set (ed_events s')" for y
  proof (cases "y = row")
    case True
    with row x k show ?thesis by (simp add: item_of_def)
  next
    case False
    with y obtain z where "z \<in> set (ed_events s)" "item_of y = item_of z" "\<And>q. in_slot q y = in_slot q z" "er_at y = er_at z" "er_event y = er_event z"
      using cleared_row [OF clear, of y] by (auto simp: ev)
    with parts(2) show ?thesis by (auto simp: rows_ok_def)
  qed
  ultimately have rows: "rows_ok U s'" by (simp add: rows_ok_def)
  have one: "one_live s'"
    unfolding one_live_def using live_rows parts(3) row k by (metis one_live_def)
  have heads: "head_below s' (slot_of (item_of y)) (row_rank y)" if y: "y \<in> set (ed_events s')" for y
  proof (cases "y = row")
    case True
    with row show ?thesis by (auto simp: head_below_def ev intro!: bexI [of _ row])
  next
    case False
    with y obtain z where "z \<in> set (ed_events s)" "item_of y = item_of z" "row_rank y = row_rank z"
      using cleared_row [OF clear, of y] by (auto simp: ev)
    then show ?thesis using inv below by (simp add: heads_inv_def)
  qed
  have marks: "head_below s' (coordinate_slot q) (- fst w, snd w) \<and> (\<exists>e ch. (fst q, e, ch) \<in> U \<and> w = event_mark e)"
    if "map_of (ed_watermarks s') q = Some w" for q w
    using wm [OF that]
  proof
    assume "map_of (ed_watermarks s) q = Some w"
    then have "head_below s (coordinate_slot q) (- fst w, snd w)" "\<exists>e ch. (fst q, e, ch) \<in> U \<and> w = event_mark e"
      using inv unfolding heads_inv_def by blast+
    with below show ?thesis by blast
  next
    assume w: "w = event_mark e \<and> coordinate_slot q = k \<and> fst q = c"
    then have "head_below s' (coordinate_slot q) (- fst w, snd w)"
      using row k rank by (auto simp: head_below_def ev intro!: bexI [of _ row])
    with w x show ?thesis by auto
  qed
  show inv': "heads_inv U s'" using parts(1) rows one heads marks by (simp add: heads_inv_def)
  have "head_row (\<lambda>r. slot_of (item_of r) = k') s' = (if k = k' then Some row else head_row (\<lambda>r. slot_of (item_of r) = k') s)"
  proof (cases "k = k'")
    case True
    have "head_row (\<lambda>r. slot_of (item_of r) = k') s' = Some row"
      unfolding slot_row [OF inv'] using row k True by (simp add: ev)
    with True show ?thesis by simp
  next
    case False
    have "head_row (\<lambda>r. slot_of (item_of r) = k') s' = Some r \<longleftrightarrow> head_row (\<lambda>r. slot_of (item_of r) = k') s = Some r" for r
      unfolding slot_row [OF inv'] slot_row [OF inv] using live_rows [of r] kept [of r] False row k by auto
    with False show ?thesis by (metis (full_types) not_None_eq)
  qed
  then show "slot_head s' k' = (if k = k' then Some (c, e, ch) else slot_head s k')"
    by (simp add: slot_head_def row)
qed

lemma item_rank_row:
  "item_of r = (c, e, ch) \<Longrightarrow> er_at r = created_secs e \<Longrightarrow> row_rank r = item_rank (c, e, ch)"
  by (auto simp: row_rank_def row_id_def item_of_def)

lemma slot_head_rank:
  assumes "heads_inv U s" "head_row (\<lambda>r. slot_of (item_of r) = k) s = Some r"
  shows "slot_head s k = Some (item_of r)" "row_rank r = item_rank (item_of r)" "row_mark r = event_mark (er_event r)" "item_of r \<in> U"
proof -
  have "r \<in> set (ed_events s)" using assms slot_row by blast
  then have "er_at r = created_secs (er_event r)" "item_of r \<in> U" using assms by (auto simp: heads_inv_def rows_ok_def)
  then show "slot_head s k = Some (item_of r)" "row_rank r = item_rank (item_of r)" "row_mark r = event_mark (er_event r)" "item_of r \<in> U"
    using assms(2) by (auto simp: slot_head_def row_rank_def row_id_def item_of_def row_mark_def)
qed

lemma insert_row_ok:
  assumes "\<not> db_refuses L r" "\<And>y. y \<in> set (ed_events s) \<Longrightarrow> row_key y \<noteq> row_key r"
    and "nip_rs_row r \<Longrightarrow> case map_of (ed_watermarks s) (row_coordinate r (the (er_d_tag r))) of None \<Rightarrow> True | Some w \<Rightarrow> advances (row_mark r) w"
  obtains s2 where "insert_row L r s = Inr (s2, True)" "ed_events s2 = ed_events s @ [r]"
    "ed_watermarks s2 = (if nip_rs_row r then AList.update (row_coordinate r (the (er_d_tag r))) (row_mark r) (ed_watermarks s) else ed_watermarks s)"
proof -
  have "\<not> list_ex (\<lambda>x. row_key x = row_key r) (ed_events s)" using assms(2) by (auto simp: list_ex_iff)
  with assms that show ?thesis
    by (cases "nip_rs_row r") (auto simp: insert_row_def insert_unless_present_def Let_def row_mark_def split: option.splits)
qed

definition item_ok :: "store_lib \<Rightarrow> item set \<Rightarrow> item \<Rightarrow> bool" where
  "item_ok L U x \<longleftrightarrow> x \<in> U \<and> item_storable L x"

lemma put_refused:
  assumes "heads_inv U s" "slot_head s (slot_of x) = Some y" "item_rank y \<le> item_rank x"
  shows "heads_inv U s \<and> slot_head s k = (if slot_of x = k then better item_rank (slot_head s k) x else slot_head s k)"
  using assms by (auto simp: not_less [symmetric])

lemma put_addressable:
  assumes inv: "heads_inv U s" and ok: "item_ok L U (c, e, ch)" and kind: "is_replaceable (event_kind_u32 e)"
    and s': "s' = fst (replace_addressable_event L now c e ch s)" and q: "q = slot_of (c, e, ch)"
  shows "heads_inv U s' \<and> slot_head s' k = (if q = k then better item_rank (slot_head s k) (c, e, ch) else slot_head s k)"
proof -
  let ?x = "(c, e, ch)" and ?row = "event_row_of now c e (created_secs e) ch None None"
  have x: "?x \<in> U" "item_storable L ?x" "valid_timestamp L (created_secs e)" using ok by (auto simp: item_ok_def)
  have d: "extract_d_tag e = None" using kind storage_classes_disjoint by (auto simp: extract_d_tag_def)
  have here: "at_address c (event_kind_u32 e) (ev_pubkey e) ch = in_slot q" using kind by (auto simp: fun_eq_iff q)
  have row: "item_of ?row = ?x" "er_at ?row = created_secs e" "in_slot q ?row" "live ?row"
    using kind by (auto simp: item_of_def live_def at_address_def q)
  let ?h = "head_row (\<lambda>r. slot_of (item_of r) = q) s"
  have hq: "head_row (in_slot q) s = ?h" using head_row_slot [OF inv x(2)] by (simp only: q)
  note [simp del] = slot_of.simps
  show ?thesis
  proof (cases "\<exists>r. ?h = Some r \<and> \<not> advances (event_mark e) (row_mark r)")
    case True
    then obtain r where r: "?h = Some r" "\<not> advances (event_mark e) (row_mark r)" by blast
    note hr = slot_head_rank [OF inv r(1)]
    have "s' = s"
      using r x(3) by (simp add: s' replace_addressable_event_def event_timestamp_def here hq Let_def)
    moreover have "item_rank (item_of r) \<le> item_rank ?x"
      using r(2) by (auto simp: hr(3) advances_rank item_of_def not_less)
    ultimately show ?thesis using put_refused [OF inv, of ?x] hr(1) by (simp add: q)
  next
    case False
    then have better: "row_rank ?row < row_rank r" if "?h = Some r" for r
      using that slot_head_rank [OF inv that] by (auto simp: advances_rank item_of_def row_rank_def)
    let ?s0 = "fst (soft_delete_where now (in_slot q) s)"
    have clear: "cleared now q s ?s0" using soft_delete_cleared [OF inv x(2)] by (simp only: q)
    obtain s2 where s2: "insert_row L ?row ?s0 = Inr (s2, True)" "ed_events s2 = ed_events ?s0 @ [?row]" "ed_watermarks s2 = ed_watermarks ?s0"
      by (rule insert_row_ok [of L ?row ?s0]) (use x no_conflict [OF inv x(1) clear [unfolded q] row(1,2) better [unfolded q]] in \<open>auto simp: q\<close>)
    have res: "s' = insert_mentions c e (created_secs e) ch s2"
      using False x(3) s2(1)
      by (simp add: s' replace_addressable_event_def event_timestamp_def here hq d Let_def split: option.split)
    have "better item_rank (slot_head s q) ?x = Some ?x"
      using better slot_head_rank [OF inv] item_rank_row [OF row(1,2)]
      by (cases ?h) (auto simp: slot_head_def)
    then show ?thesis
      using put_row(1) [OF inv x(1) q clear row better, of s'] put_row(2) [OF inv x(1) q clear row better, of s' k] s2
      by (auto simp: res)
  qed
qed

lemma replace_parameterized_accepts:
  assumes "valid_timestamp L (created_secs e)"
    and "\<And>r. head_row (coord_here c e d) s = Some r \<Longrightarrow> advances (event_mark e) (row_mark r) \<and> row_id r \<noteq> ev_id e"
    and "\<And>w. is_nip_rs e d \<Longrightarrow> map_of (ed_watermarks s) (c, event_kind_u32 e, ev_pubkey e, d) = Some w \<Longrightarrow>
           advances (event_mark e) w \<and> snd w \<noteq> ev_id e"
    and "insert_row L (coord_row now c e d ch)
           (supersede now (is_nip_rs e d \<or> is_buzz_mesh_status e d) (coord_here c e d) c (head_row (coord_here c e d) s) s) = Inr (s2, True)"
  shows "fst (replace_parameterized_event L now c e d ch s) =
    insert_mentions c e (created_secs e) ch
      (if is_nip_rs e d then s2\<lparr>ed_watermarks := AList.update (c, event_kind_u32 e, ev_pubkey e, d) (event_mark e) (ed_watermarks s2)\<rparr> else s2)"
proof -
  let ?h = "head_row (coord_here c e d) s"
  let ?wm = "if is_nip_rs e d then map_of (ed_watermarks s) (c, event_kind_u32 e, ev_pubkey e, d) else None"
  have "\<not> (map_option row_id ?h = Some (ev_id e) \<or> map_option snd ?wm = Some (ev_id e))"
    using assms(2,3) by (auto split: if_splits)
  moreover have "\<not> list_ex (\<lambda>old. \<not> advances (event_mark e) old)
      ((case ?h of Some r \<Rightarrow> [row_mark r] | None \<Rightarrow> []) @ (case ?wm of Some w \<Rightarrow> [w] | None \<Rightarrow> []))"
    using assms(2,3) by (auto split: option.splits if_splits)
  ultimately show ?thesis
    using assms(1,4)
    by (simp only: replace_parameterized_event_def replace_parameterized_event_in_transaction_def event_timestamp_def Let_def revision_status_def)
      auto
qed

lemma supersede_cleared:
  assumes "heads_inv U s" "item_storable L x" "q = slot_of x" "existing = head_row (\<lambda>r. slot_of (item_of r) = q) s"
  shows "cleared now q s (supersede now hard (in_slot q) c existing s)"
proof (cases existing)
  case None
  then have "\<not> (slot_of (item_of r) = q \<and> live r)" if "r \<in> set (ed_events s)" for r
    using that assms(4) slot_row [OF assms(1)] by (metis option.distinct(1))
  with None assms(1) show ?thesis by (auto simp: supersede_def cleared_def heads_inv_def rows_ok_def)
next
  case (Some r)
  have "cleared now q s (delete_mentions P (hard_delete_where (in_slot q) s))" for P
    using hard_delete_cleared [OF assms(1,2), of now] by (simp add: assms(3) cleared_def delete_mentions_def)
  with Some show ?thesis
    using soft_delete_cleared [OF assms(1,2), of now] by (simp add: supersede_def assms(3))
qed

lemma put_parameterized:
  assumes inv: "heads_inv U s" and ok: "item_ok L U (c, e, ch)" and kind: "\<not> is_replaceable (event_kind_u32 e)"
    and s': "s' = fst (replace_parameterized_event L now c e (item_d e) ch s)" and q: "q = slot_of (c, e, ch)"
  shows "heads_inv U s' \<and> slot_head s' k = (if q = k then better item_rank (slot_head s k) (c, e, ch) else slot_head s k)"
proof -
  let ?x = "(c, e, ch)" and ?row = "coord_row now c e (item_d e) ch" and ?coord = "(c, event_kind_u32 e, ev_pubkey e, item_d e)"
  have x: "?x \<in> U" "item_storable L ?x" "valid_timestamp L (created_secs e)" using ok by (auto simp: item_ok_def)
  have here: "coord_here c e (item_d e) = in_slot q" and qc: "coordinate_slot ?coord = q" using kind by (auto simp: fun_eq_iff q)
  have row: "item_of ?row = ?x" "er_at ?row = created_secs e" "in_slot q ?row" "live ?row"
    using kind by (auto simp: item_of_def live_def at_coordinate_def q)
  let ?h = "head_row (\<lambda>r. slot_of (item_of r) = q) s"
  have hq: "head_row (in_slot q) s = ?h" using head_row_slot [OF inv x(2)] by (simp only: q)
  have marks: "head_below s q (- fst w, snd w) \<and> (\<exists>e' ch'. (c, e', ch') \<in> U \<and> w = event_mark e')"
    if "map_of (ed_watermarks s) ?coord = Some w" for w
    using inv that qc unfolding heads_inv_def by (metis fst_conv)
  note [simp del] = slot_of.simps
  show ?thesis
  proof (cases "(\<exists>r. ?h = Some r \<and> \<not> advances (event_mark e) (row_mark r))
      \<or> (is_nip_rs e (item_d e) \<and> (\<exists>w. map_of (ed_watermarks s) ?coord = Some w \<and> \<not> advances (event_mark e) w))")
    case True
    obtain s1 res where r: "replace_parameterized_event L now c e (item_d e) ch s = (s1, res)"
      by (cases "replace_parameterized_event L now c e (item_d e) ch s")
    have "s' = s"
      using r by (cases rule: replace_parameterized_cases) (use True r s' in \<open>auto simp: here hq\<close>)
    moreover have "\<exists>y. slot_head s q = Some y \<and> item_rank y \<le> item_rank ?x"
      using True
    proof (elim disjE exE conjE)
      fix r assume r: "?h = Some r" "\<not> advances (event_mark e) (row_mark r)"
      with slot_head_rank [OF inv r(1)] show ?thesis by (auto simp: advances_rank item_of_def not_less)
    next
      fix w assume w: "map_of (ed_watermarks s) ?coord = Some w" "\<not> advances (event_mark e) w"
      then obtain r where r: "r \<in> set (ed_events s)" "live r" "slot_of (item_of r) = q" "row_rank r \<le> (- fst w, snd w)"
        using marks by (auto simp: head_below_def)
      then have h: "?h = Some r" using slot_row [OF inv] by blast
      have "(- fst w, snd w) \<le> item_rank ?x" using w(2) by (cases w) (auto simp: advances_rank not_less)
      with r(4) have "item_rank (item_of r) \<le> item_rank ?x" unfolding slot_head_rank(2) [OF inv h] by (rule order.trans)
      with slot_head_rank(1) [OF inv h] show ?thesis by blast
    qed
    ultimately show ?thesis using put_refused [OF inv, of ?x] by (auto simp: q)
  next
    case False
    then have adv: "advances (event_mark e) (row_mark r)" if "?h = Some r" for r using that by blast
    then have better: "row_rank ?row < row_rank r" if "?h = Some r" for r
      using that slot_head_rank [OF inv that] by (auto simp: advances_rank item_of_def row_rank_def)
    have fresh: "row_id r \<noteq> ev_id e" if h: "?h = Some r" for r
    proof
      assume i: "row_id r = ev_id e"
      have "in_slot q r" using h slot_row [OF inv] inv by (auto simp: heads_inv_def rows_ok_def)
      then have "er_community r = c" by (simp add: here [symmetric] at_coordinate_def)
      with i have "er_event r = e"
        using collision_freeD [OF _ x(1), of "er_event r" "er_channel r"] slot_head_rank(4) [OF inv h] inv
        by (auto simp: row_id_def item_of_def heads_inv_def)
      with adv [OF h] slot_head_rank(3) [OF inv h] show False by (simp add: advances_def)
    qed
    have wfresh: "advances (event_mark e) w \<and> snd w \<noteq> ev_id e"
      if rs: "is_nip_rs e (item_d e)" and w: "map_of (ed_watermarks s) ?coord = Some w" for w
    proof -
      obtain e' ch' where e': "(c, e', ch') \<in> U" "w = event_mark e'" using marks [OF w] by blast
      have adv: "advances (event_mark e) w" using False rs w by blast
      have "snd w \<noteq> ev_id e"
      proof
        assume "snd w = ev_id e"
        then have "e = e'" using collision_freeD [OF _ x(1) e'(1)] e'(2) inv by (simp add: heads_inv_def)
        with adv e'(2) show False by (simp add: advances_def)
      qed
      with adv show ?thesis by simp
    qed
    let ?s0 = "supersede now (is_nip_rs e (item_d e) \<or> is_buzz_mesh_status e (item_d e)) (in_slot q) c ?h s"
    have clear: "cleared now q s ?s0" by (rule supersede_cleared [OF inv x(2) q refl])
    obtain s2 where s2: "insert_row L ?row ?s0 = Inr (s2, True)" "ed_events s2 = ed_events ?s0 @ [?row]"
      "ed_watermarks s2 = (if is_nip_rs e (item_d e) then AList.update ?coord (event_mark e) (ed_watermarks s) else ed_watermarks s)"
      by (rule insert_row_ok [of L ?row ?s0])
        (use x wfresh no_conflict [OF inv x(1) clear [unfolded q] row(1,2) better [unfolded q]]
          in \<open>auto simp: q row_mark_def split: option.split\<close>)
    have res: "s' = insert_mentions c e (created_secs e) ch
        (if is_nip_rs e (item_d e) then s2\<lparr>ed_watermarks := AList.update ?coord (event_mark e) (ed_watermarks s2)\<rparr> else s2)"
      unfolding s' by (rule replace_parameterized_accepts) (use x(3) adv fresh wfresh s2(1) in \<open>auto simp: here hq\<close>)
    have ev: "ed_events s' = ed_events ?s0 @ [?row]" using s2(2) by (simp add: res)
    have wm: "map_of (ed_watermarks s) q' = Some w \<or> w = event_mark e \<and> coordinate_slot q' = q \<and> fst q' = c"
      if m: "map_of (ed_watermarks s') q' = Some w" for q' w
    proof (cases "q' = ?coord")
      case True
      with m s2(3) qc show ?thesis by (auto simp: res map_of_update split: if_splits)
    next
      case False
      with m s2(3) show ?thesis by (auto simp: res map_of_update split: if_splits)
    qed
    have "better item_rank (slot_head s q) ?x = Some ?x"
      using better slot_head_rank [OF inv] item_rank_row [OF row(1,2)]
      by (cases ?h) (auto simp: slot_head_def)
    then show ?thesis
      using put_row(1) [OF inv x(1) q clear row better ev wm] put_row(2) [OF inv x(1) q clear row better ev wm, of k] by auto
  qed
qed

interpretation heads: best_kept "put_item L" slot_head slot_of item_rank "heads_inv U" "item_ok L U" for L U
proof
  fix s t k and x :: item
  assume inv: "heads_inv U s" and ok: "item_ok L U x"
  obtain c e ch where x: "x = (c, e, ch)" by (cases x)
  have "heads_inv U (put_item L t x s) \<and>
      slot_head (put_item L t x s) k = (if slot_of x = k then better item_rank (slot_head s k) x else slot_head s k)"
  proof (cases "is_replaceable (event_kind_u32 e)")
    case True
    then show ?thesis using put_addressable [OF inv ok [unfolded x] True refl refl] by (simp add: x)
  next
    case False
    then show ?thesis using put_parameterized [OF inv ok [unfolded x] False refl refl] by (simp add: x)
  qed
  then show "heads_inv U (put_item L t x s)"
    and "slot_head (put_item L t x s) k = (if slot_of x = k then better item_rank (slot_head s k) x else slot_head s k)"
    by auto
qed

lemma heads_inv_empty: "collision_free U \<Longrightarrow> heads_inv U empty_event_db"
  by (simp add: heads_inv_def rows_ok_def one_live_def empty_event_db_def)

lemma slot_head_empty: "slot_head empty_event_db k = None"
  by (simp add: slot_head_def head_row_def empty_event_db_def newest_first_def first_row_def)

text \<open>The writes of a sequence of items, each at its time.\<close>

definition put_items :: "store_lib \<Rightarrow> (nat \<times> item) list \<Rightarrow> event_db" where
  "put_items L ops = fold (\<lambda>(t, x). put_item L t x) ops empty_event_db"

lemma heads_of_items:
  assumes "collision_free (snd ` set ops)" "list_all (item_storable L \<circ> snd) ops"
  shows "slot_head (put_items L ops) k = foldl (better item_rank) None (filter (\<lambda>x. slot_of x = k) (map snd ops))"
proof -
  have "list_all (item_ok L (snd ` set ops) \<circ> snd) ops"
    using assms(2) by (auto simp: list_all_iff item_ok_def)
  from heads.heads_after [OF heads_inv_empty [OF assms(1)] this] show ?thesis
    by (simp add: put_items_def slot_head_empty)
qed

lemma same_slot_same_rank:
  assumes "collision_free U" "x \<in> U" "y \<in> U" "slot_of x = slot_of y" "item_rank x = item_rank y"
  shows "x = y"
  using assms collision_freeD by (cases x; cases y) (fastforce split: if_splits)

lemma best_unique:
  assumes "set xs = set ys" and inj: "\<And>x y. x \<in> set xs \<Longrightarrow> y \<in> set xs \<Longrightarrow> rank x = rank y \<Longrightarrow> x = y"
  shows "foldl (better rank) None xs = foldl (better rank) None ys"
proof (cases "foldl (better rank) None xs"; cases "foldl (better rank) None ys")
  fix z z' assume z: "foldl (better rank) None xs = Some z" "foldl (better rank) None ys = Some z'"
  then have "z \<in> set xs" "z' \<in> set xs" "rank z \<le> rank z'" "rank z' \<le> rank z"
    using foldl_better_best [where rank = rank and xs = xs] foldl_better_best [where rank = rank and xs = ys] assms(1)
    by (auto simp: list_all_iff)
  with z inj show ?thesis by force
qed (use foldl_better_best [where rank = rank and xs = xs] foldl_better_best [where rank = rank and xs = ys] assms(1) in auto)

lemma best_of_filter:
  "case foldl (better rank) None (filter P xs) of
     None \<Rightarrow> list_all (\<lambda>x. \<not> P x) xs
   | Some z \<Rightarrow> z \<in> set xs \<and> P z \<and> list_all (\<lambda>x. P x \<longrightarrow> rank z \<le> rank x) xs"
  using foldl_better_best [where rank = rank and xs = "filter P xs"]
  by (auto simp: list_all_iff filter_empty_conv split: option.splits)

text \<open>
  C10. Whatever order, timing and repetition the events of replaceable and addressable kinds arrive in, the
  database keeps for each author and address the same live event: the newest of those that arrived, the
  smallest id among equally new ones.
\<close>

theorem replaceable_heads_converge:
  assumes "collision_free (snd ` set ops)" and "list_all (item_storable L \<circ> snd) ops"
    and "snd ` set ops' = snd ` set ops"
  shows "slot_head (put_items L ops') k = slot_head (put_items L ops) k
    \<and> (case slot_head (put_items L ops) k of
           None \<Rightarrow> list_all (\<lambda>x. slot_of x \<noteq> k) (map snd ops)
         | Some z \<Rightarrow> z \<in> set (map snd ops) \<and> slot_of z = k \<and> list_all (\<lambda>x. slot_of x = k \<longrightarrow> item_rank z \<le> item_rank x) (map snd ops))"
proof
  let ?in = "\<lambda>ops. filter (\<lambda>x. slot_of x = k) (map snd ops)"
  have "list_all (item_storable L \<circ> snd) os \<longleftrightarrow> (\<forall>x \<in> snd ` set os. item_storable L x)" for os
    by (simp add: list_all_iff)
  with assms(2,3) have "list_all (item_storable L \<circ> snd) ops'" by metis
  then have h: "slot_head (put_items L ops) k = foldl (better item_rank) None (?in ops)"
    "slot_head (put_items L ops') k = foldl (better item_rank) None (?in ops')"
    using heads_of_items assms by simp_all
  have sets: "set (?in ops') = set (?in ops)" using assms(3) by auto
  show "case slot_head (put_items L ops) k of
           None \<Rightarrow> list_all (\<lambda>x. slot_of x \<noteq> k) (map snd ops)
         | Some z \<Rightarrow> z \<in> set (map snd ops) \<and> slot_of z = k \<and> list_all (\<lambda>x. slot_of x = k \<longrightarrow> item_rank z \<le> item_rank x) (map snd ops)"
    unfolding h(1) by (rule best_of_filter)
  have "x = y" if "x \<in> set (?in ops')" "y \<in> set (?in ops')" "item_rank x = item_rank y" for x y
    using that assms(3) by (intro same_slot_same_rank [OF assms(1)]) auto
  then show "slot_head (put_items L ops') k = slot_head (put_items L ops) k"
    unfolding h by (rule best_unique [OF sets])
qed

text \<open>Two profiles of one author, in both orders.\<close>

definition demo_store :: store_lib where
  "demo_store =
     \<lparr>valid_timestamp = (\<lambda>t. True), event_parses = (\<lambda>e. True), json_parse = (\<lambda>s. None), uuid_parse = (\<lambda>s. None),
      uuid_display = (\<lambda>u. []), collate = (\<lambda>s. []), db_refuses = (\<lambda>r. False)\<rparr>"

definition demo_profile :: "byte \<Rightarrow> nat \<Rightarrow> event" where
  "demo_profile i t = \<lparr>ev_id = [i], ev_pubkey = [9], ev_created_at = t, ev_kind = 0, ev_tags = [], ev_content = [], ev_sig = []\<rparr>"

definition demo_writes :: "(nat \<times> item) list" where
  "demo_writes = [(100, 1, demo_profile 1 50, None), (101, 1, demo_profile 2 60, None)]"

theorem replaceable_heads_converge_witness:
  "slot_head (put_items demo_store (rev demo_writes)) (Address 1 0 [9] None) = slot_head (put_items demo_store demo_writes) (Address 1 0 [9] None)"
proof -
  have "collision_free (snd ` set demo_writes)"
    by (simp add: collision_free_def demo_writes_def demo_profile_def)
  moreover have "list_all (item_storable demo_store \<circ> snd) demo_writes"
    by (simp add: demo_writes_def demo_store_def demo_profile_def event_kind_u32_def is_replaceable_def)
  ultimately show ?thesis
    using replaceable_heads_converge [of demo_writes demo_store "rev demo_writes" "Address 1 0 [9] None"] by simp
qed

end
