(* ===== verification/Channel_Store.thy ===== *)
theory Channel_Store
  imports Channel Nostr_Event "HOL-Library.List_Lexorder" "HOL-Library.Product_Lexorder"
begin

text \<open>
  The tables of channels, members and users (\<open>buzz-db/src/channel.rs\<close>, \<open>dm.rs\<close>, \<open>user.rs\<close>), with each
  statement of these files as a function.  A table is an association list from its primary key to the rest
  of the row.  A transaction is one step: it returns an error and leaves the tables, or it returns the new
  tables with its result.  The membership lock that serializes \<open>add_member\<close> and \<open>remove_member\<close> is what makes
  each of them one step.

  Instants are microseconds; \<open>NOW()\<close> is the argument \<open>now\<close>, \<open>Uuid::new_v4()\<close> the argument \<open>fresh\<close>.  The columns
  \<open>nip29_group_id\<close>, \<open>topic_required\<close> and \<open>max_members\<close>, which no statement writes, are left out.
\<close>

section \<open>Rows\<close>

record channel_row =
  ch_name :: ustr
  ch_type :: channel_type
  ch_visibility :: channel_visibility
  ch_description :: "ustr option"
  ch_canvas :: "ustr option"
  ch_created_by :: pubkey
  ch_created_at :: int
  ch_updated_at :: int
  ch_archived_at :: "int option"
  ch_deleted_at :: "int option"
  ch_topic :: "ustr option"
  ch_topic_set_by :: "pubkey option"
  ch_topic_set_at :: "int option"
  ch_purpose :: "ustr option"
  ch_purpose_set_by :: "pubkey option"
  ch_purpose_set_at :: "int option"
  ch_participant_hash :: "byte list option"
  ch_ttl_seconds :: "int option"
  ch_ttl_deadline :: "int option"

record member_row =
  mb_role :: member_role
  mb_joined_at :: int
  mb_invited_by :: "pubkey option"
  mb_removed_at :: "int option"
  mb_removed_by :: "pubkey option"
  mb_hidden_at :: "int option"

datatype add_policy = Anyone | OwnerOnly | Nobody

fun add_policy_as_str :: "add_policy \<Rightarrow> string" where
  "add_policy_as_str Anyone = ''anyone''"
| "add_policy_as_str OwnerOnly = ''owner_only''"
| "add_policy_as_str Nobody = ''nobody''"

definition add_policy_from_str :: "string \<Rightarrow> string + add_policy" where
  "add_policy_from_str s =
     (if s = ''anyone'' then Inr Anyone
      else if s = ''owner_only'' then Inr OwnerOnly
      else if s = ''nobody'' then Inr Nobody
      else Inl s)"

record user_row =
  us_display_name :: "ustr option"
  us_avatar_url :: "ustr option"
  us_about :: "ustr option"
  us_nip05_handle :: "ustr option"
  us_agent_owner :: "pubkey option"
  us_add_policy :: add_policy

record channel_db =
  cd_channels :: "(uuid \<times> uuid, channel_row) amap"
  cd_members :: "(uuid \<times> uuid \<times> pubkey, member_row) amap"
  cd_users :: "(uuid \<times> pubkey, user_row) amap"

definition empty_channel_db :: channel_db where
  "empty_channel_db = \<lparr>cd_channels = [], cd_members = [], cd_users = []\<rparr>"

text \<open>
  The database and the hash function as these files see them: a community's host in the table of
  communities, whether it is archived, whether the write fence of migration 0029 lets its rows be written,
  \<open>LOWER\<close> and the collation of names, and SHA-256.
\<close>

record channel_lib =
  community_host :: "uuid \<Rightarrow> string option"
  community_archived :: "uuid \<Rightarrow> bool"
  community_writable :: "uuid \<Rightarrow> bool"
  sql_lower :: "ustr \<Rightarrow> ustr"
  name_collate :: "ustr \<Rightarrow> nat list"
  sha256 :: "byte list \<Rightarrow> byte list"

datatype channel_error =
  InvalidPubkey | NilChannelId | NameRequired | Refused | ChannelNotFound
| InviteRequired | InviterNotMember | ElevatedDenied | RoleChangeDenied | LastOwnerDemoted
| ActorNotMember | RemovalDenied | LastOwnerRemoved | MemberNotFound
| NothingToUpdate | AlreadyArchived | NotArchived
| TooFewParticipants | TooManyParticipants | NoActiveMembership | UserNotFound | InvalidPolicy

text \<open>\<open>TEXT\<close> and \<open>VARCHAR(255)\<close> columns hold no NUL character.\<close>

definition text_ok :: "ustr \<Rightarrow> bool" where
  "text_ok s \<longleftrightarrow> 0 \<notin> set s"

definition name_ok :: "ustr \<Rightarrow> bool" where
  "name_ok s \<longleftrightarrow> text_ok s \<and> length s \<le> 255"

definition seconds :: "int \<Rightarrow> int" where
  "seconds s = 1000000 * s"

section \<open>Channels\<close>

definition put_channel :: "uuid \<Rightarrow> uuid \<Rightarrow> channel_row \<Rightarrow> channel_db \<Rightarrow> channel_db" where
  "put_channel c ch r db = db\<lparr>cd_channels := AList.update (c, ch) r (cd_channels db)\<rparr>"

text \<open>\<open>INSERT INTO channel_members ... ON CONFLICT ... DO UPDATE SET removed_at = NULL, removed_by = NULL, role\<close>.\<close>

definition upsert_member :: "int \<Rightarrow> uuid \<Rightarrow> uuid \<Rightarrow> pubkey \<Rightarrow> member_role \<Rightarrow> pubkey option \<Rightarrow> channel_db \<Rightarrow> channel_db" where
  "upsert_member now c ch pk role invited_by db =
     db\<lparr>cd_members := AList.update (c, ch, pk)
          (case map_of (cd_members db) (c, ch, pk) of
             Some m \<Rightarrow> m\<lparr>mb_role := role, mb_removed_at := None, mb_removed_by := None\<rparr>
           | None \<Rightarrow> \<lparr>mb_role = role, mb_joined_at = now, mb_invited_by = invited_by, mb_removed_at = None,
                      mb_removed_by = None, mb_hidden_at = None\<rparr>)
          (cd_members db)\<rparr>"

definition new_channel ::
  "int \<Rightarrow> ustr \<Rightarrow> channel_type \<Rightarrow> channel_visibility \<Rightarrow> ustr option \<Rightarrow> pubkey \<Rightarrow> int option \<Rightarrow> byte list option \<Rightarrow> channel_row" where
  "new_channel now name t v description created_by ttl hash =
     \<lparr>ch_name = name, ch_type = t, ch_visibility = v, ch_description = description, ch_canvas = None,
      ch_created_by = created_by, ch_created_at = now, ch_updated_at = now, ch_archived_at = None,
      ch_deleted_at = None, ch_topic = None, ch_topic_set_by = None, ch_topic_set_at = None, ch_purpose = None,
      ch_purpose_set_by = None, ch_purpose_set_at = None, ch_participant_hash = hash, ch_ttl_seconds = ttl,
      ch_ttl_deadline = map_option (\<lambda>s. now + seconds s) ttl\<rparr>"

text \<open>What the table refuses of a new channel: a fenced community, the nil id, a text it cannot hold.\<close>

definition insert_refused :: "channel_lib \<Rightarrow> uuid \<Rightarrow> uuid \<Rightarrow> ustr \<Rightarrow> ustr option \<Rightarrow> bool" where
  "insert_refused L c ch name description \<longleftrightarrow>
     \<not> community_writable L c \<or> ch = 0 \<or> \<not> name_ok name \<or> \<not> opt_all text_ok description"

definition create_channel ::
  "channel_lib \<Rightarrow> int \<Rightarrow> uuid \<Rightarrow> uuid \<Rightarrow> ustr \<Rightarrow> channel_type \<Rightarrow> channel_visibility \<Rightarrow> ustr option \<Rightarrow> pubkey \<Rightarrow> int option \<Rightarrow> channel_db
     \<Rightarrow> channel_error + (channel_db \<times> uuid \<times> channel_row)" where
  "create_channel L now fresh c name t v description created_by ttl db =
     (if length created_by \<noteq> 32 then Inl InvalidPubkey
      else let name = canonical_channel_name name
      in if trim name = [] then Inl NameRequired
      else if insert_refused L c fresh name description \<or> map_of (cd_channels db) (c, fresh) \<noteq> None then Inl Refused
      else let r = new_channel now name t v description created_by ttl None
      in Inr (upsert_member now c fresh created_by Owner (Some created_by) (put_channel c fresh r db), fresh, r))"

definition create_channel_with_id ::
  "channel_lib \<Rightarrow> int \<Rightarrow> uuid \<Rightarrow> uuid \<Rightarrow> ustr \<Rightarrow> channel_type \<Rightarrow> channel_visibility \<Rightarrow> ustr option \<Rightarrow> pubkey \<Rightarrow> int option \<Rightarrow> channel_db
     \<Rightarrow> channel_error + (channel_db \<times> channel_row \<times> bool)" where
  "create_channel_with_id L now c ch name t v description created_by ttl db =
     (if length created_by \<noteq> 32 then Inl InvalidPubkey
      else if ch = 0 then Inl NilChannelId
      else let name = canonical_channel_name name
      in if trim name = [] then Inl NameRequired
      else if insert_refused L c ch name description then Inl Refused
      else case map_of (cd_channels db) (c, ch) of
        Some r \<Rightarrow> Inr (db, r, False)
      | None \<Rightarrow>
          let r = new_channel now name t v description created_by ttl None
          in Inr (upsert_member now c ch created_by Owner (Some created_by) (put_channel c ch r db), r, True))"

definition live_channel :: "uuid \<Rightarrow> uuid \<Rightarrow> channel_db \<Rightarrow> channel_row option" where
  "live_channel c ch db =
     (case map_of (cd_channels db) (c, ch) of
        Some r \<Rightarrow> if ch_deleted_at r = None then Some r else None
      | None \<Rightarrow> None)"

definition get_channel :: "uuid \<Rightarrow> uuid \<Rightarrow> channel_db \<Rightarrow> channel_error + channel_row" where
  "get_channel c ch db = ok_or ChannelNotFound (live_channel c ch db)"

definition get_canvas :: "uuid \<Rightarrow> uuid \<Rightarrow> channel_db \<Rightarrow> channel_error + ustr option" where
  "get_canvas c ch db = bind_result (get_channel c ch db) (\<lambda>r. Inr (ch_canvas r))"

text \<open>\<open>UPDATE channels SET ... WHERE community_id AND id AND deleted_at IS NULL\<close>, an error when no row is left.\<close>

definition update_live ::
  "channel_lib \<Rightarrow> uuid \<Rightarrow> uuid \<Rightarrow> (channel_row \<Rightarrow> channel_row) \<Rightarrow> channel_db \<Rightarrow> channel_error + channel_db" where
  "update_live L c ch f db =
     (case live_channel c ch db of
        None \<Rightarrow> Inl ChannelNotFound
      | Some r \<Rightarrow> if community_writable L c then Inr (put_channel c ch (f r) db) else Inl Refused)"

definition set_canvas :: "channel_lib \<Rightarrow> uuid \<Rightarrow> uuid \<Rightarrow> ustr option \<Rightarrow> channel_db \<Rightarrow> channel_error + channel_db" where
  "set_canvas L c ch canvas db =
     (if \<not> opt_all text_ok canvas then Inl Refused
      else update_live L c ch (\<lambda>r. r\<lparr>ch_canvas := canvas\<rparr>) db)"

section \<open>Members\<close>

definition active_member :: "uuid \<Rightarrow> uuid \<Rightarrow> pubkey \<Rightarrow> channel_db \<Rightarrow> member_row option" where
  "active_member c ch pk db =
     (case map_of (cd_members db) (c, ch, pk) of
        Some m \<Rightarrow> if mb_removed_at m = None then Some m else None
      | None \<Rightarrow> None)"

definition get_active_role_tx :: "uuid \<Rightarrow> uuid \<Rightarrow> pubkey \<Rightarrow> channel_db \<Rightarrow> member_role option" where
  "get_active_role_tx c ch pk db = map_option mb_role (active_member c ch pk db)"

definition owner_count :: "uuid \<Rightarrow> uuid \<Rightarrow> channel_db \<Rightarrow> nat" where
  "owner_count c ch db =
     length (filter (\<lambda>((c', ch', pk), m). c' = c \<and> ch' = ch \<and> mb_role m = Owner \<and> mb_removed_at m = None) (cd_members db))"

definition elevated_role :: "member_role option \<Rightarrow> bool" where
  "elevated_role r \<longleftrightarrow> (case r of Some r \<Rightarrow> is_elevated r | None \<Rightarrow> False)"

text \<open>The role a new membership gets, or why it gets none.\<close>

definition effective_role ::
  "uuid \<Rightarrow> uuid \<Rightarrow> channel_row \<Rightarrow> pubkey \<Rightarrow> member_role \<Rightarrow> pubkey option \<Rightarrow> channel_db \<Rightarrow> channel_error + member_role" where
  "effective_role c ch r pk role invited_by db =
     (if ch_visibility r = Private then
        (case invited_by of
           None \<Rightarrow> Inl InviteRequired
         | Some inviter \<Rightarrow>
             if inviter = pk \<and> inviter = ch_created_by r then Inr role
             else case get_active_role_tx c ch inviter db of
                    None \<Rightarrow> Inl InviterNotMember
                  | Some q \<Rightarrow> if is_elevated role \<and> \<not> is_elevated q then Inl ElevatedDenied else Inr role)
      else if is_elevated role then
        (if elevated_role (Option.bind invited_by (\<lambda>i. get_active_role_tx c ch i db)) then Inr role else Inl ElevatedDenied)
      else Inr role)"

definition add_member ::
  "channel_lib \<Rightarrow> int \<Rightarrow> uuid \<Rightarrow> uuid \<Rightarrow> pubkey \<Rightarrow> member_role \<Rightarrow> pubkey option \<Rightarrow> channel_db \<Rightarrow> channel_error + channel_db" where
  "add_member L now c ch pk role invited_by db =
     (if length pk \<noteq> 32 then Inl InvalidPubkey
      else bind_result (get_channel c ch db) (\<lambda>r.
        bind_result (effective_role c ch r pk role invited_by db) (\<lambda>role'.
          let current = get_active_role_tx c ch pk db;
              changes = (current \<noteq> None \<and> current \<noteq> Some role');
              actor = Option.bind invited_by (\<lambda>i. get_active_role_tx c ch i db)
          in if changes \<and> \<not> elevated_role actor then Inl RoleChangeDenied
             else if changes \<and> current = Some Owner \<and> role' \<noteq> Owner \<and> owner_count c ch db \<le> 1 then Inl LastOwnerDemoted
             else if \<not> community_writable L c then Inl Refused
             else Inr (upsert_member now c ch pk role' invited_by db))))"

text \<open>\<open>SELECT agent_owner_pubkey = $3 FROM users ... AND agent_owner_pubkey IS NOT NULL\<close>.\<close>

definition is_agent_owner :: "uuid \<Rightarrow> pubkey \<Rightarrow> pubkey \<Rightarrow> channel_db \<Rightarrow> bool" where
  "is_agent_owner c target actor db =
     (case map_of (cd_users db) (c, target) of Some u \<Rightarrow> us_agent_owner u = Some actor | None \<Rightarrow> False)"

definition remove_member ::
  "channel_lib \<Rightarrow> int \<Rightarrow> uuid \<Rightarrow> uuid \<Rightarrow> pubkey \<Rightarrow> pubkey \<Rightarrow> channel_db \<Rightarrow> channel_error + channel_db" where
  "remove_member L now c ch pk actor db =
     bind_result
       (if pk = actor then Inr ()
        else case get_active_role_tx c ch actor db of
               None \<Rightarrow> Inl ActorNotMember
             | Some q \<Rightarrow> if \<not> is_elevated q \<and> \<not> is_agent_owner c pk actor db then Inl RemovalDenied else Inr ())
       (\<lambda>_. if get_active_role_tx c ch pk db = Some Owner \<and> owner_count c ch db \<le> 1 then Inl LastOwnerRemoved
             else case active_member c ch pk db of
                    None \<Rightarrow> Inl MemberNotFound
                  | Some m \<Rightarrow>
                      if community_writable L c
                      then Inr (db\<lparr>cd_members := AList.update (c, ch, pk)
                                     (m\<lparr>mb_removed_at := Some now, mb_removed_by := Some actor\<rparr>) (cd_members db)\<rparr>)
                      else Inl Refused)"

text \<open>\<open>JOIN channels c ON ... AND c.deleted_at IS NULL\<close> with the active memberships.\<close>

definition is_member :: "uuid \<Rightarrow> uuid \<Rightarrow> pubkey \<Rightarrow> channel_db \<Rightarrow> bool" where
  "is_member c ch pk db \<longleftrightarrow> live_channel c ch db \<noteq> None \<and> active_member c ch pk db \<noteq> None"

definition get_member_role :: "uuid \<Rightarrow> uuid \<Rightarrow> pubkey \<Rightarrow> channel_db \<Rightarrow> member_role option" where
  "get_member_role c ch pk db = (if live_channel c ch db = None then None else get_active_role_tx c ch pk db)"

definition active_rows :: "(uuid \<Rightarrow> uuid \<Rightarrow> bool) \<Rightarrow> channel_db \<Rightarrow> ((uuid \<times> uuid \<times> pubkey) \<times> member_row) list" where
  "active_rows P db = filter (\<lambda>((c, ch, pk), m). P c ch \<and> mb_removed_at m = None) (cd_members db)"

definition membership_pairs :: "uuid \<Rightarrow> uuid list \<Rightarrow> pubkey list \<Rightarrow> channel_db \<Rightarrow> (uuid \<times> pubkey) list" where
  "membership_pairs c chs pks db =
     (if chs = [] \<or> pks = [] then []
      else map (\<lambda>((_, ch, pk), _). (ch, pk))
             (filter (\<lambda>((_, ch, pk), _). pk \<in> set pks)
               (active_rows (\<lambda>c' ch. c' = c \<and> ch \<in> set chs \<and> live_channel c ch db \<noteq> None) db)))"

text \<open>Members in the order they joined; rows that joined at the same instant are in table order.\<close>

definition get_members :: "uuid \<Rightarrow> uuid \<Rightarrow> channel_db \<Rightarrow> (pubkey \<times> member_row) list" where
  "get_members c ch db =
     map (\<lambda>((_, _, pk), m). (pk, m))
       (sort_key (\<lambda>(_, m). mb_joined_at m) (active_rows (\<lambda>c' ch'. c' = c \<and> ch' = ch \<and> live_channel c ch db \<noteq> None) db))"

definition get_members_bulk :: "uuid \<Rightarrow> uuid list \<Rightarrow> channel_db \<Rightarrow> (uuid \<times> pubkey \<times> member_row) list" where
  "get_members_bulk c chs db =
     map (\<lambda>((_, ch, pk), m). (ch, pk, m))
       (sort_key (\<lambda>(_, m). mb_joined_at m)
         (active_rows (\<lambda>c' ch. c' = c \<and> ch \<in> set chs \<and> live_channel c ch db \<noteq> None) db))"

definition get_member_count :: "uuid \<Rightarrow> uuid \<Rightarrow> channel_db \<Rightarrow> nat" where
  "get_member_count c ch db = length (active_rows (\<lambda>c' ch'. c' = c \<and> ch' = ch) db)"

definition get_member_counts_bulk :: "uuid \<Rightarrow> uuid list \<Rightarrow> channel_db \<Rightarrow> (uuid, nat) amap" where
  "get_member_counts_bulk c chs db =
     map (\<lambda>ch. (ch, get_member_count c ch db)) (filter (\<lambda>ch. get_member_count c ch db \<noteq> 0) (remdups chs))"

section \<open>Lists of channels\<close>

text \<open>\<open>UNION\<close> returns every id once, in no order the code relies on.\<close>

definition get_accessible_channel_ids :: "uuid \<Rightarrow> pubkey \<Rightarrow> channel_db \<Rightarrow> uuid list" where
  "get_accessible_channel_ids c pk db =
     remdups
       (map (\<lambda>((_, ch, _), _). ch)
          (filter (\<lambda>((_, _, pk'), _). pk' = pk) (active_rows (\<lambda>c' ch. c' = c \<and> live_channel c ch db \<noteq> None) db))
        @ map (\<lambda>((_, ch), _). ch)
            (filter (\<lambda>((c', _), r). c' = c \<and> ch_visibility r = Open \<and> ch_deleted_at r = None) (cd_channels db)))"

definition list_channels :: "uuid \<Rightarrow> string option \<Rightarrow> channel_db \<Rightarrow> (uuid \<times> channel_row) list" where
  "list_channels c visibility db =
     take 1000 (sort_key (\<lambda>(_, r). - ch_created_at r)
       (map (\<lambda>((_, ch), r). (ch, r))
         (filter (\<lambda>((c', _), r). c' = c \<and> ch_deleted_at r = None
                    \<and> opt_all (\<lambda>v. channel_visibility_as_str (ch_visibility r) = v) visibility) (cd_channels db))))"

text \<open>\<open>array_position(ARRAY['stream','forum','dm'], channel_type)\<close>; a type that is not listed sorts last.\<close>

fun type_position :: "channel_type \<Rightarrow> nat" where
  "type_position Stream = 1"
| "type_position Forum = 2"
| "type_position Dm = 3"
| "type_position Workflow = 4"

definition get_accessible_channels ::
  "channel_lib \<Rightarrow> uuid \<Rightarrow> pubkey \<Rightarrow> string option \<Rightarrow> bool option \<Rightarrow> channel_db \<Rightarrow> (uuid \<times> channel_row \<times> bool) list" where
  "get_accessible_channels L c pk visibility member_only db =
     take 1000 (sort_key (\<lambda>(_, r, _). (type_position (ch_type r), name_collate L (ch_name r)))
       (map (\<lambda>((_, ch), r). (ch, r, active_member c ch pk db \<noteq> None))
         (filter (\<lambda>((c', ch), r).
            let m = active_member c ch pk db
            in c' = c \<and> ch_deleted_at r = None
               \<and> (if member_only = Some True then m \<noteq> None else ch_visibility r = Open \<or> m \<noteq> None)
               \<and> (ch_type r \<noteq> Dm \<or> Option.bind m mb_hidden_at = None)
               \<and> opt_all (\<lambda>v. channel_visibility_as_str (ch_visibility r) = v) visibility)
           (cd_channels db))))"

section \<open>Channel metadata\<close>

record channel_update =
  cu_name :: "ustr option"
  cu_description :: "ustr option"
  cu_visibility :: "string option"
  cu_ttl_seconds :: "int option option"

definition no_update :: channel_update where
  "no_update = \<lparr>cu_name = None, cu_description = None, cu_visibility = None, cu_ttl_seconds = None\<rparr>"

definition apply_update :: "int \<Rightarrow> channel_update \<Rightarrow> channel_visibility option \<Rightarrow> channel_row \<Rightarrow> channel_row" where
  "apply_update now u v r =
     (let r1 = (case cu_name u of Some n \<Rightarrow> r\<lparr>ch_name := n\<rparr> | None \<Rightarrow> r);
          r2 = (case cu_description u of Some d \<Rightarrow> r1\<lparr>ch_description := Some d\<rparr> | None \<Rightarrow> r1);
          r3 = (case v of Some v \<Rightarrow> r2\<lparr>ch_visibility := v\<rparr> | None \<Rightarrow> r2);
          r4 = (case cu_ttl_seconds u of
                  Some t \<Rightarrow> r3\<lparr>ch_ttl_seconds := t, ch_ttl_deadline := map_option (\<lambda>s. now + seconds s) t\<rparr>
                | None \<Rightarrow> r3)
      in r4\<lparr>ch_updated_at := now\<rparr>)"

definition update_channel ::
  "channel_lib \<Rightarrow> int \<Rightarrow> uuid \<Rightarrow> uuid \<Rightarrow> channel_update \<Rightarrow> channel_db \<Rightarrow> channel_error + (channel_db \<times> channel_row)" where
  "update_channel L now c ch u db =
     (if cu_name u = None \<and> cu_description u = None \<and> cu_visibility u = None \<and> cu_ttl_seconds u = None
      then Inl NothingToUpdate
      else let u = u\<lparr>cu_name := map_option canonical_channel_name (cu_name u)\<rparr>
      in if cu_name u = Some [] then Inl NameRequired
      else if \<not> opt_all name_ok (cu_name u) \<or> \<not> opt_all text_ok (cu_description u) then Inl Refused
      else bind_result
             (case cu_visibility u of
                None \<Rightarrow> Inr None
              | Some s \<Rightarrow> (case channel_visibility_from_str s of Inl _ \<Rightarrow> Inl Refused | Inr v \<Rightarrow> Inr (Some v)))
             (\<lambda>v. bind_result (update_live L c ch (apply_update now u v) db)
               (\<lambda>db'. bind_result (get_channel c ch db') (\<lambda>r. Inr (db', r)))))"

definition set_topic :: "channel_lib \<Rightarrow> int \<Rightarrow> uuid \<Rightarrow> uuid \<Rightarrow> ustr \<Rightarrow> pubkey \<Rightarrow> channel_db \<Rightarrow> channel_error + channel_db" where
  "set_topic L now c ch topic set_by db =
     (if \<not> text_ok topic then Inl Refused
      else update_live L c ch
             (\<lambda>r. r\<lparr>ch_topic := Some topic, ch_topic_set_by := Some set_by, ch_topic_set_at := Some now\<rparr>) db)"

definition set_purpose :: "channel_lib \<Rightarrow> int \<Rightarrow> uuid \<Rightarrow> uuid \<Rightarrow> ustr \<Rightarrow> pubkey \<Rightarrow> channel_db \<Rightarrow> channel_error + channel_db" where
  "set_purpose L now c ch purpose set_by db =
     (if \<not> text_ok purpose then Inl Refused
      else update_live L c ch
             (\<lambda>r. r\<lparr>ch_purpose := Some purpose, ch_purpose_set_by := Some set_by, ch_purpose_set_at := Some now\<rparr>) db)"

definition archive_channel :: "channel_lib \<Rightarrow> int \<Rightarrow> uuid \<Rightarrow> uuid \<Rightarrow> channel_db \<Rightarrow> channel_error + channel_db" where
  "archive_channel L now c ch db =
     bind_result (get_channel c ch db) (\<lambda>r.
       if ch_archived_at r \<noteq> None then Inl AlreadyArchived
       else update_live L c ch (\<lambda>r. r\<lparr>ch_archived_at := Some now\<rparr>) db)"

definition unarchive_channel :: "channel_lib \<Rightarrow> int \<Rightarrow> uuid \<Rightarrow> uuid \<Rightarrow> channel_db \<Rightarrow> channel_error + channel_db" where
  "unarchive_channel L now c ch db =
     bind_result (get_channel c ch db) (\<lambda>r.
       if ch_archived_at r = None then Inl NotArchived
       else update_live L c ch
              (\<lambda>r. r\<lparr>ch_archived_at := None,
                     ch_ttl_deadline := (case ch_ttl_seconds r of Some s \<Rightarrow> Some (now + seconds s) | None \<Rightarrow> ch_ttl_deadline r)\<rparr>) db)"

definition soft_delete_channel :: "channel_lib \<Rightarrow> int \<Rightarrow> uuid \<Rightarrow> uuid \<Rightarrow> channel_db \<Rightarrow> channel_error + (channel_db \<times> bool)" where
  "soft_delete_channel L now c ch db =
     (case update_live L c ch (\<lambda>r. r\<lparr>ch_deleted_at := Some now\<rparr>) db of
        Inl ChannelNotFound \<Rightarrow> Inr (db, False)
      | Inl e \<Rightarrow> Inl e
      | Inr db' \<Rightarrow> Inr (db', True))"

definition is_expired :: "channel_lib \<Rightarrow> int \<Rightarrow> (uuid \<times> uuid) \<times> channel_row \<Rightarrow> bool" where
  "is_expired L now x =
     (case x of ((c, ch), r) \<Rightarrow>
        ch_ttl_seconds r \<noteq> None \<and> (case ch_ttl_deadline r of Some d \<Rightarrow> d < now | None \<Rightarrow> False)
        \<and> ch_archived_at r = None \<and> ch_deleted_at r = None
        \<and> community_host L c \<noteq> None \<and> \<not> community_archived L c \<and> community_writable L c)"

definition reap_expired_ephemeral_channels ::
  "channel_lib \<Rightarrow> int \<Rightarrow> channel_db \<Rightarrow> channel_db \<times> (uuid \<times> string option \<times> uuid) list" where
  "reap_expired_ephemeral_channels L now db =
     (db\<lparr>cd_channels := map (\<lambda>x. if is_expired L now x then (fst x, (snd x)\<lparr>ch_archived_at := Some now\<rparr>) else x) (cd_channels db)\<rparr>,
      map (\<lambda>((c, ch), _). (c, community_host L c, ch)) (filter (is_expired L now) (cd_channels db)))"

text \<open>
  The trigger of migration 0024 on a stored event with a channel: an ephemeral channel that is neither
  archived nor deleted gets a new deadline; a failure of the refresh does not refuse the event.
\<close>

definition refresh_channel_ttl :: "channel_lib \<Rightarrow> int \<Rightarrow> uuid \<Rightarrow> uuid option \<Rightarrow> nat \<Rightarrow> channel_db \<Rightarrow> channel_db" where
  "refresh_channel_ttl L now c channel kind db =
     (case channel of
        None \<Rightarrow> db
      | Some ch \<Rightarrow>
          if kind = 9007 then db
          else case live_channel c ch db of
                 None \<Rightarrow> db
               | Some r \<Rightarrow>
                   (case ch_ttl_seconds r of
                      None \<Rightarrow> db
                    | Some s \<Rightarrow>
                        if ch_archived_at r = None \<and> community_writable L c
                        then put_channel c ch (r\<lparr>ch_ttl_deadline := Some (now + seconds s)\<rparr>) db
                        else db))"

section \<open>Direct messages\<close>

text \<open>\<open>sort_unstable\<close> and \<open>dedup\<close> before hashing.\<close>

definition compute_participant_hash :: "channel_lib \<Rightarrow> pubkey list \<Rightarrow> byte list" where
  "compute_participant_hash L pks = sha256 L (concat (remdups_adj (sort pks)))"

definition find_dm_by_participants :: "uuid \<Rightarrow> byte list \<Rightarrow> channel_db \<Rightarrow> (uuid \<times> channel_row) option" where
  "find_dm_by_participants c h db =
     map_option (\<lambda>((_, ch), r). (ch, r))
       (find (\<lambda>((c', _), r). c' = c \<and> ch_participant_hash r = Some h \<and> ch_type r = Dm \<and> ch_deleted_at r = None) (cd_channels db))"

definition dm_name :: "nat \<Rightarrow> ustr" where
  "dm_name n = (if n = 2 then ascii ''DM'' else ascii (''Group DM ('' @ show_nat n @ '')''))"

text \<open>The index \<open>idx_channels_dm_hash\<close>: a hash occurs once in a community, on deleted channels too.\<close>

definition dm_hash_taken :: "uuid \<Rightarrow> byte list \<Rightarrow> channel_db \<Rightarrow> bool" where
  "dm_hash_taken c h db \<longleftrightarrow> list_ex (\<lambda>((c', _), r). c' = c \<and> ch_participant_hash r = Some h) (cd_channels db)"

definition create_dm ::
  "channel_lib \<Rightarrow> int \<Rightarrow> uuid \<Rightarrow> uuid \<Rightarrow> pubkey list \<Rightarrow> pubkey \<Rightarrow> channel_db \<Rightarrow> channel_error + (channel_db \<times> uuid \<times> channel_row)" where
  "create_dm L now fresh c participants created_by db =
     (if length participants < 2 then Inl TooFewParticipants
      else if length participants > 9 then Inl TooManyParticipants
      else if \<not> list_all (\<lambda>pk. length pk = 32) participants then Inl InvalidPubkey
      else let h = compute_participant_hash L participants
      in case find_dm_by_participants c h db of
           Some (ch, r) \<Rightarrow> Inr (db, ch, r)
         | None \<Rightarrow>
             let name = dm_name (length participants)
             in if insert_refused L c fresh name None \<or> map_of (cd_channels db) (c, fresh) \<noteq> None \<or> dm_hash_taken c h db
                then Inl Refused
                else let r = new_channel now name Dm Private None created_by None (Some h)
                in Inr (fold (\<lambda>pk. upsert_member now c fresh pk Member (Some created_by)) participants (put_channel c fresh r db),
                        fresh, r))"

text \<open>\<open>UPDATE channel_members SET hidden_at ... AND removed_at IS NULL\<close>; \<open>None\<close> when the write fence refuses the row.\<close>

definition set_hidden :: "channel_lib \<Rightarrow> int option \<Rightarrow> uuid \<Rightarrow> uuid \<Rightarrow> pubkey \<Rightarrow> channel_db \<Rightarrow> (channel_db \<times> bool) option" where
  "set_hidden L h c ch pk db =
     (case active_member c ch pk db of
        None \<Rightarrow> Some (db, False)
      | Some m \<Rightarrow>
          if community_writable L c
          then Some (db\<lparr>cd_members := AList.update (c, ch, pk) (m\<lparr>mb_hidden_at := h\<rparr>) (cd_members db)\<rparr>, True)
          else None)"

definition hide_dm :: "channel_lib \<Rightarrow> int \<Rightarrow> uuid \<Rightarrow> uuid \<Rightarrow> pubkey \<Rightarrow> channel_db \<Rightarrow> channel_error + channel_db" where
  "hide_dm L now c ch pk db =
     bind_result (ok_or Refused (set_hidden L (Some now) c ch pk db)) (\<lambda>(db', updated).
       if updated then Inr db' else Inl NoActiveMembership)"

definition unhide_dm :: "channel_lib \<Rightarrow> uuid \<Rightarrow> uuid \<Rightarrow> pubkey \<Rightarrow> channel_db \<Rightarrow> channel_error + channel_db" where
  "unhide_dm L c ch pk db = bind_result (ok_or Refused (set_hidden L None c ch pk db)) (\<lambda>(db', _). Inr db')"

definition open_dm ::
  "channel_lib \<Rightarrow> int \<Rightarrow> uuid \<Rightarrow> uuid \<Rightarrow> pubkey list \<Rightarrow> pubkey \<Rightarrow> channel_db
     \<Rightarrow> channel_error + (channel_db \<times> (uuid \<times> channel_row) \<times> bool)" where
  "open_dm L now fresh c pubkeys created_by db =
     (let everyone = (if created_by \<in> set pubkeys then pubkeys else pubkeys @ [created_by])
      in if length everyone > 9 then Inl TooManyParticipants
         else case find_dm_by_participants c (compute_participant_hash L everyone) db of
                Some (ch, r) \<Rightarrow> bind_result (unhide_dm L c ch created_by db) (\<lambda>db'. Inr (db', (ch, r), False))
              | None \<Rightarrow> bind_result (create_dm L now fresh c everyone created_by db) (\<lambda>(db', ch, r). Inr (db', (ch, r), True)))"

definition list_hidden_dms :: "uuid \<Rightarrow> pubkey \<Rightarrow> channel_db \<Rightarrow> uuid list" where
  "list_hidden_dms c pk db =
     sort (map (\<lambda>((_, ch, _), _). ch)
       (filter (\<lambda>((_, ch, pk'), m). pk' = pk \<and> mb_hidden_at m \<noteq> None)
         (active_rows (\<lambda>c' ch. c' = c \<and> opt_all (\<lambda>r. ch_type r = Dm) (live_channel c ch db) \<and> live_channel c ch db \<noteq> None) db)))"

record dm_participant =
  dp_pubkey :: pubkey
  dp_display_name :: "ustr option"
  dp_role :: member_role

record dm_record =
  dm_channel_id :: uuid
  dm_participants :: "dm_participant list"
  dm_last_message_at :: "int option"
  dm_created_at :: int

definition dm_participants_of :: "uuid \<Rightarrow> uuid \<Rightarrow> channel_db \<Rightarrow> dm_participant list" where
  "dm_participants_of c ch db =
     map (\<lambda>((_, _, pk), m).
            \<lparr>dp_pubkey = pk, dp_display_name = Option.bind (map_of (cd_users db) (c, pk)) us_display_name, dp_role = mb_role m\<rparr>)
       (sort_key (\<lambda>(_, m). mb_joined_at m) (active_rows (\<lambda>c' ch'. c' = c \<and> ch' = ch) db))"

definition list_dms_for_user :: "uuid \<Rightarrow> pubkey \<Rightarrow> nat \<Rightarrow> uuid option \<Rightarrow> channel_db \<Rightarrow> dm_record list" where
  "list_dms_for_user c pk limit cursor db =
     (let cursor_ts = map_option ch_updated_at (Option.bind cursor (\<lambda>cid. map_of (cd_channels db) (c, cid)));
          shown = (\<lambda>((c', ch), r). c' = c \<and> ch_type r = Dm \<and> ch_deleted_at r = None
                     \<and> (case active_member c ch pk db of Some m \<Rightarrow> mb_hidden_at m = None | None \<Rightarrow> False)
                     \<and> opt_all (\<lambda>ts. ch_updated_at r < ts) cursor_ts)
      in map (\<lambda>((_, ch), r).
                \<lparr>dm_channel_id = ch, dm_participants = dm_participants_of c ch db,
                 dm_last_message_at = Some (ch_updated_at r), dm_created_at = ch_created_at r\<rparr>)
           (take (min limit 200) (sort_key (\<lambda>(_, r). - ch_updated_at r) (filter shown (cd_channels db)))))"

section \<open>Users\<close>

definition new_user :: user_row where
  "new_user = \<lparr>us_display_name = None, us_avatar_url = None, us_about = None, us_nip05_handle = None,
               us_agent_owner = None, us_add_policy = Anyone\<rparr>"

definition put_user :: "uuid \<Rightarrow> pubkey \<Rightarrow> user_row \<Rightarrow> channel_db \<Rightarrow> channel_db" where
  "put_user c pk u db = db\<lparr>cd_users := AList.update (c, pk) u (cd_users db)\<rparr>"

definition ensure_user :: "channel_lib \<Rightarrow> uuid \<Rightarrow> pubkey \<Rightarrow> channel_db \<Rightarrow> channel_error + (channel_db \<times> bool)" where
  "ensure_user L c pk db =
     (if \<not> community_writable L c \<or> length pk \<noteq> 32 then Inl Refused
      else if map_of (cd_users db) (c, pk) \<noteq> None then Inr (db, False)
      else Inr (put_user c pk new_user db, True))"

definition get_user :: "uuid \<Rightarrow> pubkey \<Rightarrow> channel_db \<Rightarrow> user_row option" where
  "get_user c pk db = map_of (cd_users db) (c, pk)"

text \<open>\<open>empty_to_none\<close>: an empty string clears the column.\<close>

definition empty_to_none :: "ustr \<Rightarrow> ustr option" where
  "empty_to_none s = (if s = [] then None else Some s)"

definition handle_taken :: "channel_lib \<Rightarrow> uuid \<Rightarrow> pubkey \<Rightarrow> ustr \<Rightarrow> channel_db \<Rightarrow> bool" where
  "handle_taken L c pk h db \<longleftrightarrow>
     list_ex (\<lambda>((c', pk'), u). c' = c \<and> pk' \<noteq> pk \<and> map_option (sql_lower L) (us_nip05_handle u) = Some (sql_lower L h)) (cd_users db)"

definition update_user_profile ::
  "channel_lib \<Rightarrow> uuid \<Rightarrow> pubkey \<Rightarrow> ustr option \<Rightarrow> ustr option \<Rightarrow> ustr option \<Rightarrow> ustr option \<Rightarrow> channel_db \<Rightarrow> channel_error + channel_db" where
  "update_user_profile L c pk display_name avatar_url about nip05_handle db =
     (if display_name = None \<and> avatar_url = None \<and> about = None \<and> nip05_handle = None then Inr db
      else if \<not> opt_all text_ok display_name \<or> \<not> opt_all text_ok avatar_url
              \<or> \<not> opt_all text_ok about \<or> \<not> opt_all text_ok nip05_handle then Inl Refused
      else case map_of (cd_users db) (c, pk) of
        None \<Rightarrow> Inr db
      | Some u \<Rightarrow>
          if \<not> community_writable L c \<or> \<not> opt_all name_ok display_name \<or> \<not> opt_all name_ok nip05_handle
             \<or> (case Option.bind nip05_handle empty_to_none of Some h \<Rightarrow> handle_taken L c pk h db | None \<Rightarrow> False)
          then Inl Refused
          else Inr (put_user c pk
                 (u\<lparr>us_display_name := (case display_name of Some s \<Rightarrow> empty_to_none s | None \<Rightarrow> us_display_name u),
                    us_avatar_url := (case avatar_url of Some s \<Rightarrow> empty_to_none s | None \<Rightarrow> us_avatar_url u),
                    us_about := (case about of Some s \<Rightarrow> empty_to_none s | None \<Rightarrow> us_about u),
                    us_nip05_handle := (case nip05_handle of Some s \<Rightarrow> empty_to_none s | None \<Rightarrow> us_nip05_handle u)\<rparr>) db))"

definition get_user_by_nip05 :: "channel_lib \<Rightarrow> uuid \<Rightarrow> ustr \<Rightarrow> ustr \<Rightarrow> channel_db \<Rightarrow> (pubkey \<times> user_row) option" where
  "get_user_by_nip05 L c local_part domain db =
     map_option (\<lambda>((_, pk), u). (pk, u))
       (find (\<lambda>((c', _), u). c' = c \<and> map_option (sql_lower L) (us_nip05_handle u) = Some (sql_lower L (local_part @ 64 # domain)))
         (cd_users db))"

text \<open>The owner of an agent is a user of the same community (the foreign key), and is set once.\<close>

definition set_agent_owner :: "channel_lib \<Rightarrow> uuid \<Rightarrow> pubkey \<Rightarrow> pubkey \<Rightarrow> channel_db \<Rightarrow> channel_error + (channel_db \<times> bool)" where
  "set_agent_owner L c agent owner db =
     (case map_of (cd_users db) (c, agent) of
        None \<Rightarrow> Inl UserNotFound
      | Some u \<Rightarrow>
          if us_agent_owner u \<noteq> None then Inr (db, False)
          else if map_of (cd_users db) (c, owner) = None \<or> \<not> community_writable L c then Inl Refused
          else Inr (put_user c agent (u\<lparr>us_agent_owner := Some owner\<rparr>) db, True))"

definition get_agent_channel_policy :: "uuid \<Rightarrow> pubkey \<Rightarrow> channel_db \<Rightarrow> (string \<times> pubkey option) option" where
  "get_agent_channel_policy c pk db =
     map_option (\<lambda>u. (add_policy_as_str (us_add_policy u), us_agent_owner u)) (map_of (cd_users db) (c, pk))"

definition set_channel_add_policy :: "channel_lib \<Rightarrow> uuid \<Rightarrow> pubkey \<Rightarrow> string \<Rightarrow> channel_db \<Rightarrow> channel_error + channel_db" where
  "set_channel_add_policy L c pk policy db =
     (case add_policy_from_str policy of
        Inl _ \<Rightarrow> Inl InvalidPolicy
      | Inr p \<Rightarrow>
          (case map_of (cd_users db) (c, pk) of
             None \<Rightarrow> Inl UserNotFound
           | Some u \<Rightarrow> if community_writable L c then Inr (put_user c pk (u\<lparr>us_add_policy := p\<rparr>) db) else Inl Refused))"

interpretation add_policy_enum: str_enum add_policy_as_str add_policy_from_str
proof unfold_locales
  show "add_policy_from_str (add_policy_as_str x) = Inr x" for x
    by (cases x) (simp_all add: add_policy_from_str_def)
  show "add_policy_from_str s = Inr x \<Longrightarrow> s = add_policy_as_str x" for s x
    by (auto simp: add_policy_from_str_def split: if_splits)
qed

section \<open>The tables as a machine\<close>

datatype channel_op =
  Create uuid uuid ustr channel_type channel_visibility "ustr option" pubkey "int option"
| CreateWithId uuid uuid ustr channel_type channel_visibility "ustr option" pubkey "int option"
| SetCanvas uuid uuid "ustr option"
| AddMember uuid uuid pubkey member_role "pubkey option"
| RemoveMember uuid uuid pubkey pubkey
| Update uuid uuid channel_update
| SetTopic uuid uuid ustr pubkey
| SetPurpose uuid uuid ustr pubkey
| Archive uuid uuid
| Unarchive uuid uuid
| Delete uuid uuid
| Reap
| EventStored uuid "uuid option" nat
| CreateDm uuid uuid "pubkey list" pubkey
| OpenDm uuid uuid "pubkey list" pubkey
| HideDm uuid uuid pubkey
| UnhideDm uuid uuid pubkey
| EnsureUser uuid pubkey
| UpdateProfile uuid pubkey "ustr option" "ustr option" "ustr option" "ustr option"
| SetAgentOwner uuid pubkey pubkey
| SetPolicy uuid pubkey string

fun channel_result :: "channel_lib \<Rightarrow> int \<Rightarrow> channel_op \<Rightarrow> channel_db \<Rightarrow> channel_error + channel_db" where
  "channel_result L now (Create c fresh name t v d by ttl) db =
     bind_result (create_channel L now fresh c name t v d by ttl db) (\<lambda>(db', _). Inr db')"
| "channel_result L now (CreateWithId c ch name t v d by ttl) db =
     bind_result (create_channel_with_id L now c ch name t v d by ttl db) (\<lambda>(db', _). Inr db')"
| "channel_result L now (SetCanvas c ch x) db = set_canvas L c ch x db"
| "channel_result L now (AddMember c ch pk role by) db = add_member L now c ch pk role by db"
| "channel_result L now (RemoveMember c ch pk actor) db = remove_member L now c ch pk actor db"
| "channel_result L now (Update c ch u) db = bind_result (update_channel L now c ch u db) (\<lambda>(db', _). Inr db')"
| "channel_result L now (SetTopic c ch x by) db = set_topic L now c ch x by db"
| "channel_result L now (SetPurpose c ch x by) db = set_purpose L now c ch x by db"
| "channel_result L now (Archive c ch) db = archive_channel L now c ch db"
| "channel_result L now (Unarchive c ch) db = unarchive_channel L now c ch db"
| "channel_result L now (Delete c ch) db = bind_result (soft_delete_channel L now c ch db) (\<lambda>(db', _). Inr db')"
| "channel_result L now Reap db = Inr (fst (reap_expired_ephemeral_channels L now db))"
| "channel_result L now (EventStored c ch kind) db = Inr (refresh_channel_ttl L now c ch kind db)"
| "channel_result L now (CreateDm c fresh pks by) db = bind_result (create_dm L now fresh c pks by db) (\<lambda>(db', _). Inr db')"
| "channel_result L now (OpenDm c fresh pks by) db = bind_result (open_dm L now fresh c pks by db) (\<lambda>(db', _). Inr db')"
| "channel_result L now (HideDm c ch pk) db = hide_dm L now c ch pk db"
| "channel_result L now (UnhideDm c ch pk) db = unhide_dm L c ch pk db"
| "channel_result L now (EnsureUser c pk) db = bind_result (ensure_user L c pk db) (\<lambda>(db', _). Inr db')"
| "channel_result L now (UpdateProfile c pk n a b h) db = update_user_profile L c pk n a b h db"
| "channel_result L now (SetAgentOwner c agent owner) db = bind_result (set_agent_owner L c agent owner db) (\<lambda>(db', _). Inr db')"
| "channel_result L now (SetPolicy c pk p) db = set_channel_add_policy L c pk p db"

definition channel_exec :: "channel_lib \<Rightarrow> int \<times> channel_op \<Rightarrow> channel_db \<Rightarrow> channel_db \<times> channel_error option" where
  "channel_exec L x db =
     (case channel_result L (fst x) (snd x) db of Inl e \<Rightarrow> (db, Some e) | Inr db' \<Rightarrow> (db', None))"

definition channel_run :: "channel_lib \<Rightarrow> (int \<times> channel_op) list \<Rightarrow> channel_db" where
  "channel_run L ops = fst (run_ops (channel_exec L) ops empty_channel_db)"


end
