(* ===== verification/Channel_Governance.thy ===== *)
theory Channel_Governance
  imports Channel_Store
begin

text \<open>
  What the tables of \<open>Channel_Store\<close> promise in every state a sequence of statements reaches: rows stay
  well formed, a channel keeps an owner, roles change only on the authority of the members who may change
  them, and a set of participants has one direct-message channel.
\<close>

declare map_of_eq_Some_iff [simp del] Some_eq_map_of_iff [simp del]

section \<open>Frames\<close>

lemma role_put_channel [simp]: "get_active_role_tx c ch pk (put_channel c' ch' r db) = get_active_role_tx c ch pk db"
  by (simp add: get_active_role_tx_def active_member_def put_channel_def)

lemma role_put_user [simp]: "get_active_role_tx c ch pk (put_user c' u r db) = get_active_role_tx c ch pk db"
  by (simp add: get_active_role_tx_def active_member_def put_user_def)

lemma role_upsert [simp]:
  "get_active_role_tx c ch pk (upsert_member now c' ch' pk' role by db) =
     (if (c, ch, pk) = (c', ch', pk') then Some role else get_active_role_tx c ch pk db)"
  by (auto simp: get_active_role_tx_def active_member_def upsert_member_def split: option.splits)

lemma upsert_frame [simp]:
  "cd_channels (upsert_member now c ch pk role by db) = cd_channels db"
  "cd_users (upsert_member now c ch pk role by db) = cd_users db"
  by (simp_all add: upsert_member_def)

lemma put_channel_simps [simp]:
  "cd_channels (put_channel c ch r db) = AList.update (c, ch) r (cd_channels db)"
  "cd_members (put_channel c ch r db) = cd_members db"
  "cd_users (put_channel c ch r db) = cd_users db"
  by (simp_all add: put_channel_def)

lemma put_user_simps [simp]:
  "cd_users (put_user c pk u db) = AList.update (c, pk) u (cd_users db)"
  "cd_members (put_user c pk u db) = cd_members db"
  "cd_channels (put_user c pk u db) = cd_channels db"
  by (simp_all add: put_user_def)

lemma update_liveE:
  assumes "update_live L c ch f db = Inr db'"
  obtains r where "live_channel c ch db = Some r" "db' = put_channel c ch (f r) db"
  using assms by (auto simp: update_live_def split: option.splits if_splits)

lemma live_channel_Some:
  "live_channel c ch db = Some r \<longleftrightarrow> map_of (cd_channels db) (c, ch) = Some r \<and> ch_deleted_at r = None"
  by (auto simp: live_channel_def split: option.splits)

text \<open>The statements on channel rows are one-row updates, or map every row.\<close>

lemma map_of_map_rows: "map_of (map (\<lambda>x. if P x then (fst x, g (snd x)) else x) m) k = map_option (\<lambda>r. if P (k, r) then g r else r) (map_of m k)"
  by (induction m) auto

text \<open>Which members a statement can touch.\<close>

fun membership_op :: "channel_op \<Rightarrow> bool" where
  "membership_op (Create _ _ _ _ _ _ _ _) = True"
| "membership_op (CreateWithId _ _ _ _ _ _ _ _) = True"
| "membership_op (AddMember _ _ _ _ _) = True"
| "membership_op (RemoveMember _ _ _ _) = True"
| "membership_op (CreateDm _ _ _ _) = True"
| "membership_op (OpenDm _ _ _ _) = True"
| "membership_op _ = False"

lemma set_hidden_role:
  "set_hidden L h c ch pk db = Some (db', b) \<Longrightarrow> get_active_role_tx c' ch' pk' db' = get_active_role_tx c' ch' pk' db"
  by (auto simp: set_hidden_def get_active_role_tx_def active_member_def split: option.splits if_splits)

fun writes_members :: "channel_op \<Rightarrow> bool" where
  "writes_members (HideDm _ _ _) = True"
| "writes_members (UnhideDm _ _ _) = True"
| "writes_members op = membership_op op"

lemma members_frame:
  assumes "channel_result L now op db = Inr db'" "\<not> writes_members op"
  shows "cd_members db' = cd_members db"
proof (cases op)
  case (EventStored c' ch' k)
  with assms show ?thesis
    by (auto simp: refresh_channel_ttl_def split: option.splits if_splits)
next
  case (Update c' ch' u)
  with assms show ?thesis
    by (auto simp: update_channel_def bind_result_Inr Let_def split: if_splits option.splits sum.splits elim!: update_liveE)
next
  case (Delete c' ch')
  with assms show ?thesis
    by (auto simp: soft_delete_channel_def bind_result_Inr split: sum.splits channel_error.splits elim!: update_liveE)
next
  case (UpdateProfile c' pk' n a b h)
  with assms show ?thesis
    by (auto simp: update_user_profile_def split: if_splits option.splits)
next
  case (SetPolicy c' p s)
  with assms show ?thesis by (auto simp: set_channel_add_policy_def split: if_splits option.splits sum.splits)
qed (use assms in \<open>auto simp: set_canvas_def set_topic_def set_purpose_def archive_channel_def unarchive_channel_def
       ensure_user_def set_agent_owner_def reap_expired_ephemeral_channels_def
       bind_result_Inr split: if_splits option.splits elim!: update_liveE\<close>)

lemma quiet_roles:
  assumes "channel_result L now op db = Inr db'" "\<not> membership_op op"
  shows "get_active_role_tx c ch pk db' = get_active_role_tx c ch pk db"
proof (cases "writes_members op")
  case True
  with assms show ?thesis
    by (cases op) (auto simp: hide_dm_def unhide_dm_def bind_result_Inr ok_or_Inr split: if_splits dest: set_hidden_role)
next
  case False
  with members_frame [OF assms(1)] show ?thesis by (simp add: get_active_role_tx_def active_member_def)
qed

text \<open>What a successful addition and a successful removal have checked.\<close>

lemma effective_role_same: "effective_role c ch r pk role by db = Inr role' \<Longrightarrow> role' = role"
  by (auto simp: effective_role_def split: if_splits option.splits)

lemma add_memberE:
  assumes "add_member L now c ch pk role by db = Inr db'"
  obtains r where "live_channel c ch db = Some r" "length pk = 32" "effective_role c ch r pk role by db = Inr role"
    "db' = upsert_member now c ch pk role by db"
    "\<forall>q. get_active_role_tx c ch pk db = Some q \<longrightarrow> q \<noteq> role \<longrightarrow>
       elevated_role (Option.bind by (\<lambda>i. get_active_role_tx c ch i db)) \<and> (q = Owner \<longrightarrow> 1 < owner_count c ch db)"
proof -
  from assms obtain r where r: "live_channel c ch db = Some r" and l: "length pk = 32"
    and e: "effective_role c ch r pk role by db = Inr role"
    by (auto simp: add_member_def bind_result_Inr get_channel_def ok_or_Inr split: if_splits dest: effective_role_same)
  have "db' = upsert_member now c ch pk role by db"
    and "\<forall>q. get_active_role_tx c ch pk db = Some q \<longrightarrow> q \<noteq> role \<longrightarrow>
       elevated_role (Option.bind by (\<lambda>i. get_active_role_tx c ch i db)) \<and> (q = Owner \<longrightarrow> 1 < owner_count c ch db)"
    using assms by (auto simp: add_member_def get_channel_def r l e Let_def split: if_splits)
  with r l e show ?thesis by (rule that)
qed

lemma remove_memberE:
  assumes "remove_member L now c ch pk actor db = Inr db'"
  obtains m where "active_member c ch pk db = Some m"
    "db' = db\<lparr>cd_members := AList.update (c, ch, pk) (m\<lparr>mb_removed_at := Some now, mb_removed_by := Some actor\<rparr>) (cd_members db)\<rparr>"
    "pk = actor \<or> elevated_role (get_active_role_tx c ch actor db)
       \<or> get_active_role_tx c ch actor db \<noteq> None \<and> is_agent_owner c pk actor db"
    "mb_role m = Owner \<longrightarrow> 1 < owner_count c ch db"
proof -
  from assms obtain m where m: "active_member c ch pk db = Some m"
    by (auto simp: remove_member_def bind_result_Inr split: if_splits option.splits)
  have auth: "pk = actor \<or> elevated_role (get_active_role_tx c ch actor db)
       \<or> get_active_role_tx c ch actor db \<noteq> None \<and> is_agent_owner c pk actor db"
    using assms by (auto simp: remove_member_def bind_result_Inr elevated_role_def split: if_splits option.splits)
  have "mb_role m = Owner \<longrightarrow> 1 < owner_count c ch db"
    "db' = db\<lparr>cd_members := AList.update (c, ch, pk) (m\<lparr>mb_removed_at := Some now, mb_removed_by := Some actor\<rparr>) (cd_members db)\<rparr>"
    using assms m by (auto simp: remove_member_def bind_result_Inr get_active_role_tx_def split: if_splits)
  with m auth show ?thesis using that by blast
qed

section \<open>Rows stay well formed\<close>

definition row_ok :: "channel_row \<Rightarrow> bool" where
  "row_ok r \<longleftrightarrow>
     ch_name r \<noteq> [] \<and> canonical_channel_name (ch_name r) = ch_name r \<and> name_ok (ch_name r)
     \<and> (ch_ttl_deadline r = None \<longleftrightarrow> ch_ttl_seconds r = None)
     \<and> opt_all text_ok (ch_description r) \<and> opt_all text_ok (ch_canvas r)
     \<and> opt_all text_ok (ch_topic r) \<and> opt_all text_ok (ch_purpose r)
     \<and> (ch_participant_hash r \<noteq> None \<longrightarrow> ch_type r = Dm)"

text \<open>What no statement changes of a row, and the row stays well formed.\<close>

definition evolves :: "channel_row \<Rightarrow> channel_row \<Rightarrow> bool" where
  "evolves r r' \<longleftrightarrow>
     ch_participant_hash r' = ch_participant_hash r \<and> ch_type r' = ch_type r \<and> ch_created_by r' = ch_created_by r
     \<and> ch_created_at r' = ch_created_at r \<and> (row_ok r \<longrightarrow> row_ok r')"

lemma evolves_refl [simp, intro]: "evolves r r"
  by (simp add: evolves_def)

lemma evolves_trans: "evolves r s \<Longrightarrow> evolves s t \<Longrightarrow> evolves r t"
  by (simp add: evolves_def)

text \<open>The rows after a statement: those before, evolved, and new ones.\<close>

definition rows_evolve :: "(uuid \<times> uuid \<Rightarrow> channel_row \<Rightarrow> bool) \<Rightarrow> channel_db \<Rightarrow> channel_db \<Rightarrow> bool" where
  "rows_evolve new db db' \<longleftrightarrow>
     (distinct (map fst (cd_channels db)) \<longrightarrow> distinct (map fst (cd_channels db')))
     \<and> (\<forall>k r. map_of (cd_channels db) k = Some r \<longrightarrow> (\<exists>r'. map_of (cd_channels db') k = Some r' \<and> evolves r r'))
     \<and> (\<forall>k r. map_of (cd_channels db) k = None \<longrightarrow> map_of (cd_channels db') k = Some r \<longrightarrow> new k r)"

lemma rows_evolve_refl: "cd_channels db' = cd_channels db \<Longrightarrow> rows_evolve new db db'"
  by (auto simp: rows_evolve_def)

lemma rows_evolve_same [intro]: "rows_evolve new db db"
  by (rule rows_evolve_refl) simp

lemma rows_evolve_mono: "rows_evolve new db db' \<Longrightarrow> (\<And>k r. new k r \<Longrightarrow> new' k r) \<Longrightarrow> rows_evolve new' db db'"
  by (auto simp: rows_evolve_def)

lemma rows_evolve_put:
  assumes "map_of (cd_channels db) (c, ch) = Some r" "evolves r r'"
  shows "rows_evolve new db (put_channel c ch r' db)"
  using assms by (auto simp: rows_evolve_def distinct_update)

lemma rows_evolve_update_live:
  assumes "update_live L c ch f db = Inr db'" "\<And>r. evolves r (f r)"
  shows "rows_evolve new db db'"
  using assms by (auto elim!: update_liveE simp: live_channel_Some intro: rows_evolve_put)

lemma rows_evolve_insert:
  assumes "map_of (cd_channels db) (c, ch) = None" "new (c, ch) r"
  shows "rows_evolve new db (put_channel c ch r db)"
  using assms by (auto simp: rows_evolve_def distinct_update)

lemma rows_evolve_frame: "rows_evolve new db db' \<Longrightarrow> cd_channels db'' = cd_channels db' \<Longrightarrow> rows_evolve new db db''"
  by (simp add: rows_evolve_def)

lemma evolves_fields:
  "n \<noteq> [] \<Longrightarrow> canonical_channel_name n = n \<Longrightarrow> name_ok n \<Longrightarrow> evolves r (r\<lparr>ch_name := n\<rparr>)"
  "text_ok d \<Longrightarrow> evolves r (r\<lparr>ch_description := Some d\<rparr>)"
  "evolves r (r\<lparr>ch_visibility := v\<rparr>)"
  "(dl = None \<longleftrightarrow> t = None) \<Longrightarrow> evolves r (r\<lparr>ch_ttl_seconds := t, ch_ttl_deadline := dl\<rparr>)"
  "evolves r (r\<lparr>ch_updated_at := now\<rparr>)"
  "evolves r (r\<lparr>ch_archived_at := a\<rparr>)"
  "evolves r (r\<lparr>ch_deleted_at := a\<rparr>)"
  by (simp_all add: evolves_def row_ok_def)

lemma evolves_apply_update:
  assumes "\<And>n. cu_name u = Some n \<Longrightarrow> n \<noteq> [] \<and> canonical_channel_name n = n \<and> name_ok n"
    and "opt_all text_ok (cu_description u)"
  shows "evolves r (apply_update now u v r)"
proof -
  have 1: "evolves r (case cu_name u of Some n \<Rightarrow> r\<lparr>ch_name := n\<rparr> | None \<Rightarrow> r)" for r
    using assms(1) by (auto intro: evolves_fields split: option.split)
  have 2: "evolves r (case cu_description u of Some d \<Rightarrow> r\<lparr>ch_description := Some d\<rparr> | None \<Rightarrow> r)" for r
    using assms(2) by (auto intro: evolves_fields split: option.split)
  have 3: "evolves r (case v of Some v \<Rightarrow> r\<lparr>ch_visibility := v\<rparr> | None \<Rightarrow> r)" for r
    by (auto intro: evolves_fields split: option.split)
  have 4: "evolves r (case cu_ttl_seconds u of
      Some t \<Rightarrow> r\<lparr>ch_ttl_seconds := t, ch_ttl_deadline := map_option (\<lambda>s. now + seconds s) t\<rparr> | None \<Rightarrow> r)" for r
    by (auto intro: evolves_fields split: option.split)
  show ?thesis unfolding apply_update_def Let_def
    by (rule evolves_trans [OF 1 evolves_trans [OF 2 evolves_trans [OF 3 evolves_trans [OF 4 evolves_fields(5)]]]])
qed

lemma rows_evolve_update_channel:
  assumes "update_channel L now c ch u db = Inr (db', r)"
  shows "rows_evolve new db db'"
proof -
  define u' where "u' = u\<lparr>cu_name := map_option canonical_channel_name (cu_name u)\<rparr>"
  have ok: "cu_name u' \<noteq> Some []" "opt_all name_ok (cu_name u')" "opt_all text_ok (cu_description u')"
    using assms by (auto simp: update_channel_def u'_def Let_def split: if_splits)
  obtain v where "update_live L c ch (apply_update now u' v) db = Inr db'"
    using assms by (auto simp: update_channel_def u'_def Let_def bind_result_Inr split: if_splits)
  moreover have "evolves r (apply_update now u' v r)" for r
    using ok by (intro evolves_apply_update) (auto simp: u'_def canonical_channel_name_idem)
  ultimately show ?thesis by (rule rows_evolve_update_live)
qed

lemma rows_evolve_reap: "rows_evolve new db (fst (reap_expired_ephemeral_channels L now db))"
proof -
  let ?f = "\<lambda>x. if is_expired L now x then (fst x, (snd x)\<lparr>ch_archived_at := Some now\<rparr>) else x"
  have "map fst (map ?f m) = map fst m" for m by (induction m) auto
  moreover have "evolves r (if is_expired L now (k, r) then r\<lparr>ch_archived_at := Some now\<rparr> else r)" for k r
    by (simp add: evolves_def row_ok_def)
  ultimately show ?thesis
    by (auto simp: rows_evolve_def reap_expired_ephemeral_channels_def map_of_map_rows simp del: map_map)
qed

text \<open>A new row of a channel, and of a direct message.\<close>

lemma new_channel_ok:
  "trim (canonical_channel_name n) \<noteq> [] \<Longrightarrow> \<not> insert_refused L c ch (canonical_channel_name n) d \<Longrightarrow>
     row_ok (new_channel now (canonical_channel_name n) t v d by ttl None)"
  by (auto simp: new_channel_def row_ok_def insert_refused_def canonical_channel_name_idem trim_def trim_end_def)

lemma dm_name_ok: "2 \<le> n \<Longrightarrow> n \<le> 9 \<Longrightarrow> dm_name n \<noteq> [] \<and> canonical_channel_name (dm_name n) = dm_name n \<and> name_ok (dm_name n)"
proof -
  assume "2 \<le> n" "n \<le> 9"
  then have "n \<in> {2, 3, 4, 5, 6, 7, 8, 9}" by auto
  then show ?thesis
    by (elim insertE)
      (simp_all add: dm_name_def ascii_def canonical_channel_name_def trim_end_def is_whitespace_def
        show_nat.simps name_ok_def text_ok_def)
qed

lemma create_channelE:
  assumes "create_channel L now fresh c name t v d by ttl db = Inr (db', ch, r)"
  obtains "ch = fresh" "length by = 32" "fresh \<noteq> 0" "map_of (cd_channels db) (c, fresh) = None" "row_ok r"
    "r = new_channel now (canonical_channel_name name) t v d by ttl None"
    "db' = upsert_member now c fresh by Owner (Some by) (put_channel c fresh r db)"
proof -
  let ?r = "new_channel now (canonical_channel_name name) t v d by ttl None"
  have "length by = 32" and ne: "trim (canonical_channel_name name) \<noteq> []"
    and ok: "\<not> insert_refused L c fresh (canonical_channel_name name) d" and "map_of (cd_channels db) (c, fresh) = None"
    and "ch = fresh" "r = ?r" "db' = upsert_member now c fresh by Owner (Some by) (put_channel c fresh ?r db)"
    using assms by (auto simp: create_channel_def Let_def split: if_splits)
  moreover have "fresh \<noteq> 0" using ok by (simp add: insert_refused_def)
  ultimately show ?thesis using new_channel_ok [OF ne ok] by (simp add: that)
qed

lemma create_channel_with_idE:
  assumes "create_channel_with_id L now c ch name t v d by ttl db = Inr (db', r, created)"
  obtains (existing) "created = False" "db' = db" "map_of (cd_channels db) (c, ch) = Some r"
  | (new) "created = True" "length by = 32" "ch \<noteq> 0" "map_of (cd_channels db) (c, ch) = None" "row_ok r"
    "r = new_channel now (canonical_channel_name name) t v d by ttl None"
    "db' = upsert_member now c ch by Owner (Some by) (put_channel c ch r db)"
proof -
  let ?r = "new_channel now (canonical_channel_name name) t v d by ttl None"
  have l: "length by = 32" and z: "ch \<noteq> 0" and ne: "trim (canonical_channel_name name) \<noteq> []"
    and ok: "\<not> insert_refused L c ch (canonical_channel_name name) d"
    using assms by (simp_all add: create_channel_with_id_def Let_def split: if_splits)
  show ?thesis
  proof (cases "map_of (cd_channels db) (c, ch)")
    case None
    with assms l z ne ok have "created = True" "r = ?r" "db' = upsert_member now c ch by Owner (Some by) (put_channel c ch ?r db)"
      by (auto simp: create_channel_with_id_def Let_def)
    with None l z new_channel_ok [OF ne ok] show ?thesis by (simp add: new)
  next
    case (Some q)
    with assms l z ne ok have "created = False" "db' = db" "r = q" by (simp_all add: create_channel_with_id_def Let_def)
    with Some show ?thesis by (simp add: existing)
  qed
qed

lemma create_dmE:
  assumes "create_dm L now fresh c pks by db = Inr (db', ch, r)"
  obtains (existing) "db' = db" "find_dm_by_participants c (compute_participant_hash L pks) db = Some (ch, r)"
  | (new) "ch = fresh" "fresh \<noteq> 0" "map_of (cd_channels db) (c, fresh) = None" "row_ok r" "list_all (\<lambda>pk. length pk = 32) pks"
    "\<not> dm_hash_taken c (compute_participant_hash L pks) db"
    "r = new_channel now (dm_name (length pks)) Dm Private None by None (Some (compute_participant_hash L pks))"
    "db' = fold (\<lambda>pk. upsert_member now c fresh pk Member (Some by)) pks (put_channel c fresh r db)"
proof -
  define h where "h = compute_participant_hash L pks"
  define q where "q = new_channel now (dm_name (length pks)) Dm Private None by None (Some h)"
  have n: "2 \<le> length pks" "length pks \<le> 9" and pks: "list_all (\<lambda>pk. length pk = 32) pks"
    using assms by (auto simp: create_dm_def split: if_splits)
  have q: "row_ok q" using dm_name_ok [OF n] by (simp add: q_def new_channel_def row_ok_def)
  show ?thesis
  proof (cases "find_dm_by_participants c h db")
    case None
    have "\<not> insert_refused L c fresh (dm_name (length pks)) None \<and> map_of (cd_channels db) (c, fresh) = None \<and> \<not> dm_hash_taken c h db"
      by (rule ccontr) (use None assms n pks in \<open>auto simp: create_dm_def h_def Let_def\<close>)
    moreover from this have "ch = fresh" "r = q"
      "db' = fold (\<lambda>pk. upsert_member now c fresh pk Member (Some by)) pks (put_channel c fresh q db)"
      using None assms n pks by (auto simp: create_dm_def h_def q_def Let_def)
    ultimately show ?thesis using q pks by (intro new) (simp_all add: insert_refused_def h_def q_def)
  next
    case (Some x)
    with assms n pks have "db' = db" "x = (ch, r)" by (cases x, simp add: create_dm_def h_def Let_def)+
    with Some show ?thesis by (intro existing) (simp_all add: h_def)
  qed
qed

lemma open_dmE:
  assumes "open_dm L now fresh c pks by db = Inr (db', (ch, r), created)"
  obtains (existing) "created = False" "unhide_dm L c ch by db = Inr db'"
    "find_dm_by_participants c (compute_participant_hash L (if by \<in> set pks then pks else pks @ [by])) db = Some (ch, r)"
  | (new) "created = True" "create_dm L now fresh c (if by \<in> set pks then pks else pks @ [by]) by db = Inr (db', ch, r)"
    "find_dm_by_participants c (compute_participant_hash L (if by \<in> set pks then pks else pks @ [by])) db = None"
proof -
  define ps where "ps = (if by \<in> set pks then pks else pks @ [by])"
  have "length ps \<le> 9" using assms by (auto simp: open_dm_def Let_def ps_def split: if_splits)
  then show ?thesis
    using assms existing new
    by (cases "find_dm_by_participants c (compute_participant_hash L ps) db")
      (auto simp: open_dm_def Let_def bind_result_Inr simp flip: ps_def)
qed

lemma fold_upsert_frame [simp]:
  "cd_channels (fold (\<lambda>pk. upsert_member now c ch pk role by) pks db) = cd_channels db"
  "cd_users (fold (\<lambda>pk. upsert_member now c ch pk role by) pks db) = cd_users db"
  by (induction pks arbitrary: db) simp_all

lemma role_fold_upsert [simp]:
  "get_active_role_tx c' ch' pk' (fold (\<lambda>pk. upsert_member now c ch pk role by) pks db) =
     (if c' = c \<and> ch' = ch \<and> pk' \<in> set pks then Some role else get_active_role_tx c' ch' pk' db)"
  by (induction pks arbitrary: db) auto

lemma set_hidden_frame:
  "set_hidden L h c ch pk db = Some (db', b) \<Longrightarrow> cd_channels db' = cd_channels db \<and> cd_users db' = cd_users db"
  by (auto simp: set_hidden_def split: option.splits if_splits)

text \<open>Who creates a row of the channel table, and with what.\<close>

fun creates :: "channel_lib \<Rightarrow> int \<Rightarrow> channel_op \<Rightarrow> channel_db \<Rightarrow> uuid \<times> uuid \<Rightarrow> channel_row \<Rightarrow> bool" where
  "creates L now (Create c fresh n t v d by ttl) db k r \<longleftrightarrow> k = (c, fresh) \<and> ch_participant_hash r = None"
| "creates L now (CreateWithId c ch n t v d by ttl) db k r \<longleftrightarrow> k = (c, ch) \<and> ch_participant_hash r = None"
| "creates L now (CreateDm c fresh pks by) db k r \<longleftrightarrow>
     k = (c, fresh) \<and> ch_participant_hash r = Some (compute_participant_hash L pks)
     \<and> \<not> dm_hash_taken c (compute_participant_hash L pks) db"
| "creates L now (OpenDm c fresh pks by) db k r \<longleftrightarrow>
     (let h = compute_participant_hash L (if by \<in> set pks then pks else pks @ [by])
      in k = (c, fresh) \<and> ch_participant_hash r = Some h \<and> \<not> dm_hash_taken c h db)"
| "creates L now _ db k r \<longleftrightarrow> False"

definition creates_ok :: "channel_lib \<Rightarrow> int \<Rightarrow> channel_op \<Rightarrow> channel_db \<Rightarrow> uuid \<times> uuid \<Rightarrow> channel_row \<Rightarrow> bool" where
  "creates_ok L now op db k r \<longleftrightarrow> creates L now op db k r \<and> row_ok r \<and> snd k \<noteq> 0 \<and> ch_deleted_at r = None"

lemma new_channel_simps [simp]:
  "ch_participant_hash (new_channel now n t v d by ttl h) = h"
  "ch_deleted_at (new_channel now n t v d by ttl h) = None"
  "ch_type (new_channel now n t v d by ttl h) = t"
  "ch_visibility (new_channel now n t v d by ttl h) = v"
  "ch_created_by (new_channel now n t v d by ttl h) = by"
  by (simp_all add: new_channel_def)

lemma create_dm_rows:
  assumes "create_dm L now fresh c pks by db = Inr (db', ch, r)"
  shows "rows_evolve (\<lambda>k r. k = (c, fresh) \<and> ch_participant_hash r = Some (compute_participant_hash L pks)
           \<and> \<not> dm_hash_taken c (compute_participant_hash L pks) db \<and> row_ok r \<and> fresh \<noteq> 0 \<and> ch_deleted_at r = None) db db'"
  using assms
proof (cases rule: create_dmE)
  case existing
  then show ?thesis by (simp add: rows_evolve_refl)
next
  case new
  then show ?thesis by (intro rows_evolve_frame [OF rows_evolve_insert [of db c fresh _ r]]) simp_all
qed

lemma channel_rows_step:
  assumes "channel_result L now op db = Inr db'"
  shows "rows_evolve (creates_ok L now op db) db db'"
proof (cases op)
  case (Create c fresh n t v d b ttl)
  with assms obtain ch r where "create_channel L now fresh c n t v d b ttl db = Inr (db', ch, r)" by (auto simp: bind_result_Inr)
  then show ?thesis
    by (cases rule: create_channelE)
      (auto simp: creates_ok_def Create intro!: rows_evolve_frame [OF rows_evolve_insert [of db c fresh _ r]])
next
  case (CreateWithId c ch n t v d b ttl)
  with assms obtain r x where "create_channel_with_id L now c ch n t v d b ttl db = Inr (db', r, x)" by (auto simp: bind_result_Inr)
  then show ?thesis
  proof (cases rule: create_channel_with_idE)
    case existing
    then show ?thesis by (simp add: rows_evolve_refl)
  next
    case new
    then show ?thesis
      by (auto simp: creates_ok_def CreateWithId intro!: rows_evolve_frame [OF rows_evolve_insert [of db c ch _ r]])
  qed
next
  case (CreateDm c fresh pks b)
  with assms obtain ch r where "create_dm L now fresh c pks b db = Inr (db', ch, r)" by (auto simp: bind_result_Inr)
  then show ?thesis by (rule rows_evolve_mono [OF create_dm_rows]) (auto simp: creates_ok_def CreateDm)
next
  case (OpenDm c fresh pks b)
  with assms obtain ch r x where "open_dm L now fresh c pks b db = Inr (db', (ch, r), x)" by (auto simp: bind_result_Inr)
  then show ?thesis
  proof (cases rule: open_dmE)
    case existing
    then show ?thesis by (auto simp: unhide_dm_def bind_result_Inr ok_or_Inr dest: set_hidden_frame intro: rows_evolve_refl)
  next
    case new
    then show ?thesis by (intro rows_evolve_mono [OF create_dm_rows [OF new(2)]]) (auto simp: creates_ok_def OpenDm Let_def)
  qed
next
  case (AddMember c ch pk role b)
  with assms show ?thesis
    by (auto simp: add_member_def bind_result_Inr Let_def split: if_splits intro: rows_evolve_refl)
next
  case (RemoveMember c ch pk a)
  with assms show ?thesis
    by (auto simp: remove_member_def bind_result_Inr Let_def split: if_splits option.splits intro: rows_evolve_refl)
next
  case (Update c ch u)
  with assms show ?thesis by (auto simp: bind_result_Inr intro: rows_evolve_update_channel)
next
  case Reap
  with assms show ?thesis by (auto intro: rows_evolve_reap)
next
  case (EventStored c ch k)
  with assms show ?thesis
    by (auto simp: refresh_channel_ttl_def live_channel_Some evolves_def row_ok_def intro!: rows_evolve_same rows_evolve_put
        split: option.splits if_splits)
next
  case (Delete c ch)
  with assms show ?thesis
    by (auto simp: soft_delete_channel_def bind_result_Inr intro: rows_evolve_refl evolves_fields
        elim!: rows_evolve_update_live split: sum.splits channel_error.splits)
next
  case (Unarchive c ch)
  with assms show ?thesis
    by (auto simp: unarchive_channel_def bind_result_Inr evolves_def row_ok_def elim!: rows_evolve_update_live split: if_splits option.splits)
next
  case (HideDm c ch pk)
  with assms show ?thesis
    by (auto simp: hide_dm_def bind_result_Inr ok_or_Inr split: if_splits dest: set_hidden_frame intro: rows_evolve_refl)
next
  case (UnhideDm c ch pk)
  with assms show ?thesis by (auto simp: unhide_dm_def bind_result_Inr ok_or_Inr dest: set_hidden_frame intro: rows_evolve_refl)
next
  case (UpdateProfile c pk n a b h)
  with assms show ?thesis by (auto simp: update_user_profile_def intro!: rows_evolve_refl split: if_splits option.splits)
next
  case (SetPolicy c pk p)
  with assms show ?thesis by (auto simp: set_channel_add_policy_def intro!: rows_evolve_refl split: if_splits option.splits sum.splits)
next
  case (EnsureUser c pk)
  with assms show ?thesis by (auto simp: ensure_user_def bind_result_Inr intro!: rows_evolve_refl split: if_splits)
next
  case (SetAgentOwner c a w)
  with assms show ?thesis
    by (auto simp: set_agent_owner_def bind_result_Inr intro!: rows_evolve_refl split: if_splits option.splits)
qed (use assms in \<open>auto simp: set_canvas_def set_topic_def set_purpose_def archive_channel_def bind_result_Inr
       evolves_def row_ok_def elim!: rows_evolve_update_live split: if_splits\<close>)


section \<open>The invariant of the tables\<close>

definition channels_ok :: "channel_db \<Rightarrow> bool" where
  "channels_ok db \<longleftrightarrow>
     distinct (map fst (cd_channels db))
     \<and> (\<forall>c ch r. map_of (cd_channels db) (c, ch) = Some r \<longrightarrow> ch \<noteq> 0 \<and> row_ok r)
     \<and> (\<forall>c a b r s h. map_of (cd_channels db) (c, a) = Some r \<longrightarrow> map_of (cd_channels db) (c, b) = Some s \<longrightarrow>
          ch_participant_hash r = Some h \<longrightarrow> ch_participant_hash s = Some h \<longrightarrow> a = b)"

definition members_ok :: "channel_db \<Rightarrow> bool" where
  "members_ok db \<longleftrightarrow>
     distinct (map fst (cd_members db))
     \<and> (\<forall>c ch pk m. map_of (cd_members db) (c, ch, pk) = Some m \<longrightarrow> length pk = 32 \<and> map_of (cd_channels db) (c, ch) \<noteq> None)"

definition users_ok :: "channel_lib \<Rightarrow> channel_db \<Rightarrow> bool" where
  "users_ok L db \<longleftrightarrow>
     distinct (map fst (cd_users db))
     \<and> (\<forall>c pk u. map_of (cd_users db) (c, pk) = Some u \<longrightarrow>
          length pk = 32 \<and> opt_all (\<lambda>w. map_of (cd_users db) (c, w) \<noteq> None) (us_agent_owner u))
     \<and> (\<forall>c a b u w x y. map_of (cd_users db) (c, a) = Some u \<longrightarrow> map_of (cd_users db) (c, b) = Some w \<longrightarrow>
          us_nip05_handle u = Some x \<longrightarrow> us_nip05_handle w = Some y \<longrightarrow> sql_lower L x = sql_lower L y \<longrightarrow> a = b)"

definition has_owner :: "uuid \<Rightarrow> uuid \<Rightarrow> channel_db \<Rightarrow> bool" where
  "has_owner c ch db \<longleftrightarrow> (\<exists>pk. get_active_role_tx c ch pk db = Some Owner)"

text \<open>A channel that is not a direct message has an owner.\<close>

definition owned :: "channel_db \<Rightarrow> bool" where
  "owned db \<longleftrightarrow>
     (\<forall>c ch r. map_of (cd_channels db) (c, ch) = Some r \<longrightarrow> ch_participant_hash r = None \<longrightarrow> has_owner c ch db)"

lemma dm_hash_not_taken:
  "\<not> dm_hash_taken c h db \<Longrightarrow> map_of (cd_channels db) (c, ch) = Some r \<Longrightarrow> ch_participant_hash r \<noteq> Some h"
  by (auto simp: dm_hash_taken_def list_ex_iff dest!: map_of_SomeD)

text \<open>At most one row is new, so a hash that is not taken stays unique.\<close>

lemma creates_once: "creates L now op db k r \<Longrightarrow> creates L now op db k' r' \<Longrightarrow> k = k'"
  by (cases op) (auto simp: Let_def)

lemma creates_hash:
  "creates L now op db (c, ch) r \<Longrightarrow> ch_participant_hash r = Some h \<Longrightarrow> \<not> dm_hash_taken c h db"
  by (cases op) (auto simp: Let_def)

lemma channels_ok_step:
  assumes ok: "channels_ok db" and step: "rows_evolve (creates_ok L now op db) db db'"
  shows "channels_ok db'"
proof -
  have old: "\<exists>r'. map_of (cd_channels db') k = Some r' \<and> evolves r r'" if "map_of (cd_channels db) k = Some r" for k r
    using step that unfolding rows_evolve_def by blast
  have new: "creates_ok L now op db k r" if "map_of (cd_channels db) k = None" "map_of (cd_channels db') k = Some r" for k r
    using step that unfolding rows_evolve_def by blast
  have row: "ch \<noteq> 0 \<and> row_ok r" if "map_of (cd_channels db') (c, ch) = Some r" for c ch r
  proof (cases "map_of (cd_channels db) (c, ch)")
    case None
    with new [OF None that] show ?thesis by (simp add: creates_ok_def)
  next
    case (Some s)
    with old [OF Some] that ok show ?thesis by (auto simp: channels_ok_def evolves_def)
  qed
  have hash: "a = b" if a: "map_of (cd_channels db') (c, a) = Some r" "ch_participant_hash r = Some h"
    and b: "map_of (cd_channels db') (c, b) = Some s" "ch_participant_hash s = Some h" for c a b r s h
  proof -
    have before: "\<exists>r0. map_of (cd_channels db) (c, a) = Some r0 \<and> ch_participant_hash r0 = Some h"
      if "map_of (cd_channels db) (c, a) \<noteq> None" "map_of (cd_channels db') (c, a) = Some r" "ch_participant_hash r = Some h" for a r
      using that old by (fastforce simp: evolves_def)
    have fresh: "creates L now op db (c, a) r \<and> \<not> dm_hash_taken c h db"
      if "map_of (cd_channels db) (c, a) = None" "map_of (cd_channels db') (c, a) = Some r" "ch_participant_hash r = Some h" for a r
      using new [OF that(1,2)] creates_hash that(3) by (auto simp: creates_ok_def)
    show ?thesis
      using before [OF _ a] before [OF _ b] fresh [OF _ a] fresh [OF _ b] ok dm_hash_not_taken [of c h db] creates_once
      unfolding channels_ok_def by (metis Pair_inject)
  qed
  have "distinct (map fst (cd_channels db'))" using step ok by (simp add: rows_evolve_def channels_ok_def)
  with row hash show ?thesis unfolding channels_ok_def by blast
qed

subsection \<open>Members\<close>

text \<open>A statement on the members updates rows whose channel exists after it.\<close>

lemma members_ok_update:
  assumes "members_ok db" "length pk = 32" "map_of (cd_channels db) (c, ch) \<noteq> None"
  shows "members_ok (db\<lparr>cd_members := AList.update (c, ch, pk) m (cd_members db)\<rparr>)"
  using assms by (auto simp: members_ok_def distinct_update)

lemma members_ok_upsert:
  "members_ok db \<Longrightarrow> length pk = 32 \<Longrightarrow> map_of (cd_channels db) (c, ch) \<noteq> None \<Longrightarrow> members_ok (upsert_member now c ch pk role by db)"
  by (simp add: upsert_member_def members_ok_update)

lemma members_ok_fold_upsert:
  "members_ok db \<Longrightarrow> list_all (\<lambda>pk. length pk = 32) pks \<Longrightarrow> map_of (cd_channels db) (c, ch) \<noteq> None \<Longrightarrow>
     members_ok (fold (\<lambda>pk. upsert_member now c ch pk role by) pks db)"
  by (induction pks arbitrary: db) (simp_all add: members_ok_upsert)

lemma members_ok_put: "members_ok db \<Longrightarrow> members_ok (put_channel c ch r db)"
  by (fastforce simp: members_ok_def)

lemma members_ok_frame:
  "members_ok db \<Longrightarrow> rows_evolve new db db' \<Longrightarrow> cd_members db' = cd_members db \<Longrightarrow> members_ok db'"
  by (fastforce simp: members_ok_def rows_evolve_def)

lemma active_member_ok:
  "members_ok db \<Longrightarrow> active_member c ch pk db = Some m \<Longrightarrow> length pk = 32 \<and> map_of (cd_channels db) (c, ch) \<noteq> None"
  by (fastforce simp: members_ok_def active_member_def split: option.splits if_splits)

lemma role_absent: "members_ok db \<Longrightarrow> map_of (cd_channels db) (c, ch) = None \<Longrightarrow> get_active_role_tx c ch pk db = None"
  by (cases "active_member c ch pk db") (auto simp: get_active_role_tx_def dest: active_member_ok)

lemma members_ok_hidden: "members_ok db \<Longrightarrow> set_hidden L h c ch pk db = Some (db', b) \<Longrightarrow> members_ok db'"
  by (auto simp: set_hidden_def split: option.splits if_splits dest: active_member_ok intro: members_ok_update)

lemma members_ok_step:
  assumes ok: "members_ok db" and step: "channel_result L now op db = Inr db'"
  shows "members_ok db'"
proof (cases op)
  case (Create c fresh n t v d b ttl)
  with step obtain ch r where "create_channel L now fresh c n t v d b ttl db = Inr (db', ch, r)" by (auto simp: bind_result_Inr)
  then show ?thesis by (cases rule: create_channelE) (simp add: ok members_ok_upsert members_ok_put)
next
  case (CreateWithId c ch n t v d b ttl)
  with step obtain r x where "create_channel_with_id L now c ch n t v d b ttl db = Inr (db', r, x)" by (auto simp: bind_result_Inr)
  then show ?thesis by (cases rule: create_channel_with_idE) (simp_all add: ok members_ok_upsert members_ok_put)
next
  case (CreateDm c fresh pks b)
  with step obtain ch r where "create_dm L now fresh c pks b db = Inr (db', ch, r)" by (auto simp: bind_result_Inr)
  then show ?thesis by (cases rule: create_dmE) (simp_all add: ok members_ok_fold_upsert members_ok_put)
next
  case (OpenDm c fresh pks b)
  with step obtain ch r x where "open_dm L now fresh c pks b db = Inr (db', (ch, r), x)" by (auto simp: bind_result_Inr)
  then show ?thesis
  proof (cases rule: open_dmE)
    case existing
    with ok show ?thesis by (auto simp: unhide_dm_def bind_result_Inr ok_or_Inr intro: members_ok_hidden)
  next
    case new
    from new(2) show ?thesis by (cases rule: create_dmE) (simp_all add: ok members_ok_fold_upsert members_ok_put)
  qed
next
  case (AddMember c ch pk role b)
  with step ok show ?thesis by (auto simp: live_channel_Some elim!: add_memberE intro!: members_ok_upsert)
next
  case (RemoveMember c ch pk a)
  with step ok show ?thesis by (auto elim!: remove_memberE dest: active_member_ok intro!: members_ok_update)
next
  case (HideDm c ch pk)
  with step ok show ?thesis
    by (auto simp: hide_dm_def bind_result_Inr ok_or_Inr split: if_splits intro: members_ok_hidden)
next
  case (UnhideDm c ch pk)
  with step ok show ?thesis by (auto simp: unhide_dm_def bind_result_Inr ok_or_Inr intro: members_ok_hidden)
qed (rule members_ok_frame [OF ok channel_rows_step [OF step]], use members_frame [OF step] in simp)+

section \<open>Who may change a role\<close>

definition another_owner :: "uuid \<Rightarrow> uuid \<Rightarrow> pubkey \<Rightarrow> channel_db \<Rightarrow> bool" where
  "another_owner c ch pk db \<longleftrightarrow>
     list_ex (\<lambda>((c', ch', pk'), m). c' = c \<and> ch' = ch \<and> pk' \<noteq> pk \<and> mb_role m = Owner \<and> mb_removed_at m = None) (cd_members db)"

definition by_elevated :: "uuid \<Rightarrow> uuid \<Rightarrow> pubkey option \<Rightarrow> channel_db \<Rightarrow> bool" where
  "by_elevated c ch actor db \<longleftrightarrow> elevated_role (Option.bind actor (\<lambda>a. get_active_role_tx c ch a db))"

text \<open>The creator of a private channel who adds themselves.\<close>

definition bootstrap :: "channel_row \<Rightarrow> pubkey \<Rightarrow> pubkey option \<Rightarrow> bool" where
  "bootstrap r pk actor \<longleftrightarrow> ch_visibility r = Private \<and> actor = Some pk \<and> pk = ch_created_by r"

text \<open>
  The policy: a creator owns the new channel, the participants of a new direct message are its members; an
  active member's role is changed by an owner or admin, and the last owner's not at all; an owner or admin
  role is granted by an owner or admin, a place in a private channel by a member; a member is removed by
  themselves, by an owner or admin, or by the member who owns the agent.
\<close>

fun may_change :: "channel_op \<Rightarrow> channel_db \<Rightarrow> uuid \<Rightarrow> uuid \<Rightarrow> pubkey \<Rightarrow> member_role option \<Rightarrow> bool" where
  "may_change (Create c' fresh n t v d actor ttl) db c ch pk new \<longleftrightarrow>
     (c, ch, pk) = (c', fresh, actor) \<and> map_of (cd_channels db) (c, ch) = None \<and> new = Some Owner"
| "may_change (CreateWithId c' ch' n t v d actor ttl) db c ch pk new \<longleftrightarrow>
     (c, ch, pk) = (c', ch', actor) \<and> map_of (cd_channels db) (c, ch) = None \<and> new = Some Owner"
| "may_change (CreateDm c' fresh pks actor) db c ch pk new \<longleftrightarrow>
     c = c' \<and> ch = fresh \<and> pk \<in> set pks \<and> map_of (cd_channels db) (c, ch) = None \<and> new = Some Member"
| "may_change (OpenDm c' fresh pks actor) db c ch pk new \<longleftrightarrow>
     c = c' \<and> ch = fresh \<and> (pk \<in> set pks \<or> pk = actor) \<and> map_of (cd_channels db) (c, ch) = None \<and> new = Some Member"
| "may_change (AddMember c' ch' pk' role actor) db c ch pk new \<longleftrightarrow>
     (c, ch, pk) = (c', ch', pk') \<and> new = Some role
     \<and> (case live_channel c ch db of
          None \<Rightarrow> False
        | Some r \<Rightarrow>
            (case get_active_role_tx c ch pk db of
               Some q \<Rightarrow> by_elevated c ch actor db \<and> (q = Owner \<longrightarrow> another_owner c ch pk db)
             | None \<Rightarrow>
                 (is_elevated role \<longrightarrow> by_elevated c ch actor db \<or> bootstrap r pk actor)
                 \<and> (ch_visibility r = Private \<longrightarrow>
                      Option.bind actor (\<lambda>a. get_active_role_tx c ch a db) \<noteq> None \<or> bootstrap r pk actor)))"
| "may_change (RemoveMember c' ch' pk' actor) db c ch pk new \<longleftrightarrow>
     (c, ch, pk) = (c', ch', pk') \<and> new = None
     \<and> (pk = actor \<or> elevated_role (get_active_role_tx c ch actor db)
        \<or> get_active_role_tx c ch actor db \<noteq> None \<and> is_agent_owner c pk actor db)
     \<and> (get_active_role_tx c ch pk db = Some Owner \<longrightarrow> another_owner c ch pk db)"
| "may_change _ db c ch pk new \<longleftrightarrow> False"

lemma another_owner_iff:
  assumes "members_ok db"
  shows "another_owner c ch pk db \<longleftrightarrow> (\<exists>pk'. pk' \<noteq> pk \<and> get_active_role_tx c ch pk' db = Some Owner)"
proof -
  have "((c, ch, pk'), m) \<in> set (cd_members db) \<longleftrightarrow> map_of (cd_members db) (c, ch, pk') = Some m" for pk' m
    using assms by (simp add: members_ok_def map_of_eq_Some_iff)
  then show ?thesis
    by (fastforce simp: another_owner_def list_ex_iff get_active_role_tx_def active_member_def split: option.splits if_splits)
qed

lemma two_elements: "1 < length xs \<Longrightarrow> \<exists>x y zs. xs = x # y # zs"
  by (cases xs; cases "tl xs") auto

lemma owner_count_another:
  assumes "members_ok db" "1 < owner_count c ch db"
  shows "another_owner c ch pk db"
proof -
  let ?P = "\<lambda>((c', ch', pk'), m). c' = c \<and> ch' = ch \<and> mb_role m = Owner \<and> mb_removed_at m = None"
  obtain x y zs where xs: "filter ?P (cd_members db) = x # y # zs"
    using two_elements [OF assms(2) [unfolded owner_count_def]] by blast
  have "distinct (map fst (x # y # zs))"
    using assms(1) by (simp add: members_ok_def distinct_map_filter flip: xs)
  moreover have "x \<in> set (filter ?P (cd_members db))" "y \<in> set (filter ?P (cd_members db))"
    unfolding xs by simp_all
  then have "x \<in> set (cd_members db)" "y \<in> set (cd_members db)" "?P x" "?P y" by simp_all
  ultimately show ?thesis
    by (cases "snd (snd (fst x)) = pk") (force simp: another_owner_def list_ex_iff)+
qed

lemma role_remove:
  assumes "active_member c ch pk db = Some m"
  shows "get_active_role_tx c' ch' pk' (db\<lparr>cd_members := AList.update (c, ch, pk) (m\<lparr>mb_removed_at := Some now, mb_removed_by := a\<rparr>) (cd_members db)\<rparr>)
     = (if (c', ch', pk') = (c, ch, pk) then None else get_active_role_tx c' ch' pk' db)"
  by (auto simp: get_active_role_tx_def active_member_def)

lemma create_dm_role:
  assumes "create_dm L now fresh c pks actor db = Inr (db', ch, r)" "get_active_role_tx c' ch' pk db' \<noteq> get_active_role_tx c' ch' pk db"
  shows "c' = c \<and> ch' = fresh \<and> pk \<in> set pks \<and> map_of (cd_channels db) (c', ch') = None \<and> get_active_role_tx c' ch' pk db' = Some Member"
  using assms(1)
proof (cases rule: create_dmE)
  case new
  then show ?thesis using assms(2) by (simp split: if_splits)
qed (use assms(2) in simp)

lemma role_step:
  assumes ok: "members_ok db" and step: "channel_result L now op db = Inr db'"
    and change: "get_active_role_tx c ch pk db' \<noteq> get_active_role_tx c ch pk db"
  shows "may_change op db c ch pk (get_active_role_tx c ch pk db')"
proof (cases op)
  case (Create c' fresh n t v d b ttl)
  with step obtain ch' r where "create_channel L now fresh c' n t v d b ttl db = Inr (db', ch', r)" by (auto simp: bind_result_Inr)
  then show ?thesis by (cases rule: create_channelE) (use change Create in \<open>auto split: if_splits\<close>)
next
  case (CreateWithId c' ch' n t v d b ttl)
  with step obtain r x where "create_channel_with_id L now c' ch' n t v d b ttl db = Inr (db', r, x)" by (auto simp: bind_result_Inr)
  then show ?thesis by (cases rule: create_channel_with_idE) (use change CreateWithId in \<open>auto split: if_splits\<close>)
next
  case (CreateDm c' fresh pks b)
  with step obtain ch' r where "create_dm L now fresh c' pks b db = Inr (db', ch', r)" by (auto simp: bind_result_Inr)
  from create_dm_role [OF this change] CreateDm show ?thesis by auto
next
  case (OpenDm c' fresh pks b)
  with step obtain ch' r x where "open_dm L now fresh c' pks b db = Inr (db', (ch', r), x)" by (auto simp: bind_result_Inr)
  then show ?thesis
  proof (cases rule: open_dmE)
    case existing
    with change show ?thesis by (auto simp: unhide_dm_def bind_result_Inr ok_or_Inr dest: set_hidden_role)
  next
    case new
    from create_dm_role [OF new(2) change] OpenDm show ?thesis by (auto split: if_splits)
  qed
next
  case (AddMember c' ch' pk' role b)
  with step have "add_member L now c' ch' pk' role b db = Inr db'" by simp
  then obtain r where r: "live_channel c' ch' db = Some r" and e: "effective_role c' ch' r pk' role b db = Inr role"
    and db': "db' = upsert_member now c' ch' pk' role b db"
    and g: "\<forall>q. get_active_role_tx c' ch' pk' db = Some q \<longrightarrow> q \<noteq> role \<longrightarrow>
       elevated_role (Option.bind b (\<lambda>i. get_active_role_tx c' ch' i db)) \<and> (q = Owner \<longrightarrow> 1 < owner_count c' ch' db)"
    by (rule add_memberE) (rule that, assumption+)
  from change db' have k: "c' = c" "ch' = ch" "pk' = pk" by (auto split: if_splits)
  show ?thesis
  proof (cases "get_active_role_tx c ch pk db")
    case None
    with AddMember r e db' k show ?thesis
      by (auto simp: effective_role_def bootstrap_def by_elevated_def elevated_role_def split: if_splits option.splits)
  next
    case (Some q)
    with change db' k have "q \<noteq> role" by auto
    with AddMember r g Some db' k owner_count_another [OF ok] show ?thesis by (auto simp: by_elevated_def)
  qed
next
  case (RemoveMember c' ch' pk' a)
  with step have "remove_member L now c' ch' pk' a db = Inr db'" by simp
  then show ?thesis
  proof (cases rule: remove_memberE)
    case (1 m)
    with change have k: "c' = c" "ch' = ch" "pk' = pk" by (auto simp: role_remove split: if_splits)
    with 1 RemoveMember owner_count_another [OF ok] show ?thesis
      by (auto simp: role_remove) (auto simp: get_active_role_tx_def)
  qed
qed (use quiet_roles [OF step] change in simp_all)

lemma has_owner_step:
  assumes ok: "members_ok db" and step: "channel_result L now op db = Inr db'" and own: "has_owner c ch db"
    and live: "map_of (cd_channels db) (c, ch) \<noteq> None"
  shows "has_owner c ch db'"
proof -
  from own obtain pk where pk: "get_active_role_tx c ch pk db = Some Owner" by (auto simp: has_owner_def)
  show ?thesis
  proof (cases "get_active_role_tx c ch pk db' = Some Owner")
    case False
    with pk have "may_change op db c ch pk (get_active_role_tx c ch pk db')" by (intro role_step [OF ok step]) simp
    then have another: "another_owner c ch pk db" and only: "\<And>pk' new. may_change op db c ch pk' new \<Longrightarrow> pk' = pk"
      using live pk by (cases op; auto split: option.splits)+
    from another obtain pk' where "pk' \<noteq> pk" "get_active_role_tx c ch pk' db = Some Owner"
      by (auto simp: another_owner_iff [OF ok])
    with only role_step [OF ok step, of c ch pk'] have "get_active_role_tx c ch pk' db' = Some Owner" by metis
    then show ?thesis by (auto simp: has_owner_def)
  qed (auto simp: has_owner_def)
qed

lemma owned_step:
  assumes ok: "members_ok db" and step: "channel_result L now op db = Inr db'" and own: "owned db"
  shows "owned db'"
  unfolding owned_def
proof (intro allI impI)
  fix c ch r assume r: "map_of (cd_channels db') (c, ch) = Some r" and h: "ch_participant_hash r = None"
  show "has_owner c ch db'"
  proof (cases "map_of (cd_channels db) (c, ch)")
    case (Some q)
    with channel_rows_step [OF step] r h have "ch_participant_hash q = None" by (fastforce simp: rows_evolve_def evolves_def)
    with own Some have "has_owner c ch db" by (auto simp: owned_def)
    with Some show ?thesis by (intro has_owner_step [OF ok step]) simp_all
  next
    case None
    with channel_rows_step [OF step] r have new: "creates L now op db (c, ch) r" by (auto simp: rows_evolve_def creates_ok_def)
    then show ?thesis
    proof (cases op)
      case (Create c' fresh n t v d b ttl)
      with step obtain ch' r where "create_channel L now fresh c' n t v d b ttl db = Inr (db', ch', r)" by (auto simp: bind_result_Inr)
      then show ?thesis
        by (cases rule: create_channelE) (use Create new in \<open>auto simp: has_owner_def\<close>)
    next
      case (CreateWithId c' ch' n t v d b ttl)
      with step obtain r x where "create_channel_with_id L now c' ch' n t v d b ttl db = Inr (db', r, x)" by (auto simp: bind_result_Inr)
      then show ?thesis
        by (cases rule: create_channel_with_idE) (use CreateWithId new None in \<open>auto simp: has_owner_def\<close>)
    qed (use new h in \<open>auto simp: Let_def\<close>)
  qed
qed


section \<open>Users\<close>

lemma users_frame:
  assumes "channel_result L now op db = Inr db'"
    and "\<And>c pk. op \<noteq> EnsureUser c pk" "\<And>c pk n a b h. op \<noteq> UpdateProfile c pk n a b h"
    and "\<And>c a w. op \<noteq> SetAgentOwner c a w" "\<And>c pk p. op \<noteq> SetPolicy c pk p"
  shows "cd_users db' = cd_users db"
proof (cases op)
  case (Create c fresh n t v d b ttl)
  with assms(1) show ?thesis by (auto simp: bind_result_Inr elim!: create_channelE)
next
  case (CreateWithId c ch n t v d b ttl)
  with assms(1) show ?thesis by (auto simp: bind_result_Inr elim!: create_channel_with_idE)
next
  case (CreateDm c fresh pks b)
  with assms(1) show ?thesis by (auto simp: bind_result_Inr elim!: create_dmE)
next
  case (OpenDm c fresh pks b)
  with assms(1) show ?thesis
    by (auto simp: bind_result_Inr unhide_dm_def ok_or_Inr elim!: open_dmE create_dmE dest: set_hidden_frame)
next
  case (AddMember c ch pk role b)
  with assms(1) show ?thesis by (auto elim!: add_memberE)
next
  case (RemoveMember c ch pk a)
  with assms(1) show ?thesis by (auto elim!: remove_memberE)
next
  case (Update c ch u)
  with assms(1) show ?thesis by (auto simp: update_channel_def bind_result_Inr Let_def split: if_splits elim!: update_liveE)
next
  case (Delete c ch)
  with assms(1) show ?thesis
    by (auto simp: soft_delete_channel_def bind_result_Inr split: sum.splits channel_error.splits elim!: update_liveE)
next
  case (EventStored c ch k)
  with assms(1) show ?thesis by (auto simp: refresh_channel_ttl_def split: option.splits if_splits)
next
  case (HideDm c ch pk)
  with assms(1) show ?thesis by (auto simp: hide_dm_def bind_result_Inr ok_or_Inr split: if_splits dest: set_hidden_frame)
next
  case (UnhideDm c ch pk)
  with assms(1) show ?thesis by (auto simp: unhide_dm_def bind_result_Inr ok_or_Inr dest: set_hidden_frame)
qed (use assms in \<open>auto simp: set_canvas_def set_topic_def set_purpose_def archive_channel_def unarchive_channel_def
       reap_expired_ephemeral_channels_def bind_result_Inr split: if_splits elim!: update_liveE\<close>)

lemma users_ok_put:
  assumes ok: "users_ok L db" and pk: "length pk = 32"
    and owner: "opt_all (\<lambda>w. map_of (cd_users db) (c, w) \<noteq> None) (us_agent_owner u)"
    and handle: "\<And>h. us_nip05_handle u = Some h \<Longrightarrow> \<not> handle_taken L c pk h db"
  shows "users_ok L (put_user c pk u db)"
proof -
  have keep: "opt_all (\<lambda>w. map_of (cd_users (put_user c pk u db)) (c', w) \<noteq> None) x"
    if "opt_all (\<lambda>w. map_of (cd_users db) (c', w) \<noteq> None) x" for c' x
    using that by (cases x) auto
  have free: "a = pk"
    if "us_nip05_handle u = Some x" "map_of (cd_users db) (c, a) = Some w" "us_nip05_handle w = Some y" "sql_lower L x = sql_lower L y" for a w x y
    using handle [OF that(1)] map_of_SomeD [OF that(2)] that(3,4) by (fastforce simp: handle_taken_def list_ex_iff)
  have "a = b" if "map_of (cd_users (put_user c pk u db)) (c', a) = Some w" "us_nip05_handle w = Some x"
    "map_of (cd_users (put_user c pk u db)) (c', b) = Some w'" "us_nip05_handle w' = Some y" "sql_lower L x = sql_lower L y" for c' a b w w' x y
    using that ok free [of x b w' y] free [of y a w x] unfolding users_ok_def by (auto split: if_splits)
  moreover have "distinct (map fst (cd_users (put_user c pk u db)))" using ok by (simp add: users_ok_def distinct_update)
  moreover have "length a = 32 \<and> opt_all (\<lambda>w. map_of (cd_users (put_user c pk u db)) (c', w) \<noteq> None) (us_agent_owner w)"
    if "map_of (cd_users (put_user c pk u db)) (c', a) = Some w" for c' a w
  proof (cases "(c', a) = (c, pk)")
    case True
    with that pk keep [OF owner] show ?thesis by simp
  next
    case False
    with that have "map_of (cd_users db) (c', a) = Some w" by (auto split: if_splits)
    with ok have "length a = 32" "opt_all (\<lambda>w. map_of (cd_users db) (c', w) \<noteq> None) (us_agent_owner w)"
      unfolding users_ok_def by blast+
    with keep show ?thesis by blast
  qed
  ultimately show ?thesis unfolding users_ok_def by blast
qed

lemma handle_kept:
  "users_ok L db \<Longrightarrow> map_of (cd_users db) (c, pk) = Some u \<Longrightarrow> us_nip05_handle u = Some h \<Longrightarrow> \<not> handle_taken L c pk h db"
  by (fastforce simp: users_ok_def handle_taken_def list_ex_iff map_of_eq_Some_iff)

lemma user_row_ok:
  "users_ok L db \<Longrightarrow> map_of (cd_users db) (c, pk) = Some u \<Longrightarrow>
     length pk = 32 \<and> opt_all (\<lambda>w. map_of (cd_users db) (c, w) \<noteq> None) (us_agent_owner u)"
  unfolding users_ok_def by blast

lemma users_ok_step:
  assumes ok: "users_ok L db" and step: "channel_result L now op db = Inr db'"
  shows "users_ok L db'"
proof -
  consider (ensure) c pk where "op = EnsureUser c pk" | (profile) c pk n a b h where "op = UpdateProfile c pk n a b h"
    | (agent) c a w where "op = SetAgentOwner c a w" | (policy) c pk p where "op = SetPolicy c pk p"
    | (other) "cd_users db' = cd_users db"
    using users_frame [OF step] by (cases op) auto
  then show ?thesis
  proof cases
    case ensure
    with step ok show ?thesis
      by (auto simp: ensure_user_def bind_result_Inr new_user_def split: if_splits intro!: users_ok_put)
  next
    case profile
    show ?thesis
    proof (cases "db' = db")
      case False
      with step profile obtain u where u: "map_of (cd_users db) (c, pk) = Some u"
        and free: "\<And>x. Option.bind h empty_to_none = Some x \<Longrightarrow> \<not> handle_taken L c pk x db"
        and db': "db' = put_user c pk
                 (u\<lparr>us_display_name := (case n of Some s \<Rightarrow> empty_to_none s | None \<Rightarrow> us_display_name u),
                    us_avatar_url := (case a of Some s \<Rightarrow> empty_to_none s | None \<Rightarrow> us_avatar_url u),
                    us_about := (case b of Some s \<Rightarrow> empty_to_none s | None \<Rightarrow> us_about u),
                    us_nip05_handle := (case h of Some s \<Rightarrow> empty_to_none s | None \<Rightarrow> us_nip05_handle u)\<rparr>) db"
        by (auto simp: update_user_profile_def split: if_splits option.splits)
      show ?thesis unfolding db'
        by (rule users_ok_put [OF ok]) (use user_row_ok [OF ok u] free handle_kept [OF ok u] in \<open>auto split: option.splits\<close>)
    qed (use ok in simp)
  next
    case agent
    with step ok user_row_ok [OF ok] handle_kept [OF ok] show ?thesis
      by (auto simp: set_agent_owner_def bind_result_Inr split: if_splits option.splits intro!: users_ok_put)
  next
    case policy
    with step ok user_row_ok [OF ok] handle_kept [OF ok] show ?thesis
      by (auto simp: set_channel_add_policy_def split: if_splits option.splits sum.splits intro!: users_ok_put)
  next
    case other
    with ok show ?thesis by (simp add: users_ok_def)
  qed
qed

section \<open>Every reachable state\<close>

definition tables_ok :: "channel_lib \<Rightarrow> channel_db \<Rightarrow> bool" where
  "tables_ok L db \<longleftrightarrow> channels_ok db \<and> members_ok db \<and> users_ok L db \<and> owned db"

lemma tables_ok_empty: "tables_ok L empty_channel_db"
  by (simp add: tables_ok_def channels_ok_def members_ok_def users_ok_def owned_def empty_channel_db_def)

lemma tables_ok_step: "tables_ok L db \<Longrightarrow> channel_result L now op db = Inr db' \<Longrightarrow> tables_ok L db'"
  unfolding tables_ok_def
  using channels_ok_step [OF _ channel_rows_step] members_ok_step users_ok_step owned_step by blast

interpretation channel_machine: op_machine "channel_exec L" "tables_ok L" "\<lambda>_. True" "\<lambda>_. True" for L
  by unfold_locales (auto simp: channel_exec_def split: sum.split intro: tables_ok_step)

lemma tables_ok_run_from: "tables_ok L db \<Longrightarrow> tables_ok L (fst (run_ops (channel_exec L) ops db))"
  using channel_machine.run_ok [of L db ops] by (simp add: list_all_iff)

lemma tables_ok_run: "tables_ok L (channel_run L ops)"
  unfolding channel_run_def by (rule tables_ok_run_from [OF tables_ok_empty])

lemma rows_evolve_run:
  "map_of (cd_channels db) k = Some r \<Longrightarrow>
     \<exists>r'. map_of (cd_channels (fst (run_ops (channel_exec L) ops db))) k = Some r' \<and> evolves r r'"
proof (induction ops arbitrary: db r)
  case (Cons op ops)
  obtain db1 out where e: "channel_exec L op db = (db1, out)" by (cases "channel_exec L op db")
  then have "\<exists>r1. map_of (cd_channels db1) k = Some r1 \<and> evolves r r1"
    using Cons.prems channel_rows_step [of L "fst op" "snd op" db db1]
    by (auto simp: channel_exec_def rows_evolve_def split: sum.splits) (metis surj_pair)+
  with Cons.IH [of db1] e show ?case
    by (auto split: prod.split) (metis evolves_trans fst_conv)
qed auto


section \<open>Direct messages\<close>

lemma sorted_distinct_remdups_adj: "sorted xs \<Longrightarrow> distinct (remdups_adj xs)"
  by (induction xs rule: remdups_adj.induct) auto

lemma participants_normal_form:
  "set ps = set qs \<Longrightarrow> remdups_adj (sort ps) = remdups_adj (sort (qs :: pubkey list))"
  by (rule sorted_distinct_set_unique) (simp_all add: sorted_distinct_remdups_adj sorted_remdups_adj)

text \<open>Fixed-width keys need no separator.\<close>

lemma concat_fixed_width:
  assumes "\<forall>x\<in>set xs. length x = n" "\<forall>y\<in>set ys. length y = n" "0 < n" "concat xs = concat ys"
  shows "xs = ys"
proof -
  have "length (concat zs) = length zs * n" if "\<forall>z\<in>set zs. length z = n" for zs :: "'a list list"
    using that by (induction zs) auto
  with assms have "length xs = length ys" by (metis mult_right_cancel nat_less_le)
  moreover have "length x = length y" if "(x, y) \<in> set (zip xs ys)" for x y
    using assms(1,2) set_zip_leftD [OF that] set_zip_rightD [OF that] by simp
  ultimately show ?thesis by (intro concat_injective [OF assms(4)]) auto
qed

definition participant_encoding :: "pubkey list \<Rightarrow> byte list" where
  "participant_encoding ps = concat (remdups_adj (sort ps))"

lemma participant_encoding_iff:
  assumes "\<forall>pk\<in>set ps \<union> set qs. length pk = 32"
  shows "participant_encoding ps = participant_encoding qs \<longleftrightarrow> set ps = set qs"
proof
  assume "participant_encoding ps = participant_encoding qs"
  then have "remdups_adj (sort ps) = remdups_adj (sort qs)"
    using assms concat_fixed_width [of "remdups_adj (sort ps)" 32 "remdups_adj (sort qs)"] by (simp add: participant_encoding_def)
  then show "set ps = set qs" by (metis remdups_adj_set set_sort)
next
  assume "set ps = set qs"
  then show "participant_encoding ps = participant_encoding qs"
    by (simp add: participant_encoding_def participants_normal_form [of ps qs])
qed

lemma find_dm_Some:
  assumes "channels_ok db" "find_dm_by_participants c h db = Some (ch, r)"
  shows "map_of (cd_channels db) (c, ch) = Some r \<and> ch_participant_hash r = Some h \<and> ch_deleted_at r = None"
  using assms by (auto simp: find_dm_by_participants_def find_Some_iff channels_ok_def map_of_eq_Some_iff in_set_conv_nth)

lemma find_dm_found:
  assumes ok: "channels_ok db" and r: "map_of (cd_channels db) (c, ch) = Some r" "ch_participant_hash r = Some h" "ch_deleted_at r = None"
  shows "\<exists>r'. find_dm_by_participants c h db = Some (ch, r')"
proof -
  have "row_ok r" using ok r(1) by (auto simp: channels_ok_def)
  with r(2) have t: "ch_type r = Dm" by (simp add: row_ok_def)
  have "find_dm_by_participants c h db \<noteq> None"
  proof
    assume "find_dm_by_participants c h db = None"
    with map_of_SomeD [OF r(1)] r t show False by (fastforce simp: find_dm_by_participants_def find_None_iff)
  qed
  then obtain ch' r' where f: "find_dm_by_participants c h db = Some (ch', r')" by auto
  from find_dm_Some [OF ok f] r ok have "ch' = ch" unfolding channels_ok_def by blast
  with f show ?thesis by blast
qed

abbreviation everyone :: "pubkey list \<Rightarrow> pubkey \<Rightarrow> pubkey list" where
  "everyone ps a \<equiv> if a \<in> set ps then ps else ps @ [a]"

lemma open_dm_row:
  assumes ok: "tables_ok L db" and o: "open_dm L now fresh c ps a db = Inr (db', (ch, r), new)"
  shows "\<exists>r'. map_of (cd_channels db') (c, ch) = Some r' \<and> ch_participant_hash r' = Some (compute_participant_hash L (everyone ps a))"
  using o
proof (cases rule: open_dmE)
  case existing
  with ok show ?thesis
    by (auto simp: tables_ok_def unhide_dm_def bind_result_Inr ok_or_Inr dest!: set_hidden_frame find_dm_Some)
next
  case new
  from new(2) show ?thesis
    by (cases rule: create_dmE) (use new(3) in auto)
qed

lemma dm_identity:
  assumes ok: "tables_ok L db"
    and r1: "map_of (cd_channels db) (c, ch1) = Some r1" "ch_participant_hash r1 = Some (compute_participant_hash L (everyone ps a))"
      "ch_deleted_at r1 = None"
    and o2: "open_dm L now fresh c qs b db = Inr (db', (ch2, r2), new)"
    and width: "\<forall>pk\<in>set (everyone ps a) \<union> set (everyone qs b). length pk = 32"
    and no_collision: "sha256 L (participant_encoding (everyone ps a)) = sha256 L (participant_encoding (everyone qs b)) \<Longrightarrow>
       participant_encoding (everyone ps a) = participant_encoding (everyone qs b)"
  shows "ch2 = ch1 \<longleftrightarrow> set (everyone ps a) = set (everyone qs b)"
proof -
  define P Q where "P = everyone ps a" and "Q = everyone qs b"
  have hash: "compute_participant_hash L P = compute_participant_hash L Q \<longleftrightarrow> set P = set Q"
    using participant_encoding_iff [of P Q] width no_collision
    by (auto simp: compute_participant_hash_def P_def Q_def simp flip: participant_encoding_def)
  from ok have chans: "channels_ok db" by (simp add: tables_ok_def)
  from o2 show ?thesis
  proof (cases rule: open_dmE)
    case existing
    with find_dm_Some [OF chans] have "map_of (cd_channels db) (c, ch2) = Some r2" "ch_participant_hash r2 = Some (compute_participant_hash L Q)"
      by (auto simp: Q_def)
    moreover have "ch_participant_hash r1 = Some (compute_participant_hash L P)" using r1(2) by (simp only: P_def)
    moreover have "a = b" if "map_of (cd_channels db) (c, a) = Some r" "map_of (cd_channels db) (c, b) = Some s"
      "ch_participant_hash r = Some h" "ch_participant_hash s = Some h" for a b r s h
      using chans that unfolding channels_ok_def by blast
    ultimately show ?thesis using r1(1) hash unfolding P_def [symmetric] Q_def [symmetric] by auto
  next
    case new
    then have none: "find_dm_by_participants c (compute_participant_hash L Q) db = None" by (simp add: Q_def)
    have "\<exists>r'. find_dm_by_participants c (compute_participant_hash L P) db = Some (ch1, r')"
      using find_dm_found [OF chans r1] unfolding P_def .
    with none hash have "set P \<noteq> set Q" by auto
    moreover have "ch2 \<noteq> ch1"
      using new(2) by (cases rule: create_dmE) (use r1 none in \<open>auto simp: Q_def\<close>)
    ultimately show ?thesis by (simp add: P_def Q_def)
  qed
qed

section \<open>Properties\<close>

text \<open>
  C6. The tables are well formed whatever statements ran: keys are unique, a channel has a canonical, non-empty
  name of at most 255 characters, a deadline exactly when it has a time to live, and texts the database can
  hold; no channel has the nil id; a participant hash occurs once in a community and only on a direct
  message; members belong to a channel of their community and have 32-byte keys; an agent's owner is a user
  of the community; handles are unique up to case.
\<close>

theorem channel_tables_well_formed:
  "channels_ok (channel_run L ops) \<and> members_ok (channel_run L ops) \<and> users_ok L (channel_run L ops)"
  using tables_ok_run [of L ops] by (simp add: tables_ok_def)

text \<open>
  C5. A channel keeps an owner: in every state that any sequence of statements reaches, a channel that is not a
  direct message, archived and deleted ones included, has an active member whose role is owner.
\<close>

theorem channel_keeps_owner:
  assumes "map_of (cd_channels (channel_run L ops)) (c, ch) = Some r" "ch_participant_hash r = None"
  shows "\<exists>pk. get_active_role_tx c ch pk (channel_run L ops) = Some Owner"
  using tables_ok_run [of L ops] assms by (auto simp: tables_ok_def owned_def has_owner_def)


text \<open>
  C7. A set of participants has one direct-message channel: after one was opened, and whatever ran in between as
  long as it was not deleted, opening a direct message returns the same channel exactly when the participants,
  the caller included, are the same set, in any order and with any repetition; provided SHA-256 does not map
  the two sets to one value.
\<close>

theorem dm_per_participant_set:
  assumes "open_dm L t1 f1 c ps a (channel_run L ops) = Inr (db1, (ch1, r1), new1)"
    and "db2 = fst (run_ops (channel_exec L) later db1)"
    and "live_channel c ch1 db2 \<noteq> None"
    and "open_dm L t2 f2 c qs b db2 = Inr (db3, (ch2, r2), new2)"
    and "\<forall>pk\<in>set (everyone ps a) \<union> set (everyone qs b). length pk = 32"
    and "sha256 L (participant_encoding (everyone ps a)) = sha256 L (participant_encoding (everyone qs b)) \<Longrightarrow>
       participant_encoding (everyone ps a) = participant_encoding (everyone qs b)"
  shows "ch2 = ch1 \<longleftrightarrow> insert a (set ps) = insert b (set qs)"
proof -
  have "channel_result L t1 (OpenDm c f1 ps a) (channel_run L ops) = Inr db1" using assms(1) by simp
  with tables_ok_run have ok1: "tables_ok L db1" by (rule tables_ok_step)
  then have ok2: "tables_ok L db2" unfolding assms(2) by (rule tables_ok_run_from)
  obtain q1 where "map_of (cd_channels db1) (c, ch1) = Some q1"
    "ch_participant_hash q1 = Some (compute_participant_hash L (everyone ps a))"
    using open_dm_row [OF tables_ok_run assms(1)] by blast
  with rows_evolve_run [of db1 "(c, ch1)" q1 L later] obtain q2 where "map_of (cd_channels db2) (c, ch1) = Some q2"
    "ch_participant_hash q2 = Some (compute_participant_hash L (everyone ps a))"
    unfolding assms(2) by (auto simp: evolves_def)
  moreover from this(1) assms(3) have "ch_deleted_at q2 = None" by (auto simp: live_channel_def split: if_splits)
  ultimately have "ch2 = ch1 \<longleftrightarrow> set (everyone ps a) = set (everyone qs b)"
    using dm_identity [OF ok2] assms(4,5,6) by blast
  then show ?thesis by (auto split: if_splits)
qed


subsection \<open>Concrete instances\<close>

definition demo_channels :: channel_lib where
  "demo_channels =
     \<lparr>community_host = (\<lambda>_. Some ''a.example''), community_archived = (\<lambda>_. False), community_writable = (\<lambda>_. True),
      sql_lower = id, name_collate = id, sha256 = id\<rparr>"

definition demo_key :: "byte \<Rightarrow> pubkey" where
  "demo_key b = replicate 32 b"

text \<open>The creator of a channel adds a second owner and leaves.\<close>

definition demo_ops :: "(int \<times> channel_op) list" where
  "demo_ops =
     [(1, Create 1 7 [103] Stream Private None (demo_key 1) (Some 60)),
      (2, AddMember 1 7 (demo_key 2) Owner (Some (demo_key 1))),
      (3, RemoveMember 1 7 (demo_key 1) (demo_key 1))]"

definition demo_row :: channel_row where
  "demo_row = new_channel 1 [103] Stream Private None (demo_key 1) (Some 60) None"

definition demo_db :: channel_db where
  "demo_db =
     \<lparr>cd_channels = [((1, 7), demo_row)],
      cd_members =
        [((1, 7, demo_key 1),
          \<lparr>mb_role = Owner, mb_joined_at = 1, mb_invited_by = Some (demo_key 1), mb_removed_at = Some 3,
           mb_removed_by = Some (demo_key 1), mb_hidden_at = None\<rparr>),
         ((1, 7, demo_key 2),
          \<lparr>mb_role = Owner, mb_joined_at = 2, mb_invited_by = Some (demo_key 1), mb_removed_at = None,
           mb_removed_by = None, mb_hidden_at = None\<rparr>)],
      cd_users = []\<rparr>"

lemma demo_db_run: "channel_run demo_channels demo_ops = demo_db"
  by code_simp

theorem channel_keeps_owner_witness:
  "\<exists>pk. get_active_role_tx 1 7 pk (channel_run demo_channels demo_ops) = Some Owner"
  by (rule channel_keeps_owner [where r = demo_row]) (simp_all add: demo_db_run demo_row_def, simp add: demo_db_def demo_row_def)




lemma demo_dm:
  "case open_dm demo_channels 1 11 1 [demo_key 2] (demo_key 1) demo_db of
     Inl _ \<Rightarrow> False
   | Inr (db1, (ch1, _), _) \<Rightarrow>
       live_channel 1 ch1 db1 \<noteq> None \<and> \<not> isl (open_dm demo_channels 2 12 1 [demo_key 1, demo_key 1] (demo_key 2) db1)"
  by code_simp

theorem dm_per_participant_set_witness:
  "case open_dm demo_channels 1 11 1 [demo_key 2] (demo_key 1) (channel_run demo_channels demo_ops) of
     Inl _ \<Rightarrow> False
   | Inr (db1, (ch1, _), _) \<Rightarrow>
       (case open_dm demo_channels 2 12 1 [demo_key 1, demo_key 1] (demo_key 2) db1 of
          Inl _ \<Rightarrow> False
        | Inr (_, (ch2, _), _) \<Rightarrow> ch2 = ch1)"
proof -
  obtain db1 ch1 r1 n1 where o1: "open_dm demo_channels 1 11 1 [demo_key 2] (demo_key 1) (channel_run demo_channels demo_ops) = Inr (db1, (ch1, r1), n1)"
    and l: "live_channel 1 ch1 db1 \<noteq> None" and n: "\<not> isl (open_dm demo_channels 2 12 1 [demo_key 1, demo_key 1] (demo_key 2) db1)"
    using demo_dm by (auto simp: demo_db_run split: sum.splits prod.splits)
  from n obtain db3 ch2 r2 n2 where o2: "open_dm demo_channels 2 12 1 [demo_key 1, demo_key 1] (demo_key 2) db1 = Inr (db3, (ch2, r2), n2)"
    by (metis obj_sumE sum.disc(1) surj_pair)
  have "ch2 = ch1 \<longleftrightarrow> insert (demo_key 1) (set [demo_key 2]) = insert (demo_key 2) (set [demo_key 1, demo_key 1])"
    by (rule dm_per_participant_set [OF o1 _ l o2, where later = "[]"]) (auto simp: demo_key_def demo_channels_def)
  then have "ch2 = ch1" by auto
  with o1 o2 show ?thesis by simp
qed

end
