(* ===== verification/Spec2Isabelle.thy ===== *)
theory Spec2Isabelle
  imports
    Buzz_Prelude
    Nostr_Event
    Kinds
    Channel
    Git_Perms
    Event_Filter
    Subscription_Registry
    Tenant
    Network
    Pairing_Crypto
    Pairing_Qr
    Pairing_Session
    Agent_Queue
    Audio_Room
    Mesh
    Audit_Log
    Auth
    Workflow
    Workflow_Store
    Workflow_Engine
    Workflow_Doors
    Event_Store
    Event_Threads
    Channel_Store
    Channel_Governance
begin

text \<open>
  \<^bold>\<open>Buzz\<close> is a workspace relay for the Nostr protocol with agents as members: clients hold
  subscriptions on a relay (\<open>buzz-relay\<close>), the shared rules live in \<open>buzz-core\<close>, relays of a
  deployment form a mesh (\<open>buzz-relay-mesh\<close>), channel events and schedules start workflows
  (\<open>buzz-workflow\<close>), and the agent harness (\<open>buzz-acp\<close>) turns channel events into prompts.  This library models the sequential core of
  those crates as executable functions and proves what each part promises.  Paths below are relative to
  \<open>src/crates/\<close>.

  \<^bold>\<open>How the parts interact.\<close>  An incoming event has a kind (\<open>Kinds\<close>) and tags; filters and the reader
  gate decide who may see it (\<open>Event_Filter\<close>), the subscription registry finds the connections it goes
  to (\<open>Subscription_Registry\<close>), within the community its host resolves to (\<open>Tenant\<close>); it is kept in and read
  back from the event tables (\<open>Event_Store\<close>, \<open>Event_Threads\<close>).  Who belongs to a channel, with which
  role, is kept in the channel and member tables (\<open>Channel_Store\<close>), and the statements that change them
  decide who may (\<open>Channel_Governance\<close>).  Pushes to a
  channel's git repository are decided by the roles of \<open>Channel\<close> and the protection rules of
  \<open>Git_Perms\<close>.  Outgoing requests avoid private addresses (\<open>Network\<close>).  A new device obtains its keys
  through a pairing session (\<open>Pairing_Qr\<close>, \<open>Pairing_Crypto\<close>, \<open>Pairing_Session\<close>).  An agent receives the
  events of its channels through the event queue (\<open>Agent_Queue\<close>).  HTTP requests and connections are
  authenticated and limited by \<open>Auth\<close>; every administrative action is appended to the chain of
  \<open>Audit_Log\<close>.  Voice channels are rooms (\<open>Audio_Room\<close>) whose media crosses the mesh of relays, whose
  membership table is \<open>Mesh\<close>.  A workflow is saved, triggered, approved and resumed through the doors of
  the relay (\<open>Workflow_Doors\<close>), fired by events and schedules in the engine (\<open>Workflow_Engine\<close>), which
  executes its steps (\<open>Workflow\<close>) and keeps its tables (\<open>Workflow_Store\<close>); webhook steps use the filter
  of \<open>Network\<close> and workflows the roles of \<open>Channel\<close>.

  \<^bold>\<open>The theories.\<close>

  \<^item> \<open>Buzz_Prelude\<close>: results as sums, association lists for hash maps, ASCII strings, the contract of an
    incrementally maintained index (locale \<open>maintained_index\<close>) and of a machine driven by operations
    (locale \<open>op_machine\<close>).
  \<^item> \<open>Nostr_Event\<close> (\<open>buzz-core/src/event.rs\<close>): events and filters as records; the functions of the
    \<open>nostr\<close> crate the code calls are the fields of the parameter \<open>nostr_lib\<close>.
  \<^item> \<open>Kinds\<close> (\<open>buzz-core/src/kind.rs\<close>): every kind constant and predicate.  The shared-event gate is
    exact, storage classes are disjoint, the registry has no duplicates and fits 16 bits.
  \<^item> \<open>Channel\<close> (\<open>buzz-core/src/channel.rs\<close>, \<open>presence.rs\<close>): enums with their names (locale
    \<open>str_enum\<close>, interpreted for each), the role order (locale \<open>ranked\<close>), canonical channel names.
  \<^item> \<open>Git_Perms\<close> (\<open>buzz-core/src/git_perms.rs\<close>): ref patterns, protection tags, the decision on a push.
    The decision refines a declarative policy, rules only restrict, privileges are monotone, pushes are
    atomic.
  \<^item> \<open>Event_Filter\<close> (\<open>buzz-core/src/filter.rs\<close>, \<open>nip10.rs\<close>): NIP-01 matching, the reader gate, thread
    markers.
  \<^item> \<open>Subscription_Registry\<close> (\<open>buzz-relay/src/subscription.rs\<close>): the table, five indexes and every
    operation.  The indexed fan-out equals a scan of the table in every reachable state, the operations
    refine those of a plain table, a revoked channel is not delivered, nothing leaks.
  \<^item> \<open>Tenant\<close> (\<open>buzz-core/src/tenant.rs\<close>), \<open>Network\<close> (\<open>buzz-core/src/network.rs\<close>): host normalization
    maps every spelling of a host to one key; the address filter equals the documented blocks, on words
    of 32 and 128 bits.
  \<^item> \<open>Pairing_Crypto\<close>, \<open>Pairing_Qr\<close>, \<open>Pairing_Session\<close> (\<open>buzz-core/src/pairing/\<close>): key derivation,
    QR codes with their round trip, and both sides of the pairing protocol as a state machine over calls.
    Honest sessions complete, successful calls follow the prescribed order, an accepted payload is
    authenticated, no event is accepted twice, finished sessions are inert.
  \<^item> \<open>Agent_Queue\<close> (\<open>buzz-acp/src/queue.rs\<close>): the per-channel event queue with turns in flight,
    deadlines, retries, cancelled batches and withheld events.  Invariant, fairness, no double dispatch,
    conservation of events, dead-lettering after ten failures.
  \<^item> \<open>Audio_Room\<close> (\<open>buzz-relay/src/audio/\<close>): rooms, the room manager, frame headers and the generation
    fence.  Published deltas replay to the roster, admission errors are exact, an index is always found,
    stale media is refused.
  \<^item> \<open>Mesh\<close> (\<open>buzz-relay-mesh/src/\<close>): gossip, the phi-accrual failure detector, the membership table and
    the control-stream handler.  An exchange of digests converges, knowledge only grows.
  \<^item> \<open>Audit_Log\<close> (\<open>buzz-audit/src/\<close>): the hash chain of each community.  Whatever was appended verifies,
    and two verifying chains with the same last hash agree.
  \<^item> \<open>Auth\<close> (\<open>buzz-auth/src/\<close>, \<open>buzz-pubsub/src/\<close>, \<open>buzz-relay/src/admission.rs\<close>, \<open>api/bridge.rs\<close>,
    \<open>api/operator.rs\<close>): scopes, NIP-42, NIP-98 with its replay guard, the rate limiter, and the admission
    of requests built from them.
  \<^item> \<open>Workflow\<close> (\<open>buzz-workflow/src/schema.rs\<close>, \<open>executor.rs\<close>, \<open>error.rs\<close>): definitions, validation,
    templates, conditions, actions and the execution of steps.  Validation is exact, templates are
    substituted in one pass and the loop ends, effects stay in the workflow's channel and community, a
    resumed run has the data of the suspended one.
  \<^item> \<open>Workflow_Store\<close> (\<open>buzz-db/src/workflow.rs\<close>): the tables of workflows, runs, approvals and claims.
    The laws of a claim (locale \<open>claim_table\<close>) are proved for scheduled fires and for approvals.
  \<^item> \<open>Workflow_Engine\<close> (\<open>buzz-workflow/src/lib.rs\<close>): events, the scheduler and the settlement of runs.
    Each scheduled instant starts at most one run over all pods, every run task settles.
  \<^item> \<open>Workflow_Doors\<close> (\<open>buzz-relay/src/handlers/command_executor.rs\<close>, \<open>webhook_secret.rs\<close>,
    \<open>api/bridge.rs\<close>): the operations that reach workflows from outside.  Every run has an owner with
    authority, webhooks need the secret, a save touches only the caller's own row.

  \<^item> \<open>Event_Store\<close> (\<open>buzz-db/src/event.rs\<close>, \<open>replaceable.rs\<close>, \<open>reaction.rs\<close>, \<open>thread.rs\<close>, the event methods
    of \<open>lib.rs\<close>, the triggers of \<open>migrations/\<close> and the deletion side effects of the relay): events,
    mentions, watermarks, thread metadata and reactions.  Replaceable heads converge whatever the order of
    delivery, a read state never regresses.
  \<^item> \<open>Event_Threads\<close>: what the reads of these tables give.  The pages of a channel put together are the
    channel, thread counters are exact.
  \<^item> \<open>Channel_Store\<close> (\<open>buzz-db/src/channel.rs\<close>, \<open>dm.rs\<close>, \<open>user.rs\<close> and their constraints in
    \<open>migrations/\<close>): channels, members, users and direct messages, one definition per statement.
  \<^item> \<open>Channel_Governance\<close>: what these statements guarantee over any sequence of calls.  Roles change only
    by someone entitled to, a channel that has an owner keeps one, the tables keep their constraints, and
    a set of participants has one direct message.

  \<^bold>\<open>Parameters.\<close>  Code outside the repository is an argument: the \<open>nostr\<close> crate (\<open>nostr_lib\<close>), the
  URL parser and the primitives of pairing (\<open>pairing_lib\<close>: HKDF, ECDH, NIP-44, signatures, JSON, hex), the
  codecs and signatures of \<open>mesh_lib\<close>, \<open>audit_lib\<close> and \<open>auth_lib\<close>, Redis, and the expression evaluator,
  cron parser and printers of \<open>workflow_lib\<close>, and the guards of the database and the text functions of
  \<open>store_lib\<close> and \<open>channel_lib\<close>.  What a running step, an engine or a save meets in the
  outside world (leases, database failures, answers of webhooks, fresh identifiers) is a record of
  arguments (\<open>step_env\<close>, \<open>engine_env\<close>, \<open>save_env\<close>).
  A theorem that relies on them names what it relies on as a hypothesis, and its witness instantiates the
  parameter with a concrete function.  Clocks and random bytes are arguments.

  \<^bold>\<open>Bounds and loops.\<close>  Every model function is total: loops over collections are structural recursions
  and no fuel is used (the client that follows cursors in \<open>Event_Threads\<close> gives up after a number of pages,
  and the number that is enough is proved); the template loop has a measure, and the number of its rounds is bounded by the
  length of the template.  Machine integers that can overflow are words (kinds, addresses, identifiers);
  instants and lengths that cannot reach their bound are natural numbers, the scheduler's instants
  integers in nanoseconds.  The failure detector, floating point in the code, is over the reals.

  \<^bold>\<open>Sequential semantics.\<close>  Each operation is one step.  For the registry, whose maps are shared between
  tasks, the interleavings that matter are modelled separately: a fan-out over a stale candidate list, and
  an unsubscription split at its lock release.

  \<^bold>\<open>Not modelled.\<close>  Asynchronous network and process I/O (relay server, mesh transport, clients, agent
  runtime), the SQL of the database layer other than the workflow, event,
  channel, member and user tables, search, Redis beyond the commands
  of the replay guard and the limiter, codecs and speech models, the HTTP gateways, the direct-message
  commands of the command executor, and the text templates of the prompts.
\<close>

end
